(* ===== verification/Agent_Prelude.thy ===== *)
theory Agent_Prelude
  imports Main "HOL-Library.Word" "HOL-Library.List_Lexorder"
begin

text \<open>
  The shared vocabulary of the development.

  \<^item> The machine integers of the Rust sources (u8, u16, u32, u64) as words, with the checked and
    saturating additions and subtractions of the Rust standard library.
  \<^item> Rust strings as lists of Unicode scalar values, with the byte length that
    \<^verbatim>\<open>str::len\<close> reports and the character classes the sources test.
  \<^item> Two result shapes: \<open>left_behind\<close>, the outcome of a method that mutates its receiver in place
    and may fail half way (the error carries the state that is left), and \<open>sx\<close>, a computation
    over a state that returns \<^verbatim>\<open>Result\<close>, which is how the asynchronous methods of the harness
    are modelled; \<open>keeps\<close> is the invariant judgement for it, with one rule per combinator.
  \<^item> Generic lemmas on lists and options.
\<close>

named_theorems reducer_simps \<open>unfolding rules of the durable reducer\<close>
named_theorems keeps_rules \<open>compositional rules of the invariant judgement\<close>

section \<open>Machine integers\<close>

type_synonym byte = "8 word"
type_synonym u8 = "8 word"
type_synonym u16 = "16 word"
type_synonym u32 = "32 word"
type_synonym u64 = "64 word"

text \<open>Rust's \<^verbatim>\<open>checked_add(1)\<close>, \<^verbatim>\<open>saturating_add(1)\<close> and \<^verbatim>\<open>checked_sub\<close>.\<close>

definition checked_inc :: "'a::len word \<Rightarrow> 'a word option" where
  "checked_inc x = (if x = - 1 then None else Some (x + 1))"

definition saturating_inc :: "'a::len word \<Rightarrow> 'a word" where
  "saturating_inc x = (if x = - 1 then - 1 else x + 1)"

definition checked_sub :: "'a::len word \<Rightarrow> 'a word \<Rightarrow> 'a word option" where
  "checked_sub x y = (if y \<le> x then Some (x - y) else None)"

lemma checked_inc_Some_iff:
  "checked_inc x = Some y \<longleftrightarrow> x \<noteq> - 1 \<and> y = x + 1"
  by (auto simp: checked_inc_def)

lemma unat_inc: "(x::'a::len word) \<noteq> - 1 \<Longrightarrow> unat (x + 1) = Suc (unat x)"
  by (metis add.commute add_eq_0_iff2 unatSuc)

lemma checked_inc_unat: "checked_inc x = Some y \<Longrightarrow> unat y = Suc (unat x)"
  by (simp add: checked_inc_Some_iff unat_inc)

lemma saturating_inc_unat_le: "unat (saturating_inc x) \<le> Suc (unat x)"
  by (simp add: saturating_inc_def unat_inc)

lemma saturating_inc_mono: "x \<le> saturating_inc x"
  by (auto simp: saturating_inc_def word_le_nat_alt unat_inc)

lemma saturating_inc_below: "(x::'a::len word) < y \<Longrightarrow> saturating_inc x = x + 1"
proof -
  assume "x < y"
  then have "x \<noteq> - 1"
    by (metis word_order.extremum_strict)
  then show ?thesis by (simp add: saturating_inc_def)
qed

lemma inc_le_of_less: "(x::'a::len word) < y \<Longrightarrow> x + 1 \<le> y"
  by (rule inc_le)

lemma le_saturating_inc: "(x::'a::len word) \<le> y \<Longrightarrow> x \<le> saturating_inc y"
  using saturating_inc_mono order_trans by blast

lemma less_saturating_inc: "(x::'a::len word) \<le> y \<Longrightarrow> saturating_inc y \<noteq> - 1 \<Longrightarrow> x < saturating_inc y"
  by (auto simp: saturating_inc_def word_le_nat_alt word_less_nat_alt unat_inc split: if_splits)

lemma saturating_inc_le: "(x::'a::len word) < y \<or> y = - 1 \<Longrightarrow> saturating_inc x \<le> y"
  by (auto simp: saturating_inc_below inc_le)

lemma saturating_inc_eq_le: "saturating_inc (x::'a::len word) = saturating_inc y \<Longrightarrow> y \<le> saturating_inc x"
  by (simp add: saturating_inc_mono)

lemma checked_sub_Some_iff: "checked_sub x y = Some z \<longleftrightarrow> y \<le> x \<and> z = x - y"
  by (auto simp: checked_sub_def)

lemma unat_of_nat_u64: "n < 2 ^ 64 \<Longrightarrow> unat (of_nat n :: u64) = n"
  by (simp add: unat_of_nat take_bit_nat_eq_self)

lemma of_nat_u64_le: "m \<le> n \<Longrightarrow> n < 2 ^ 64 \<Longrightarrow> (of_nat m :: u64) \<le> of_nat n"
  by (simp add: word_le_nat_alt unat_of_nat_u64)

lemma of_nat_u64_neq_max: "Suc n < 2 ^ 64 \<Longrightarrow> (of_nat n :: u64) \<noteq> - 1"
proof
  assume n: "Suc n < 2 ^ 64" and m: "(of_nat n :: u64) = - 1"
  have "(of_nat (Suc n) :: u64) = 0" using m by simp
  then have "unat (of_nat (Suc n) :: u64) = 0" by simp
  with n unat_of_nat_u64 [of "Suc n"] show False by simp
qed

text \<open>Big-endian bytes of a u64 (\<^verbatim>\<open>u64::to_be_bytes\<close>).\<close>

definition to_be_bytes :: "u64 \<Rightarrow> byte list" where
  "to_be_bytes x = map (\<lambda>i. ucast (drop_bit (8 * i) x)) [7, 6, 5, 4, 3, 2, 1, 0]"

lemma length_to_be_bytes [simp]: "length (to_be_bytes x) = 8"
  by (simp add: to_be_bytes_def)

text \<open>\<^verbatim>\<open>u64::from_be_bytes\<close> on a slice that must have eight bytes.\<close>

fun be_value :: "byte list \<Rightarrow> nat" where
  "be_value [] = 0"
| "be_value (b # bs) = unat b * 256 ^ length bs + be_value bs"

definition from_be_bytes :: "byte list \<Rightarrow> u64 option" where
  "from_be_bytes bs = (if length bs = 8 then Some (of_nat (be_value bs)) else None)"

lemma be_value_bound: "be_value bs < 256 ^ length bs"
proof (induction bs)
  case Nil
  then show ?case by simp
next
  case (Cons b bs)
  have "unat b < 256" using unsigned_less [of b, where ?'a = nat] by simp
  have "be_value (b # bs) < Suc (unat b) * 256 ^ length bs" using Cons by simp
  also have "\<dots> \<le> 256 * 256 ^ length bs"
    using \<open>unat b < 256\<close> by (intro mult_right_mono) simp_all
  finally show ?case by simp
qed

lemma be_value_less:
  "length xs = length ys \<Longrightarrow> xs < ys \<longleftrightarrow> be_value xs < be_value ys"
proof (induction xs ys rule: list_induct2)
  case Nil
  then show ?case by simp
next
  case (Cons x xs y ys)
  let ?b = "256 ^ length ys :: nat"
  have strict: "unat a * ?b + u < unat c * ?b + v" if "a < c" "u < ?b" for a c :: byte and u v
  proof -
    have "Suc (unat a) * ?b \<le> unat c * ?b"
      using that(1) by (intro mult_right_mono) (simp_all add: word_less_nat_alt Suc_le_eq)
    then show ?thesis using that(2) by simp
  qed
  note bounds = be_value_bound [of xs] be_value_bound [of ys]
  consider "x < y" | "x = y" | "y < x" by (rule linorder_cases)
  then show ?case
  proof cases
    case 1
    with strict [OF 1, of "be_value xs" "be_value ys"] bounds Cons.hyps show ?thesis by simp
  next
    case 2
    with Cons show ?thesis by simp
  next
    case 3
    with strict [OF 3, of "be_value ys" "be_value xs"] bounds Cons.hyps show ?thesis by auto
  qed
qed

lemma unat_byte_of: "unat (ucast (drop_bit n (x::u64)) :: byte) = unat x div 2 ^ n mod 256"
  by (simp only: unsigned_ucast_eq unat_drop_bit_eq) (simp add: drop_bit_eq_div take_bit_eq_mod)

lemma base256_digits:
  "v = 256 * a1 + d0 \<Longrightarrow> a1 = 256 * a2 + d1 \<Longrightarrow> a2 = 256 * a3 + d2 \<Longrightarrow> a3 = 256 * a4 + d3 \<Longrightarrow>
   a4 = 256 * a5 + d4 \<Longrightarrow> a5 = 256 * a6 + d5 \<Longrightarrow> a6 = 256 * d7 + d6 \<Longrightarrow>
   v = d7 * 256 ^ 7 + (d6 * 256 ^ 6 + (d5 * 256 ^ 5 + (d4 * 256 ^ 4 + (d3 * 256 ^ 3
         + (d2 * 256 ^ 2 + (d1 * 256 + d0))))))" for v :: nat
  by simp

lemma be_value_to_be_bytes: "be_value (to_be_bytes x) = unat x"
proof -
  let ?v = "unat x"
  have step: "?v div 2 ^ k = 256 * (?v div 2 ^ (k + 8)) + ?v div 2 ^ k mod 256" for k
  proof -
    have "?v div 2 ^ (k + 8) = ?v div 2 ^ k div 256" by (simp add: power_add div_mult2_eq)
    then show ?thesis by simp
  qed
  have "?v div 2 ^ 64 = 0" using unsigned_less [of x, where ?'a = nat] by simp
  with step [of 56] have top: "?v div 2 ^ 56 mod 256 = ?v div 2 ^ 56" by simp
  have last: "?v = 256 * (?v div 2 ^ 8) + ?v mod 256" using step [of 0] by simp
  have digits: "?v div 2 ^ k = 256 * (?v div 2 ^ l) + unat (ucast (drop_bit k x) :: byte)" if "l = k + 8" for k l
    using step [of k] that by (simp add: unat_byte_of)
  show ?thesis
    unfolding to_be_bytes_def
    using base256_digits [OF last digits digits digits digits digits digits, of 16 24 32 40 48 56] top
      unat_byte_of [of 0 x]
    by (simp add: unat_byte_of)
qed

lemma from_to_be_bytes [simp]: "from_be_bytes (to_be_bytes x) = Some x"
  by (simp add: from_be_bytes_def be_value_to_be_bytes)

lemma to_be_bytes_less [simp]: "to_be_bytes x < to_be_bytes y \<longleftrightarrow> x < y"
  by (simp add: be_value_less be_value_to_be_bytes word_less_nat_alt)

lemma to_be_bytes_inject [simp]: "to_be_bytes x = to_be_bytes y \<longleftrightarrow> x = y"
  by (metis from_to_be_bytes option.inject)

section \<open>Clocks\<close>

text \<open>
  A \<^verbatim>\<open>Duration\<close> is a number of nanoseconds. An \<^verbatim>\<open>Instant\<close> counts nanoseconds of the monotonic
  clock in a signed 64-bit number of seconds and the remaining nanoseconds, so \<^verbatim>\<open>checked_add\<close> fails
  beyond that range. A \<^verbatim>\<open>SystemTime\<close> is a number of nanoseconds relative to the Unix epoch.
\<close>

type_synonym duration = nat
type_synonym instant = nat
type_synonym system_time = int

definition INSTANT_MAX :: instant where
  "INSTANT_MAX = (2 ^ 63 - 1) * 1000000000 + 999999999"

definition instant_checked_add :: "instant \<Rightarrow> duration \<Rightarrow> instant option" where
  "instant_checked_add i d = (if i + d \<le> INSTANT_MAX then Some (i + d) else None)"

definition duration_checked_sub :: "duration \<Rightarrow> duration \<Rightarrow> duration option" where
  "duration_checked_sub a b = (if b \<le> a then Some (a - b) else None)"

text \<open>\<^verbatim>\<open>duration_since(UNIX_EPOCH)\<close>, \<^verbatim>\<open>as_millis\<close> and \<^verbatim>\<open>try_into\<close> a u64.\<close>

definition unix_millis :: "system_time \<Rightarrow> u64 option" where
  "unix_millis t =
     (if t < 0 then None
      else let ms = nat t div 1000000 in if ms < 2 ^ 64 then Some (of_nat ms) else None)"

definition duration_from_millis :: "u64 \<Rightarrow> duration" where
  "duration_from_millis ms = unat ms * 1000000"

section \<open>Rust strings\<close>

text \<open>
  A Rust \<^verbatim>\<open>String\<close> is a sequence of Unicode scalar values; \<^verbatim>\<open>len\<close> is the number of bytes of its
  UTF-8 encoding, \<^verbatim>\<open>chars\<close> iterates over the scalar values. String order is the order of the
  UTF-8 bytes, which is the order of the scalar values.
\<close>

type_synonym rust_string = "nat list"

definition len_utf8 :: "nat \<Rightarrow> nat" where
  "len_utf8 c = (if c < 128 then 1 else if c < 2048 then 2 else if c < 65536 then 3 else 4)"

definition str_len :: "rust_string \<Rightarrow> nat" where
  "str_len s = sum_list (map len_utf8 s)"

definition is_control :: "nat \<Rightarrow> bool" where
  "is_control c \<longleftrightarrow> c < 32 \<or> (127 \<le> c \<and> c \<le> 159)"

definition is_ascii_alphanumeric :: "nat \<Rightarrow> bool" where
  "is_ascii_alphanumeric c \<longleftrightarrow>
     (48 \<le> c \<and> c \<le> 57) \<or> (65 \<le> c \<and> c \<le> 90) \<or> (97 \<le> c \<and> c \<le> 122)"

definition lit :: "string \<Rightarrow> rust_string" where
  "lit s = map of_char s"

section \<open>Methods that mutate in place\<close>

text \<open>
  A method \<^verbatim>\<open>fn m(&mut self, \<dots>) -> Result<(), E>\<close> leaves its receiver in some state in both
  cases: \<open>Inr s\<close> is success with the new state, \<open>Inl (e, s)\<close> failure with the state left behind.
\<close>

type_synonym ('e, 's) left_behind = "('e \<times> 's) + 's"

definition lb_then :: "('e, 's) left_behind \<Rightarrow> ('s \<Rightarrow> ('e, 's) left_behind) \<Rightarrow> ('e, 's) left_behind" where
  "lb_then r k = (case r of Inl f \<Rightarrow> Inl f | Inr s \<Rightarrow> k s)"

lemma lb_then_simps [simp]:
  "lb_then (Inl f) k = Inl f"
  "lb_then (Inr s) k = k s"
  by (simp_all add: lb_then_def)

lemma lb_then_eq_Inr_iff:
  "lb_then r k = Inr t \<longleftrightarrow> (\<exists>s. r = Inr s \<and> k s = Inr t)"
  by (cases r) simp_all

fun lb_state :: "('e, 's) left_behind \<Rightarrow> 's" where
  "lb_state (Inl (e, s)) = s"
| "lb_state (Inr s) = s"

text \<open>Applying a list of events with such a method, stopping at the first failure.\<close>

fun run_log :: "('e \<Rightarrow> 's \<Rightarrow> ('r, 's) left_behind) \<Rightarrow> 'e list \<Rightarrow> 's \<Rightarrow> ('r, 's) left_behind" where
  "run_log f [] s = Inr s"
| "run_log f (e # es) s = lb_then (f e s) (run_log f es)"

lemma run_log_append: "run_log f (es @ fs) s = lb_then (run_log f es s) (run_log f fs)"
proof (induction es arbitrary: s)
  case Nil
  show ?case by simp
next
  case (Cons e es)
  show ?case by (cases "f e s") (simp_all add: Cons.IH)
qed

text \<open>
  The interface of an event-sourced state machine: every accepted event keeps the invariant, and
  an accepted event carries the position its predecessor state expects. Recovery and the live
  context are clients of it.
\<close>

locale journal =
  fixes step :: "'e \<Rightarrow> 's \<Rightarrow> ('r, 's) left_behind"
    and invar :: "'s \<Rightarrow> bool"
    and expects :: "'s \<Rightarrow> 'q"
    and position :: "'e \<Rightarrow> 'q"
    and frame :: "'s \<Rightarrow> 'f"
  assumes invar_step: "invar s \<Longrightarrow> step e s = Inr t \<Longrightarrow> invar t"
    and in_order: "step e s = Inr t \<Longrightarrow> position e = expects s"
    and frame_step: "step e s = Inr t \<Longrightarrow> frame t = frame s"
begin

lemma invar_run: "run_log step es s = Inr t \<Longrightarrow> invar s \<Longrightarrow> invar t"
proof (induction es arbitrary: s)
  case Nil
  then show ?case by simp
next
  case (Cons e es)
  then obtain m where "step e s = Inr m" "run_log step es m = Inr t"
    by (auto simp: lb_then_eq_Inr_iff)
  with Cons show ?case by (blast intro: invar_step)
qed

lemma frame_run: "run_log step es s = Inr t \<Longrightarrow> frame t = frame s"
proof (induction es arbitrary: s)
  case Nil
  then show ?case by simp
next
  case (Cons e es)
  then obtain m where "step e s = Inr m" "run_log step es m = Inr t"
    by (auto simp: lb_then_eq_Inr_iff)
  with Cons show ?case by (metis frame_step)
qed

lemma prefix_runs:
  assumes "run_log step es s = Inr t"
  shows "\<exists>m. run_log step (take n es) s = Inr m \<and> run_log step (drop n es) m = Inr t"
proof -
  from assms have "lb_then (run_log step (take n es) s) (run_log step (drop n es)) = Inr t"
    using run_log_append [of step "take n es" "drop n es" s] by simp
  then show ?thesis by (simp only: lb_then_eq_Inr_iff)
qed

lemma resume_from_prefix:
  assumes "run_log step (take n es) s = Inr m"
  shows "run_log step (drop n es) m = run_log step es s"
  using assms run_log_append [of step "take n es" "drop n es" s] by simp

lemma misplaced_event_stops: "position e \<noteq> expects s \<Longrightarrow> \<exists>f. run_log step (e # es) s = Inl f"
  using in_order by (cases "step e s") auto

end

section \<open>Sums as results\<close>

definition res_then :: "'e + 'a \<Rightarrow> ('a \<Rightarrow> 'e + 'b) \<Rightarrow> 'e + 'b" where
  "res_then r k = (case r of Inl e \<Rightarrow> Inl e | Inr x \<Rightarrow> k x)"

definition check :: "bool \<Rightarrow> 'e \<Rightarrow> 'e + unit" where
  "check b e = (if b then Inr () else Inl e)"

definition ok_or :: "'e \<Rightarrow> 'a option \<Rightarrow> 'e + 'a" where
  "ok_or e v = (case v of None \<Rightarrow> Inl e | Some x \<Rightarrow> Inr x)"

lemma res_then_simps [simp]: "res_then (Inl e) k = Inl e" "res_then (Inr x) k = k x"
  by (simp_all add: res_then_def)

lemma res_then_Inr_iff: "res_then r k = Inr y \<longleftrightarrow> (\<exists>x. r = Inr x \<and> k x = Inr y)"
  by (cases r) simp_all

lemma check_simps [simp]: "check True e = Inr ()" "check False e = Inl e"
  by (simp_all add: check_def)

lemma check_Inr_iff [simp]: "check b e = Inr u \<longleftrightarrow> b"
  by (simp add: check_def)

lemma ok_or_simps [simp]: "ok_or e None = Inl e" "ok_or e (Some x) = Inr x"
  by (simp_all add: ok_or_def)

lemma ok_or_Inr_iff [simp]: "ok_or e v = Inr x \<longleftrightarrow> v = Some x"
  by (cases v) simp_all

section \<open>Computations over a state that return Result\<close>

type_synonym ('s, 'e, 'a) sx = "'s \<Rightarrow> ('e + 'a) \<times> 's"

definition ok :: "'a \<Rightarrow> ('s, 'e, 'a) sx" where
  "ok x = (\<lambda>s. (Inr x, s))"

definition err :: "'e \<Rightarrow> ('s, 'e, 'a) sx" where
  "err e = (\<lambda>s. (Inl e, s))"

text \<open>\<open>and_then m k\<close> is \<^verbatim>\<open>let x = m?; k(x)\<close>: it returns at once when \<open>m\<close> fails.\<close>

definition and_then :: "('s, 'e, 'a) sx \<Rightarrow> ('a \<Rightarrow> ('s, 'e, 'b) sx) \<Rightarrow> ('s, 'e, 'b) sx" where
  "and_then m k = (\<lambda>s. case m s of (Inl e, t) \<Rightarrow> (Inl e, t) | (Inr x, t) \<Rightarrow> k x t)"

text \<open>\<open>on_result m h\<close> is a \<^verbatim>\<open>match\<close> on the result of \<open>m\<close>, with \<open>h\<close> its arms.\<close>

definition on_result :: "('s, 'e, 'a) sx \<Rightarrow> ('e + 'a \<Rightarrow> ('s, 'f, 'b) sx) \<Rightarrow> ('s, 'f, 'b) sx" where
  "on_result m h = (\<lambda>s. case m s of (r, t) \<Rightarrow> h r t)"

definition require :: "bool \<Rightarrow> 'e \<Rightarrow> ('s, 'e, unit) sx" where
  "require b e = (if b then ok () else err e)"

definition gets :: "('s \<Rightarrow> 'a) \<Rightarrow> ('s, 'e, 'a) sx" where
  "gets f = (\<lambda>s. (Inr (f s), s))"

definition modify :: "('s \<Rightarrow> 's) \<Rightarrow> ('s, 'e, unit) sx" where
  "modify f = (\<lambda>s. (Inr (), f s))"

lemma sx_simps [simp]:
  "ok x s = (Inr x, s)"
  "err e s = (Inl e, s)"
  "gets f s = (Inr (f s), s)"
  "modify g s = (Inr (), g s)"
  by (simp_all add: ok_def err_def gets_def modify_def)

lemma require_apply: "require b e s = (if b then (Inr (), s) else (Inl e, s))"
  by (simp add: require_def)

lemma and_then_apply:
  "and_then m k s = (case m s of (Inl e, t) \<Rightarrow> (Inl e, t) | (Inr x, t) \<Rightarrow> k x t)"
  by (simp add: and_then_def)

lemma on_result_apply: "on_result m h s = (case m s of (r, t) \<Rightarrow> h r t)"
  by (simp add: on_result_def)

text \<open>
  \<open>keeps P m\<close>: from a state satisfying \<open>P\<close>, every outcome of \<open>m\<close>, success or error, leaves a
  state satisfying \<open>P\<close>.
\<close>

definition keeps :: "('s \<Rightarrow> bool) \<Rightarrow> ('s, 'e, 'a) sx \<Rightarrow> bool" where
  "keeps P m \<longleftrightarrow> (\<forall>s. P s \<longrightarrow> P (snd (m s)))"

lemma keepsI: "(\<And>s. P s \<Longrightarrow> P (snd (m s))) \<Longrightarrow> keeps P m"
  by (simp add: keeps_def)

lemma keepsD: "keeps P m \<Longrightarrow> P s \<Longrightarrow> P (snd (m s))"
  by (simp add: keeps_def)

lemma keeps_ok [keeps_rules]: "keeps P (ok x)"
  by (simp add: keeps_def)

lemma keeps_err [keeps_rules]: "keeps P (err e)"
  by (simp add: keeps_def)

lemma keeps_require [keeps_rules]: "keeps P (require b e)"
  by (simp add: keeps_def require_apply)

lemma keeps_gets [keeps_rules]: "keeps P (gets f)"
  by (simp add: keeps_def)

lemma keeps_and_then [keeps_rules]:
  "keeps P m \<Longrightarrow> (\<And>x. keeps P (k x)) \<Longrightarrow> keeps P (and_then m k)"
  by (auto simp: keeps_def and_then_apply split: prod.splits sum.splits)

lemma keeps_on_result [keeps_rules]:
  "keeps P m \<Longrightarrow> (\<And>r. keeps P (h r)) \<Longrightarrow> keeps P (on_result m h)"
  by (auto simp: keeps_def on_result_apply split: prod.splits)

lemma keeps_if [keeps_rules]:
  "(b \<Longrightarrow> keeps P m) \<Longrightarrow> (\<not> b \<Longrightarrow> keeps P n) \<Longrightarrow> keeps P (if b then m else n)"
  by simp

lemma keeps_option [keeps_rules]:
  "(v = None \<Longrightarrow> keeps P m) \<Longrightarrow> (\<And>x. v = Some x \<Longrightarrow> keeps P (n x)) \<Longrightarrow>
   keeps P (case v of None \<Rightarrow> m | Some x \<Rightarrow> n x)"
  by (cases v) simp_all

lemma keeps_sum [keeps_rules]:
  "(\<And>x. v = Inl x \<Longrightarrow> keeps P (m x)) \<Longrightarrow> (\<And>x. v = Inr x \<Longrightarrow> keeps P (n x)) \<Longrightarrow>
   keeps P (case v of Inl x \<Rightarrow> m x | Inr x \<Rightarrow> n x)"
  by (cases v) simp_all

section \<open>Lists\<close>

text \<open>\<^verbatim>\<open>Vec::remove(iter().position(p))\<close>: drop the first element that satisfies \<open>p\<close>.\<close>

fun remove_first :: "('a \<Rightarrow> bool) \<Rightarrow> 'a list \<Rightarrow> 'a list option" where
  "remove_first p [] = None"
| "remove_first p (x # xs) = (if p x then Some xs else map_option ((#) x) (remove_first p xs))"

lemma remove_first_None_iff: "remove_first p xs = None \<longleftrightarrow> (\<forall>x\<in>set xs. \<not> p x)"
  by (induction xs) auto

lemma remove_first_Some:
  "remove_first p xs = Some ys \<Longrightarrow>
   \<exists>us x vs. xs = us @ x # vs \<and> p x \<and> (\<forall>u\<in>set us. \<not> p u) \<and> ys = us @ vs"
proof (induction xs arbitrary: ys)
  case Nil
  then show ?case by simp
next
  case (Cons a xs)
  show ?case
  proof (cases "p a")
    case True
    with Cons.prems have "a # xs = [] @ a # xs \<and> p a \<and> (\<forall>u\<in>set []. \<not> p u) \<and> ys = [] @ xs"
      by simp
    then show ?thesis by blast
  next
    case False
    with Cons.prems obtain zs where zs: "remove_first p xs = Some zs" "ys = a # zs"
      by auto
    from Cons.IH [OF zs(1)] obtain us x vs where
      "xs = us @ x # vs" "p x" "\<forall>u\<in>set us. \<not> p u" "zs = us @ vs" by blast
    with False zs(2) have
      "a # xs = (a # us) @ x # vs \<and> p x \<and> (\<forall>u\<in>set (a # us). \<not> p u) \<and> ys = (a # us) @ vs"
      by simp
    then show ?thesis by blast
  qed
qed

lemma remove_first_subset: "remove_first p xs = Some ys \<Longrightarrow> set ys \<subseteq> set xs"
  by (drule remove_first_Some) auto

lemma remove_first_length: "remove_first p xs = Some ys \<Longrightarrow> length xs = Suc (length ys)"
  by (drule remove_first_Some) auto

end
