(* ===== verification/Agent_Core.thy ===== *)
theory Agent_Core
  imports Agent_Prelude
begin

text \<open>
  The provider-independent domain values of \<^verbatim>\<open>crates/agent-core\<close>: identifiers, the run budget and
  its usage counters, the run lifecycle, the vocabulary of the loop and of the graph engine, JSON
  values and tool and model messages, and the events of the durable journal. Validating constructors
  are modelled with their checks; enums keep the source's variants, prefixed because constructor
  names are global in a theory.
\<close>

section \<open>Identifiers\<close>

text \<open>Every identifier of the macro \<^verbatim>\<open>define_id!\<close> wraps a UUID, a 128-bit value.\<close>

type_synonym uuid = "128 word"
type_synonym run_id = uuid
type_synonym session_id = uuid
type_synonym model_call_id = uuid
type_synonym action_proposal_id = uuid
type_synonym tool_call_id = uuid
type_synonym approval_request_id = uuid
type_synonym knowledge_retrieval_id = uuid
type_synonym graph_node_attempt_id = uuid
type_synonym durable_approval_wait_id = uuid
type_synonym workspace_binding_id = uuid

text \<open>Digests are arrays of 32 bytes in the source.\<close>

type_synonym digest = "byte list"
type_synonym principal_id = rust_string
type_synonym graph_node_id = rust_string
type_synonym graph_branch_id = rust_string
type_synonym tool_name = rust_string

definition MAX_PRINCIPAL_ID_BYTES :: nat where "MAX_PRINCIPAL_ID_BYTES = 128"
definition MAX_GRAPH_NODE_ID_BYTES :: nat where "MAX_GRAPH_NODE_ID_BYTES = 64"
definition MAX_GRAPH_BRANCH_ID_BYTES :: nat where "MAX_GRAPH_BRANCH_ID_BYTES = 32"
definition MAX_GRAPH_STEPS :: u32 where "MAX_GRAPH_STEPS = 64"

text \<open>\<^verbatim>\<open>PrincipalId::new\<close>; the bytes of a multi-byte scalar are never ASCII.\<close>

definition PrincipalId_new :: "rust_string \<Rightarrow> unit + principal_id" where
  "PrincipalId_new value =
     (if value = [] \<or> str_len value > MAX_PRINCIPAL_ID_BYTES
         \<or> \<not> list_all (\<lambda>c. is_ascii_alphanumeric c \<or> c \<in> set (lit ''-_.:@'')) value
      then Inl () else Inr value)"

text \<open>The macro \<^verbatim>\<open>bounded_id!\<close> and its two instances.\<close>

definition bounded_id_new :: "nat \<Rightarrow> rust_string \<Rightarrow> unit + rust_string" where
  "bounded_id_new max_bytes value =
     (if value = [] \<or> str_len value > max_bytes
         \<or> list_ex (\<lambda>c. \<not> is_ascii_alphanumeric c \<and> c \<notin> set (lit ''_-.:'')) value
      then Inl () else Inr value)"

definition GraphNodeId_new :: "rust_string \<Rightarrow> unit + graph_node_id" where
  "GraphNodeId_new = bounded_id_new MAX_GRAPH_NODE_ID_BYTES"

definition GraphBranchId_new :: "rust_string \<Rightarrow> unit + graph_branch_id" where
  "GraphBranchId_new = bounded_id_new MAX_GRAPH_BRANCH_ID_BYTES"

section \<open>Capabilities and budgets\<close>

datatype (plugins only: code size) capability_kind = ReadOnly | LocalWrite | ExternalWrite | Privileged

record run_budget =
  max_model_calls :: u32
  max_tool_calls :: u32
  max_iterations :: u32
  max_approval_requests :: u32
  max_graph_steps :: u32
  max_elapsed :: duration

datatype (plugins only: code size) budget_error = ZeroMaxElapsed | GraphStepLimitTooHigh

definition RunBudget_new :: "u32 \<Rightarrow> u32 \<Rightarrow> u32 \<Rightarrow> duration \<Rightarrow> budget_error + run_budget" where
  "RunBudget_new mc tc it el =
     (if el = 0 then Inl ZeroMaxElapsed
      else Inr \<lparr>max_model_calls = mc, max_tool_calls = tc, max_iterations = it,
                max_approval_requests = 0, max_graph_steps = 0, max_elapsed = el\<rparr>)"

definition with_max_approval_requests :: "u32 \<Rightarrow> run_budget \<Rightarrow> run_budget" where
  "with_max_approval_requests n b = b\<lparr>max_approval_requests := n\<rparr>"

definition with_max_graph_steps :: "u32 \<Rightarrow> run_budget \<Rightarrow> budget_error + run_budget" where
  "with_max_graph_steps n b =
     (if n > MAX_GRAPH_STEPS then Inl GraphStepLimitTooHigh else Inr (b\<lparr>max_graph_steps := n\<rparr>))"

text \<open>The validated deserialization: the representation's fields go through the constructors.\<close>

definition RunBudget_deserialize :: "run_budget \<Rightarrow> budget_error + run_budget" where
  "RunBudget_deserialize r =
     (case RunBudget_new (max_model_calls r) (max_tool_calls r) (max_iterations r) (max_elapsed r) of
        Inl e \<Rightarrow> Inl e
      | Inr b \<Rightarrow> with_max_graph_steps (max_graph_steps r)
                  (with_max_approval_requests (max_approval_requests r) b))"

record budget_usage =
  model_calls :: u32
  tool_calls :: u32
  iterations :: u32
  approval_requests :: u32
  graph_steps :: u32

definition BudgetUsage_with_approval_requests :: "u32 \<Rightarrow> u32 \<Rightarrow> u32 \<Rightarrow> u32 \<Rightarrow> budget_usage" where
  "BudgetUsage_with_approval_requests mc tc it ar =
     \<lparr>model_calls = mc, tool_calls = tc, iterations = it, approval_requests = ar, graph_steps = 0\<rparr>"

definition with_graph_steps :: "u32 \<Rightarrow> budget_usage \<Rightarrow> budget_usage" where
  "with_graph_steps n u = u\<lparr>graph_steps := n\<rparr>"

definition BudgetUsage_default :: budget_usage where
  "BudgetUsage_default = BudgetUsage_with_approval_requests 0 0 0 0"

datatype (plugins only: code size) budget_dimension =
  Dim_ModelCalls | Dim_ToolCalls | Dim_Iterations | Dim_ApprovalRequests | Dim_GraphSteps | Dim_Elapsed

section \<open>Loop and graph vocabulary\<close>

datatype (plugins only: code size) loop_phase =
  Phase_Observe | Phase_Retrieve | Phase_Plan | Phase_Act | Phase_Verify | Phase_Reflect

datatype (plugins only: code size) loop_failure_kind =
  LoopFail_Program loop_phase | LoopFail_VerificationFailed | LoopFail_InvariantViolation

datatype (plugins only: code size) loop_decision_kind = Decide_Complete | Decide_Continue | Decide_Fail

datatype (plugins only: code size) graph_node_kind =
  Node_Retrieve | Node_Model | Node_Action | Node_Verify | Node_Decision | Node_Complete | Node_Fail

datatype (plugins only: code size) graph_recovery_mode =
  Recover_Never | Recover_FreshRetrieval | Recover_DeterministicBoundary

datatype (plugins only: code size) graph_transition_key =
  Key_Succeeded | Key_ApprovalDenied | Key_VerificationPassed | Key_VerificationFailed
| Key_Branch graph_branch_id

datatype (plugins only: code size) graph_failure_kind =
  GraphFail_Callback | GraphFail_InvalidTransition | GraphFail_InvariantViolation
| GraphFail_ExplicitTerminal

section \<open>The run lifecycle\<close>

datatype (plugins only: code size) run_failure_kind =
  Fail_Model | Fail_Tool | Fail_Approval | Fail_Containment | Fail_AuditUnavailable
| Fail_Loop loop_failure_kind | Fail_Graph graph_failure_kind | Fail_Internal

datatype (plugins only: code size) run_outcome =
  Outcome_Completed | Outcome_Cancelled | Outcome_BudgetExceeded budget_dimension
| Outcome_Failed run_failure_kind

datatype (plugins only: code size) run_status = Status_Pending | Status_Running | Status_Finished run_outcome

datatype (plugins only: code size) run_state_error = StartRequiresPending | FinishRequiresRunning

fun RunStatus_start :: "run_status \<Rightarrow> run_state_error + run_status" where
  "RunStatus_start Status_Pending = Inr Status_Running"
| "RunStatus_start _ = Inl StartRequiresPending"

fun RunStatus_finish :: "run_status \<Rightarrow> run_outcome \<Rightarrow> run_state_error + run_status" where
  "RunStatus_finish Status_Running outcome = Inr (Status_Finished outcome)"
| "RunStatus_finish _ outcome = Inl FinishRequiresRunning"

section \<open>Loop and graph events\<close>

datatype (plugins only: code size) loop_event_kind =
  LE_IterationStarted u32 u32 u32         \<comment> \<open>iteration, usage, limit\<close>
| LE_PhaseEntered u32 loop_phase
| LE_PhaseCompleted u32 loop_phase
| LE_ReflectDecision u32 loop_decision_kind
| LE_IterationCompleted u32
| LE_LoopCompleted u32
| LE_LoopFailed u32 run_failure_kind

datatype (plugins only: code size) loop_progress_event =
  LP_PhaseEntered u32 loop_phase
| LP_PhaseCompleted u32 loop_phase
| LP_ReflectDecision u32 loop_decision_kind
| LP_IterationCompleted u32
| LP_LoopCompleted u32
| LP_LoopFailed u32 run_failure_kind

fun LoopEventKind_from :: "loop_progress_event \<Rightarrow> loop_event_kind" where
  "LoopEventKind_from (LP_PhaseEntered i p) = LE_PhaseEntered i p"
| "LoopEventKind_from (LP_PhaseCompleted i p) = LE_PhaseCompleted i p"
| "LoopEventKind_from (LP_ReflectDecision i d) = LE_ReflectDecision i d"
| "LoopEventKind_from (LP_IterationCompleted i) = LE_IterationCompleted i"
| "LoopEventKind_from (LP_LoopCompleted n) = LE_LoopCompleted n"
| "LoopEventKind_from (LP_LoopFailed i k) = LE_LoopFailed i k"

datatype (plugins only: code size) graph_progress_event =
  GE_GraphStarted digest graph_node_id graph_node_kind graph_recovery_mode
| GE_GraphNodeEntered graph_node_attempt_id graph_node_id graph_node_kind graph_recovery_mode
    u32 u32                                \<comment> \<open>step, limit\<close>
| GE_GraphNodeRestarted "graph_node_attempt_id option" graph_node_attempt_id graph_node_id
    graph_node_kind graph_recovery_mode u32 u32
| GE_GraphNodeCompleted graph_node_attempt_id graph_node_id graph_transition_key
    graph_node_id graph_node_kind graph_recovery_mode
| GE_GraphSuspended graph_node_attempt_id graph_node_id durable_approval_wait_id
    approval_request_id action_proposal_id tool_call_id digest u64
| GE_GraphResumed graph_node_attempt_id graph_node_id durable_approval_wait_id u64
| GE_GraphCompleted graph_node_attempt_id graph_node_id u32
| GE_GraphFailed graph_node_attempt_id graph_node_id u32 graph_failure_kind run_failure_kind

section \<open>Knowledge metadata\<close>

definition MAX_DURABLE_KNOWLEDGE_BACKENDS :: nat where "MAX_DURABLE_KNOWLEDGE_BACKENDS = 2"
definition MAX_DURABLE_EVIDENCE_REFERENCES :: nat where "MAX_DURABLE_EVIDENCE_REFERENCES = 8"
definition MAX_DURABLE_KNOWLEDGE_ID_BYTES :: nat where "MAX_DURABLE_KNOWLEDGE_ID_BYTES = 256"

datatype (plugins only: code size) knowledge_backend_id = OcppRagKag | StandardsMcp

datatype (plugins only: code size) knowledge_route_metadata =
  Route_Single knowledge_backend_id
| Route_Federated "knowledge_backend_id list" bool   \<comment> \<open>backends, allow_partial\<close>

fun route_backends :: "knowledge_route_metadata \<Rightarrow> knowledge_backend_id list" where
  "route_backends (Route_Single b) = [b]"
| "route_backends (Route_Federated bs _) = bs"

fun route_allow_partial :: "knowledge_route_metadata \<Rightarrow> bool" where
  "route_allow_partial (Route_Federated _ True) = True"
| "route_allow_partial _ = False"

text \<open>No element of the list occurs among the elements before it.\<close>

definition no_repeats :: "'a list \<Rightarrow> bool" where
  "no_repeats xs = list_all (\<lambda>i. xs ! i \<notin> set (take i xs)) [0..<length xs]"

definition route_is_valid :: "knowledge_route_metadata \<Rightarrow> bool" where
  "route_is_valid r \<longleftrightarrow>
     route_backends r \<noteq> []
     \<and> length (route_backends r) \<le> MAX_DURABLE_KNOWLEDGE_BACKENDS
     \<and> no_repeats (route_backends r)"

text \<open>The check that \<^verbatim>\<open>KnowledgeEvidenceReference::new\<close> and \<^verbatim>\<open>KnowledgeSnapshotMetadata::new\<close> share.\<close>

definition durable_text_ok :: "rust_string \<Rightarrow> bool" where
  "durable_text_ok s \<longleftrightarrow>
     s \<noteq> [] \<and> str_len s \<le> MAX_DURABLE_KNOWLEDGE_ID_BYTES \<and> \<not> list_ex is_control s"

record knowledge_evidence_reference =
  er_backend :: knowledge_backend_id
  er_reference_id :: rust_string

definition evidence_reference_new ::
  "knowledge_backend_id \<Rightarrow> rust_string \<Rightarrow> knowledge_evidence_reference option" where
  "evidence_reference_new b s =
     (if durable_text_ok s then Some \<lparr>er_backend = b, er_reference_id = s\<rparr> else None)"

definition evidence_reference_is_valid :: "knowledge_evidence_reference \<Rightarrow> bool" where
  "evidence_reference_is_valid r \<longleftrightarrow> evidence_reference_new (er_backend r) (er_reference_id r) \<noteq> None"

record knowledge_snapshot_metadata =
  sm_backend :: knowledge_backend_id
  sm_version :: rust_string

definition snapshot_metadata_new ::
  "knowledge_backend_id \<Rightarrow> rust_string \<Rightarrow> knowledge_snapshot_metadata option" where
  "snapshot_metadata_new b s =
     (if durable_text_ok s then Some \<lparr>sm_backend = b, sm_version = s\<rparr> else None)"

definition snapshot_metadata_is_valid :: "knowledge_snapshot_metadata \<Rightarrow> bool" where
  "snapshot_metadata_is_valid r \<longleftrightarrow> snapshot_metadata_new (sm_backend r) (sm_version r) \<noteq> None"

datatype (plugins only: code size) knowledge_failure_kind =
  KF_Unavailable | KF_Rejected | KF_MalformedResponse | KF_SnapshotMismatch | KF_Failed
| KF_Cancelled | KF_DeadlineExceeded

section \<open>JSON values, tools and model messages\<close>

text \<open>
  \<^verbatim>\<open>serde_json::Value\<close>: an object keeps its keys in order, without repetition; a number is an
  integer or the bits of a double.
\<close>

datatype (plugins only: code size) json_number = JInt int | JFloat u64

datatype (plugins only: code size) json =
  JNull | JBool bool | JNumber json_number | JString rust_string | JArray "json list"
| JObject "(rust_string \<times> json) list"

record tool_definition =
  td_name :: tool_name
  td_description :: rust_string
  td_capability :: capability_kind
  td_input_schema :: json

record tool_call =
  tc_id :: tool_call_id
  tc_name :: tool_name
  tc_input :: json

datatype (plugins only: code size) tool_domain_failure_kind =
  TDF_InvalidInput | TDF_Rejected | TDF_NotFound | TDF_Conflict

datatype (plugins only: code size) tool_result =
  Tool_Succeeded tool_call_id json
| Tool_DomainFailure tool_call_id tool_domain_failure_kind

fun tool_result_call_id :: "tool_result \<Rightarrow> tool_call_id" where
  "tool_result_call_id (Tool_Succeeded i _) = i"
| "tool_result_call_id (Tool_DomainFailure i _) = i"

datatype (plugins only: code size) model_role = Role_System | Role_User | Role_Assistant

record model_message =
  mm_role :: model_role
  mm_content :: rust_string

type_synonym model_request = "model_message list"

datatype (plugins only: code size) model_output_part = Part_Text rust_string | Part_ToolCall tool_call

record token_usage =
  input_tokens :: "u64 option"
  output_tokens :: "u64 option"

record model_response =
  mr_output :: "model_output_part list"
  mr_token_usage :: "token_usage option"

datatype (plugins only: code size) action_rejection_reason =
  Reject_EmptyOutput | Reject_UnsupportedOutputShape | Reject_ResponseTooLarge
| Reject_MalformedEnvelope | Reject_InvalidToolName | Reject_SecurityLimitExceeded
| Reject_UnknownTool | Reject_ArgumentsSchemaMismatch

section \<open>Events of the durable journal\<close>

type_synonym event_schema_version = u16
type_synonym event_sequence = u64

definition CURRENT_EVENT_SCHEMA_VERSION :: event_schema_version where
  "CURRENT_EVENT_SCHEMA_VERSION = 10"

text \<open>\<^verbatim>\<open>EventSequence::checked_next\<close>.\<close>

definition checked_next :: "event_sequence \<Rightarrow> event_sequence option" where
  "checked_next s = checked_inc s"

datatype (plugins only: code size) durable_approval_outcome = Approve | Deny

datatype (plugins only: code size) approval_failure_kind = AF_PortUnavailable | AF_PortFailed | AF_DecisionMismatch

datatype (plugins only: code size) containment_failure_kind = CF_Unavailable | CF_PreviewRejected | CF_Infrastructure

datatype (plugins only: code size) agent_event_kind =
  Ev_RunStarted u64
| Ev_RunFinished run_outcome
| Ev_AuditDegraded
| Ev_ModelInvocationStarted model_call_id u32 u32                   \<comment> \<open>usage, limit\<close>
| Ev_ModelInvocationCompleted model_call_id "token_usage option"
| Ev_ModelInvocationFailed model_call_id
| Ev_ActionProposed model_call_id action_proposal_id tool_name
| Ev_ActionValidated action_proposal_id
| Ev_ActionRejected model_call_id action_proposal_id action_rejection_reason
| Ev_ActionExecutionBound action_proposal_id tool_call_id
| Ev_ToolInvocationStarted tool_call_id tool_name capability_kind u32 u32
| Ev_ToolInvocationCompleted tool_call_id
| Ev_ToolInvocationDomainFailed tool_call_id tool_domain_failure_kind
| Ev_ToolInvocationAdapterFailed tool_call_id
| Ev_ToolPolicyDenied tool_call_id tool_name capability_kind
| Ev_ApprovalRequested approval_request_id action_proposal_id tool_call_id tool_name
    capability_kind u32 u32
| Ev_ApprovalGranted approval_request_id
| Ev_ApprovalDenied approval_request_id
| Ev_ApprovalFailed approval_request_id approval_failure_kind
| Ev_DurableApprovalPrepared durable_approval_wait_id approval_request_id action_proposal_id
    tool_call_id digest workspace_binding_id digest u32 u32
| Ev_DurableApprovalDecisionRecorded durable_approval_wait_id approval_request_id
    durable_approval_outcome u64 "principal_id option"
| Ev_DurableApprovalGranted durable_approval_wait_id approval_request_id
| Ev_DurableApprovalDenied durable_approval_wait_id approval_request_id
| Ev_ContainmentFailed tool_call_id tool_name capability_kind containment_failure_kind
| Ev_KnowledgeRetrievalStarted knowledge_retrieval_id knowledge_route_metadata digest u16
| Ev_KnowledgeRetrievalRestarted knowledge_retrieval_id knowledge_retrieval_id
    knowledge_route_metadata digest u16
| Ev_KnowledgeRetrievalCompleted knowledge_retrieval_id "knowledge_snapshot_metadata list"
    "knowledge_evidence_reference list" u8 bool bool digest
| Ev_KnowledgeRetrievalFailed knowledge_retrieval_id knowledge_failure_kind
| Ev_ModelGroundingBound knowledge_retrieval_id model_call_id u8 digest
| Ev_Loop loop_event_kind
| Ev_Graph graph_progress_event

record agent_event =
  ev_schema_version :: event_schema_version
  ev_run_id :: run_id
  ev_sequence :: event_sequence
  ev_kind :: agent_event_kind

definition AgentEvent_new :: "run_id \<Rightarrow> event_sequence \<Rightarrow> agent_event_kind \<Rightarrow> agent_event" where
  "AgentEvent_new r s k =
     \<lparr>ev_schema_version = CURRENT_EVENT_SCHEMA_VERSION, ev_run_id = r, ev_sequence = s, ev_kind = k\<rparr>"

lemma AgentEvent_new_sel [simp]:
  "ev_schema_version (AgentEvent_new r s k) = CURRENT_EVENT_SCHEMA_VERSION"
  "ev_run_id (AgentEvent_new r s k) = r"
  "ev_sequence (AgentEvent_new r s k) = s"
  "ev_kind (AgentEvent_new r s k) = k"
  by (simp_all add: AgentEvent_new_def)

section \<open>Basic facts\<close>

lemma no_repeats_distinct: "no_repeats xs \<longleftrightarrow> distinct xs"
proof -
  have "no_repeats xs \<longleftrightarrow> (\<forall>i<length xs. \<forall>j<i. xs ! i \<noteq> xs ! j)"
    unfolding no_repeats_def list_all_iff by (fastforce simp: in_set_conv_nth)
  also have "\<dots> \<longleftrightarrow> distinct xs"
  proof
    assume before: "\<forall>i<length xs. \<forall>j<i. xs ! i \<noteq> xs ! j"
    show "distinct xs"
      unfolding distinct_conv_nth
    proof (intro allI impI)
      fix i j
      assume "i < length xs" "j < length xs" "i \<noteq> j"
      then show "xs ! i \<noteq> xs ! j"
        using before by (cases i j rule: linorder_cases) fastforce+
    qed
  next
    assume "distinct xs"
    then show "\<forall>i<length xs. \<forall>j<i. xs ! i \<noteq> xs ! j"
      by (auto simp: distinct_conv_nth)
  qed
  finally show ?thesis .
qed

lemma route_is_valid_alt:
  "route_is_valid r \<longleftrightarrow> route_backends r \<noteq> [] \<and> distinct (route_backends r)"
proof -
  have "length bs \<le> 2" if d: "distinct bs" for bs :: "knowledge_backend_id list"
  proof -
    have "set bs \<subseteq> {OcppRagKag, StandardsMcp}"
      using knowledge_backend_id.exhaust by auto
    then have "card (set bs) \<le> card {OcppRagKag, StandardsMcp}"
      by (intro card_mono) auto
    with d show ?thesis by (simp add: distinct_card)
  qed
  then show ?thesis
    by (auto simp: route_is_valid_def no_repeats_distinct MAX_DURABLE_KNOWLEDGE_BACKENDS_def)
qed

lemma RunBudget_deserialize_iff:
  "RunBudget_deserialize r = Inr b \<longleftrightarrow>
     max_elapsed r \<noteq> 0 \<and> max_graph_steps r \<le> MAX_GRAPH_STEPS
     \<and> b = \<lparr>max_model_calls = max_model_calls r, max_tool_calls = max_tool_calls r,
            max_iterations = max_iterations r, max_approval_requests = max_approval_requests r,
            max_graph_steps = max_graph_steps r, max_elapsed = max_elapsed r\<rparr>"
  by (auto simp: RunBudget_deserialize_def RunBudget_new_def with_max_graph_steps_def
      with_max_approval_requests_def)

end
