(* ===== verification/Durable_State.thy ===== *)
theory Durable_State
  imports Agent_Core
begin

text \<open>
  The durable run state of \<^verbatim>\<open>crates/agent-harness/src/recovery.rs\<close> and the reducer that applies
  journal events to it: \<^verbatim>\<open>DurableRunState::initial\<close>, \<^verbatim>\<open>apply\<close>, \<^verbatim>\<open>apply_kind\<close>, \<^verbatim>\<open>apply_loop\<close>,
  \<^verbatim>\<open>apply_graph\<close> and their helpers, with the run key, recovery contract, run record and context
  snapshot of \<^verbatim>\<open>persistence.rs\<close> they are built on. Each arm of the three \<^verbatim>\<open>match\<close> expressions is a
  definition of its own. The reducer mutates its receiver in place; an error leaves the state
  it had reached, which \<open>left_behind\<close> records.

  JSON encoding (serde_json) and SHA-256 (sha2) are not code of the repository: they are the
  fields of the parameter \<open>codec\<close>.
\<close>

section \<open>Run identity and recovery contract\<close>

record run_key =
  key_run_id :: run_id
  key_session_id :: session_id

datatype (plugins only: code size) recovery_contract =
  NonRestartable
| Restartable u32
| RestartableRetrieval u32
| GraphContract u32 digest               \<comment> \<open>program version, definition digest\<close>

record durable_run_authorization =
  auth_owner :: principal_id
  auth_requester :: principal_id
  auth_workflow_id :: rust_string
  auth_policy_version :: u32
  auth_policy_fingerprint :: digest

definition CURRENT_STORE_SCHEMA_VERSION :: u16 where "CURRENT_STORE_SCHEMA_VERSION = 2"
definition CURRENT_CHECKPOINT_SCHEMA_VERSION :: u16 where "CURRENT_CHECKPOINT_SCHEMA_VERSION = 5"
definition MAX_QUERY_BYTES :: nat where "MAX_QUERY_BYTES = 1024"

record run_record =
  rr_store_schema_version :: u16
  rr_checkpoint_schema_version :: u16
  rr_key :: run_key
  rr_budget :: run_budget
  rr_recovery_contract :: recovery_contract
  rr_authorization :: "durable_run_authorization option"

definition RunRecord_new :: "run_key \<Rightarrow> run_budget \<Rightarrow> recovery_contract \<Rightarrow> run_record" where
  "RunRecord_new k b c =
     \<lparr>rr_store_schema_version = CURRENT_STORE_SCHEMA_VERSION,
      rr_checkpoint_schema_version = CURRENT_CHECKPOINT_SCHEMA_VERSION,
      rr_key = k, rr_budget = b, rr_recovery_contract = c, rr_authorization = None\<rparr>"

definition with_authorization :: "durable_run_authorization \<Rightarrow> run_record \<Rightarrow> run_record" where
  "with_authorization a r = r\<lparr>rr_authorization := Some a\<rparr>"

record context_snapshot =
  cs_key :: run_key
  cs_budget :: run_budget
  cs_usage :: budget_usage
  cs_status :: run_status
  cs_audit_degraded :: bool
  cs_started_at :: "u64 option"

section \<open>The durable run state\<close>

datatype (plugins only: code size) durable_loop_position =
  Loop_NotStarted | Loop_Ready | Loop_PhaseReady loop_phase | Loop_PhaseRunning loop_phase
| Loop_ReflectCompleted | Loop_ReflectDecided loop_decision_kind | Loop_Finished

datatype (plugins only: code size) continuation_state =
  InitialBoundary | RestartableBoundary | TransientStateRequired

datatype (plugins only: code size) pending_effect =
  Pending_Model model_call_id
| Pending_Approval approval_request_id
| Pending_Tool tool_call_id capability_kind

record pending_knowledge_retrieval =
  pk_retrieval_id :: knowledge_retrieval_id
  pk_route :: knowledge_route_metadata
  pk_query_digest :: digest
  pk_query_bytes :: u16

definition matches_request ::
  "pending_knowledge_retrieval \<Rightarrow> knowledge_route_metadata \<Rightarrow> digest \<Rightarrow> u16 \<Rightarrow> bool" where
  "matches_request p route qd qb \<longleftrightarrow>
     pk_route p = route \<and> pk_query_digest p = qd \<and> pk_query_bytes p = qb"

record durable_knowledge_manifest =
  km_retrieval_id :: knowledge_retrieval_id
  km_evidence_count :: u8
  km_manifest_digest :: digest

datatype (plugins only: code size) durable_graph_position =
  Pos_NotStarted
| Pos_Ready graph_node_id graph_node_kind graph_recovery_mode
| Pos_Running graph_node_attempt_id graph_node_id graph_node_kind graph_recovery_mode
| Pos_Waiting graph_node_attempt_id graph_node_id durable_approval_wait_id approval_request_id
    action_proposal_id tool_call_id digest u64
| Pos_Finished

record graph_restart_anchor =
  anchor_node_id :: graph_node_id
  anchor_attempt_id :: graph_node_attempt_id

record durable_graph_state =
  gs_definition_digest :: digest
  gs_position :: durable_graph_position
  gs_steps :: u32
  gs_restart_anchor :: "graph_restart_anchor option"

definition can_resume :: "durable_graph_state \<Rightarrow> bool" where
  "can_resume g \<longleftrightarrow>
     gs_restart_anchor g \<noteq> None
     \<or> (case gs_position g of
          Pos_Ready _ _ r \<Rightarrow> r \<in> {Recover_FreshRetrieval, Recover_DeterministicBoundary}
        | Pos_Running _ _ _ r \<Rightarrow> r \<in> {Recover_FreshRetrieval, Recover_DeterministicBoundary}
        | _ \<Rightarrow> False)"

record durable_run_state =
  ds_context :: context_snapshot
  ds_recovery_contract :: recovery_contract
  ds_last_sequence :: "event_sequence option"
  ds_event_chain_digest :: digest
  ds_current_iteration :: "u32 option"
  ds_completed_iterations :: u32
  ds_loop_position :: durable_loop_position
  ds_continuation :: continuation_state
  ds_pending_effects :: "pending_effect list"
  ds_pending_knowledge_retrieval :: "pending_knowledge_retrieval option"
  ds_restartable_knowledge_retrieval :: "pending_knowledge_retrieval option"
  ds_latest_knowledge_manifest :: "durable_knowledge_manifest option"
  ds_graph :: "durable_graph_state option"

definition DurableRunState_initial :: "run_record \<Rightarrow> durable_run_state" where
  "DurableRunState_initial r =
     \<lparr>ds_context =
        \<lparr>cs_key = rr_key r, cs_budget = rr_budget r, cs_usage = BudgetUsage_default,
         cs_status = Status_Pending, cs_audit_degraded = False, cs_started_at = None\<rparr>,
      ds_recovery_contract = rr_recovery_contract r,
      ds_last_sequence = None,
      ds_event_chain_digest = replicate 32 0,
      ds_current_iteration = None,
      ds_completed_iterations = 0,
      ds_loop_position = Loop_NotStarted,
      ds_continuation = InitialBoundary,
      ds_pending_effects = [],
      ds_pending_knowledge_retrieval = None,
      ds_restartable_knowledge_retrieval = None,
      ds_latest_knowledge_manifest = None,
      ds_graph = None\<rparr>"

text \<open>Accessors and the two setters outside the reducer.\<close>

abbreviation ds_key :: "durable_run_state \<Rightarrow> run_key" where
  "ds_key s \<equiv> cs_key (ds_context s)"
abbreviation ds_budget :: "durable_run_state \<Rightarrow> run_budget" where
  "ds_budget s \<equiv> cs_budget (ds_context s)"
abbreviation ds_usage :: "durable_run_state \<Rightarrow> budget_usage" where
  "ds_usage s \<equiv> cs_usage (ds_context s)"
abbreviation ds_status :: "durable_run_state \<Rightarrow> run_status" where
  "ds_status s \<equiv> cs_status (ds_context s)"
abbreviation ds_audit_degraded :: "durable_run_state \<Rightarrow> bool" where
  "ds_audit_degraded s \<equiv> cs_audit_degraded (ds_context s)"
abbreviation ds_started_at :: "durable_run_state \<Rightarrow> u64 option" where
  "ds_started_at s \<equiv> cs_started_at (ds_context s)"

definition upd_context :: "(context_snapshot \<Rightarrow> context_snapshot) \<Rightarrow> durable_run_state \<Rightarrow> durable_run_state" where
  "upd_context f s = s\<lparr>ds_context := f (ds_context s)\<rparr>"

definition set_started_at :: "u64 \<Rightarrow> durable_run_state \<Rightarrow> durable_run_state" where
  "set_started_at v = upd_context (cs_started_at_update (\<lambda>_. Some v))"

definition set_audit_degraded :: "durable_run_state \<Rightarrow> durable_run_state" where
  "set_audit_degraded = upd_context (cs_audit_degraded_update (\<lambda>_. True))"

definition is_quiescent :: "durable_run_state \<Rightarrow> bool" where
  "is_quiescent s \<longleftrightarrow> ds_pending_effects s = [] \<and> ds_pending_knowledge_retrieval s = None"

section \<open>Reducer helpers\<close>

datatype (plugins only: code size) transition_error =
  TE_IdentityOrVersion | TE_Sequence | TE_Lifecycle | TE_Budget | TE_Loop | TE_Graph | TE_Effect
| TE_Encoding

type_synonym reduced = "(transition_error, durable_run_state) left_behind"

definition reject :: "transition_error \<Rightarrow> durable_run_state \<Rightarrow> reduced" where
  "reject e s = Inl (e, s)"

datatype (plugins only: code size) pending_effect_key =
  Key_Model model_call_id | Key_Approval approval_request_id | Key_Tool tool_call_id

fun effect_matches :: "pending_effect_key \<Rightarrow> pending_effect \<Rightarrow> bool" where
  "effect_matches (Key_Model l) (Pending_Model r) = (l = r)"
| "effect_matches (Key_Approval l) (Pending_Approval r) = (l = r)"
| "effect_matches (Key_Tool l) (Pending_Tool r _) = (l = r)"
| "effect_matches _ _ = False"

definition remove_pending :: "pending_effect_key \<Rightarrow> durable_run_state \<Rightarrow> reduced" where
  "remove_pending k s =
     (case remove_first (effect_matches k) (ds_pending_effects s) of
        None \<Rightarrow> reject TE_Effect s
      | Some rest \<Rightarrow> Inr (s\<lparr>ds_pending_effects := rest\<rparr>))"

fun valid_recovery_mode :: "graph_node_kind \<Rightarrow> graph_recovery_mode \<Rightarrow> bool" where
  "valid_recovery_mode Node_Retrieve r = (r = Recover_FreshRetrieval)"
| "valid_recovery_mode Node_Decision r = (r = Recover_DeterministicBoundary)"
| "valid_recovery_mode _ r = (r = Recover_Never)"

fun continuation_for :: "graph_recovery_mode \<Rightarrow> continuation_state" where
  "continuation_for Recover_Never = TransientStateRequired"
| "continuation_for _ = RestartableBoundary"

fun pos_node_kind :: "durable_graph_position \<Rightarrow> transition_error + graph_node_kind" where
  "pos_node_kind (Pos_Running _ _ k _) = Inr k"
| "pos_node_kind _ = Inl TE_Graph"

fun pos_recovery_mode :: "durable_graph_position \<Rightarrow> transition_error + graph_recovery_mode" where
  "pos_recovery_mode (Pos_Running _ _ _ r) = Inr r"
| "pos_recovery_mode _ = Inl TE_Graph"

definition clear_anchor :: "durable_graph_state \<Rightarrow> durable_graph_state" where
  "clear_anchor g = g\<lparr>gs_restart_anchor := None\<rparr>"

text \<open>The retrieval helpers \<^verbatim>\<open>start_knowledge_retrieval\<close> and \<^verbatim>\<open>finish_knowledge_retrieval\<close>.\<close>

definition retrieval_position_ok :: "durable_run_state \<Rightarrow> bool" where
  "retrieval_position_ok s \<longleftrightarrow>
     ds_loop_position s = Loop_PhaseRunning Phase_Retrieve
     \<or> (case map_option gs_position (ds_graph s) of
          Some (Pos_Running _ _ Node_Retrieve Recover_FreshRetrieval) \<Rightarrow> True
        | _ \<Rightarrow> False)"

definition start_knowledge_retrieval ::
  "knowledge_retrieval_id \<Rightarrow> knowledge_route_metadata \<Rightarrow> digest \<Rightarrow> u16 \<Rightarrow> durable_run_state \<Rightarrow> reduced" where
  "start_knowledge_retrieval rid route qd qb s =
     (if ds_pending_knowledge_retrieval s \<noteq> None
         \<or> \<not> route_is_valid route
         \<or> qb = 0
         \<or> unat qb > MAX_QUERY_BYTES
         \<or> \<not> retrieval_position_ok s
      then reject TE_Effect s
      else
        let pending = \<lparr>pk_retrieval_id = rid, pk_route = route, pk_query_digest = qd, pk_query_bytes = qb\<rparr>
        in Inr (s\<lparr>ds_pending_knowledge_retrieval := Some pending,
                  ds_restartable_knowledge_retrieval := Some pending,
                  ds_latest_knowledge_manifest := None,
                  ds_continuation := TransientStateRequired\<rparr>))"

definition finish_knowledge_retrieval :: "knowledge_retrieval_id \<Rightarrow> durable_run_state \<Rightarrow> reduced" where
  "finish_knowledge_retrieval rid s =
     (case ds_pending_knowledge_retrieval s of
        None \<Rightarrow> reject TE_Effect s
      | Some p \<Rightarrow>
          if pk_retrieval_id p \<noteq> rid then reject TE_Effect s
          else Inr (s\<lparr>ds_pending_knowledge_retrieval := None\<rparr>))"

section \<open>The arms of apply_kind\<close>

definition apply_run_started :: "u64 \<Rightarrow> durable_run_state \<Rightarrow> reduced" where
  "apply_run_started ts s =
     (if ds_status s \<noteq> Status_Pending then reject TE_Lifecycle s
      else if (case ds_started_at s of None \<Rightarrow> False | Some cur \<Rightarrow> cur \<noteq> ts) then reject TE_Lifecycle s
      else Inr (upd_context (\<lambda>c. c\<lparr>cs_started_at := Some ts, cs_status := Status_Running\<rparr>) s))"

definition apply_run_finished :: "run_outcome \<Rightarrow> durable_run_state \<Rightarrow> reduced" where
  "apply_run_finished outcome s =
     (if ds_status s \<noteq> Status_Running then reject TE_Lifecycle s
      else Inr (upd_context (cs_status_update (\<lambda>_. Status_Finished outcome)) s))"

definition set_usage :: "budget_usage \<Rightarrow> durable_run_state \<Rightarrow> durable_run_state" where
  "set_usage u = upd_context (cs_usage_update (\<lambda>_. u))"

definition apply_model_started :: "model_call_id \<Rightarrow> u32 \<Rightarrow> u32 \<Rightarrow> durable_run_state \<Rightarrow> reduced" where
  "apply_model_started mid usage limit s =
     (let u = ds_usage s in
      if limit \<noteq> max_model_calls (ds_budget s) \<or> usage \<noteq> saturating_inc (model_calls u)
      then reject TE_Budget s
      else
        let s1 = set_usage (with_graph_steps (graph_steps u)
                   (BudgetUsage_with_approval_requests usage (tool_calls u) (iterations u) (approval_requests u))) s;
            s2 = (case ds_graph s1 of
                    None \<Rightarrow> s1
                  | Some g \<Rightarrow> s1\<lparr>ds_graph := Some (clear_anchor g), ds_restartable_knowledge_retrieval := None\<rparr>)
        in Inr (s2\<lparr>ds_pending_effects := ds_pending_effects s2 @ [Pending_Model mid],
                   ds_continuation := TransientStateRequired\<rparr>))"

definition count_approval :: "u32 \<Rightarrow> budget_usage \<Rightarrow> budget_usage" where
  "count_approval usage u =
     with_graph_steps (graph_steps u)
       (BudgetUsage_with_approval_requests (model_calls u) (tool_calls u) (iterations u) usage)"

definition apply_approval_requested :: "approval_request_id \<Rightarrow> u32 \<Rightarrow> u32 \<Rightarrow> durable_run_state \<Rightarrow> reduced" where
  "apply_approval_requested aid usage limit s =
     (if limit \<noteq> max_approval_requests (ds_budget s)
         \<or> usage \<noteq> saturating_inc (approval_requests (ds_usage s))
      then reject TE_Budget s
      else
        let s1 = set_usage (count_approval usage (ds_usage s)) s
        in Inr (s1\<lparr>ds_pending_effects := ds_pending_effects s1 @ [Pending_Approval aid],
                   ds_continuation := TransientStateRequired\<rparr>))"

definition apply_durable_prepared :: "u32 \<Rightarrow> u32 \<Rightarrow> durable_run_state \<Rightarrow> reduced" where
  "apply_durable_prepared usage limit s =
     (if limit \<noteq> max_approval_requests (ds_budget s)
         \<or> usage \<noteq> saturating_inc (approval_requests (ds_usage s))
      then reject TE_Budget s
      else Inr ((set_usage (count_approval usage (ds_usage s)) s)\<lparr>ds_continuation := TransientStateRequired\<rparr>))"

definition apply_tool_started ::
  "tool_call_id \<Rightarrow> capability_kind \<Rightarrow> u32 \<Rightarrow> u32 \<Rightarrow> durable_run_state \<Rightarrow> reduced" where
  "apply_tool_started tid cap usage limit s =
     (let u = ds_usage s in
      if limit \<noteq> max_tool_calls (ds_budget s) \<or> usage \<noteq> saturating_inc (tool_calls u)
      then reject TE_Budget s
      else
        let s1 = set_usage (with_graph_steps (graph_steps u)
                   (BudgetUsage_with_approval_requests (model_calls u) usage (iterations u) (approval_requests u))) s
        in Inr (s1\<lparr>ds_pending_effects := ds_pending_effects s1 @ [Pending_Tool tid cap],
                   ds_continuation := TransientStateRequired\<rparr>))"

definition apply_retrieval_restarted ::
  "knowledge_retrieval_id \<Rightarrow> knowledge_retrieval_id \<Rightarrow> knowledge_route_metadata \<Rightarrow> digest \<Rightarrow> u16 \<Rightarrow>
   durable_run_state \<Rightarrow> reduced" where
  "apply_retrieval_restarted prev rid route qd qb s =
     (case ds_pending_knowledge_retrieval s of
        None \<Rightarrow> reject TE_Effect s
      | Some p \<Rightarrow>
          if pk_retrieval_id p \<noteq> prev \<or> \<not> matches_request p route qd qb then reject TE_Effect s
          else start_knowledge_retrieval rid route qd qb (s\<lparr>ds_pending_knowledge_retrieval := None\<rparr>))"

definition apply_retrieval_completed ::
  "knowledge_retrieval_id \<Rightarrow> knowledge_snapshot_metadata list \<Rightarrow> knowledge_evidence_reference list \<Rightarrow>
   u8 \<Rightarrow> digest \<Rightarrow> durable_run_state \<Rightarrow> reduced" where
  "apply_retrieval_completed rid snapshots references count manifest s =
     (case map_option pk_route (ds_restartable_knowledge_retrieval s) of
        None \<Rightarrow> reject TE_Effect s
      | Some route \<Rightarrow>
          if unat count \<noteq> length references
             \<or> length references > MAX_DURABLE_EVIDENCE_REFERENCES
             \<or> length snapshots > MAX_DURABLE_KNOWLEDGE_BACKENDS
             \<or> list_ex (\<lambda>i. \<not> evidence_reference_is_valid i) references
             \<or> list_ex (\<lambda>i. \<not> snapshot_metadata_is_valid i) snapshots
             \<or> list_ex (\<lambda>i. er_backend i \<notin> set (route_backends route)) references
             \<or> list_ex (\<lambda>i. sm_backend i \<notin> set (route_backends route)) snapshots
             \<or> \<not> no_repeats (map sm_backend snapshots)
          then reject TE_Effect s
          else lb_then (finish_knowledge_retrieval rid s) (\<lambda>s1.
            Inr (s1\<lparr>ds_latest_knowledge_manifest :=
                   Some \<lparr>km_retrieval_id = rid, km_evidence_count = count, km_manifest_digest = manifest\<rparr>\<rparr>)))"

definition apply_retrieval_failed :: "knowledge_retrieval_id \<Rightarrow> durable_run_state \<Rightarrow> reduced" where
  "apply_retrieval_failed rid s =
     lb_then (finish_knowledge_retrieval rid s) (\<lambda>s1.
       Inr (s1\<lparr>ds_latest_knowledge_manifest := None, ds_graph := map_option clear_anchor (ds_graph s1)\<rparr>))"

definition apply_grounding_bound ::
  "knowledge_retrieval_id \<Rightarrow> model_call_id \<Rightarrow> u8 \<Rightarrow> digest \<Rightarrow> durable_run_state \<Rightarrow> reduced" where
  "apply_grounding_bound rid mid count manifest s =
     (case ds_latest_knowledge_manifest s of
        None \<Rightarrow> reject TE_Effect s
      | Some m \<Rightarrow>
          if km_retrieval_id m \<noteq> rid \<or> km_evidence_count m \<noteq> count \<or> km_manifest_digest m \<noteq> manifest
             \<or> \<not> list_ex (\<lambda>e. e = Pending_Model mid) (ds_pending_effects s)
          then reject TE_Effect s
          else Inr (s\<lparr>ds_continuation := TransientStateRequired\<rparr>))"

section \<open>apply_loop\<close>

definition apply_iteration_started :: "u32 \<Rightarrow> u32 \<Rightarrow> u32 \<Rightarrow> durable_run_state \<Rightarrow> reduced" where
  "apply_iteration_started iteration usage limit s =
     (let u = ds_usage s in
      if ds_loop_position s \<notin> {Loop_Ready, Loop_NotStarted}
         \<or> usage \<noteq> saturating_inc (iterations u)
         \<or> limit \<noteq> max_iterations (ds_budget s)
         \<or> iteration \<noteq> usage
      then reject TE_Loop s
      else Inr ((set_usage (with_graph_steps (graph_steps u)
                   (BudgetUsage_with_approval_requests (model_calls u) (tool_calls u) usage (approval_requests u))) s)
                \<lparr>ds_current_iteration := Some iteration,
                 ds_loop_position := Loop_PhaseReady Phase_Observe,
                 ds_continuation := TransientStateRequired\<rparr>))"

fun after_phase :: "loop_phase \<Rightarrow> durable_loop_position" where
  "after_phase Phase_Observe = Loop_PhaseReady Phase_Retrieve"
| "after_phase Phase_Retrieve = Loop_PhaseReady Phase_Plan"
| "after_phase Phase_Plan = Loop_PhaseReady Phase_Act"
| "after_phase Phase_Act = Loop_PhaseReady Phase_Verify"
| "after_phase Phase_Verify = Loop_PhaseReady Phase_Reflect"
| "after_phase Phase_Reflect = Loop_ReflectCompleted"

definition apply_phase_completed :: "u32 \<Rightarrow> loop_phase \<Rightarrow> durable_run_state \<Rightarrow> reduced" where
  "apply_phase_completed iteration phase s =
     (if ds_current_iteration s \<noteq> Some iteration \<or> ds_loop_position s \<noteq> Loop_PhaseRunning phase
      then reject TE_Loop s
      else if phase = Phase_Retrieve \<and> ds_pending_knowledge_retrieval s \<noteq> None
      then reject TE_Effect s
      else
        let s1 = s\<lparr>ds_loop_position := after_phase phase\<rparr>
        in Inr (if phase = Phase_Retrieve then s1\<lparr>ds_restartable_knowledge_retrieval := None\<rparr> else s1))"

definition apply_iteration_completed :: "u32 \<Rightarrow> durable_run_state \<Rightarrow> reduced" where
  "apply_iteration_completed iteration s =
     (if ds_current_iteration s \<noteq> Some iteration then reject TE_Loop s
      else (case ds_loop_position s of
              Loop_ReflectDecided Decide_Continue \<Rightarrow>
                Inr (s\<lparr>ds_current_iteration := None, ds_loop_position := Loop_Ready,
                       ds_continuation := RestartableBoundary\<rparr>)
            | Loop_ReflectDecided _ \<Rightarrow> Inr (s\<lparr>ds_loop_position := Loop_Finished\<rparr>)
            | _ \<Rightarrow> reject TE_Loop s))"

fun apply_loop :: "loop_event_kind \<Rightarrow> durable_run_state \<Rightarrow> reduced" where
  "apply_loop (LE_IterationStarted iteration usage limit) s = apply_iteration_started iteration usage limit s"
| "apply_loop (LE_PhaseEntered iteration phase) s =
     (if ds_current_iteration s \<noteq> Some iteration \<or> ds_loop_position s \<noteq> Loop_PhaseReady phase
      then reject TE_Loop s
      else Inr (s\<lparr>ds_loop_position := Loop_PhaseRunning phase\<rparr>))"
| "apply_loop (LE_PhaseCompleted iteration phase) s = apply_phase_completed iteration phase s"
| "apply_loop (LE_ReflectDecision iteration decision) s =
     (if ds_current_iteration s \<noteq> Some iteration \<or> ds_loop_position s \<noteq> Loop_ReflectCompleted
      then reject TE_Loop s
      else Inr (s\<lparr>ds_completed_iterations := saturating_inc (ds_completed_iterations s),
                  ds_loop_position := Loop_ReflectDecided decision\<rparr>))"
| "apply_loop (LE_IterationCompleted iteration) s = apply_iteration_completed iteration s"
| "apply_loop (LE_LoopCompleted completed) s =
     (if completed \<noteq> ds_completed_iterations s then reject TE_Loop s
      else Inr (s\<lparr>ds_loop_position := Loop_Finished\<rparr>))"
| "apply_loop (LE_LoopFailed iteration _) s =
     (if ds_current_iteration s \<noteq> Some iteration then reject TE_Loop s
      else Inr (s\<lparr>ds_loop_position := Loop_Finished\<rparr>))"

section \<open>apply_graph\<close>

definition apply_graph_started ::
  "digest \<Rightarrow> graph_node_id \<Rightarrow> graph_node_kind \<Rightarrow> graph_recovery_mode \<Rightarrow> durable_run_state \<Rightarrow> reduced" where
  "apply_graph_started dig node kind recovery s =
     (if ds_graph s \<noteq> None
         \<or> ds_loop_position s \<noteq> Loop_NotStarted
         \<or> ds_status s \<noteq> Status_Running
         \<or> \<not> (case ds_recovery_contract s of GraphContract _ expected \<Rightarrow> expected = dig | _ \<Rightarrow> False)
         \<or> \<not> valid_recovery_mode kind recovery
      then reject TE_Graph s
      else Inr (s\<lparr>ds_graph := Some \<lparr>gs_definition_digest = dig, gs_position = Pos_Ready node kind recovery,
                                   gs_steps = 0, gs_restart_anchor = None\<rparr>,
                  ds_continuation := continuation_for recovery\<rparr>))"

text \<open>What \<^verbatim>\<open>GraphNodeEntered\<close> and \<^verbatim>\<open>GraphNodeRestarted\<close> share: the step checks and the entry itself.\<close>

definition graph_step_rejected ::
  "durable_run_state \<Rightarrow> durable_graph_state \<Rightarrow> graph_node_kind \<Rightarrow> graph_recovery_mode \<Rightarrow> u32 \<Rightarrow> u32 \<Rightarrow> bool" where
  "graph_step_rejected s g kind recovery step limit \<longleftrightarrow>
     limit \<noteq> max_graph_steps (ds_budget s)
     \<or> limit = 0
     \<or> limit > MAX_GRAPH_STEPS
     \<or> step \<noteq> saturating_inc (gs_steps g)
     \<or> step \<noteq> saturating_inc (graph_steps (ds_usage s))
     \<or> \<not> valid_recovery_mode kind recovery"

definition graph_node_running ::
  "graph_node_attempt_id \<Rightarrow> graph_node_id \<Rightarrow> graph_node_kind \<Rightarrow> graph_recovery_mode \<Rightarrow> u32 \<Rightarrow>
   durable_graph_state \<Rightarrow> durable_run_state \<Rightarrow> durable_run_state" where
  "graph_node_running attempt node kind recovery step g s =
     (let g1 = g\<lparr>gs_steps := step, gs_position := Pos_Running attempt node kind recovery\<rparr>;
          g2 = (if recovery = Recover_FreshRetrieval
                then g1\<lparr>gs_restart_anchor := Some \<lparr>anchor_node_id = node, anchor_attempt_id = attempt\<rparr>\<rparr>
                else g1)
      in (set_usage (with_graph_steps step (ds_usage s)) s)
           \<lparr>ds_graph := Some g2, ds_continuation := TransientStateRequired\<rparr>)"

definition apply_node_entered ::
  "graph_node_attempt_id \<Rightarrow> graph_node_id \<Rightarrow> graph_node_kind \<Rightarrow> graph_recovery_mode \<Rightarrow> u32 \<Rightarrow> u32 \<Rightarrow>
   durable_run_state \<Rightarrow> reduced" where
  "apply_node_entered attempt node kind recovery step limit s =
     (case ds_graph s of
        None \<Rightarrow> reject TE_Graph s
      | Some g \<Rightarrow>
          if gs_position g \<noteq> Pos_Ready node kind recovery
             \<or> graph_step_rejected s g kind recovery step limit
          then reject TE_Graph s
          else Inr (graph_node_running attempt node kind recovery step g s))"

definition direct_restart ::
  "durable_graph_position \<Rightarrow> graph_node_attempt_id option \<Rightarrow> graph_node_id \<Rightarrow> graph_node_kind \<Rightarrow>
   graph_recovery_mode \<Rightarrow> bool" where
  "direct_restart pos previous node kind recovery \<longleftrightarrow>
     (case pos of
        Pos_Ready cid ck cr \<Rightarrow>
          cid = node \<and> ck = kind \<and> cr = recovery \<and> previous = None \<and> recovery \<noteq> Recover_Never
      | Pos_Running ca cid ck cr \<Rightarrow>
          cid = node \<and> ck = kind \<and> cr = recovery \<and> previous = Some ca \<and> recovery \<noteq> Recover_Never
      | _ \<Rightarrow> False)"

definition anchor_matches ::
  "graph_restart_anchor option \<Rightarrow> graph_node_attempt_id option \<Rightarrow> graph_node_id \<Rightarrow> graph_recovery_mode \<Rightarrow> bool" where
  "anchor_matches anchor previous node recovery \<longleftrightarrow>
     (case anchor of
        None \<Rightarrow> False
      | Some a \<Rightarrow> anchor_node_id a = node \<and> recovery = Recover_FreshRetrieval
                  \<and> previous = Some (anchor_attempt_id a))"

definition apply_node_restarted ::
  "graph_node_attempt_id option \<Rightarrow> graph_node_attempt_id \<Rightarrow> graph_node_id \<Rightarrow> graph_node_kind \<Rightarrow>
   graph_recovery_mode \<Rightarrow> u32 \<Rightarrow> u32 \<Rightarrow> durable_run_state \<Rightarrow> reduced" where
  "apply_node_restarted previous attempt node kind recovery step limit s =
     (case ds_graph s of
        None \<Rightarrow> reject TE_Graph s
      | Some g \<Rightarrow>
          if (\<not> direct_restart (gs_position g) previous node kind recovery
              \<and> \<not> anchor_matches (gs_restart_anchor g) previous node recovery)
             \<or> graph_step_rejected s g kind recovery step limit
          then reject TE_Graph s
          else Inr (graph_node_running attempt node kind recovery step g s))"

definition apply_node_completed ::
  "graph_node_attempt_id \<Rightarrow> graph_node_id \<Rightarrow> graph_node_id \<Rightarrow> graph_node_kind \<Rightarrow> graph_recovery_mode \<Rightarrow>
   durable_run_state \<Rightarrow> reduced" where
  "apply_node_completed attempt node next_node next_kind next_recovery s =
     (case ds_graph s of
        None \<Rightarrow> reject TE_Graph s
      | Some g \<Rightarrow>
          (case (pos_node_kind (gs_position g), pos_recovery_mode (gs_position g)) of
             (Inr kind, Inr recovery) \<Rightarrow>
               if gs_position g \<noteq> Pos_Running attempt node kind recovery
                  \<or> ds_pending_effects s \<noteq> []
                  \<or> ds_pending_knowledge_retrieval s \<noteq> None
                  \<or> \<not> valid_recovery_mode next_kind next_recovery
               then reject TE_Graph s
               else Inr (s\<lparr>ds_graph := Some (g\<lparr>gs_position := Pos_Ready next_node next_kind next_recovery\<rparr>),
                           ds_continuation := continuation_for next_recovery\<rparr>)
           | (_, _) \<Rightarrow> reject TE_Graph s))"

definition apply_graph_suspended ::
  "graph_node_attempt_id \<Rightarrow> graph_node_id \<Rightarrow> durable_approval_wait_id \<Rightarrow> approval_request_id \<Rightarrow>
   action_proposal_id \<Rightarrow> tool_call_id \<Rightarrow> digest \<Rightarrow> u64 \<Rightarrow> durable_run_state \<Rightarrow> reduced" where
  "apply_graph_suspended attempt node wait aid pid tid dig active s =
     (case ds_graph s of
        None \<Rightarrow> reject TE_Graph s
      | Some g \<Rightarrow>
          if gs_position g \<noteq> Pos_Running attempt node Node_Action Recover_Never
             \<or> ds_pending_effects s \<noteq> []
             \<or> ds_pending_knowledge_retrieval s \<noteq> None
             \<or> duration_from_millis active \<ge> max_elapsed (ds_budget s)
          then reject TE_Graph s
          else Inr (s\<lparr>ds_graph := Some (g\<lparr>gs_position := Pos_Waiting attempt node wait aid pid tid dig active,
                                         gs_restart_anchor := None\<rparr>),
                      ds_continuation := RestartableBoundary\<rparr>))"

definition apply_graph_resumed ::
  "graph_node_attempt_id \<Rightarrow> graph_node_id \<Rightarrow> durable_approval_wait_id \<Rightarrow> u64 \<Rightarrow> durable_run_state \<Rightarrow> reduced" where
  "apply_graph_resumed attempt node wait resumed_at s =
     (case ds_graph s of
        None \<Rightarrow> reject TE_Graph s
      | Some g \<Rightarrow>
          (case gs_position g of
             Pos_Waiting ca cn cw _ _ _ _ active \<Rightarrow>
               (case checked_sub resumed_at active of
                  None \<Rightarrow> reject TE_Graph s
                | Some rebased \<Rightarrow>
                    if \<not> (ca = attempt \<and> cn = node \<and> cw = wait) \<or> ds_pending_effects s \<noteq> []
                    then reject TE_Graph s
                    else Inr ((upd_context (cs_started_at_update (\<lambda>_. Some rebased)) s)
                              \<lparr>ds_graph := Some (g\<lparr>gs_position := Pos_Running attempt node Node_Action Recover_Never\<rparr>),
                               ds_continuation := TransientStateRequired\<rparr>))
           | _ \<Rightarrow> reject TE_Graph s))"

definition finish_graph_terminal ::
  "graph_node_attempt_id \<Rightarrow> graph_node_id \<Rightarrow> u32 \<Rightarrow> graph_node_kind option \<Rightarrow> run_outcome \<Rightarrow>
   durable_run_state \<Rightarrow> reduced" where
  "finish_graph_terminal attempt node steps expected outcome s =
     (case ds_graph s of
        None \<Rightarrow> reject TE_Graph s
      | Some g \<Rightarrow>
          let position_matches =
            (case gs_position g of
               Pos_Running ca cn kind recovery \<Rightarrow>
                 ca = attempt \<and> cn = node
                 \<and> (case expected of None \<Rightarrow> True | Some e \<Rightarrow> kind = e)
                 \<and> (expected = None \<or> recovery = Recover_Never)
             | _ \<Rightarrow> False)
          in if gs_steps g \<noteq> steps
                \<or> \<not> position_matches
                \<or> ds_pending_effects s \<noteq> []
                \<or> ds_pending_knowledge_retrieval s \<noteq> None
                \<or> ds_status s \<noteq> Status_Running
             then reject TE_Graph s
             else Inr ((upd_context (cs_status_update (\<lambda>_. Status_Finished outcome)) s)
                       \<lparr>ds_graph := Some (g\<lparr>gs_position := Pos_Finished, gs_restart_anchor := None\<rparr>),
                        ds_continuation := TransientStateRequired\<rparr>))"

fun apply_graph :: "graph_progress_event \<Rightarrow> durable_run_state \<Rightarrow> reduced" where
  "apply_graph (GE_GraphStarted dig node kind recovery) s = apply_graph_started dig node kind recovery s"
| "apply_graph (GE_GraphNodeEntered attempt node kind recovery step limit) s =
     apply_node_entered attempt node kind recovery step limit s"
| "apply_graph (GE_GraphNodeRestarted previous attempt node kind recovery step limit) s =
     apply_node_restarted previous attempt node kind recovery step limit s"
| "apply_graph (GE_GraphNodeCompleted attempt node _ next_node next_kind next_recovery) s =
     apply_node_completed attempt node next_node next_kind next_recovery s"
| "apply_graph (GE_GraphSuspended attempt node wait aid pid tid dig active) s =
     apply_graph_suspended attempt node wait aid pid tid dig active s"
| "apply_graph (GE_GraphResumed attempt node wait resumed_at) s =
     apply_graph_resumed attempt node wait resumed_at s"
| "apply_graph (GE_GraphCompleted attempt node steps) s =
     finish_graph_terminal attempt node steps (Some Node_Complete) Outcome_Completed s"
| "apply_graph (GE_GraphFailed attempt node steps failure run_failure) s =
     (if run_failure \<noteq> Fail_Graph failure then reject TE_Graph s
      else finish_graph_terminal attempt node steps None (Outcome_Failed run_failure) s)"

section \<open>apply_kind and apply\<close>

definition needs_transient_state :: "durable_run_state \<Rightarrow> reduced" where
  "needs_transient_state s = Inr (s\<lparr>ds_continuation := TransientStateRequired\<rparr>)"

fun apply_kind :: "agent_event_kind \<Rightarrow> durable_run_state \<Rightarrow> reduced" where
  "apply_kind (Ev_RunStarted ts) s = apply_run_started ts s"
| "apply_kind (Ev_RunFinished outcome) s = apply_run_finished outcome s"
| "apply_kind Ev_AuditDegraded s = Inr (set_audit_degraded s)"
| "apply_kind (Ev_ModelInvocationStarted mid usage limit) s = apply_model_started mid usage limit s"
| "apply_kind (Ev_ModelInvocationCompleted mid _) s = remove_pending (Key_Model mid) s"
| "apply_kind (Ev_ModelInvocationFailed mid) s = remove_pending (Key_Model mid) s"
| "apply_kind (Ev_ApprovalRequested aid _ _ _ _ usage limit) s = apply_approval_requested aid usage limit s"
| "apply_kind (Ev_ApprovalGranted aid) s = remove_pending (Key_Approval aid) s"
| "apply_kind (Ev_ApprovalDenied aid) s = remove_pending (Key_Approval aid) s"
| "apply_kind (Ev_ApprovalFailed aid _) s = remove_pending (Key_Approval aid) s"
| "apply_kind (Ev_DurableApprovalPrepared _ _ _ _ _ _ _ usage limit) s = apply_durable_prepared usage limit s"
| "apply_kind (Ev_DurableApprovalDecisionRecorded _ _ _ _ _) s = Inr s"
| "apply_kind (Ev_DurableApprovalGranted _ _) s = Inr s"
| "apply_kind (Ev_DurableApprovalDenied _ _) s = Inr s"
| "apply_kind (Ev_ToolInvocationStarted tid _ cap usage limit) s = apply_tool_started tid cap usage limit s"
| "apply_kind (Ev_ToolInvocationCompleted tid) s = remove_pending (Key_Tool tid) s"
| "apply_kind (Ev_ToolInvocationDomainFailed tid _) s = remove_pending (Key_Tool tid) s"
| "apply_kind (Ev_ToolInvocationAdapterFailed tid) s = remove_pending (Key_Tool tid) s"
| "apply_kind (Ev_KnowledgeRetrievalStarted rid route qd qb) s = start_knowledge_retrieval rid route qd qb s"
| "apply_kind (Ev_KnowledgeRetrievalRestarted prev rid route qd qb) s =
     apply_retrieval_restarted prev rid route qd qb s"
| "apply_kind (Ev_KnowledgeRetrievalCompleted rid snapshots references count _ _ manifest) s =
     apply_retrieval_completed rid snapshots references count manifest s"
| "apply_kind (Ev_KnowledgeRetrievalFailed rid _) s = apply_retrieval_failed rid s"
| "apply_kind (Ev_ModelGroundingBound rid mid count manifest) s = apply_grounding_bound rid mid count manifest s"
| "apply_kind (Ev_Loop e) s = apply_loop e s"
| "apply_kind (Ev_Graph e) s = apply_graph e s"
| "apply_kind (Ev_ActionProposed _ _ _) s = needs_transient_state s"
| "apply_kind (Ev_ActionValidated _) s = needs_transient_state s"
| "apply_kind (Ev_ActionRejected _ _ _) s = needs_transient_state s"
| "apply_kind (Ev_ActionExecutionBound _ _) s = needs_transient_state s"
| "apply_kind (Ev_ToolPolicyDenied _ _ _) s = needs_transient_state s"
| "apply_kind (Ev_ContainmentFailed _ _ _ _) s = needs_transient_state s"

record codec =
  to_vec :: "agent_event \<Rightarrow> byte list option"
  sha256 :: "byte list \<Rightarrow> digest"

definition expected_sequence :: "durable_run_state \<Rightarrow> event_sequence" where
  "expected_sequence s =
     (case ds_last_sequence s of
        None \<Rightarrow> 0
      | Some q \<Rightarrow> (case checked_next q of None \<Rightarrow> - 1 | Some n \<Rightarrow> n))"

definition chain_digest :: "codec \<Rightarrow> digest \<Rightarrow> byte list \<Rightarrow> digest" where
  "chain_digest c d bytes = sha256 c (d @ to_be_bytes (of_nat (length bytes)) @ bytes)"

definition apply_event :: "codec \<Rightarrow> agent_event \<Rightarrow> durable_run_state \<Rightarrow> reduced" where
  "apply_event c e s =
     (if ev_schema_version e \<noteq> CURRENT_EVENT_SCHEMA_VERSION \<or> ev_run_id e \<noteq> key_run_id (ds_key s)
      then reject TE_IdentityOrVersion s
      else if ev_sequence e \<noteq> expected_sequence s then reject TE_Sequence s
      else lb_then (apply_kind (ev_kind e) s) (\<lambda>s1.
        (case to_vec c e of
           None \<Rightarrow> reject TE_Encoding s1
         | Some bytes \<Rightarrow>
             Inr (s1\<lparr>ds_event_chain_digest := chain_digest c (ds_event_chain_digest s1) bytes,
                     ds_last_sequence := Some (ev_sequence e)\<rparr>))))"

text \<open>Replaying a log: events applied in order, stopping at the first rejected one.\<close>

definition replay :: "codec \<Rightarrow> agent_event list \<Rightarrow> durable_run_state \<Rightarrow> reduced" where
  "replay c = run_log (apply_event c)"

end
