(* ===== verification/Durable_Approval.thy ===== *)
theory Durable_Approval
  imports Durable_State
begin

text \<open>
  The data of durable approvals, \<^verbatim>\<open>crates/agent-harness/src/durable_approval.rs\<close>: the capsule of a local
  write with its path rules, the binding that ties a sealed capsule to one run, node, request and
  action, the sealed capsule, and the approval record with its status. Sealing itself is a port.
\<close>

definition LOCAL_WRITE_CAPSULE_VERSION :: u16 where "LOCAL_WRITE_CAPSULE_VERSION = 1"
definition MAX_DURABLE_RELATIVE_PATH_BYTES :: nat where "MAX_DURABLE_RELATIVE_PATH_BYTES = 240"
definition MAX_DURABLE_CONTENT_BYTES :: nat where "MAX_DURABLE_CONTENT_BYTES = 4 * 1024"
definition MAX_SEALED_CAPSULE_BYTES :: nat where "MAX_SEALED_CAPSULE_BYTES = 8 * 1024"
definition MAX_SEAL_KEY_ID_BYTES :: nat where "MAX_SEAL_KEY_ID_BYTES = 64"

datatype (plugins only: code size) action_seal_error =
  Seal_InvalidCapsule | Seal_KeyUnavailable | Seal_AuthenticationFailed | Seal_EncodingFailed

section \<open>The capsule of a local write\<close>

record local_write_capsule =
  lw_relative_path :: rust_string
  lw_content :: rust_string

text \<open>\<^verbatim>\<open>str::split\<close> by one character.\<close>

fun split_on :: "nat \<Rightarrow> rust_string \<Rightarrow> rust_string list" where
  "split_on sep [] = [[]]"
| "split_on sep (c # cs) =
     (if c = sep then [] # split_on sep cs
      else (case split_on sep cs of [] \<Rightarrow> [[c]] | p # ps \<Rightarrow> (c # p) # ps))"

definition capsule_path_rejected :: "rust_string \<Rightarrow> bool" where
  "capsule_path_rejected p \<longleftrightarrow>
     p = [] \<or> str_len p > MAX_DURABLE_RELATIVE_PATH_BYTES
     \<or> (case p of c # _ \<Rightarrow> c = of_char CHR ''/'' | [] \<Rightarrow> False)
     \<or> list_ex is_control p
     \<or> list_ex (\<lambda>part. part = [] \<or> part = lit ''.'' \<or> part = lit ''..'') (split_on (of_char CHR ''/'') p)"

definition LocalWriteActionCapsuleV1_new ::
  "rust_string \<Rightarrow> rust_string \<Rightarrow> action_seal_error + local_write_capsule" where
  "LocalWriteActionCapsuleV1_new path content =
     (if capsule_path_rejected path \<or> str_len content > MAX_DURABLE_CONTENT_BYTES
      then Inl Seal_InvalidCapsule
      else Inr \<lparr>lw_relative_path = path, lw_content = content\<rparr>)"

section \<open>The binding and the sealed capsule\<close>

record action_seal_binding =
  sb_run_id :: run_id
  sb_session_id :: session_id
  sb_program_version :: u32
  sb_graph_digest :: digest
  sb_node_id :: graph_node_id
  sb_attempt_id :: graph_node_attempt_id
  sb_wait_id :: durable_approval_wait_id
  sb_approval_request_id :: approval_request_id
  sb_action_proposal_id :: action_proposal_id
  sb_tool_call_id :: tool_call_id
  sb_action_digest :: digest
  sb_workspace_binding_id :: workspace_binding_id
  sb_tool_contract_digest :: digest
  sb_requester :: "principal_id option"
  sb_capsule_version :: u16

definition ActionSealBinding_new ::
  "run_key \<Rightarrow> u32 \<Rightarrow> digest \<Rightarrow> graph_node_id \<Rightarrow> graph_node_attempt_id \<Rightarrow> durable_approval_wait_id \<Rightarrow>
   approval_request_id \<Rightarrow> action_proposal_id \<Rightarrow> tool_call_id \<Rightarrow> digest \<Rightarrow> workspace_binding_id \<Rightarrow> digest \<Rightarrow>
   action_seal_binding" where
  "ActionSealBinding_new k pv gd node att wait req prop call dig ws contract =
     \<lparr>sb_run_id = key_run_id k, sb_session_id = key_session_id k, sb_program_version = pv,
      sb_graph_digest = gd, sb_node_id = node, sb_attempt_id = att, sb_wait_id = wait,
      sb_approval_request_id = req, sb_action_proposal_id = prop, sb_tool_call_id = call,
      sb_action_digest = dig, sb_workspace_binding_id = ws, sb_tool_contract_digest = contract,
      sb_requester = None, sb_capsule_version = LOCAL_WRITE_CAPSULE_VERSION\<rparr>"

definition with_requester :: "principal_id \<Rightarrow> action_seal_binding \<Rightarrow> action_seal_binding" where
  "with_requester p b = b\<lparr>sb_requester := Some p\<rparr>"

definition sb_key :: "action_seal_binding \<Rightarrow> run_key" where
  "sb_key b = \<lparr>key_run_id = sb_run_id b, key_session_id = sb_session_id b\<rparr>"

record sealed_local_write =
  sl_version :: u16
  sl_key_id :: rust_string
  sl_nonce :: "byte list"
  sl_ciphertext :: "byte list"

definition sealed_fields_rejected :: "rust_string \<Rightarrow> byte list \<Rightarrow> byte list \<Rightarrow> bool" where
  "sealed_fields_rejected key nonce ct \<longleftrightarrow>
     key = [] \<or> str_len key > MAX_SEAL_KEY_ID_BYTES
     \<or> list_ex (\<lambda>c. \<not> is_ascii_alphanumeric c \<and> c \<noteq> of_char CHR ''-'' \<and> c \<noteq> of_char CHR ''_'') key
     \<or> nonce = [] \<or> ct = [] \<or> length ct > MAX_SEALED_CAPSULE_BYTES"

definition SealedLocalWriteAction_new ::
  "rust_string \<Rightarrow> byte list \<Rightarrow> byte list \<Rightarrow> action_seal_error + sealed_local_write" where
  "SealedLocalWriteAction_new key nonce ct =
     (if sealed_fields_rejected key nonce ct then Inl Seal_InvalidCapsule
      else Inr \<lparr>sl_version = LOCAL_WRITE_CAPSULE_VERSION, sl_key_id = key, sl_nonce = nonce, sl_ciphertext = ct\<rparr>)"

definition SealedLocalWriteAction_validate :: "sealed_local_write \<Rightarrow> action_seal_error + unit" where
  "SealedLocalWriteAction_validate s =
     (if sl_version s \<noteq> LOCAL_WRITE_CAPSULE_VERSION
         \<or> sealed_fields_rejected (sl_key_id s) (sl_nonce s) (sl_ciphertext s)
      then Inl Seal_InvalidCapsule else Inr ())"

section \<open>Approval records\<close>

datatype (plugins only: code size) durable_approval_status =
  DA_Waiting | DA_DecisionRecordedApprove | DA_DecisionRecordedDeny | DA_ApprovedReady | DA_Executing
| DA_Consumed

record durable_approval_record =
  da_binding :: action_seal_binding
  da_sealed_action :: sealed_local_write
  da_status :: durable_approval_status
  da_row_version :: u64
  da_decision_actor :: "principal_id option"
  da_decision_timestamp :: "u64 option"

definition DurableApprovalRecord_new ::
  "action_seal_binding \<Rightarrow> sealed_local_write \<Rightarrow> durable_approval_record" where
  "DurableApprovalRecord_new b s =
     \<lparr>da_binding = b, da_sealed_action = s, da_status = DA_Waiting, da_row_version = 0,
      da_decision_actor = None, da_decision_timestamp = None\<rparr>"

definition restore_store_state ::
  "durable_approval_status \<Rightarrow> u64 \<Rightarrow> durable_approval_record \<Rightarrow> durable_approval_record" where
  "restore_store_state st v r = r\<lparr>da_status := st, da_row_version := v\<rparr>"

definition restore_decision_identity ::
  "principal_id option \<Rightarrow> u64 option \<Rightarrow> durable_approval_record \<Rightarrow> durable_approval_record" where
  "restore_decision_identity actor ts r = r\<lparr>da_decision_actor := actor, da_decision_timestamp := ts\<rparr>"

record durable_approval_decision_command =
  dc_key :: run_key
  dc_wait_id :: durable_approval_wait_id
  dc_approval_request_id :: approval_request_id
  dc_action_proposal_id :: action_proposal_id
  dc_tool_call_id :: tool_call_id
  dc_action_digest :: digest
  dc_expected_row_version :: u64
  dc_outcome :: durable_approval_outcome
  dc_actor :: "principal_id option"
  dc_decided_at :: "u64 option"

section \<open>What the checks guarantee\<close>

lemma split_on_nonempty [simp]: "split_on sep s \<noteq> []"
  by (induction s) (auto split: list.split)

text \<open>Joining the parts gives the string back, and no part contains the separator.\<close>

fun join_with :: "nat \<Rightarrow> rust_string list \<Rightarrow> rust_string" where
  "join_with sep [] = []"
| "join_with sep [p] = p"
| "join_with sep (p # q # ps) = p @ sep # join_with sep (q # ps)"

lemma join_with_Cons: "ps \<noteq> [] \<Longrightarrow> join_with sep (p # ps) = p @ sep # join_with sep ps"
  by (cases ps) simp_all

lemma join_with_Cons_char: "ps \<noteq> [] \<Longrightarrow> join_with sep ((c # hd ps) # tl ps) = c # join_with sep ps"
  by (cases ps; cases "tl ps") simp_all

lemma join_split: "join_with sep (split_on sep s) = s"
proof (induction s)
  case Nil
  then show ?case by simp
next
  case (Cons c s)
  then show ?case
    using join_with_Cons_char [of "split_on sep s" sep c]
    by (cases "split_on sep s") (auto simp: join_with_Cons)
qed

lemma split_on_parts: "p \<in> set (split_on sep s) \<Longrightarrow> sep \<notin> set p"
proof (induction s arbitrary: p)
  case Nil
  then show ?case by simp
next
  case (Cons c s)
  then show ?case by (auto split: if_splits list.splits)
qed

text \<open>A sealed capsule that was built by the constructor passes validation.\<close>

lemma sealed_new_validates:
  "SealedLocalWriteAction_new key nonce ct = Inr s \<Longrightarrow> SealedLocalWriteAction_validate s = Inr ()"
  by (auto simp: SealedLocalWriteAction_new_def SealedLocalWriteAction_validate_def split: if_splits)

text \<open>An accepted path names a file below its base directory: no component is empty or a dot component.\<close>

lemma capsule_path_components:
  assumes "LocalWriteActionCapsuleV1_new path content = Inr cap"
  shows "\<exists>parts. path = join_with (of_char CHR ''/'') parts \<and> parts \<noteq> []
           \<and> (\<forall>p\<in>set parts. p \<noteq> [] \<and> p \<noteq> lit ''.'' \<and> p \<noteq> lit ''..'' \<and> of_char CHR ''/'' \<notin> set p)"
  using assms join_split [of "of_char CHR ''/''" path] split_on_parts [of _ "of_char CHR ''/''" path]
  by (intro exI [of _ "split_on (of_char CHR ''/'') path"])
     (auto simp: LocalWriteActionCapsuleV1_new_def capsule_path_rejected_def list_ex_iff split: if_splits)

end
