(* ===== verification/Reducer.thy ===== *)
theory Reducer
  imports Durable_State
begin

text \<open>
  Laws of the durable reducer. No event, accepted or rejected, changes the identity, the
  budget, the contract, the sequence or the chain digest inside \<open>apply_kind\<close> (the frame); the run
  status only moves from pending to running to finished; the graph, loop and start-time
  invariants are kept by every event; usage counters never decrease and grow by one at most.
  The reducer is an instance of the interface \<open>journal\<close>. The last section shows that the event
  chain digest commits to the whole log.
\<close>

lemmas arm_defs =
  reject_def set_usage_def upd_context_def set_audit_degraded_def set_started_at_def
  apply_run_started_def apply_run_finished_def apply_model_started_def count_approval_def
  apply_approval_requested_def apply_durable_prepared_def apply_tool_started_def
  apply_retrieval_restarted_def apply_retrieval_completed_def apply_retrieval_failed_def
  apply_grounding_bound_def start_knowledge_retrieval_def finish_knowledge_retrieval_def
  remove_pending_def needs_transient_state_def Let_def lb_then_def

lemmas loop_arm_defs =
  apply_iteration_started_def apply_phase_completed_def apply_iteration_completed_def

lemmas graph_arm_defs =
  apply_graph_started_def graph_node_running_def apply_node_entered_def apply_node_restarted_def
  apply_node_completed_def apply_graph_suspended_def apply_graph_resumed_def finish_graph_terminal_def

lemmas usage_defs = with_graph_steps_def BudgetUsage_with_approval_requests_def BudgetUsage_default_def

lemmas graph_arm_splits =
  if_splits option.splits sum.splits prod.splits durable_graph_position.splits recovery_contract.splits

lemmas loop_arm_splits = if_splits option.splits durable_loop_position.splits loop_decision_kind.splits

text \<open>
  A property of states is lifted to \<open>apply_kind\<close> from the loop arms, the graph arms and the
  remaining arms.
\<close>

lemma lb_stateI: "(\<And>e t. r = Inl (e, t) \<Longrightarrow> P t) \<Longrightarrow> (\<And>t. r = Inr t \<Longrightarrow> P t) \<Longrightarrow> P (lb_state r)"
  by (cases r) auto

section \<open>The frame\<close>

definition frame_of :: "durable_run_state \<Rightarrow> run_key \<times> run_budget \<times> recovery_contract" where
  "frame_of s = (ds_key s, ds_budget s, ds_recovery_contract s)"

definition same_frame :: "durable_run_state \<Rightarrow> durable_run_state \<Rightarrow> bool" where
  "same_frame s t \<longleftrightarrow>
     frame_of t = frame_of s
     \<and> ds_last_sequence t = ds_last_sequence s \<and> ds_event_chain_digest t = ds_event_chain_digest s"

lemma apply_loop_frame: "same_frame s (lb_state (apply_loop e s))"
  by (cases e) (auto simp: same_frame_def frame_of_def arm_defs loop_arm_defs split: loop_arm_splits)

lemma apply_graph_frame: "same_frame s (lb_state (apply_graph e s))"
  by (cases e) (auto simp: same_frame_def frame_of_def arm_defs graph_arm_defs split: graph_arm_splits)

lemma apply_kind_frame: "same_frame s (lb_state (apply_kind k s))"
proof (cases k)
  case (Ev_Loop e)
  then show ?thesis by (simp add: apply_loop_frame)
next
  case (Ev_Graph e)
  then show ?thesis by (simp add: apply_graph_frame)
qed (auto simp: same_frame_def frame_of_def arm_defs split: if_splits option.splits sum.splits)

section \<open>The lifecycle\<close>

inductive status_step :: "run_status \<Rightarrow> run_status \<Rightarrow> bool" where
  stay: "status_step q q"
| begin_run: "status_step Status_Pending Status_Running"
| finish_run: "status_step Status_Running (Status_Finished outcome)"

inductive_cases status_step_finishedE [elim!]: "status_step (Status_Finished q) r"
inductive_cases status_step_pendingE: "status_step q Status_Pending"

inductive_simps status_step_finished_iff [simp]: "status_step (Status_Finished q) r"
inductive_simps status_step_pending_iff: "status_step q Status_Pending"

lemma apply_loop_status: "ds_status (lb_state (apply_loop e s)) = ds_status s"
  by (cases e) (auto simp: arm_defs loop_arm_defs split: loop_arm_splits)

lemma apply_graph_status: "status_step (ds_status s) (ds_status (lb_state (apply_graph e s)))"
  by (cases e) (auto simp: arm_defs graph_arm_defs intro: status_step.intros split: graph_arm_splits)

lemma apply_kind_status: "status_step (ds_status s) (ds_status (lb_state (apply_kind k s)))"
proof (cases k)
  case (Ev_Loop e)
  then show ?thesis by (simp add: apply_loop_status status_step.stay)
next
  case (Ev_Graph e)
  then show ?thesis by (simp add: apply_graph_status)
qed (auto simp: arm_defs intro: status_step.intros split: if_splits option.splits sum.splits)

section \<open>The invariant\<close>

text \<open>Positions the graph can be in, given the run status.\<close>

fun position_ok :: "run_status \<Rightarrow> durable_graph_position \<Rightarrow> bool" where
  "position_ok st Pos_NotStarted = False"
| "position_ok st (Pos_Ready _ k r) = valid_recovery_mode k r"
| "position_ok st (Pos_Running _ _ k r) = valid_recovery_mode k r"
| "position_ok st (Pos_Waiting _ _ _ _ _ _ _ _) = True"
| "position_ok st Pos_Finished = (case st of Status_Finished _ \<Rightarrow> True | _ \<Rightarrow> False)"

definition graph_inv :: "durable_run_state \<Rightarrow> bool" where
  "graph_inv s \<longleftrightarrow>
     (case ds_graph s of
        None \<Rightarrow> graph_steps (ds_usage s) = 0
      | Some g \<Rightarrow>
          gs_steps g = graph_steps (ds_usage s)
          \<and> ds_status s \<noteq> Status_Pending
          \<and> (case ds_recovery_contract s of GraphContract _ d \<Rightarrow> d = gs_definition_digest g | _ \<Rightarrow> False)
          \<and> position_ok (ds_status s) (gs_position g))"

fun in_iteration :: "durable_loop_position \<Rightarrow> bool" where
  "in_iteration (Loop_PhaseReady _) = True"
| "in_iteration (Loop_PhaseRunning _) = True"
| "in_iteration Loop_ReflectCompleted = True"
| "in_iteration _ = False"

definition loop_inv :: "durable_run_state \<Rightarrow> bool" where
  "loop_inv s \<longleftrightarrow>
     (case ds_current_iteration s of None \<Rightarrow> True | Some i \<Rightarrow> i = iterations (ds_usage s))
     \<and> ds_completed_iterations s \<le> iterations (ds_usage s)
     \<and> (in_iteration (ds_loop_position s) \<longrightarrow>
          ds_completed_iterations s < iterations (ds_usage s) \<or> iterations (ds_usage s) = - 1)"

definition start_inv :: "durable_run_state \<Rightarrow> bool" where
  "start_inv s \<longleftrightarrow> ds_status s = Status_Pending \<or> ds_started_at s \<noteq> None"

definition ds_inv :: "durable_run_state \<Rightarrow> bool" where
  "ds_inv s \<longleftrightarrow> graph_inv s \<and> loop_inv s \<and> start_inv s"

lemma position_ok_mono: "position_ok q p \<Longrightarrow> status_step q r \<Longrightarrow> position_ok r p"
  by (cases p) (auto elim: status_step.cases)

lemma apply_loop_graph_inv: "graph_inv s \<Longrightarrow> graph_inv (lb_state (apply_loop e s))"
  by (cases e) (auto simp: graph_inv_def arm_defs loop_arm_defs usage_defs split: loop_arm_splits)

lemma apply_graph_graph_inv: "graph_inv s \<Longrightarrow> graph_inv (lb_state (apply_graph e s))"
  by (cases e) (auto simp: graph_inv_def arm_defs graph_arm_defs usage_defs graph_step_rejected_def
      split: graph_arm_splits)

lemma apply_kind_graph_inv: "graph_inv s \<Longrightarrow> graph_inv (lb_state (apply_kind k s))"
proof (cases k)
  case (Ev_Loop e)
  then show "graph_inv s \<Longrightarrow> ?thesis" by (simp add: apply_loop_graph_inv)
next
  case (Ev_Graph e)
  then show "graph_inv s \<Longrightarrow> ?thesis" by (simp add: apply_graph_graph_inv)
qed (auto simp: graph_inv_def arm_defs usage_defs clear_anchor_def
      intro: position_ok_mono status_step.intros
      split: if_splits option.splits sum.splits recovery_contract.splits)

lemma apply_loop_loop_inv: "loop_inv s \<Longrightarrow> loop_inv (lb_state (apply_loop e s))"
  by (cases e) (auto simp: loop_inv_def arm_defs loop_arm_defs usage_defs
      saturating_inc_le le_saturating_inc less_saturating_inc split: loop_arm_splits)

lemma apply_graph_loop_inv: "loop_inv s \<Longrightarrow> loop_inv (lb_state (apply_graph e s))"
  by (cases e) (auto simp: loop_inv_def arm_defs graph_arm_defs usage_defs split: graph_arm_splits)

lemma apply_kind_loop_inv: "loop_inv s \<Longrightarrow> loop_inv (lb_state (apply_kind k s))"
proof (cases k)
  case (Ev_Loop e)
  then show "loop_inv s \<Longrightarrow> ?thesis" by (simp add: apply_loop_loop_inv)
next
  case (Ev_Graph e)
  then show "loop_inv s \<Longrightarrow> ?thesis" by (simp add: apply_graph_loop_inv)
qed (auto simp: loop_inv_def arm_defs usage_defs split: if_splits option.splits sum.splits)

lemma apply_loop_start_inv: "start_inv s \<Longrightarrow> start_inv (lb_state (apply_loop e s))"
  by (cases e) (auto simp: start_inv_def arm_defs loop_arm_defs split: loop_arm_splits)

lemma apply_graph_start_inv: "start_inv s \<Longrightarrow> start_inv (lb_state (apply_graph e s))"
  by (cases e) (auto simp: start_inv_def arm_defs graph_arm_defs split: graph_arm_splits)

lemma apply_kind_start_inv: "start_inv s \<Longrightarrow> start_inv (lb_state (apply_kind k s))"
proof (cases k)
  case (Ev_Loop e)
  then show "start_inv s \<Longrightarrow> ?thesis" by (simp add: apply_loop_start_inv)
next
  case (Ev_Graph e)
  then show "start_inv s \<Longrightarrow> ?thesis" by (simp add: apply_graph_start_inv)
qed (auto simp: start_inv_def arm_defs split: if_splits option.splits sum.splits)

lemma apply_kind_inv: "ds_inv s \<Longrightarrow> ds_inv (lb_state (apply_kind k s))"
  by (simp add: ds_inv_def apply_kind_graph_inv apply_kind_loop_inv apply_kind_start_inv)

lemma initial_inv: "ds_inv (DurableRunState_initial r)"
  by (simp add: ds_inv_def graph_inv_def loop_inv_def start_inv_def DurableRunState_initial_def usage_defs)

section \<open>Usage\<close>

text \<open>Usage moves by at most one reservation per event.\<close>

definition usage_le :: "budget_usage \<Rightarrow> budget_usage \<Rightarrow> bool" where
  "usage_le u v \<longleftrightarrow>
     model_calls u \<le> model_calls v \<and> tool_calls u \<le> tool_calls v \<and> iterations u \<le> iterations v
     \<and> approval_requests u \<le> approval_requests v \<and> graph_steps u \<le> graph_steps v"

lemma usage_le_refl [simp]: "usage_le u u"
  by (simp add: usage_le_def)

lemma usage_le_trans [trans]: "usage_le u v \<Longrightarrow> usage_le v w \<Longrightarrow> usage_le u w"
  by (auto simp: usage_le_def)

lemma apply_loop_usage: "usage_le (ds_usage s) (ds_usage (lb_state (apply_loop e s)))"
  by (cases e) (auto simp: usage_le_def arm_defs loop_arm_defs usage_defs saturating_inc_mono
      split: loop_arm_splits)

lemma apply_graph_usage: "usage_le (ds_usage s) (ds_usage (lb_state (apply_graph e s)))"
  by (cases e) (auto simp: usage_le_def arm_defs graph_arm_defs usage_defs graph_step_rejected_def
      intro: saturating_inc_eq_le split: graph_arm_splits)

lemma apply_kind_usage: "usage_le (ds_usage s) (ds_usage (lb_state (apply_kind k s)))"
proof (cases k)
  case (Ev_Loop e)
  then show ?thesis by (simp add: apply_loop_usage)
next
  case (Ev_Graph e)
  then show ?thesis by (simp add: apply_graph_usage)
qed (auto simp: usage_le_def arm_defs usage_defs saturating_inc_mono split: if_splits option.splits sum.splits)

section \<open>apply and replay\<close>

lemma apply_event_Inr_iff:
  "apply_event c e s = Inr t \<longleftrightarrow>
     ev_schema_version e = CURRENT_EVENT_SCHEMA_VERSION
     \<and> ev_run_id e = key_run_id (ds_key s)
     \<and> ev_sequence e = expected_sequence s
     \<and> (\<exists>m bytes. apply_kind (ev_kind e) s = Inr m \<and> to_vec c e = Some bytes
          \<and> t = m\<lparr>ds_event_chain_digest := chain_digest c (ds_event_chain_digest s) bytes,
                  ds_last_sequence := Some (ev_sequence e)\<rparr>)"
proof -
  have dig: "ds_event_chain_digest m = ds_event_chain_digest s" if "apply_kind (ev_kind e) s = Inr m" for m
    using apply_kind_frame [of s "ev_kind e"] that by (simp add: same_frame_def)
  show ?thesis
  proof (cases "apply_kind (ev_kind e) s")
    case (Inl f)
    then show ?thesis by (simp add: apply_event_def reject_def)
  next
    case (Inr m)
    then show ?thesis
      by (cases "to_vec c e") (auto simp: apply_event_def reject_def dig [OF Inr])
  qed
qed

lemma apply_event_cases:
  assumes "apply_event c e s = Inr t"
  obtains m bytes where "apply_kind (ev_kind e) s = Inr m" "to_vec c e = Some bytes"
    "t = m\<lparr>ds_event_chain_digest := chain_digest c (ds_event_chain_digest s) bytes,
            ds_last_sequence := Some (ev_sequence e)\<rparr>"
  using assms unfolding apply_event_Inr_iff by blast

lemma ds_inv_bookkeeping [simp]:
  "ds_inv (m\<lparr>ds_event_chain_digest := d, ds_last_sequence := q\<rparr>) = ds_inv m"
  by (simp add: ds_inv_def graph_inv_def loop_inv_def start_inv_def split: option.split)

text \<open>State changes of an accepted event, as seen from outside.\<close>

lemma apply_event_frame: "apply_event c e s = Inr t \<Longrightarrow> frame_of t = frame_of s"
  using apply_kind_frame [of s "ev_kind e"]
  by (elim apply_event_cases) (simp add: same_frame_def frame_of_def)

lemma apply_event_inv: "ds_inv s \<Longrightarrow> apply_event c e s = Inr t \<Longrightarrow> ds_inv t"
  using apply_kind_inv [of s "ev_kind e"] by (elim apply_event_cases) simp

lemma apply_event_status: "apply_event c e s = Inr t \<Longrightarrow> status_step (ds_status s) (ds_status t)"
  using apply_kind_status [of s "ev_kind e"] by (elim apply_event_cases) simp

lemma apply_event_usage: "apply_event c e s = Inr t \<Longrightarrow> usage_le (ds_usage s) (ds_usage t)"
  using apply_kind_usage [of s "ev_kind e"] by (elim apply_event_cases) simp

lemma apply_event_sequence: "apply_event c e s = Inr t \<Longrightarrow> ds_last_sequence t = Some (ev_sequence e)"
  by (auto simp: apply_event_Inr_iff)

interpretation reducer: journal "apply_event c" ds_inv expected_sequence ev_sequence frame_of
proof (unfold_locales, goal_cases)
  case (1 s e t)
  then show ?case by (rule apply_event_inv)
next
  case (2 e s t)
  then show ?case by (simp add: apply_event_Inr_iff)
next
  case (3 e s t)
  then show ?case by (rule apply_event_frame)
qed

lemma replay_Nil [simp]: "replay c [] s = Inr s"
  by (simp add: replay_def)

lemma replay_Cons: "replay c (e # es) s = lb_then (apply_event c e s) (replay c es)"
  by (simp add: replay_def)

lemma replay_append: "replay c (es @ fs) s = lb_then (replay c es s) (replay c fs)"
  by (simp add: replay_def run_log_append)

lemma replay_frame: "replay c es s = Inr t \<Longrightarrow> frame_of t = frame_of s"
  unfolding replay_def by (rule reducer.frame_run)

lemma replay_inv: "replay c es s = Inr t \<Longrightarrow> ds_inv s \<Longrightarrow> ds_inv t"
  unfolding replay_def by (rule reducer.invar_run)

lemma replay_initial_inv: "replay c es (DurableRunState_initial r) = Inr t \<Longrightarrow> ds_inv t"
  by (rule replay_inv [OF _ initial_inv])

lemma replay_usage: "replay c es s = Inr t \<Longrightarrow> usage_le (ds_usage s) (ds_usage t)"
proof (induction es arbitrary: s)
  case Nil
  then show ?case by simp
next
  case (Cons e es)
  then obtain m where "apply_event c e s = Inr m" "replay c es m = Inr t"
    by (auto simp: replay_Cons lb_then_eq_Inr_iff)
  with Cons.IH show ?case by (blast intro: usage_le_trans apply_event_usage)
qed

text \<open>A finished run keeps its outcome whatever is appended to its log.\<close>

lemma replay_finished:
  "ds_status s = Status_Finished q \<Longrightarrow> replay c es s = Inr t \<Longrightarrow> ds_status t = Status_Finished q"
proof (induction es arbitrary: s)
  case Nil
  then show ?case by simp
next
  case (Cons e es)
  then obtain m where m: "apply_event c e s = Inr m" "replay c es m = Inr t"
    by (auto simp: replay_Cons lb_then_eq_Inr_iff)
  from apply_event_status [OF m(1)] Cons.prems(1) have "ds_status m = Status_Finished q"
    by simp
  with m(2) show ?case by (rule Cons.IH [rotated])
qed

section \<open>Positions in the log\<close>

text \<open>
  \<open>at_position n s\<close>: the state has absorbed \<open>n\<close> events, so it expects sequence number \<open>n\<close>.
\<close>

definition at_position :: "nat \<Rightarrow> durable_run_state \<Rightarrow> bool" where
  "at_position n s \<longleftrightarrow>
     ds_last_sequence s = (if n = 0 then None else Some (of_nat (n - 1))) \<and> n \<le> 2 ^ 64"

lemma at_position_expected:
  assumes "at_position n s" "n < 2 ^ 64"
  shows "expected_sequence s = of_nat n"
proof (cases n)
  case 0
  with assms show ?thesis by (simp add: at_position_def expected_sequence_def)
next
  case (Suc k)
  with assms of_nat_u64_neq_max [of k] show ?thesis
    by (simp add: at_position_def expected_sequence_def checked_next_def checked_inc_def)
qed

lemma at_position_step:
  assumes "at_position n s" "n < 2 ^ 64" "apply_event c e s = Inr t"
  shows "at_position (Suc n) t" and "ev_sequence e = of_nat n"
proof -
  show seq: "ev_sequence e = of_nat n"
    using reducer.in_order [OF assms(3)] at_position_expected [OF assms(1,2)] by simp
  show "at_position (Suc n) t"
    using apply_event_sequence [OF assms(3)] seq assms(2) by (simp add: at_position_def)
qed

lemma replay_positions:
  assumes "replay c es s = Inr t" "at_position n s" "n + length es \<le> 2 ^ 64"
  shows "at_position (n + length es) t
         \<and> (\<forall>i<length es. ev_sequence (es ! i) = of_nat (n + i) \<and> ev_run_id (es ! i) = key_run_id (ds_key s)
              \<and> ev_schema_version (es ! i) = CURRENT_EVENT_SCHEMA_VERSION)"
  using assms
proof (induction es arbitrary: s n)
  case Nil
  then show ?case by simp
next
  case (Cons e es)
  then obtain m where m: "apply_event c e s = Inr m" "replay c es m = Inr t"
    by (auto simp: replay_Cons lb_then_eq_Inr_iff)
  have n: "n < 2 ^ 64" using Cons.prems(3) by simp
  note step = at_position_step [OF Cons.prems(2) n m(1)]
  have key: "ds_key m = ds_key s" using apply_event_frame [OF m(1)] by (simp add: frame_of_def)
  have rest: "at_position (Suc n + length es) t
      \<and> (\<forall>i<length es. ev_sequence (es ! i) = of_nat (Suc n + i) \<and> ev_run_id (es ! i) = key_run_id (ds_key m)
           \<and> ev_schema_version (es ! i) = CURRENT_EVENT_SCHEMA_VERSION)"
    using Cons.IH [OF m(2) step(1)] Cons.prems(3) by simp
  have "ev_run_id e = key_run_id (ds_key s)" "ev_schema_version e = CURRENT_EVENT_SCHEMA_VERSION"
    using m(1) by (simp_all add: apply_event_Inr_iff)
  with rest step(2) key show ?case
    by (auto simp: nth_Cons less_Suc_eq_0_disj split: nat.splits)
qed

lemma initial_position: "at_position 0 (DurableRunState_initial r)"
  by (simp add: at_position_def DurableRunState_initial_def)

section \<open>The event chain digest\<close>

text \<open>
  What the chain relies on: SHA-256 digests have 32 bytes, event encodings are shorter than
  \<open>2 ^ 64\<close> bytes and determine the event (they can be decoded).
\<close>

definition codec_ok :: "codec \<Rightarrow> bool" where
  "codec_ok c \<longleftrightarrow>
     (\<forall>x. length (sha256 c x) = 32)
     \<and> (\<forall>e bytes. to_vec c e = Some bytes \<longrightarrow> length bytes < 2 ^ 64)
     \<and> (\<forall>e f bytes. to_vec c e = Some bytes \<longrightarrow> to_vec c f = Some bytes \<longrightarrow> e = f)"

text \<open>The byte strings that are hashed while a log is absorbed from the digest \<open>d\<close>.\<close>

definition chain_input :: "digest \<Rightarrow> byte list \<Rightarrow> byte list" where
  "chain_input d bytes = d @ to_be_bytes (of_nat (length bytes)) @ bytes"

fun chain_inputs :: "codec \<Rightarrow> digest \<Rightarrow> agent_event list \<Rightarrow> byte list list" where
  "chain_inputs c d [] = []"
| "chain_inputs c d (e # es) =
     (case to_vec c e of
        None \<Rightarrow> []
      | Some b \<Rightarrow> chain_input d b # chain_inputs c (chain_digest c d b) es)"

lemma chain_digest_input: "chain_digest c d b = sha256 c (chain_input d b)"
  by (simp add: chain_digest_def chain_input_def)

lemma chain_input_injective:
  "chain_input d b = chain_input d' b' \<Longrightarrow> length d = 32 \<Longrightarrow> length d' = 32 \<Longrightarrow> d = d' \<and> b = b'"
  by (simp add: chain_input_def)

lemma chain_digest_length: "codec_ok c \<Longrightarrow> length (chain_digest c d b) = 32"
  by (simp add: codec_ok_def chain_digest_def)

lemma apply_event_digest:
  "apply_event c e s = Inr t \<Longrightarrow>
   \<exists>b. to_vec c e = Some b \<and> ds_event_chain_digest t = chain_digest c (ds_event_chain_digest s) b"
  by (auto simp: apply_event_Inr_iff)

lemma replay_digest_length:
  "codec_ok c \<Longrightarrow> replay c es s = Inr t \<Longrightarrow> length (ds_event_chain_digest s) = 32 \<Longrightarrow>
   length (ds_event_chain_digest t) = 32"
proof (induction es arbitrary: s)
  case Nil
  then show ?case by simp
next
  case (Cons e es)
  then obtain m where m: "apply_event c e s = Inr m" "replay c es m = Inr t"
    by (auto simp: replay_Cons lb_then_eq_Inr_iff)
  then have "length (ds_event_chain_digest m) = 32"
    using Cons.prems(1) apply_event_digest [OF m(1)] by (auto simp: chain_digest_length)
  with m(2) Cons show ?case by blast
qed

lemma replay_snoc:
  "replay c (es @ [e]) s = Inr t \<longleftrightarrow> (\<exists>m. replay c es s = Inr m \<and> apply_event c e m = Inr t)"
  by (auto simp: replay_append lb_then_eq_Inr_iff replay_Cons)

lemma chain_inputs_snoc:
  "replay c es s = Inr m \<Longrightarrow> to_vec c e = Some b \<Longrightarrow>
   chain_inputs c (ds_event_chain_digest s) (es @ [e]) =
     chain_inputs c (ds_event_chain_digest s) es @ [chain_input (ds_event_chain_digest m) b]"
proof (induction es arbitrary: s)
  case Nil
  then show ?case by simp
next
  case (Cons f es)
  then obtain n where n: "apply_event c f s = Inr n" "replay c es n = Inr m"
    by (auto simp: replay_Cons lb_then_eq_Inr_iff)
  from apply_event_digest [OF n(1)] Cons.IH [OF n(2) Cons.prems(2)] show ?case by auto
qed

text \<open>Two logs of the same length with the same final digest agree, or two of the hashed strings collide.\<close>

definition hash_clash :: "codec \<Rightarrow> byte list list \<Rightarrow> byte list list \<Rightarrow> bool" where
  "hash_clash c xs ys \<longleftrightarrow> list_ex (\<lambda>x. list_ex (\<lambda>y. x \<noteq> y \<and> sha256 c x = sha256 c y) ys) xs"

lemma hash_clash_mono: "hash_clash c xs ys \<Longrightarrow> hash_clash c (xs @ xs') (ys @ ys')"
  by (auto simp: hash_clash_def list_ex_iff)

lemma replay_digest_determines:
  assumes "codec_ok c" "length (ds_event_chain_digest s) = 32"
    and "replay c es s = Inr t" "replay c fs s = Inr u"
    and "length es = length fs"
    and "ds_event_chain_digest t = ds_event_chain_digest u"
    and "es \<noteq> fs"
  shows "hash_clash c (chain_inputs c (ds_event_chain_digest s) es) (chain_inputs c (ds_event_chain_digest s) fs)"
  using assms(3-7)
proof (induction es arbitrary: fs t u rule: rev_induct)
  case Nil
  then show ?case by simp
next
  case (snoc e es)
  let ?d = "ds_event_chain_digest"
  from snoc.prems(3) obtain gs f where fs: "fs = gs @ [f]"
    by (cases fs rule: rev_cases) auto
  from snoc.prems(1) obtain m where m: "replay c es s = Inr m" "apply_event c e m = Inr t"
    by (auto simp: replay_snoc)
  from snoc.prems(2) fs obtain n where n: "replay c gs s = Inr n" "apply_event c f n = Inr u"
    by (auto simp: replay_snoc)
  obtain b b' where b: "to_vec c e = Some b" "to_vec c f = Some b'"
    and same: "chain_digest c (?d m) b = chain_digest c (?d n) b'"
    using apply_event_digest [OF m(2)] apply_event_digest [OF n(2)] snoc.prems(4) by auto
  note inputs = chain_inputs_snoc [OF m(1) b(1)] chain_inputs_snoc [OF n(1) b(2)]
  show ?case
  proof (cases "chain_input (?d m) b = chain_input (?d n) b'")
    case False
    with same show ?thesis by (simp add: fs inputs hash_clash_def chain_digest_input)
  next
    case True
    then have eq: "?d m = ?d n" "b = b'"
      using chain_input_injective [OF True] replay_digest_length [OF assms(1) _ assms(2)] m(1) n(1) by blast+
    then have "e = f" using b assms(1) unfolding codec_ok_def by blast
    with snoc.prems(3,5) fs have "es \<noteq> gs" "length es = length gs" by auto
    from snoc.IH [OF m(1) n(1) this(2) eq(1) this(1)] show ?thesis
      by (simp add: fs inputs hash_clash_mono)
  qed
qed

end
