(* ===== verification/Run_Context.thy ===== *)
theory Run_Context
  imports Reducer
begin

text \<open>
  The live run context of \<^verbatim>\<open>crates/agent-harness/src/context.rs\<close>: its constructors, the lifecycle
  commits, the five budget reservations, event numbering and reconstruction from durable state.
  A cancellation token is modelled by the flag it holds. The five reservations share one contract,
  the locale \<open>reservation\<close>, and each is an interpretation of it.
\<close>

record run_runtime =
  rt_started_at :: instant
  rt_deadline_at :: instant
  rt_cancelled :: bool

record run_context =
  rc_run_id :: run_id
  rc_session_id :: session_id
  rc_budget :: run_budget
  rc_usage :: budget_usage
  rc_status :: run_status
  rc_next_event_sequence :: event_sequence
  rc_runtime :: "run_runtime option"
  rc_audit_degraded :: bool
  rc_recovery_contract :: recovery_contract
  rc_durable_state :: durable_run_state
  rc_persistence_failed :: bool

datatype (plugins only: code size) run_context_error =
  CE_InvalidState run_state_error
| CE_DeadlineOutOfRange
| CE_WallClockOutOfRange
| CE_RuntimeUnavailable
| CE_EventSequenceExhausted
| CE_DurableTransitionInvalid

section \<open>Construction\<close>

definition context_key :: "run_context \<Rightarrow> run_key" where
  "context_key c = \<lparr>key_run_id = rc_run_id c, key_session_id = rc_session_id c\<rparr>"

definition new_with_recovery_contract ::
  "run_id \<Rightarrow> session_id \<Rightarrow> run_budget \<Rightarrow> recovery_contract \<Rightarrow> run_context" where
  "new_with_recovery_contract r s b contract =
     \<lparr>rc_run_id = r, rc_session_id = s, rc_budget = b,
      rc_usage = BudgetUsage_with_approval_requests 0 0 0 0,
      rc_status = Status_Pending, rc_next_event_sequence = 0, rc_runtime = None,
      rc_audit_degraded = False, rc_recovery_contract = contract,
      rc_durable_state = DurableRunState_initial
        (RunRecord_new \<lparr>key_run_id = r, key_session_id = s\<rparr> b contract),
      rc_persistence_failed = False\<rparr>"

definition RunContext_new :: "run_id \<Rightarrow> session_id \<Rightarrow> run_budget \<Rightarrow> run_context" where
  "RunContext_new r s b = new_with_recovery_contract r s b NonRestartable"

definition RunContext_new_restartable :: "run_id \<Rightarrow> session_id \<Rightarrow> run_budget \<Rightarrow> u32 \<Rightarrow> run_context" where
  "RunContext_new_restartable r s b v = new_with_recovery_contract r s b (Restartable v)"

definition RunContext_new_restartable_retrieval ::
  "run_id \<Rightarrow> session_id \<Rightarrow> run_budget \<Rightarrow> u32 \<Rightarrow> run_context" where
  "RunContext_new_restartable_retrieval r s b v = new_with_recovery_contract r s b (RestartableRetrieval v)"

definition RunContext_new_graph ::
  "run_id \<Rightarrow> session_id \<Rightarrow> run_budget \<Rightarrow> u32 \<Rightarrow> digest \<Rightarrow> run_context" where
  "RunContext_new_graph r s b v d = new_with_recovery_contract r s b (GraphContract v d)"

definition ctx_run_record :: "run_context \<Rightarrow> run_record" where
  "ctx_run_record c = RunRecord_new (context_key c) (rc_budget c) (rc_recovery_contract c)"

section \<open>Lifecycle\<close>

definition commit_running :: "instant \<Rightarrow> system_time \<Rightarrow> (run_context, run_context_error, unit) sx" where
  "commit_running started_at wall_clock c =
     (case RunStatus_start (rc_status c) of
        Inl e \<Rightarrow> (Inl (CE_InvalidState e), c)
      | Inr status \<Rightarrow>
          (case instant_checked_add started_at (max_elapsed (rc_budget c)) of
             None \<Rightarrow> (Inl CE_DeadlineOutOfRange, c)
           | Some deadline \<Rightarrow>
               (case unix_millis wall_clock of
                  None \<Rightarrow> (Inl CE_WallClockOutOfRange, c)
                | Some ms \<Rightarrow>
                    (Inr (), c\<lparr>rc_status := status,
                               rc_runtime := Some \<lparr>rt_started_at = started_at, rt_deadline_at = deadline,
                                                  rt_cancelled = False\<rparr>,
                               rc_durable_state := set_started_at ms (rc_durable_state c)\<rparr>))))"

definition commit_finished :: "run_outcome \<Rightarrow> (run_context, run_context_error, unit) sx" where
  "commit_finished outcome c =
     (case RunStatus_finish (rc_status c) outcome of
        Inl e \<Rightarrow> (Inl (CE_InvalidState e), c)
      | Inr status \<Rightarrow> (Inr (), c\<lparr>rc_status := status\<rparr>))"

definition ctx_started_at_unix_millis :: "run_context \<Rightarrow> run_context_error + u64" where
  "ctx_started_at_unix_millis c =
     (case ds_started_at (rc_durable_state c) of None \<Rightarrow> Inl CE_WallClockOutOfRange | Some v \<Rightarrow> Inr v)"

definition ctx_request_cancel :: "(run_context, run_context_error, unit) sx" where
  "ctx_request_cancel c =
     (case rc_runtime c of
        None \<Rightarrow> (Inl CE_RuntimeUnavailable, c)
      | Some rt \<Rightarrow> (Inr (), c\<lparr>rc_runtime := Some (rt\<lparr>rt_cancelled := True\<rparr>)\<rparr>))"

definition mark_audit_degraded :: "run_context \<Rightarrow> run_context" where
  "mark_audit_degraded c =
     c\<lparr>rc_audit_degraded := True, rc_durable_state := set_audit_degraded (rc_durable_state c)\<rparr>"

definition mark_persistence_failed :: "run_context \<Rightarrow> run_context" where
  "mark_persistence_failed c = c\<lparr>rc_persistence_failed := True\<rparr>"

section \<open>Budget reservations\<close>

definition reserve_model_call :: "(run_context, budget_dimension, unit) sx" where
  "reserve_model_call c =
     (let u = rc_usage c in
      if model_calls u \<ge> max_model_calls (rc_budget c) then (Inl Dim_ModelCalls, c)
      else (Inr (), c\<lparr>rc_usage := with_graph_steps (graph_steps u)
              (BudgetUsage_with_approval_requests (model_calls u + 1) (tool_calls u) (iterations u)
                 (approval_requests u))\<rparr>))"

definition reserve_tool_call :: "(run_context, budget_dimension, unit) sx" where
  "reserve_tool_call c =
     (let u = rc_usage c in
      if tool_calls u \<ge> max_tool_calls (rc_budget c) then (Inl Dim_ToolCalls, c)
      else (Inr (), c\<lparr>rc_usage := with_graph_steps (graph_steps u)
              (BudgetUsage_with_approval_requests (model_calls u) (tool_calls u + 1) (iterations u)
                 (approval_requests u))\<rparr>))"

definition reserve_iteration :: "(run_context, budget_dimension, u32) sx" where
  "reserve_iteration c =
     (let u = rc_usage c in
      if iterations u \<ge> max_iterations (rc_budget c) then (Inl Dim_Iterations, c)
      else (Inr (iterations u + 1), c\<lparr>rc_usage := with_graph_steps (graph_steps u)
              (BudgetUsage_with_approval_requests (model_calls u) (tool_calls u) (iterations u + 1)
                 (approval_requests u))\<rparr>))"

definition reserve_approval_request :: "(run_context, budget_dimension, unit) sx" where
  "reserve_approval_request c =
     (let u = rc_usage c in
      if approval_requests u \<ge> max_approval_requests (rc_budget c) then (Inl Dim_ApprovalRequests, c)
      else (Inr (), c\<lparr>rc_usage := with_graph_steps (graph_steps u)
              (BudgetUsage_with_approval_requests (model_calls u) (tool_calls u) (iterations u)
                 (approval_requests u + 1))\<rparr>))"

definition reserve_graph_step :: "(run_context, budget_dimension, u32) sx" where
  "reserve_graph_step c =
     (let u = rc_usage c; limit = max_graph_steps (rc_budget c) in
      if graph_steps u \<ge> limit \<or> limit = 0 \<or> limit > MAX_GRAPH_STEPS then (Inl Dim_GraphSteps, c)
      else (Inr (graph_steps u + 1), c\<lparr>rc_usage := with_graph_steps (graph_steps u + 1)
              (BudgetUsage_with_approval_requests (model_calls u) (tool_calls u) (iterations u)
                 (approval_requests u))\<rparr>))"

section \<open>Event numbering\<close>

text \<open>The sequence number is taken before the reducer is asked: a rejected event consumes it.\<close>

definition next_event :: "codec \<Rightarrow> agent_event_kind \<Rightarrow> (run_context, run_context_error, agent_event) sx" where
  "next_event cd kind c =
     (let sequence = rc_next_event_sequence c in
      (case checked_next sequence of
         None \<Rightarrow> (Inl CE_EventSequenceExhausted, c)
       | Some n \<Rightarrow>
           let c1 = c\<lparr>rc_next_event_sequence := n\<rparr>;
               event = AgentEvent_new (rc_run_id c) sequence kind
           in (case apply_event cd event (rc_durable_state c1) of
                 Inl (e, left) \<Rightarrow> (Inl CE_DurableTransitionInvalid, c1\<lparr>rc_durable_state := left\<rparr>)
               | Inr s \<Rightarrow> (Inr event, c1\<lparr>rc_durable_state := s\<rparr>))))"

section \<open>Reconstruction from durable state\<close>

definition from_recovery ::
  "durable_run_state \<Rightarrow> duration \<Rightarrow> instant \<Rightarrow> recovery_contract \<Rightarrow> run_context_error + run_context" where
  "from_recovery s elapsed now contract =
     (case duration_checked_sub (max_elapsed (ds_budget s)) elapsed of
        None \<Rightarrow> Inl CE_DeadlineOutOfRange
      | Some remaining \<Rightarrow>
          (case instant_checked_add now remaining of
             None \<Rightarrow> Inl CE_DeadlineOutOfRange
           | Some deadline \<Rightarrow>
               (case (case ds_last_sequence s of None \<Rightarrow> Some 0 | Some q \<Rightarrow> checked_next q) of
                  None \<Rightarrow> Inl CE_EventSequenceExhausted
                | Some next_sequence \<Rightarrow>
                    Inr \<lparr>rc_run_id = key_run_id (ds_key s), rc_session_id = key_session_id (ds_key s),
                         rc_budget = ds_budget s, rc_usage = ds_usage s, rc_status = ds_status s,
                         rc_next_event_sequence = next_sequence,
                         rc_runtime = (if ds_status s = Status_Running
                            then Some \<lparr>rt_started_at = now, rt_deadline_at = deadline, rt_cancelled = False\<rparr>
                            else None),
                         rc_audit_degraded = ds_audit_degraded s,
                         rc_recovery_contract = contract,
                         rc_durable_state = s,
                         rc_persistence_failed = False\<rparr>)))"

section \<open>The reservation contract\<close>

fun reserve_times :: "nat \<Rightarrow> ('s, 'e, 'a) sx \<Rightarrow> 's \<Rightarrow> ('e + 'a) list \<times> 's" where
  "reserve_times 0 r s = ([], s)"
| "reserve_times (Suc n) r s = (let (v, t) = r s; (vs, u) = reserve_times n r t in (v # vs, u))"

text \<open>
  What \<open>n\<close> calls answer and leave: as many grants as there are units left, numbered from the next one on, then refusals
  in the dimension; the counter has gone up by the grants.
\<close>

definition grants_exactly ::
  "(run_context, budget_dimension, 'a) sx \<Rightarrow> (run_context \<Rightarrow> u32) \<Rightarrow> (run_context \<Rightarrow> u32) \<Rightarrow> (u32 \<Rightarrow> 'a) \<Rightarrow> budget_dimension \<Rightarrow>
   nat \<Rightarrow> run_context \<Rightarrow> bool" where
  "grants_exactly reserve used limit answer dimension n c \<longleftrightarrow>
     (let granted = min n (unat (limit c) - unat (used c)); (answers, d) = reserve_times n reserve c in
      answers = map (\<lambda>i. Inr (answer (used c + of_nat (Suc i)))) [0..<granted] @ replicate (n - granted) (Inl dimension)
      \<and> unat (used d) = unat (used c) + granted)"

locale reservation =
  fixes reserve :: "(run_context, budget_dimension, 'a) sx"
    and used :: "run_context \<Rightarrow> u32"
    and limit :: "run_context \<Rightarrow> u32"
    and enabled :: "run_context \<Rightarrow> bool"
    and answer :: "u32 \<Rightarrow> 'a"
    and dimension :: budget_dimension
  assumes grant: "enabled c \<Longrightarrow> used c < limit c \<Longrightarrow>
      fst (reserve c) = Inr (answer (used c + 1)) \<and> used (snd (reserve c)) = used c + 1"
    and refuse: "\<not> (enabled c \<and> used c < limit c) \<Longrightarrow> reserve c = (Inl dimension, c)"
    and stable: "limit (snd (reserve c)) = limit c \<and> enabled (snd (reserve c)) = enabled c"
begin

lemma bounded: "used c \<le> limit c \<Longrightarrow> used (snd (reserve c)) \<le> limit (snd (reserve c))"
  using grant [of c] refuse [of c] stable [of c]
  by (cases "enabled c \<and> used c < limit c") (auto simp: inc_le)

lemma granted_iff: "(\<exists>v. fst (reserve c) = Inr v) \<longleftrightarrow> enabled c \<and> used c < limit c"
  using grant [of c] refuse [of c] by (cases "enabled c \<and> used c < limit c") auto

lemma refused_times: "\<not> (enabled c \<and> used c < limit c) \<Longrightarrow> reserve_times n reserve c = (replicate n (Inl dimension), c)"
  by (induction n) (simp_all add: refuse)

text \<open>However often it is called, exactly the units left in the budget are granted.\<close>

lemma exact:
  assumes "enabled c" "used c \<le> limit c"
  shows "grants_exactly reserve used limit answer dimension n c"
  using assms
proof (induction n arbitrary: c)
  case 0
  then show ?case by (simp add: grants_exactly_def)
next
  case (Suc n)
  show ?case
  proof (cases "used c < limit c")
    case True
    let ?d = "snd (reserve c)" and ?left = "\<lambda>c. unat (limit c) - unat (used c)"
    note r = grant [OF Suc.prems(1) True]
    have d: "enabled ?d" "used ?d \<le> limit ?d" "limit ?d = limit c"
      using Suc.prems stable [of c] bounded [of c] by simp_all
    have "used c \<noteq> - 1" using True word_order.extremum_strict by metis
    with r have u: "unat (used ?d) = Suc (unat (used c))" by (simp add: unat_inc)
    with True d(3) have left: "?left c = Suc (?left ?d)" by (simp add: word_less_nat_alt)
    have eq: "reserve c = (Inr (answer (used c + 1)), ?d)" using r by (simp add: prod_eq_iff)
    obtain vs e where vs: "reserve_times n reserve ?d = (vs, e)" by fastforce
    have "reserve_times (Suc n) reserve c = (Inr (answer (used c + 1)) # vs, e)"
      using vs by (subst reserve_times.simps, subst eq) simp
    with Suc.IH [OF d(1,2)] vs u left r show ?thesis
      by (simp add: grants_exactly_def Let_def upt_conv_Cons map_Suc_upt [symmetric] add.assoc del: upt_Suc)
  next
    case False
    with Suc.prems refused_times [of c "Suc n"] show ?thesis
      by (simp add: grants_exactly_def word_less_nat_alt del: reserve_times.simps)
  qed
qed

end

lemmas reserve_defs =
  reserve_model_call_def reserve_tool_call_def reserve_iteration_def reserve_approval_request_def
  reserve_graph_step_def

interpretation model_budget: reservation reserve_model_call
  "\<lambda>c. model_calls (rc_usage c)" "\<lambda>c. max_model_calls (rc_budget c)" "\<lambda>c. True" "\<lambda>_. ()" Dim_ModelCalls
  by unfold_locales (auto simp: reserve_defs usage_defs Let_def not_less)

interpretation tool_budget: reservation reserve_tool_call
  "\<lambda>c. tool_calls (rc_usage c)" "\<lambda>c. max_tool_calls (rc_budget c)" "\<lambda>c. True" "\<lambda>_. ()" Dim_ToolCalls
  by unfold_locales (auto simp: reserve_defs usage_defs Let_def not_less)

interpretation iteration_budget: reservation reserve_iteration
  "\<lambda>c. iterations (rc_usage c)" "\<lambda>c. max_iterations (rc_budget c)" "\<lambda>c. True" "\<lambda>n. n" Dim_Iterations
  by unfold_locales (auto simp: reserve_defs usage_defs Let_def not_less)

interpretation approval_budget: reservation reserve_approval_request
  "\<lambda>c. approval_requests (rc_usage c)" "\<lambda>c. max_approval_requests (rc_budget c)" "\<lambda>c. True"
  "\<lambda>_. ()" Dim_ApprovalRequests
  by unfold_locales (auto simp: reserve_defs usage_defs Let_def not_less)

interpretation graph_budget: reservation reserve_graph_step
  "\<lambda>c. graph_steps (rc_usage c)" "\<lambda>c. max_graph_steps (rc_budget c)"
  "\<lambda>c. max_graph_steps (rc_budget c) \<noteq> 0 \<and> max_graph_steps (rc_budget c) \<le> MAX_GRAPH_STEPS" "\<lambda>n. n" Dim_GraphSteps
  by unfold_locales (auto simp: reserve_defs usage_defs Let_def not_less)

section \<open>The context and its durable state\<close>

definition within_budget :: "run_context \<Rightarrow> bool" where
  "within_budget c \<longleftrightarrow>
     model_calls (rc_usage c) \<le> max_model_calls (rc_budget c)
     \<and> tool_calls (rc_usage c) \<le> max_tool_calls (rc_budget c)
     \<and> iterations (rc_usage c) \<le> max_iterations (rc_budget c)
     \<and> approval_requests (rc_usage c) \<le> max_approval_requests (rc_budget c)
     \<and> graph_steps (rc_usage c) \<le> max_graph_steps (rc_budget c)"

lemma within_budget_new: "within_budget (new_with_recovery_contract r s b k)"
  by (simp add: within_budget_def new_with_recovery_contract_def usage_defs)

lemma reserve_within_budget [keeps_rules]:
  "keeps within_budget reserve_model_call"
  "keeps within_budget reserve_tool_call"
  "keeps within_budget reserve_iteration"
  "keeps within_budget reserve_approval_request"
  "keeps within_budget reserve_graph_step"
  by (auto simp: keeps_def within_budget_def reserve_defs usage_defs Let_def not_le inc_le)

text \<open>
  The runtime and the journal agree on the next sequence number as long as no event was
  rejected. \<open>ahead\<close> is the state after a rejected event: the runtime's counter has moved on.
\<close>

definition in_step :: "run_context \<Rightarrow> bool" where
  "in_step c \<longleftrightarrow> rc_next_event_sequence c = expected_sequence (rc_durable_state c)
     \<and> rc_run_id c = key_run_id (ds_key (rc_durable_state c))"

definition ahead :: "run_context \<Rightarrow> bool" where
  "ahead c \<longleftrightarrow> unat (expected_sequence (rc_durable_state c)) < unat (rc_next_event_sequence c)"

lemma lb_state_apply_event_frame:
  assumes "apply_event cd e s = Inl (f, t)"
  shows "frame_of t = frame_of s \<and> ds_last_sequence t = ds_last_sequence s"
proof -
  consider "t = s" | "t = lb_state (apply_kind (ev_kind e) s)"
  proof (cases "apply_kind (ev_kind e) s")
    case (Inl g)
    with assms show ?thesis using that
      by (cases g) (auto simp: apply_event_def reject_def split: if_splits)
  next
    case (Inr m)
    with assms show ?thesis using that
      by (auto simp: apply_event_def reject_def split: if_splits option.splits)
  qed
  then show ?thesis
    using apply_kind_frame [of s "ev_kind e"] by cases (simp_all add: same_frame_def)
qed

lemma next_event_ok:
  "next_event cd kind c = (Inr e, d) \<longleftrightarrow>
     (\<exists>n s. checked_next (rc_next_event_sequence c) = Some n
        \<and> e = AgentEvent_new (rc_run_id c) (rc_next_event_sequence c) kind
        \<and> apply_event cd e (rc_durable_state c) = Inr s
        \<and> d = c\<lparr>rc_next_event_sequence := n, rc_durable_state := s\<rparr>)"
proof (cases "checked_next (rc_next_event_sequence c)")
  case None
  then show ?thesis by (simp add: next_event_def)
next
  case (Some n)
  then show ?thesis
    by (cases "apply_event cd (AgentEvent_new (rc_run_id c) (rc_next_event_sequence c) kind) (rc_durable_state c)")
       (auto simp: next_event_def)
qed

lemma next_event_rejected:
  assumes "next_event cd kind c = (Inl CE_DurableTransitionInvalid, d)"
  obtains n f s where "checked_next (rc_next_event_sequence c) = Some n"
    "apply_event cd (AgentEvent_new (rc_run_id c) (rc_next_event_sequence c) kind) (rc_durable_state c) = Inl (f, s)"
    "d = c\<lparr>rc_next_event_sequence := n, rc_durable_state := s\<rparr>"
proof (cases "checked_next (rc_next_event_sequence c)")
  case None
  with assms show ?thesis by (simp add: next_event_def)
next
  case (Some n)
  with assms that show ?thesis
    by (cases "apply_event cd (AgentEvent_new (rc_run_id c) (rc_next_event_sequence c) kind) (rc_durable_state c)")
       (auto simp: next_event_def)
qed

lemma next_event_in_step:
  assumes "next_event cd kind c = (Inr e, d)" "in_step c"
  shows "in_step d"
proof -
  from assms(1) obtain n s where n: "checked_next (rc_next_event_sequence c) = Some n"
    and e: "e = AgentEvent_new (rc_run_id c) (rc_next_event_sequence c) kind"
    and s: "apply_event cd e (rc_durable_state c) = Inr s"
    and d: "d = c\<lparr>rc_next_event_sequence := n, rc_durable_state := s\<rparr>"
    by (auto simp: next_event_ok)
  have "expected_sequence s = n"
    using apply_event_sequence [OF s] n e by (simp add: expected_sequence_def)
  moreover have "ds_key s = ds_key (rc_durable_state c)"
    using apply_event_frame [OF s] by (simp add: frame_of_def)
  ultimately show ?thesis using assms(2) d by (simp add: in_step_def)
qed

lemma next_event_rejected_ahead:
  assumes "next_event cd kind c = (Inl CE_DurableTransitionInvalid, d)" "in_step c"
  shows "ahead d"
proof -
  from assms(1) obtain n f s where n: "checked_next (rc_next_event_sequence c) = Some n"
    and s: "apply_event cd (AgentEvent_new (rc_run_id c) (rc_next_event_sequence c) kind) (rc_durable_state c) = Inl (f, s)"
    and d: "d = c\<lparr>rc_next_event_sequence := n, rc_durable_state := s\<rparr>"
    by (rule next_event_rejected)
  have "expected_sequence s = rc_next_event_sequence c"
    using lb_state_apply_event_frame [OF s] assms(2) by (simp add: in_step_def expected_sequence_def)
  moreover have "unat n = Suc (unat (rc_next_event_sequence c))"
    using n by (simp add: checked_next_def checked_inc_unat)
  ultimately show ?thesis by (simp add: ahead_def d)
qed

text \<open>Once ahead, every further event is refused and the context stays ahead.\<close>

lemma ahead_refuses:
  assumes "ahead c"
  shows "\<exists>e d. next_event cd kind c = (Inl e, d) \<and> ahead d"
proof (cases "checked_next (rc_next_event_sequence c)")
  case None
  with assms show ?thesis by (simp add: next_event_def)
next
  case (Some n)
  let ?e = "AgentEvent_new (rc_run_id c) (rc_next_event_sequence c) kind"
  have "ev_sequence ?e \<noteq> expected_sequence (rc_durable_state c)"
    using assms by (auto simp: ahead_def)
  then obtain f s where s: "apply_event cd ?e (rc_durable_state c) = Inl (f, s)"
    using reducer.in_order [of cd ?e "rc_durable_state c"] by (cases "apply_event cd ?e (rc_durable_state c)") auto
  have n: "unat n = Suc (unat (rc_next_event_sequence c))"
    using Some by (simp add: checked_next_def checked_inc_unat)
  have "expected_sequence s = expected_sequence (rc_durable_state c)"
    using lb_state_apply_event_frame [OF s] by (simp add: expected_sequence_def)
  with assms n have "ahead (c\<lparr>rc_next_event_sequence := n, rc_durable_state := s\<rparr>)"
    by (simp add: ahead_def)
  with Some s show ?thesis by (simp add: next_event_def)
qed

end
