(* ===== verification/Recovery.thy ===== *)
theory Recovery
  imports Run_Context
begin

text \<open>
  Recovery of a persisted run, \<^verbatim>\<open>recover_loaded_run\<close> of \<^verbatim>\<open>crates/agent-harness/src/recovery.rs\<close>: the
  version checks, the scan that validates the log and replays it up to the checkpoint, the checkpoint
  comparison, the replay of the tail and the classification into a recovery disposition. The
  lemmas relate it to the plain replay of the whole log from the initial state.
\<close>

section \<open>Loaded runs and dispositions\<close>

record durable_checkpoint =
  cp_schema_version :: u16
  cp_state :: durable_run_state

definition DurableCheckpoint_new :: "durable_run_state \<Rightarrow> durable_checkpoint" where
  "DurableCheckpoint_new s =
     \<lparr>cp_schema_version = CURRENT_CHECKPOINT_SCHEMA_VERSION, cp_state = s\<rparr>"

record loaded_run =
  lr_record :: run_record
  lr_checkpoint :: durable_checkpoint
  lr_events :: "agent_event list"

datatype (plugins only: code size) manual_reconciliation_reason =
  Manual_UnresolvedEffect pending_effect
| Manual_NonRestartableProgram
| Manual_TransientStateUnavailable

datatype (plugins only: code size) recovery_disposition =
  Disp_Completed durable_run_state
| Disp_TerminalFailure durable_run_state run_outcome
| Disp_Resumable run_context durable_run_state recovery_contract
| Disp_Waiting run_context durable_run_state recovery_contract
| Disp_Manual durable_run_state manual_reconciliation_reason

datatype (plugins only: code size) recovery_error =
  RE_UnsupportedOrInconsistentSchema | RE_CorruptLog | RE_CorruptCheckpoint | RE_ClockAmbiguous
| RE_InvalidRuntime

section \<open>Validating the log against the checkpoint\<close>

definition schema_consistent :: "loaded_run \<Rightarrow> bool" where
  "schema_consistent l \<longleftrightarrow>
     rr_store_schema_version (lr_record l) = CURRENT_STORE_SCHEMA_VERSION
     \<and> rr_checkpoint_schema_version (lr_record l) = CURRENT_CHECKPOINT_SCHEMA_VERSION
     \<and> cp_schema_version (lr_checkpoint l) = CURRENT_CHECKPOINT_SCHEMA_VERSION
     \<and> ds_key (cp_state (lr_checkpoint l)) = rr_key (lr_record l)
     \<and> ds_budget (cp_state (lr_checkpoint l)) = rr_budget (lr_record l)"

text \<open>
  The first loop. \<open>at\<close> is the checkpoint's sequence number, \<open>target\<close> its state, \<open>expected\<close> the next
  sequence number and \<open>state\<close> the replayed state; it returns the error of the first bad event.
\<close>

fun scan_log ::
  "codec \<Rightarrow> run_key \<Rightarrow> event_sequence option \<Rightarrow> durable_run_state \<Rightarrow> agent_event list \<Rightarrow>
   event_sequence \<Rightarrow> durable_run_state \<Rightarrow> recovery_error option" where
  "scan_log c k at target [] expected state = None"
| "scan_log c k at target (e # es) expected state =
     (if ev_run_id e \<noteq> key_run_id k \<or> ev_schema_version e \<noteq> CURRENT_EVENT_SCHEMA_VERSION
         \<or> ev_sequence e \<noteq> expected
      then Some RE_CorruptLog
      else if (case at of None \<Rightarrow> False | Some q \<Rightarrow> ev_sequence e \<le> q)
      then (case apply_event c e state of
              Inl _ \<Rightarrow> Some RE_CorruptLog
            | Inr state1 \<Rightarrow>
                if at = Some (ev_sequence e) \<and> state1 \<noteq> target then Some RE_CorruptCheckpoint
                else (case checked_next expected of
                        None \<Rightarrow> Some RE_CorruptLog
                      | Some n \<Rightarrow> scan_log c k at target es n state1))
      else (case checked_next expected of
              None \<Rightarrow> Some RE_CorruptLog
            | Some n \<Rightarrow> scan_log c k at target es n state))"

text \<open>The event at the checkpoint's position must carry the checkpoint's sequence number.\<close>

definition checkpoint_in_log :: "event_sequence option \<Rightarrow> agent_event list \<Rightarrow> bool" where
  "checkpoint_in_log at es \<longleftrightarrow>
     (case at of None \<Rightarrow> True
      | Some q \<Rightarrow> unat q < length es \<and> ev_sequence (es ! unat q) = q)"

definition tail_start :: "event_sequence option \<Rightarrow> nat" where
  "tail_start at = (case at of None \<Rightarrow> 0 | Some q \<Rightarrow> unat (saturating_inc q))"

section \<open>Classification\<close>

fun waiting_elapsed :: "durable_run_state \<Rightarrow> u64 option" where
  "waiting_elapsed s =
     (case map_option gs_position (ds_graph s) of
        Some (Pos_Waiting _ _ _ _ _ _ _ active) \<Rightarrow> Some active
      | _ \<Rightarrow> None)"

definition retrieval_restart :: "recovery_contract \<Rightarrow> durable_run_state \<Rightarrow> bool" where
  "retrieval_restart contract s \<longleftrightarrow>
     (case contract of RestartableRetrieval _ \<Rightarrow> True | _ \<Rightarrow> False)
     \<and> ds_loop_position s = Loop_PhaseRunning Phase_Retrieve
     \<and> ds_restartable_knowledge_retrieval s \<noteq> None"

definition graph_restart :: "recovery_contract \<Rightarrow> durable_run_state \<Rightarrow> bool" where
  "graph_restart contract s \<longleftrightarrow>
     (case contract of
        GraphContract _ d \<Rightarrow>
          (case ds_graph s of None \<Rightarrow> False | Some g \<Rightarrow> gs_definition_digest g = d \<and> can_resume g)
      | _ \<Rightarrow> False)"

definition classify_running ::
  "recovery_contract \<Rightarrow> durable_run_state \<Rightarrow> u64 \<Rightarrow> instant \<Rightarrow> recovery_error + recovery_disposition" where
  "classify_running contract s now_millis now =
     (case ds_started_at s of
        None \<Rightarrow> Inl RE_CorruptCheckpoint
      | Some started \<Rightarrow>
          (case checked_sub now_millis started of
             None \<Rightarrow> Inl RE_ClockAmbiguous
           | Some elapsed_millis \<Rightarrow>
               if (case waiting_elapsed s of None \<Rightarrow> False | Some active \<Rightarrow> elapsed_millis < active)
               then Inl RE_ClockAmbiguous
               else
                 let elapsed = duration_from_millis
                       (case waiting_elapsed s of None \<Rightarrow> elapsed_millis | Some active \<Rightarrow> active)
                 in if elapsed \<ge> max_elapsed (ds_budget s)
                    then Inr (Disp_TerminalFailure s (Outcome_BudgetExceeded Dim_Elapsed))
                    else if waiting_elapsed s \<noteq> None
                    then (case from_recovery s elapsed now contract of
                            Inl _ \<Rightarrow> Inl RE_InvalidRuntime
                          | Inr ctx \<Rightarrow> Inr (Disp_Waiting ctx s contract))
                    else if contract = NonRestartable
                    then Inr (Disp_Manual s Manual_NonRestartableProgram)
                    else if \<not> retrieval_restart contract s
                            \<and> \<not> graph_restart contract s
                            \<and> ds_continuation s \<notin> {InitialBoundary, RestartableBoundary}
                    then Inr (Disp_Manual s Manual_TransientStateUnavailable)
                    else (case from_recovery s elapsed now contract of
                            Inl _ \<Rightarrow> Inl RE_InvalidRuntime
                          | Inr ctx \<Rightarrow> Inr (Disp_Resumable ctx s contract))))"

definition classify ::
  "recovery_contract \<Rightarrow> durable_run_state \<Rightarrow> u64 \<Rightarrow> instant \<Rightarrow> recovery_error + recovery_disposition" where
  "classify contract s now_millis now =
     (case ds_pending_effects s of
        effect # _ \<Rightarrow> Inr (Disp_Manual s (Manual_UnresolvedEffect effect))
      | [] \<Rightarrow>
          (case ds_status s of
             Status_Finished Outcome_Completed \<Rightarrow> Inr (Disp_Completed s)
           | Status_Finished outcome \<Rightarrow> Inr (Disp_TerminalFailure s outcome)
           | Status_Pending \<Rightarrow> Inr (Disp_Manual s Manual_TransientStateUnavailable)
           | Status_Running \<Rightarrow> classify_running contract s now_millis now))"

section \<open>recover_loaded_run\<close>

definition recover_loaded_run ::
  "codec \<Rightarrow> loaded_run \<Rightarrow> u64 \<Rightarrow> instant \<Rightarrow> recovery_error + recovery_disposition" where
  "recover_loaded_run c l now_millis now =
     (let r = lr_record l; es = lr_events l;
          target = cp_state (lr_checkpoint l); at = ds_last_sequence target
      in
      if \<not> schema_consistent l then Inl RE_UnsupportedOrInconsistentSchema
      else (case scan_log c (rr_key r) at target es 0 (DurableRunState_initial r) of
              Some e \<Rightarrow> Inl e
            | None \<Rightarrow>
                if \<not> checkpoint_in_log at es then Inl RE_CorruptCheckpoint
                else if at = None \<and> target \<noteq> DurableRunState_initial r then Inl RE_CorruptCheckpoint
                else if tail_start at > length es then Inl RE_CorruptLog
                else (case replay c (drop (tail_start at) es) target of
                        Inl _ \<Rightarrow> Inl RE_CorruptLog
                      | Inr s \<Rightarrow> classify (rr_recovery_contract r) s now_millis now)))"

fun disposition_state :: "recovery_disposition \<Rightarrow> durable_run_state" where
  "disposition_state (Disp_Completed s) = s"
| "disposition_state (Disp_TerminalFailure s _) = s"
| "disposition_state (Disp_Resumable _ s _) = s"
| "disposition_state (Disp_Waiting _ s _) = s"
| "disposition_state (Disp_Manual s _) = s"

section \<open>The scan replays the prefix\<close>

text \<open>
  A scan that accepts has checked that the events are numbered from \<open>expected\<close> on and, when the
  checkpoint lies at offset \<open>m\<close>, that the prefix of length \<open>m + 1\<close> replays to its state.
\<close>

lemma scan_log_sound:
  assumes "scan_log c k at target es (of_nat n) s = None" "n + length es < 2 ^ 64"
  shows "\<forall>i<length es. ev_sequence (es ! i) = of_nat (n + i)"
    and "\<And>m. at = Some (of_nat (n + m)) \<Longrightarrow> m < length es \<Longrightarrow> replay c (take (Suc m) es) s = Inr target"
  using assms
proof (induction es arbitrary: n s)
  case Nil
  {
    case 1
    then show ?case by simp
  next
    case 2
    then show ?case by simp
  }
next
  case (Cons e es)
  have len: "Suc n + length es < 2 ^ 64" if "n + length (e # es) < 2 ^ 64" for n using that by simp
  have step: "\<exists>t. scan_log c k at target es (of_nat (Suc n)) t = None
      \<and> ((case at of None \<Rightarrow> False | Some q \<Rightarrow> ev_sequence e \<le> q) \<longrightarrow> apply_event c e s = Inr t
          \<and> (at = Some (ev_sequence e) \<longrightarrow> t = target))"
    and seq: "ev_sequence e = of_nat n"
    if "scan_log c k at target (e # es) (of_nat n) s = None" for n s
    using that
    by (auto simp: checked_next_def checked_inc_def add.commute split: if_splits sum.splits option.splits)
  {
    case (1 n s)
    from step [OF 1(1)] obtain t where "scan_log c k at target es (of_nat (Suc n)) t = None" by blast
    from Cons.IH(1) [OF this len [OF 1(2)]] seq [OF 1(1)] show ?case
      by (auto simp: nth_Cons split: nat.splits)
  next
    case (2 m n s)
    from step [OF 2(3)] obtain t where t: "scan_log c k at target es (of_nat (Suc n)) t = None"
      and t2: "(case at of None \<Rightarrow> False | Some q \<Rightarrow> ev_sequence e \<le> q) \<longrightarrow> apply_event c e s = Inr t
          \<and> (at = Some (ev_sequence e) \<longrightarrow> t = target)" by blast
    have "(of_nat n :: u64) \<le> of_nat (n + m)"
      using 2(2,4) by (intro of_nat_u64_le) simp_all
    then have applied: "apply_event c e s = Inr t" and hit: "m = 0 \<Longrightarrow> t = target"
      using t2 seq [OF 2(3)] 2(1) by simp_all
    show ?case
    proof (cases m)
      case 0
      with applied hit show ?thesis by (simp add: replay_Cons)
    next
      case (Suc j)
      have "replay c (take (Suc j) es) t = Inr target"
        using Cons.IH(2) [OF _ _ t len [OF 2(4)], of j] 2(1,2) Suc by simp
      with applied Suc show ?thesis by (simp add: replay_Cons)
    qed
  }
qed

lemma scan_log_length:
  "scan_log c k at target es (of_nat n) s = None \<Longrightarrow> n < 2 ^ 64 \<Longrightarrow> n + length es < 2 ^ 64"
proof (induction es arbitrary: n s)
  case Nil
  then show ?case by simp
next
  case (Cons e es)
  obtain t where t: "scan_log c k at target es (of_nat (Suc n)) t = None" and max: "(of_nat n :: u64) \<noteq> - 1"
    using Cons.prems(1)
    by (auto simp: checked_next_def checked_inc_def add.commute split: if_splits sum.splits option.splits)
  have "Suc n \<noteq> 2 ^ 64"
  proof
    assume "Suc n = 2 ^ 64"
    then have "n = 2 ^ 64 - 1" by simp
    with max show False by simp
  qed
  with Cons.prems(2) have "Suc n < 2 ^ 64" by simp
  from Cons.IH [OF t this] show ?case by simp
qed

text \<open>Conversely, a log of well-numbered events whose prefix replays to the checkpoint is accepted.\<close>

definition numbered_from :: "nat \<Rightarrow> run_key \<Rightarrow> agent_event list \<Rightarrow> bool" where
  "numbered_from n k es \<longleftrightarrow>
     (\<forall>i<length es. ev_sequence (es ! i) = of_nat (n + i) \<and> ev_run_id (es ! i) = key_run_id k
        \<and> ev_schema_version (es ! i) = CURRENT_EVENT_SCHEMA_VERSION)"

lemma numbered_from_Cons:
  "numbered_from n k (e # es) \<longleftrightarrow>
     ev_sequence e = of_nat n \<and> ev_run_id e = key_run_id k
     \<and> ev_schema_version e = CURRENT_EVENT_SCHEMA_VERSION \<and> numbered_from (Suc n) k es"
  by (auto simp: numbered_from_def nth_Cons less_Suc_eq_0_disj split: nat.splits)

lemma scan_log_past:
  assumes "numbered_from n k es" "n + length es < 2 ^ 64" "\<And>q. at = Some q \<Longrightarrow> unat q < n"
  shows "scan_log c k at target es (of_nat n) s = None"
  using assms
proof (induction es arbitrary: n s)
  case Nil
  then show ?case by simp
next
  case (Cons e es)
  have e: "ev_sequence e = of_nat n" "ev_run_id e = key_run_id k"
    "ev_schema_version e = CURRENT_EVENT_SCHEMA_VERSION" "numbered_from (Suc n) k es"
    using Cons.prems(1) by (simp_all add: numbered_from_Cons)
  have past: "\<not> (case at of None \<Rightarrow> False | Some q \<Rightarrow> (of_nat n :: u64) \<le> q)"
    using Cons.prems(2,3) by (auto simp: word_le_nat_alt unat_of_nat_u64 split: option.splits)
  have "scan_log c k at target es (of_nat (Suc n)) s = None"
    using Cons.IH [OF e(4)] Cons.prems(2,3) by fastforce
  moreover have "checked_next (of_nat n) = Some (of_nat (Suc n))"
    using of_nat_u64_neq_max [of n] Cons.prems(2) by (simp add: checked_next_def checked_inc_def add.commute)
  ultimately show ?case using e past by (auto split: option.splits)
qed

lemma scan_log_complete:
  assumes "numbered_from n k es" "n + length es < 2 ^ 64"
    and "replay c (take (Suc m) es) s = Inr target" "m < length es" "at = Some (of_nat (n + m))"
  shows "scan_log c k at target es (of_nat n) s = None"
  using assms
proof (induction es arbitrary: n m s)
  case Nil
  then show ?case by simp
next
  case (Cons e es)
  have e: "ev_sequence e = of_nat n" "ev_run_id e = key_run_id k"
    "ev_schema_version e = CURRENT_EVENT_SCHEMA_VERSION" "numbered_from (Suc n) k es"
    using Cons.prems(1) by (simp_all add: numbered_from_Cons)
  have reached: "(of_nat n :: u64) \<le> of_nat (n + m)"
    using Cons.prems(2,4) by (intro of_nat_u64_le) simp_all
  have next_n: "checked_next (of_nat n) = Some (of_nat (Suc n))"
    using of_nat_u64_neq_max [of n] Cons.prems(2) by (simp add: checked_next_def checked_inc_def add.commute)
  obtain t where t: "apply_event c e s = Inr t" "replay c (take m es) t = Inr target"
    using Cons.prems(3) by (auto simp: replay_Cons lb_then_eq_Inr_iff)
  show ?case
  proof (cases m)
    case 0
    have "scan_log c k at target es (of_nat (Suc n)) t = None"
      using 0 Cons.prems(2,5) by (intro scan_log_past e(4)) (simp_all add: unat_of_nat_u64)
    with 0 t e next_n Cons.prems(5) reached show ?thesis by simp
  next
    case (Suc j)
    have "scan_log c k at target es (of_nat (Suc n)) t = None"
      using Cons.IH [OF e(4), of j t] Cons.prems Suc t(2) by simp
    moreover have "at \<noteq> Some (of_nat n)"
    proof
      assume "at = Some (of_nat n)"
      then have "unat (of_nat (n + m) :: u64) = unat (of_nat n :: u64)" using Cons.prems(5) by simp
      moreover have "unat (of_nat (n + m) :: u64) = n + m" "unat (of_nat n :: u64) = n"
        using Cons.prems(2,4) by (intro unat_of_nat_u64; simp)+
      ultimately show False using Suc by simp
    qed
    ultimately show ?thesis using t(1) e next_n Cons.prems(5) reached by simp
  qed
qed

section \<open>Recovery and replay\<close>

lemma tail_start_Some: "Suc m < 2 ^ 64 \<Longrightarrow> tail_start (Some (of_nat m)) = Suc m"
  using of_nat_u64_neq_max [of m] unat_of_nat_u64 [of "Suc m"]
  by (simp add: tail_start_def saturating_inc_def add.commute)

lemma recover_via_replay:
  assumes "recover_loaded_run c l now_millis now = Inr d"
  shows "\<exists>s. replay c (lr_events l) (DurableRunState_initial (lr_record l)) = Inr s
           \<and> classify (rr_recovery_contract (lr_record l)) s now_millis now = Inr d"
proof -
  let ?es = "lr_events l" and ?r = "lr_record l" and ?target = "cp_state (lr_checkpoint l)"
  let ?at = "ds_last_sequence ?target" and ?init = "DurableRunState_initial ?r"
  from assms have scan: "scan_log c (rr_key ?r) ?at ?target ?es (of_nat 0) ?init = None"
    and in_log: "checkpoint_in_log ?at ?es"
    and none: "?at = None \<longrightarrow> ?target = ?init"
    and tail: "\<exists>s. replay c (drop (tail_start ?at) ?es) ?target = Inr s
                 \<and> classify (rr_recovery_contract ?r) s now_millis now = Inr d"
    by (auto simp: recover_loaded_run_def Let_def split: if_splits option.splits sum.splits)
  have len: "length ?es < 2 ^ 64" using scan_log_length [OF scan] by simp
  have prefix: "replay c (take (tail_start ?at) ?es) ?init = Inr ?target"
  proof (cases ?at)
    case None
    with none show ?thesis by (simp add: tail_start_def)
  next
    case (Some q)
    with in_log have q: "unat q < length ?es" by (simp add: checkpoint_in_log_def)
    have "q = of_nat (unat q)" by simp
    with q len have "tail_start ?at = Suc (unat q)"
      using tail_start_Some [of "unat q"] Some by simp
    moreover have "replay c (take (Suc (unat q)) ?es) ?init = Inr ?target"
      using Some q len by (intro scan_log_sound(2) [OF scan]) simp_all
    ultimately show ?thesis by simp
  qed
  from tail prefix show ?thesis
    using replay_append [of c "take (tail_start ?at) ?es" "drop (tail_start ?at) ?es" ?init] by simp
qed

lemma recover_honest:
  assumes replays: "replay c es (DurableRunState_initial r) = Inr s"
    and prefix: "replay c (take n es) (DurableRunState_initial r) = Inr target" "n \<le> length es"
    and len: "length es < 2 ^ 64"
    and versions: "rr_store_schema_version r = CURRENT_STORE_SCHEMA_VERSION"
      "rr_checkpoint_schema_version r = CURRENT_CHECKPOINT_SCHEMA_VERSION"
  shows "recover_loaded_run c \<lparr>lr_record = r, lr_checkpoint = DurableCheckpoint_new target, lr_events = es\<rparr>
           now_millis now = classify (rr_recovery_contract r) s now_millis now"
proof -
  let ?init = "DurableRunState_initial r" and ?at = "ds_last_sequence target"
  have frame: "ds_key target = rr_key r" "ds_budget target = rr_budget r"
    using replay_frame [OF prefix(1)] by (simp_all add: frame_of_def DurableRunState_initial_def)
  have numbered: "numbered_from 0 (rr_key r) es"
    using replay_positions [OF replays initial_position] len
    by (simp add: numbered_from_def DurableRunState_initial_def)
  have pos: "at_position n target"
    using replay_positions [OF prefix(1) initial_position] prefix(2) len by simp
  have tail: "replay c (drop n es) target = Inr s"
    using replays prefix(1) replay_append [of c "take n es" "drop n es" ?init] by simp
  have "scan_log c (rr_key r) ?at target es 0 ?init = None \<and> checkpoint_in_log ?at es
        \<and> (?at = None \<longrightarrow> target = ?init) \<and> tail_start ?at = n"
  proof (cases n)
    case 0
    then show ?thesis
      using pos prefix(1) scan_log_past [OF numbered, of ?at c target ?init] len
      by (simp add: at_position_def checkpoint_in_log_def tail_start_def)
  next
    case (Suc m)
    then have at: "?at = Some (of_nat m)" and m: "m < length es" using pos prefix(2) by (simp_all add: at_position_def)
    have "scan_log c (rr_key r) ?at target es 0 ?init = None"
      using scan_log_complete [OF numbered, of c m ?init target ?at] len prefix(1) Suc m at by simp
    moreover have "checkpoint_in_log ?at es"
      using at m len numbered by (simp add: checkpoint_in_log_def unat_of_nat_u64 numbered_from_def)
    moreover have "tail_start ?at = n" using at tail_start_Some [of m] m len Suc by simp
    ultimately show ?thesis using at by simp
  qed
  with tail frame versions prefix(2) show ?thesis
    by (auto simp: recover_loaded_run_def Let_def schema_consistent_def DurableCheckpoint_new_def)
qed

section \<open>What a disposition promises\<close>

lemma classify_state: "classify k s now_millis now = Inr d \<Longrightarrow> disposition_state d = s"
  by (auto simp: classify_def classify_running_def Let_def
      split: list.splits run_status.splits run_outcome.splits option.splits sum.splits if_splits)

text \<open>The time a run has already used: wall-clock time since its start, or the time it had used when suspended.\<close>

definition consumed_millis :: "durable_run_state \<Rightarrow> u64 \<Rightarrow> u64" where
  "consumed_millis s now_millis =
     (case waiting_elapsed s of
        Some active \<Rightarrow> active
      | None \<Rightarrow> now_millis - (case ds_started_at s of None \<Rightarrow> 0 | Some v \<Rightarrow> v))"

definition elapsed_used :: "durable_run_state \<Rightarrow> u64 \<Rightarrow> duration" where
  "elapsed_used s now_millis = duration_from_millis (consumed_millis s now_millis)"

lemma from_recovery_ok:
  assumes "from_recovery s elapsed now k = Inr ctx"
  shows "rc_durable_state ctx = s" "rc_usage ctx = ds_usage s" "rc_budget ctx = ds_budget s"
    "rc_status ctx = ds_status s" "rc_recovery_contract ctx = k" "in_step ctx"
    "\<not> rc_persistence_failed ctx" "context_key ctx = ds_key s"
    "ds_status s = Status_Running \<Longrightarrow>
       rc_runtime ctx = Some \<lparr>rt_started_at = now, rt_deadline_at = now + (max_elapsed (ds_budget s) - elapsed),
                              rt_cancelled = False\<rparr>"
  using assms
  by (auto simp: from_recovery_def in_step_def expected_sequence_def context_key_def instant_checked_add_def
      duration_checked_sub_def split: option.splits if_splits)

lemma classify_resumable:
  assumes "classify k s now_millis now = Inr (Disp_Resumable ctx t k')"
  shows "t = s" "k' = k" "ds_pending_effects s = []" "ds_status s = Status_Running" "k \<noteq> NonRestartable"
    "waiting_elapsed s = None"
    "retrieval_restart k s \<or> graph_restart k s \<or> ds_continuation s \<in> {InitialBoundary, RestartableBoundary}"
    "elapsed_used s now_millis < max_elapsed (ds_budget s)"
    "from_recovery s (elapsed_used s now_millis) now k = Inr ctx"
  using assms
  by (auto simp: classify_def classify_running_def Let_def elapsed_used_def consumed_millis_def checked_sub_def
      split: list.splits run_status.splits run_outcome.splits option.splits sum.splits if_splits)

lemma classify_waiting:
  assumes "classify k s now_millis now = Inr (Disp_Waiting ctx t k')"
  shows "t = s" "k' = k" "ds_pending_effects s = []" "ds_status s = Status_Running"
    "waiting_elapsed s \<noteq> None"
    "elapsed_used s now_millis < max_elapsed (ds_budget s)"
    "from_recovery s (elapsed_used s now_millis) now k = Inr ctx"
  using assms
  by (auto simp: classify_def classify_running_def Let_def elapsed_used_def consumed_millis_def checked_sub_def
      split: list.splits run_status.splits run_outcome.splits option.splits sum.splits if_splits)

text \<open>On a state that satisfies the invariant only the clock or the sequence space can stop classification.\<close>

definition clock_early :: "durable_run_state \<Rightarrow> u64 \<Rightarrow> bool" where
  "clock_early s now_millis \<longleftrightarrow> (\<exists>started. ds_started_at s = Some started
     \<and> (now_millis < started \<or> (\<exists>active. waiting_elapsed s = Some active \<and> now_millis - started < active)))"

lemma classify_errors:
  assumes "ds_inv s" "classify k s now_millis now = Inl e"
  shows "ds_pending_effects s = [] \<and> ds_status s = Status_Running
    \<and> (e = RE_ClockAmbiguous \<and> clock_early s now_millis \<or> e = RE_InvalidRuntime)"
  using assms
  by (auto simp: classify_def classify_running_def Let_def ds_inv_def start_inv_def clock_early_def checked_sub_def
      split: list.splits run_status.splits run_outcome.splits option.splits sum.splits if_splits)

text \<open>Finished and effect-free runs are reported as they ended.\<close>

lemma classify_finished:
  assumes "ds_pending_effects s = []" "ds_status s = Status_Finished outcome"
  shows "classify k s now_millis now =
           Inr (if outcome = Outcome_Completed then Disp_Completed s else Disp_TerminalFailure s outcome)"
  using assms by (cases outcome) (simp_all add: classify_def)

end
