(* ===== verification/Persistence_Port.thy ===== *)
theory Persistence_Port
  imports Durable_Approval Recovery "HOL-Library.Sublist"
begin

text \<open>
  The persistence port of \<^verbatim>\<open>crates/agent-harness/src/persistence.rs\<close>: the requests a store receives
  and the errors it answers with, and the contract the harness relies on as the locale
  \<open>append_only_store\<close>: a store keeps one journal per run key, a successful append extends exactly that
  journal by one event at the expected position, a failed one changes nothing.
\<close>

datatype (plugins only: code size) persistence_port_error =
  PE_Unavailable | PE_Conflict | PE_Corrupt | PE_UnsupportedVersion | PE_Failed

record append_transition =
  at_key :: run_key
  at_expected_sequence :: "event_sequence option"
  at_event :: agent_event
  at_checkpoint :: "durable_checkpoint option"

record create_durable_approval_wait_request =
  cw_transition :: append_transition
  cw_record :: durable_approval_record

record record_decision_request =
  rd_transition :: append_transition
  rd_command :: durable_approval_decision_command

record status_transition_request =
  sr_transition :: "append_transition option"
  sr_key :: run_key
  sr_wait_id :: durable_approval_wait_id
  sr_expected_row_version :: u64
  sr_expected_status :: durable_approval_status
  sr_next_status :: durable_approval_status

text \<open>\<^verbatim>\<open>DurableCheckpoint::initial\<close>.\<close>

definition DurableCheckpoint_initial :: "run_record \<Rightarrow> durable_checkpoint" where
  "DurableCheckpoint_initial r = DurableCheckpoint_new (DurableRunState_initial r)"

section \<open>The contract\<close>

text \<open>The sequence number of the last event of a journal.\<close>

definition last_sequence_of :: "agent_event list \<Rightarrow> event_sequence option" where
  "last_sequence_of es = (if es = [] then None else Some (ev_sequence (last es)))"

text \<open>Any number of writers, in any interleaving: the requests in the order in which the store serves them.\<close>

fun serve ::
  "('f \<Rightarrow> append_transition \<Rightarrow> 'st \<Rightarrow> (persistence_port_error + unit) \<times> 'st) \<Rightarrow> ('f \<times> append_transition) list \<Rightarrow>
   'st \<Rightarrow> 'st" where
  "serve f [] st = st"
| "serve f ((io, t) # ts) st = serve f ts (snd (f io t st))"

locale append_only_store =
  fixes commit :: "'f \<Rightarrow> append_transition \<Rightarrow> 'st \<Rightarrow> (persistence_port_error + unit) \<times> 'st"
    and history :: "'st \<Rightarrow> run_key \<Rightarrow> agent_event list option"
    and invar :: "'st \<Rightarrow> bool"
  assumes append_ok: "invar st \<Longrightarrow> commit io t st = (Inr (), st') \<Longrightarrow>
      invar st' \<and> (\<exists>h. history st (at_key t) = Some h
        \<and> at_expected_sequence t = last_sequence_of h
        \<and> history st' = (history st)(at_key t \<mapsto> h @ [at_event t]))"
    and append_error: "commit io t st = (Inl e, st') \<Longrightarrow> st' = st"
    and numbered: "invar st \<Longrightarrow> history st k = Some h \<Longrightarrow> i < length h \<Longrightarrow> unat (ev_sequence (h ! i)) = i"
begin

lemma append_invar:
  assumes "invar st"
  shows "invar (snd (commit io t st))"
proof (cases "commit io t st")
  case (Pair r st')
  with assms append_ok [of st io t st'] append_error [of io t st _ st'] show ?thesis
    by (cases r) auto
qed

lemma serve_invar: "invar st \<Longrightarrow> invar (serve commit ts st)"
  by (induction ts arbitrary: st) (auto simp: append_invar)

lemma append_extends:
  assumes "invar st" "history st k = Some h"
  shows "\<exists>h'. history (snd (commit io t st)) k = Some h' \<and> prefix h h'"
proof (cases "commit io t st")
  case (Pair r st')
  with assms append_ok [of st io t st'] append_error [of io t st _ st'] show ?thesis
    by (cases r) auto
qed

lemma serve_extends: "invar st \<Longrightarrow> history st k = Some h \<Longrightarrow> \<exists>h'. history (serve commit ts st) k = Some h' \<and> prefix h h'"
proof (induction ts arbitrary: st h)
  case Nil
  then show ?case by simp
next
  case (Cons q ts)
  obtain io t where q: "q = (io, t)" by (cases q)
  from append_extends [OF Cons.prems] obtain h1
    where h1: "history (snd (commit io t st)) k = Some h1" "prefix h h1" by blast
  from Cons.IH [OF append_invar [OF Cons.prems(1)] h1(1)] h1(2) show ?case
    using prefix_order.trans by (fastforce simp: q)
qed

lemma unat_eq_of_nat: "unat (x::u64) = n \<Longrightarrow> x = of_nat n"
  by auto

lemma last_sequence_of_length:
  "invar st \<Longrightarrow> history st k = Some h \<Longrightarrow>
   last_sequence_of h = (case length h of 0 \<Rightarrow> None | Suc n \<Rightarrow> Some (of_nat n)) \<and> length h \<le> 2 ^ 64"
  using numbered [of st k h "length h - 1"] unsigned_less [of "ev_sequence (last h)", where ?'a = nat]
  by (cases h rule: rev_cases) (auto simp: last_sequence_of_def nth_append dest: unat_eq_of_nat)

text \<open>
  Two requests for the same run with the same expected position: once one of them has been
  served successfully, the other one fails, whatever was served in between.
\<close>

lemma no_fork:
  assumes "invar st" "commit io t st = (Inr (), st1)"
    and "at_key u = at_key t" "at_expected_sequence u = at_expected_sequence t"
  shows "fst (commit io' u (serve commit ts st1)) \<noteq> Inr ()"
proof
  assume u: "fst (commit io' u (serve commit ts st1)) = Inr ()"
  from append_ok [OF assms(1,2)] obtain h where h: "history st (at_key t) = Some h"
      "at_expected_sequence t = last_sequence_of h" "history st1 (at_key t) = Some (h @ [at_event t])"
    and st1: "invar st1" by auto
  from serve_extends [OF st1 h(3), of ts] obtain h' where h': "history (serve commit ts st1) (at_key t) = Some h'"
    "prefix (h @ [at_event t]) h'" by blast
  have inv: "invar (serve commit ts st1)" by (rule serve_invar [OF st1])
  obtain st2 where "commit io' u (serve commit ts st1) = (Inr (), st2)" using u by (metis prod.collapse)
  from append_ok [OF inv this] h' assms(3) have "at_expected_sequence u = last_sequence_of h'" by auto
  with h(2) assms(4) have same: "last_sequence_of h' = last_sequence_of h" by simp
  have longer: "length h < length h'" using prefix_length_le [OF h'(2)] by simp
  have ls: "last_sequence_of h = (case length h of 0 \<Rightarrow> None | Suc n \<Rightarrow> Some (of_nat n))"
      "last_sequence_of h' = (case length h' of 0 \<Rightarrow> None | Suc n \<Rightarrow> Some (of_nat n))" "length h' \<le> 2 ^ 64"
    using last_sequence_of_length [OF assms(1) h(1)] last_sequence_of_length [OF inv h'(1)] by simp_all
  show False
  proof (cases "length h")
    case 0
    with same ls longer show False by (simp split: nat.splits)
  next
    case (Suc n)
    then obtain m where m: "length h' = Suc m" "n < m" using longer by (cases "length h'") auto
    with ls Suc same have "(of_nat n :: u64) = of_nat m" by simp
    then have "unat (of_nat n :: u64) = unat (of_nat m :: u64)" by simp
    moreover have "unat (of_nat n :: u64) = n" "unat (of_nat m :: u64) = m"
      using m ls(3) by (intro unat_of_nat_u64; simp)+
    ultimately show False using m(2) by simp
  qed
qed

end

end
