(* ===== verification/Sqlite_Store.thy ===== *)
theory Sqlite_Store
  imports Persistence_Port
begin

text \<open>
  The SQLite store of \<^verbatim>\<open>crates/agent-persistence-sqlite/src/lib.rs\<close>. The database is a record of tables:
  \<^verbatim>\<open>runs\<close> and \<^verbatim>\<open>checkpoints\<close>, whose primary key is the run, as maps; \<^verbatim>\<open>events\<close> and
  \<^verbatim>\<open>durable_approvals\<close> as lists of rows in insertion order. A statement that violates a primary key or a
  UNIQUE constraint fails; an immediate transaction that fails is rolled back. Rows hold the encoded
  payload and its checksum, as the code writes them.

  Parameters: \<open>store_codec\<close> gives the JSON encoders and decoders (serde_json) and SHA-256; \<open>io\<close> is the error of
  the SQLite library for this call, if any (connection, statement, commit or integrity failure);
  \<open>others\<close>, where an operation reads before it opens its transaction, is what other connections commit
  in between. Identifiers are compared as values instead of as their text form. The columns \<^verbatim>\<open>terminal\<close>,
  \<^verbatim>\<open>status\<close> and \<^verbatim>\<open>row_version\<close> are integers.
\<close>

section \<open>Tables\<close>

record store_codec =
  sc_events :: codec
  event_from :: "byte list \<Rightarrow> agent_event option"
  record_to :: "run_record \<Rightarrow> byte list option"
  record_from :: "byte list \<Rightarrow> run_record option"
  checkpoint_to :: "durable_checkpoint \<Rightarrow> byte list option"
  checkpoint_from :: "byte list \<Rightarrow> durable_checkpoint option"
  approval_to :: "durable_approval_record \<Rightarrow> byte list option"
  approval_from :: "byte list \<Rightarrow> durable_approval_record option"

record run_row =
  row_session_id :: session_id
  row_record :: "byte list"
  row_record_checksum :: "byte list"
  row_last_sequence :: "byte list option"
  row_terminal :: int

record event_row =
  evr_run_id :: run_id
  evr_sequence :: "byte list"
  evr_schema_version :: u16
  evr_payload :: "byte list"
  evr_checksum :: "byte list"

record checkpoint_row =
  cpr_through_sequence :: "byte list option"
  cpr_schema_version :: u16
  cpr_payload :: "byte list"
  cpr_checksum :: "byte list"

record approval_row =
  apr_run_id :: run_id
  apr_session_id :: session_id
  apr_wait_id :: durable_approval_wait_id
  apr_record :: "byte list"
  apr_checksum :: "byte list"
  apr_key_id :: rust_string
  apr_nonce :: "byte list"
  apr_status :: int
  apr_row_version :: int

record sqlite_store =
  st_user_version :: u16
  st_runs :: "run_id \<Rightarrow> run_row option"
  st_events :: "event_row list"
  st_checkpoints :: "run_id \<Rightarrow> checkpoint_row option"
  st_approvals :: "approval_row list"

type_synonym io = "persistence_port_error option"
type_synonym 'a tx = "(sqlite_store, persistence_port_error, 'a) sx"

text \<open>The database right after \<^verbatim>\<open>initialize\<close>.\<close>

definition initialize :: sqlite_store where
  "initialize =
     \<lparr>st_user_version = CURRENT_STORE_SCHEMA_VERSION, st_runs = (\<lambda>_. None), st_events = [],
      st_checkpoints = (\<lambda>_. None), st_approvals = []\<rparr>"

section \<open>Encoding\<close>

definition checksum :: "store_codec \<Rightarrow> byte list \<Rightarrow> byte list" where
  "checksum sc b = sha256 (sc_events sc) b"

definition encode_sequence :: "event_sequence \<Rightarrow> byte list" where
  "encode_sequence q = to_be_bytes q"

definition decode_optional_sequence :: "byte list option \<Rightarrow> persistence_port_error + event_sequence option" where
  "decode_optional_sequence v =
     (case v of
        None \<Rightarrow> Inr None
      | Some b \<Rightarrow> (case from_be_bytes b of None \<Rightarrow> Inl PE_Corrupt | Some q \<Rightarrow> Inr (Some q)))"

fun status_code :: "durable_approval_status \<Rightarrow> int" where
  "status_code DA_Waiting = 0"
| "status_code DA_DecisionRecordedApprove = 1"
| "status_code DA_DecisionRecordedDeny = 2"
| "status_code DA_ApprovedReady = 3"
| "status_code DA_Executing = 4"
| "status_code DA_Consumed = 5"

definition decode_status :: "int \<Rightarrow> persistence_port_error + durable_approval_status" where
  "decode_status v =
     (if v = 0 then Inr DA_Waiting
      else if v = 1 then Inr DA_DecisionRecordedApprove
      else if v = 2 then Inr DA_DecisionRecordedDeny
      else if v = 3 then Inr DA_ApprovedReady
      else if v = 4 then Inr DA_Executing
      else if v = 5 then Inr DA_Consumed
      else Inl PE_Corrupt)"

section \<open>Creating and appending\<close>

text \<open>An immediate transaction: rolled back when its body fails.\<close>

definition transaction :: "io \<Rightarrow> 'a tx \<Rightarrow> 'a tx" where
  "transaction io body st =
     (case io of
        Some e \<Rightarrow> (Inl e, st)
      | None \<Rightarrow> (case body st of (Inl e, _) \<Rightarrow> (Inl e, st) | (Inr x, st') \<Rightarrow> (Inr x, st')))"

definition lift_res :: "'e + 'a \<Rightarrow> ('s, 'e, 'a) sx" where
  "lift_res r = (\<lambda>s. (r, s))"

definition validate_record_checkpoint :: "run_record \<Rightarrow> durable_checkpoint \<Rightarrow> persistence_port_error + unit" where
  "validate_record_checkpoint r c =
     check (rr_store_schema_version r = CURRENT_STORE_SCHEMA_VERSION
        \<and> rr_checkpoint_schema_version r = CURRENT_CHECKPOINT_SCHEMA_VERSION
        \<and> cp_schema_version c = CURRENT_CHECKPOINT_SCHEMA_VERSION
        \<and> ds_key (cp_state c) = rr_key r
        \<and> ds_budget (cp_state c) = rr_budget r
        \<and> ds_last_sequence (cp_state c) = None
        \<and> ds_status (cp_state c) = Status_Pending) PE_Conflict"

definition insert_run :: "run_id \<Rightarrow> run_row \<Rightarrow> unit tx" where
  "insert_run r row st =
     (case st_runs st r of
        Some _ \<Rightarrow> (Inl PE_Conflict, st)
      | None \<Rightarrow> (Inr (), st\<lparr>st_runs := (st_runs st)(r := Some row)\<rparr>))"

definition insert_checkpoint :: "run_id \<Rightarrow> checkpoint_row \<Rightarrow> unit tx" where
  "insert_checkpoint r row st =
     (case st_checkpoints st r of
        Some _ \<Rightarrow> (Inl PE_Failed, st)
      | None \<Rightarrow> (Inr (), st\<lparr>st_checkpoints := (st_checkpoints st)(r := Some row)\<rparr>))"

definition create_run :: "store_codec \<Rightarrow> io \<Rightarrow> run_record \<Rightarrow> durable_checkpoint \<Rightarrow> unit tx" where
  "create_run sc io r c =
     and_then (lift_res (validate_record_checkpoint r c)) (\<lambda>_.
       transaction io (
         and_then (lift_res (ok_or PE_Failed (record_to sc r))) (\<lambda>record_bytes.
         and_then (lift_res (ok_or PE_Failed (checkpoint_to sc c))) (\<lambda>checkpoint_bytes.
         and_then (insert_run (key_run_id (rr_key r))
           \<lparr>row_session_id = key_session_id (rr_key r), row_record = record_bytes,
            row_record_checksum = checksum sc record_bytes, row_last_sequence = None, row_terminal = 0\<rparr>) (\<lambda>_.
         insert_checkpoint (key_run_id (rr_key r))
           \<lparr>cpr_through_sequence = None, cpr_schema_version = CURRENT_CHECKPOINT_SCHEMA_VERSION,
            cpr_payload = checkpoint_bytes, cpr_checksum = checksum sc checkpoint_bytes\<rparr>)))))"

text \<open>The checks before the database is touched.\<close>

definition transition_consistent :: "append_transition \<Rightarrow> bool" where
  "transition_consistent t \<longleftrightarrow>
     ev_run_id (at_event t) = key_run_id (at_key t)
     \<and> ev_schema_version (at_event t) = CURRENT_EVENT_SCHEMA_VERSION
     \<and> (case at_checkpoint t of
          None \<Rightarrow> True
        | Some c \<Rightarrow> cp_schema_version c = CURRENT_CHECKPOINT_SCHEMA_VERSION
                   \<and> ds_key (cp_state c) = at_key t
                   \<and> ds_last_sequence (cp_state c) = Some (ev_sequence (at_event t)))
     \<and> ev_sequence (at_event t) =
         (case at_expected_sequence t of
            None \<Rightarrow> 0
          | Some q \<Rightarrow> (case checked_next q of None \<Rightarrow> - 1 | Some n \<Rightarrow> n))"

fun is_run_finished :: "agent_event_kind \<Rightarrow> bool" where
  "is_run_finished (Ev_RunFinished _) = True"
| "is_run_finished _ = False"

definition event_row_of :: "store_codec \<Rightarrow> run_id \<Rightarrow> agent_event \<Rightarrow> byte list \<Rightarrow> event_row" where
  "event_row_of sc r e b =
     \<lparr>evr_run_id = r, evr_sequence = encode_sequence (ev_sequence e), evr_schema_version = ev_schema_version e,
      evr_payload = b, evr_checksum = checksum sc b\<rparr>"

definition insert_event :: "event_row \<Rightarrow> unit tx" where
  "insert_event row st =
     (if list_ex (\<lambda>x. evr_run_id x = evr_run_id row \<and> evr_sequence x = evr_sequence row) (st_events st)
      then (Inl PE_Conflict, st)
      else (Inr (), st\<lparr>st_events := st_events st @ [row]\<rparr>))"

definition update_run :: "run_id \<Rightarrow> byte list \<Rightarrow> bool \<Rightarrow> sqlite_store \<Rightarrow> sqlite_store" where
  "update_run r q terminal st =
     st\<lparr>st_runs := (st_runs st)(r := map_option
          (\<lambda>row. row\<lparr>row_last_sequence := Some q,
                     row_terminal := max (row_terminal row) (if terminal then 1 else 0)\<rparr>) (st_runs st r))\<rparr>"

definition update_checkpoint :: "run_id \<Rightarrow> checkpoint_row \<Rightarrow> sqlite_store \<Rightarrow> sqlite_store" where
  "update_checkpoint r row st =
     st\<lparr>st_checkpoints := (st_checkpoints st)(r := map_option (\<lambda>_. row) (st_checkpoints st r))\<rparr>"

definition write_checkpoint :: "store_codec \<Rightarrow> append_transition \<Rightarrow> unit tx" where
  "write_checkpoint sc t =
     (case at_checkpoint t of
        None \<Rightarrow> ok ()
      | Some c \<Rightarrow>
          and_then (lift_res (ok_or PE_Failed (checkpoint_to sc c))) (\<lambda>b.
            modify (update_checkpoint (key_run_id (at_key t))
              \<lparr>cpr_through_sequence = Some (encode_sequence (ev_sequence (at_event t))),
               cpr_schema_version = cp_schema_version c, cpr_payload = b, cpr_checksum = checksum sc b\<rparr>)))"

definition append_transition_in_transaction :: "store_codec \<Rightarrow> append_transition \<Rightarrow> unit tx" where
  "append_transition_in_transaction sc t =
     and_then (lift_res (check (transition_consistent t) PE_Conflict)) (\<lambda>_.
     and_then (gets (\<lambda>st. st_runs st (key_run_id (at_key t)))) (\<lambda>stored.
       (case stored of
          None \<Rightarrow> err PE_Conflict
        | Some row \<Rightarrow>
            if row_session_id row \<noteq> key_session_id (at_key t) then err PE_Conflict
            else and_then (lift_res (decode_optional_sequence (row_last_sequence row))) (\<lambda>last_sequence.
              if last_sequence \<noteq> at_expected_sequence t then err PE_Conflict
              else and_then (lift_res (ok_or PE_Failed (to_vec (sc_events sc) (at_event t)))) (\<lambda>event_bytes.
                and_then (insert_event (event_row_of sc (key_run_id (at_key t)) (at_event t) event_bytes)) (\<lambda>_.
                and_then (modify (update_run (key_run_id (at_key t)) (encode_sequence (ev_sequence (at_event t)))
                            (is_run_finished (ev_kind (at_event t))))) (\<lambda>_.
                write_checkpoint sc t)))))))"

definition append_transition :: "store_codec \<Rightarrow> io \<Rightarrow> append_transition \<Rightarrow> unit tx" where
  "append_transition sc io t =
     and_then (lift_res (check (transition_consistent t) PE_Conflict)) (\<lambda>_.
       transaction io (append_transition_in_transaction sc t))"

section \<open>Loading\<close>

fun load_events ::
  "store_codec \<Rightarrow> run_key \<Rightarrow> nat \<Rightarrow> event_row list \<Rightarrow> persistence_port_error + agent_event list" where
  "load_events sc k n [] = Inr []"
| "load_events sc k n (row # rows) =
     res_then (check (evr_schema_version row = CURRENT_EVENT_SCHEMA_VERSION) PE_UnsupportedVersion) (\<lambda>_.
     res_then (check (checksum sc (evr_payload row) = evr_checksum row) PE_Corrupt) (\<lambda>_.
     res_then (ok_or PE_Corrupt (event_from sc (evr_payload row))) (\<lambda>e.
     res_then (check (ev_schema_version e = CURRENT_EVENT_SCHEMA_VERSION) PE_UnsupportedVersion) (\<lambda>_.
     res_then (check (evr_sequence row = encode_sequence (ev_sequence e) \<and> unat (ev_sequence e) = n
                      \<and> ev_run_id e = key_run_id k) PE_Corrupt) (\<lambda>_.
     res_then (load_events sc k (Suc n) rows) (\<lambda>es. Inr (e # es)))))))"

text \<open>\<^verbatim>\<open>SELECT \<dots> FROM events WHERE run_id=?1 ORDER BY sequence\<close>: blobs compare byte by byte.\<close>

definition select_events :: "run_id \<Rightarrow> sqlite_store \<Rightarrow> event_row list" where
  "select_events r st = sort_key evr_sequence (filter (\<lambda>x. evr_run_id x = r) (st_events st))"

definition load_record :: "store_codec \<Rightarrow> run_key \<Rightarrow> run_row \<Rightarrow> persistence_port_error + run_record" where
  "load_record sc k row =
     res_then (check (row_session_id row = key_session_id k
                      \<and> checksum sc (row_record row) = row_record_checksum row) PE_Corrupt) (\<lambda>_.
     res_then (ok_or PE_Corrupt (record_from sc (row_record row))) (\<lambda>r.
     res_then (check (rr_key r = k \<and> rr_store_schema_version r = CURRENT_STORE_SCHEMA_VERSION
                      \<and> rr_checkpoint_schema_version r = CURRENT_CHECKPOINT_SCHEMA_VERSION)
                PE_UnsupportedVersion) (\<lambda>_. Inr r)))"

definition load_checkpoint :: "store_codec \<Rightarrow> run_key \<Rightarrow> checkpoint_row \<Rightarrow> persistence_port_error + durable_checkpoint" where
  "load_checkpoint sc k row =
     res_then (check (cpr_schema_version row = CURRENT_CHECKPOINT_SCHEMA_VERSION) PE_UnsupportedVersion) (\<lambda>_.
     res_then (check (checksum sc (cpr_payload row) = cpr_checksum row) PE_Corrupt) (\<lambda>_.
     res_then (ok_or PE_Corrupt (checkpoint_from sc (cpr_payload row))) (\<lambda>c.
     res_then (check (cp_schema_version c = CURRENT_CHECKPOINT_SCHEMA_VERSION) PE_UnsupportedVersion) (\<lambda>_.
     res_then (check (ds_key (cp_state c) = k) PE_Corrupt) (\<lambda>_.
     res_then (decode_optional_sequence (cpr_through_sequence row)) (\<lambda>q.
     res_then (check (ds_last_sequence (cp_state c) = q) PE_Corrupt) (\<lambda>_. Inr c)))))))"

definition load_run :: "store_codec \<Rightarrow> io \<Rightarrow> run_key \<Rightarrow> sqlite_store \<Rightarrow> persistence_port_error + loaded_run" where
  "load_run sc io k st =
     (case io of
        Some e \<Rightarrow> Inl e
      | None \<Rightarrow>
          res_then (check (st_user_version st = CURRENT_STORE_SCHEMA_VERSION) PE_UnsupportedVersion) (\<lambda>_.
          res_then (ok_or PE_Unavailable (st_runs st (key_run_id k))) (\<lambda>row.
          res_then (load_record sc k row) (\<lambda>r.
          res_then (ok_or PE_Failed (st_checkpoints st (key_run_id k))) (\<lambda>cprow.
          res_then (load_checkpoint sc k cprow) (\<lambda>c.
          res_then (load_events sc k 0 (select_events (key_run_id k) st)) (\<lambda>es.
          res_then (decode_optional_sequence (row_last_sequence row)) (\<lambda>decoded_last.
          res_then (check (decoded_last = last_sequence_of es
                           \<and> (row_terminal row \<noteq> 0) = (es \<noteq> [] \<and> is_run_finished (ev_kind (last es))))
                     PE_Corrupt) (\<lambda>_.
          Inr \<lparr>lr_record = r, lr_checkpoint = c, lr_events = es\<rparr>)))))))))"

section \<open>Durable approvals\<close>

definition find_approval :: "run_id \<Rightarrow> durable_approval_wait_id \<Rightarrow> sqlite_store \<Rightarrow> approval_row option" where
  "find_approval r w st = find (\<lambda>x. apr_run_id x = r \<and> apr_wait_id x = w) (st_approvals st)"

text \<open>The primary key \<^verbatim>\<open>(run_id, wait_id)\<close> and \<^verbatim>\<open>UNIQUE(key_id, nonce)\<close>.\<close>

definition insert_approval :: "approval_row \<Rightarrow> unit tx" where
  "insert_approval row st =
     (if list_ex (\<lambda>x. apr_run_id x = apr_run_id row \<and> apr_wait_id x = apr_wait_id row) (st_approvals st)
         \<or> list_ex (\<lambda>x. apr_key_id x = apr_key_id row \<and> apr_nonce x = apr_nonce row) (st_approvals st)
      then (Inl PE_Conflict, st)
      else (Inr (), st\<lparr>st_approvals := st_approvals st @ [row]\<rparr>))"

fun suspends_wait :: "agent_event_kind \<Rightarrow> durable_approval_wait_id \<Rightarrow> bool" where
  "suspends_wait (Ev_Graph (GE_GraphSuspended _ _ wait _ _ _ _ _)) w = (wait = w)"
| "suspends_wait _ w = False"

definition create_durable_approval_wait ::
  "store_codec \<Rightarrow> io \<Rightarrow> (sqlite_store \<Rightarrow> sqlite_store) \<Rightarrow> io \<Rightarrow> create_durable_approval_wait_request \<Rightarrow> unit tx" where
  "create_durable_approval_wait sc io_load others io q st =
     (let t = cw_transition q; rec = cw_record q; b = da_binding rec in
      (case load_run sc io_load (at_key t) st of
         Inl e \<Rightarrow> (Inl e, st)
       | Inr run \<Rightarrow>
           if da_status rec \<noteq> DA_Waiting \<or> da_row_version rec \<noteq> 0 \<or> sb_key b \<noteq> at_key t
              \<or> sb_requester b \<noteq> map_option auth_requester (rr_authorization (lr_record run))
              \<or> \<not> suspends_wait (ev_kind (at_event t)) (sb_wait_id b)
           then (Inl PE_Conflict, st)
           else transaction io (
             and_then (append_transition_in_transaction sc t) (\<lambda>_.
             and_then (lift_res (ok_or PE_Failed (approval_to sc rec))) (\<lambda>bytes.
             insert_approval
               \<lparr>apr_run_id = key_run_id (at_key t), apr_session_id = key_session_id (at_key t),
                apr_wait_id = sb_wait_id b, apr_record = bytes, apr_checksum = checksum sc bytes,
                apr_key_id = sl_key_id (da_sealed_action rec), apr_nonce = sl_nonce (da_sealed_action rec),
                apr_status = status_code DA_Waiting, apr_row_version = 0\<rparr>))) (others st)))"

definition load_durable_approval_wait ::
  "store_codec \<Rightarrow> io \<Rightarrow> run_key \<Rightarrow> durable_approval_wait_id \<Rightarrow> sqlite_store \<Rightarrow>
   persistence_port_error + durable_approval_record" where
  "load_durable_approval_wait sc io k w st =
     (case io of
        Some e \<Rightarrow> Inl e
      | None \<Rightarrow>
          res_then (ok_or PE_Unavailable (find_approval (key_run_id k) w st)) (\<lambda>row.
          res_then (check (apr_session_id row = key_session_id k
                           \<and> checksum sc (apr_record row) = apr_checksum row) PE_Corrupt) (\<lambda>_.
          res_then (ok_or PE_Corrupt (approval_from sc (apr_record row))) (\<lambda>r.
          res_then (check (SealedLocalWriteAction_validate (da_sealed_action r) = Inr ()) PE_Corrupt) (\<lambda>_.
          res_then (check (sb_key (da_binding r) = k \<and> sb_wait_id (da_binding r) = w
                           \<and> sl_key_id (da_sealed_action r) = apr_key_id row
                           \<and> sl_nonce (da_sealed_action r) = apr_nonce row) PE_Corrupt) (\<lambda>_.
          res_then (check (0 \<le> apr_row_version row) PE_Corrupt) (\<lambda>_.
          res_then (decode_status (apr_status row)) (\<lambda>status.
          Inr (restore_store_state status (of_int (apr_row_version row)) r)))))))))"

fun load_all ::
  "store_codec \<Rightarrow> io \<Rightarrow> run_key \<Rightarrow> durable_approval_wait_id list \<Rightarrow> sqlite_store \<Rightarrow>
   persistence_port_error + durable_approval_record list" where
  "load_all sc io k [] st = Inr []"
| "load_all sc io k (w # ws) st =
     res_then (load_durable_approval_wait sc io k w st) (\<lambda>r.
     res_then (load_all sc io k ws st) (\<lambda>rs. Inr (r # rs)))"

definition load_pending_approval_requests ::
  "store_codec \<Rightarrow> io \<Rightarrow> run_key \<Rightarrow> sqlite_store \<Rightarrow> persistence_port_error + durable_approval_record list" where
  "load_pending_approval_requests sc io k st =
     (case io of
        Some e \<Rightarrow> Inl e
      | None \<Rightarrow> load_all sc io k
          (sort (map apr_wait_id (filter (\<lambda>x. apr_run_id x = key_run_id k \<and> apr_session_id x = key_session_id k
                                             \<and> apr_status x \<noteq> status_code DA_Consumed) (st_approvals st)))) st)"

text \<open>\<^verbatim>\<open>UPDATE durable_approvals \<dots> WHERE \<dots>\<close> with the number of rows it changed.\<close>

definition row_matches ::
  "run_key \<Rightarrow> durable_approval_wait_id \<Rightarrow> durable_approval_status \<Rightarrow> u64 \<Rightarrow> approval_row \<Rightarrow> bool" where
  "row_matches k w status version x \<longleftrightarrow>
     apr_run_id x = key_run_id k \<and> apr_wait_id x = w \<and> apr_session_id x = key_session_id k
     \<and> apr_status x = status_code status \<and> apr_row_version x = uint version"

definition update_approvals :: "(approval_row \<Rightarrow> bool) \<Rightarrow> (approval_row \<Rightarrow> approval_row) \<Rightarrow> unit tx" where
  "update_approvals matches f st =
     (if length (filter matches (st_approvals st)) \<noteq> 1 then (Inl PE_Conflict, st)
      else (Inr (), st\<lparr>st_approvals := map (\<lambda>x. if matches x then f x else x) (st_approvals st)\<rparr>))"

text \<open>\<^verbatim>\<open>i64::try_from\<close>.\<close>

definition fits_i64 :: "u64 \<Rightarrow> bool" where
  "fits_i64 v \<longleftrightarrow> unat v < 2 ^ 63"

fun decision_status :: "durable_approval_outcome \<Rightarrow> durable_approval_status" where
  "decision_status Approve = DA_DecisionRecordedApprove"
| "decision_status Deny = DA_DecisionRecordedDeny"

fun records_decision :: "agent_event_kind \<Rightarrow> durable_approval_decision_command \<Rightarrow> bool" where
  "records_decision (Ev_DurableApprovalDecisionRecorded wait req outcome version actor) c =
     (wait = dc_wait_id c \<and> req = dc_approval_request_id c \<and> outcome = dc_outcome c
      \<and> actor = dc_actor c \<and> version = saturating_inc (dc_expected_row_version c))"
| "records_decision _ c = False"

definition decision_rejected :: "durable_approval_record \<Rightarrow> record_decision_request \<Rightarrow> bool" where
  "decision_rejected r q \<longleftrightarrow>
     (let c = rd_command q; b = da_binding r in
      da_status r \<noteq> DA_Waiting
      \<or> da_row_version r \<noteq> dc_expected_row_version c
      \<or> sb_approval_request_id b \<noteq> dc_approval_request_id c
      \<or> sb_action_proposal_id b \<noteq> dc_action_proposal_id c
      \<or> sb_tool_call_id b \<noteq> dc_tool_call_id c
      \<or> sb_action_digest b \<noteq> dc_action_digest c
      \<or> \<not> records_decision (ev_kind (at_event (rd_transition q))) c)"

definition record_durable_approval_decision ::
  "store_codec \<Rightarrow> io \<Rightarrow> (sqlite_store \<Rightarrow> sqlite_store) \<Rightarrow> io \<Rightarrow> record_decision_request \<Rightarrow> unit tx" where
  "record_durable_approval_decision sc io_load others io q st =
     (let c = rd_command q; status = decision_status (dc_outcome c) in
      (case load_durable_approval_wait sc io_load (dc_key c) (dc_wait_id c) st of
         Inl e \<Rightarrow> (Inl e, st)
       | Inr r \<Rightarrow>
           if decision_rejected r q then (Inl PE_Conflict, st)
           else transaction io (
             and_then (append_transition_in_transaction sc (rd_transition q)) (\<lambda>_.
             and_then (lift_res (ok_or PE_Failed (approval_to sc
               (restore_decision_identity (dc_actor c) (dc_decided_at c)
                  (restore_store_state status (saturating_inc (dc_expected_row_version c)) r))))) (\<lambda>bytes.
             and_then (lift_res (check (fits_i64 (dc_expected_row_version c)) PE_Conflict)) (\<lambda>_.
             update_approvals (row_matches (dc_key c) (dc_wait_id c) DA_Waiting (dc_expected_row_version c))
               (\<lambda>x. x\<lparr>apr_status := status_code status, apr_row_version := apr_row_version x + 1,
                      apr_record := bytes, apr_checksum := checksum sc bytes\<rparr>))))) (others st)))"

definition transition_durable_approval_status ::
  "store_codec \<Rightarrow> io \<Rightarrow> status_transition_request \<Rightarrow> unit tx" where
  "transition_durable_approval_status sc io q =
     transaction io (
       and_then (case sr_transition q of
                   None \<Rightarrow> ok ()
                 | Some t \<Rightarrow> if at_key t \<noteq> sr_key q then err PE_Conflict
                            else append_transition_in_transaction sc t) (\<lambda>_.
       and_then (lift_res (check (fits_i64 (sr_expected_row_version q)) PE_Conflict)) (\<lambda>_.
       update_approvals
         (row_matches (sr_key q) (sr_wait_id q) (sr_expected_status q) (sr_expected_row_version q))
         (\<lambda>x. x\<lparr>apr_status := status_code (sr_next_status q), apr_row_version := apr_row_version x + 1\<rparr>))))"

end
