(* ===== verification/Harness_Types.thy ===== *)
theory Harness_Types
  imports Sqlite_Store
begin

text \<open>
  The types at the boundary of the execution harness: capability policies (\<^verbatim>\<open>policy.rs\<close>), the tool registry
  (\<^verbatim>\<open>registry.rs\<close>), approval requests and decisions (\<^verbatim>\<open>approval.rs\<close>), the audit configuration (\<^verbatim>\<open>audit.rs\<close>), the
  port errors (\<^verbatim>\<open>ports.rs\<close>, \<^verbatim>\<open>containment.rs\<close>) and the harness error (\<^verbatim>\<open>error.rs\<close>) of
  \<^verbatim>\<open>crates/agent-harness/src\<close>.
\<close>

section \<open>Capability policies\<close>

datatype (plugins only: code size) policy_denial_reason =
  CapabilityNotAllowedInM0 | CapabilityNotExecutableInM6 | ApprovalRequiredButUnsupported

record policy_denial =
  pd_capability :: capability_kind
  pd_reason :: policy_denial_reason

datatype (plugins only: code size) authorization_decision =
  Auth_Allowed | Auth_RequiresApproval | Auth_Denied policy_denial

definition PolicyDenial_new :: "capability_kind \<Rightarrow> policy_denial_reason \<Rightarrow> policy_denial" where
  "PolicyDenial_new c r = \<lparr>pd_capability = c, pd_reason = r\<rparr>"

fun M0ReadOnlyPolicy_authorize :: "capability_kind \<Rightarrow> authorization_decision" where
  "M0ReadOnlyPolicy_authorize ReadOnly = Auth_Allowed"
| "M0ReadOnlyPolicy_authorize c = Auth_Denied (PolicyDenial_new c CapabilityNotAllowedInM0)"

fun M6ApprovalPolicy_authorize :: "capability_kind \<Rightarrow> authorization_decision" where
  "M6ApprovalPolicy_authorize ReadOnly = Auth_Allowed"
| "M6ApprovalPolicy_authorize LocalWrite = Auth_RequiresApproval"
| "M6ApprovalPolicy_authorize c = Auth_Denied (PolicyDenial_new c CapabilityNotExecutableInM6)"

section \<open>The tool registry\<close>

text \<open>
  A port is named by a number: the adapters behind the numbers are parameters of the harness. A binding
  keeps the definition the port reported when it was registered.
\<close>

type_synonym port = nat

datatype (plugins only: code size) execution_binding = Exec_Direct port | Exec_ManagedDirect port | Exec_Contained port

record tool_binding =
  tb_definition :: tool_definition
  tb_execution :: execution_binding

type_synonym tool_registry = "tool_name \<Rightarrow> tool_binding option"

datatype (plugins only: code size) tool_registry_error =
  Registry_DuplicateName tool_name | Registry_InvalidInputSchema tool_name

definition ToolRegistry_new :: tool_registry where
  "ToolRegistry_new = (\<lambda>_. None)"

text \<open>\<open>compiles\<close> tells whether the schema compiler accepts the input schema.\<close>

definition register_binding ::
  "(json \<Rightarrow> bool) \<Rightarrow> tool_definition \<Rightarrow> execution_binding \<Rightarrow> (tool_registry, tool_registry_error, unit) sx" where
  "register_binding compiles d x reg =
     (if reg (td_name d) \<noteq> None then (Inl (Registry_DuplicateName (td_name d)), reg)
      else if \<not> compiles (td_input_schema d) then (Inl (Registry_InvalidInputSchema (td_name d)), reg)
      else (Inr (), reg(td_name d \<mapsto> \<lparr>tb_definition = d, tb_execution = x\<rparr>)))"

text \<open>Every binding is filed under the name of its own definition.\<close>

definition registry_ok :: "tool_registry \<Rightarrow> bool" where
  "registry_ok reg \<longleftrightarrow> (\<forall>n b. reg n = Some b \<longrightarrow> td_name (tb_definition b) = n)"

lemma registry_ok_new: "registry_ok ToolRegistry_new"
  by (simp add: registry_ok_def ToolRegistry_new_def)

lemma register_binding_keeps: "keeps registry_ok (register_binding compiles d x)"
  by (auto simp: keeps_def registry_ok_def register_binding_def)

lemma register_binding_lookup:
  "register_binding compiles d x reg = (Inr (), reg') \<longleftrightarrow>
     reg (td_name d) = None \<and> compiles (td_input_schema d)
     \<and> reg' = reg(td_name d \<mapsto> \<lparr>tb_definition = d, tb_execution = x\<rparr>)"
  by (auto simp: register_binding_def)

section \<open>Approvals\<close>

definition MAX_APPROVAL_PREVIEW_BYTES :: nat where "MAX_APPROVAL_PREVIEW_BYTES = 256"

record approval_preview =
  ap_summary :: rust_string
  ap_target_label :: rust_string

record approval_request =
  aq_id :: approval_request_id
  aq_action_proposal_id :: action_proposal_id
  aq_tool_call_id :: tool_call_id
  aq_tool_name :: tool_name
  aq_capability :: capability_kind
  aq_action_digest :: digest
  aq_preview :: approval_preview

datatype (plugins only: code size) approval_outcome = Approval_Granted | Approval_Denied

record approval_decision =
  ad_request_id :: approval_request_id
  ad_action_digest :: digest
  ad_outcome :: approval_outcome

definition ApprovalRequest_approve :: "approval_request \<Rightarrow> approval_decision" where
  "ApprovalRequest_approve q =
     \<lparr>ad_request_id = aq_id q, ad_action_digest = aq_action_digest q, ad_outcome = Approval_Granted\<rparr>"

definition ApprovalRequest_deny :: "approval_request \<Rightarrow> approval_decision" where
  "ApprovalRequest_deny q =
     \<lparr>ad_request_id = aq_id q, ad_action_digest = aq_action_digest q, ad_outcome = Approval_Denied\<rparr>"

section \<open>Validated actions\<close>

text \<open>\<^verbatim>\<open>ValidatedAction\<close> and \<^verbatim>\<open>CompletedModelInvocation\<close> of \<^verbatim>\<open>action.rs\<close>.\<close>

record validated_action =
  va_proposal_id :: action_proposal_id
  va_tool_name :: tool_name
  va_arguments :: json
  va_capability :: capability_kind
  va_digest :: digest

record completed_model_invocation =
  cm_model_call_id :: model_call_id
  cm_response :: model_response

definition into_tool_call :: "validated_action \<Rightarrow> tool_call_id \<Rightarrow> tool_call" where
  "into_tool_call a i = \<lparr>tc_id = i, tc_name = va_tool_name a, tc_input = va_arguments a\<rparr>"

section \<open>The contract of a policy\<close>

text \<open>
  What both policies promise and the harness's callers rely on: read-only capabilities are allowed,
  external writes and privileged capabilities are denied with a denial about themselves, and a write is never
  simply allowed.
\<close>

locale capability_policy =
  fixes authorize :: "capability_kind \<Rightarrow> authorization_decision"
  assumes read_only: "authorize ReadOnly = Auth_Allowed"
    and write_guarded: "authorize LocalWrite \<noteq> Auth_Allowed"
    and higher_denied: "c \<in> {ExternalWrite, Privileged} \<Longrightarrow> \<exists>d. authorize c = Auth_Denied d \<and> pd_capability d = c"
begin

lemma allowed_iff: "authorize c = Auth_Allowed \<longleftrightarrow> c = ReadOnly"
  using read_only write_guarded higher_denied [of c] by (cases c) auto

lemma approval_only_for_local_write: "authorize c = Auth_RequiresApproval \<Longrightarrow> c = LocalWrite"
  using read_only higher_denied [of c] by (cases c) auto

end

interpretation m0: capability_policy M0ReadOnlyPolicy_authorize
  by unfold_locales (auto simp: PolicyDenial_new_def)

interpretation m6: capability_policy M6ApprovalPolicy_authorize
  by unfold_locales (auto simp: PolicyDenial_new_def)

end
