(* ===== verification/BTree_Map.thy ===== *)
theory BTree_Map
  imports Agent_Prelude
begin

text \<open>
  \<^verbatim>\<open>std::collections::BTreeMap\<close> as the list of its entries in the order of the keys, which is the order in
  which it is iterated. \<open>bt_insert\<close> is \<^verbatim>\<open>insert\<close>: it returns the value that was replaced, if any.
  \<open>insert_each\<close> is the loop that fills a map and refuses duplicates.
\<close>

type_synonym ('k, 'v) btree_map = "('k \<times> 'v) list"

fun bt_insert :: "'k::linorder \<Rightarrow> 'v \<Rightarrow> ('k, 'v) btree_map \<Rightarrow> 'v option \<times> ('k, 'v) btree_map" where
  "bt_insert k v [] = (None, [(k, v)])"
| "bt_insert k v ((l, w) # m) =
     (if k < l then (None, (k, v) # (l, w) # m)
      else if k = l then (Some w, (k, v) # m)
      else (case bt_insert k v m of (old, m') \<Rightarrow> (old, (l, w) # m')))"

definition bt_ok :: "('k::linorder, 'v) btree_map \<Rightarrow> bool" where
  "bt_ok m = sorted_wrt (<) (map fst m)"

lemma bt_ok_Nil [simp]: "bt_ok []"
  by (simp add: bt_ok_def)

lemma bt_ok_distinct: "bt_ok m \<Longrightarrow> distinct (map fst m)"
  by (simp add: bt_ok_def strict_sorted_iff)

lemma bt_insert_keys: "fst ` set (snd (bt_insert k v m)) = insert k (fst ` set m)"
proof (induction m)
  case (Cons e m)
  obtain l w where e: "e = (l, w)" by fastforce
  obtain old m' where "bt_insert k v m = (old, m')" by fastforce
  with Cons e show ?case by (auto simp: image_iff)
qed simp

lemma bt_insert_ok: "bt_ok m \<Longrightarrow> bt_ok (snd (bt_insert k v m))"
proof (induction m)
  case (Cons e m)
  obtain l w where e: "e = (l, w)" by fastforce
  obtain old m' where i: "bt_insert k v m = (old, m')" by fastforce
  have "fst ` set m' = insert k (fst ` set m)" using bt_insert_keys [of k v m] i by simp
  moreover have "\<forall>x\<in>fst ` set m. l < x" using Cons.prems e by (simp add: bt_ok_def)
  ultimately show ?case
    using Cons e i by (auto simp: bt_ok_def)
qed (simp add: bt_ok_def)

lemma bt_insert_lookup:
  "bt_ok m \<Longrightarrow> map_of (snd (bt_insert k v m)) = (map_of m)(k \<mapsto> v) \<and> fst (bt_insert k v m) = map_of m k"
proof (induction m)
  case (Cons e m)
  obtain l w where e: "e = (l, w)" by fastforce
  obtain old m' where i: "bt_insert k v m = (old, m')" by fastforce
  have "map_of m x = None" if "x \<le> l" for x
    using Cons.prems e that by (fastforce simp: bt_ok_def map_of_eq_None_iff)
  with Cons e i show ?case by (auto simp: bt_ok_def fun_eq_iff)
qed simp

lemma bt_insert_length: "fst (bt_insert k v m) = None \<Longrightarrow> length (snd (bt_insert k v m)) = Suc (length m)"
proof (induction m)
  case (Cons e m)
  obtain l w where e: "e = (l, w)" by fastforce
  obtain old m' where "bt_insert k v m = (old, m')" by fastforce
  with Cons e show ?case by (auto split: if_splits)
qed simp

lemma bt_insert_new:
  assumes "bt_ok m" "fst (bt_insert k v m) = None"
  shows "set (snd (bt_insert k v m)) = insert (k, v) (set m)"
  using assms
proof (induction m)
  case (Cons e m)
  obtain l w where e: "e = (l, w)" by fastforce
  obtain old m' where i: "bt_insert k v m = (old, m')" by fastforce
  with Cons e show ?case by (auto simp: bt_ok_def split: if_splits)
qed simp

lemma bt_insert_fresh: "bt_ok m \<Longrightarrow> fst (bt_insert k v m) = None \<longleftrightarrow> k \<notin> fst ` set m"
  using bt_insert_lookup [of m k v] by (simp add: map_of_eq_None_iff)

lemma bt_ok_map_of: "bt_ok m \<Longrightarrow> map_of m k = Some v \<longleftrightarrow> (k, v) \<in> set m"
  by (simp add: bt_ok_distinct)

section \<open>Filling a map\<close>

text \<open>
  The loop that checks each element, inserts it and refuses a key that is there already:
  \<^verbatim>\<open>for x in xs { guard(&x)?; if map.insert(key, value).is_some() { return Err(dup); } }\<close>.
\<close>

fun insert_each ::
  "('x \<Rightarrow> 'e + unit) \<Rightarrow> 'e \<Rightarrow> ('x \<Rightarrow> 'k::linorder) \<Rightarrow> ('x \<Rightarrow> 'v) \<Rightarrow> 'x list \<Rightarrow> ('k, 'v) btree_map \<Rightarrow>
   'e + ('k, 'v) btree_map" where
  "insert_each guard dup key val [] m = Inr m"
| "insert_each guard dup key val (x # xs) m =
     res_then (guard x) (\<lambda>_.
       case bt_insert (key x) (val x) m of
         (Some _, _) \<Rightarrow> Inl dup
       | (None, m') \<Rightarrow> insert_each guard dup key val xs m')"

lemma insert_each_iff:
  assumes "bt_ok m"
  shows "(\<exists>m'. insert_each guard dup key val xs m = Inr m') \<longleftrightarrow>
           (\<forall>x\<in>set xs. guard x = Inr ()) \<and> distinct (map key xs) \<and> key ` set xs \<inter> fst ` set m = {}"
  using assms
proof (induction xs arbitrary: m)
  case (Cons x xs)
  obtain old n where i: "bt_insert (key x) (val x) m = (old, n)" by fastforce
  have n: "bt_ok n" using bt_insert_ok [OF Cons.prems, of "key x" "val x"] i by simp
  have new: "old = None \<longleftrightarrow> key x \<notin> fst ` set m" using bt_insert_fresh [OF Cons.prems] i by (metis fst_conv)
  have keys: "fst ` set n = insert (key x) (fst ` set m)" using bt_insert_keys [of "key x" "val x" m] i by simp
  show ?case
    using Cons.IH [OF n] new keys i by (cases "guard x"; cases old) auto
qed simp

lemma insert_each_entries:
  assumes "bt_ok m" "insert_each guard dup key val xs m = Inr m'"
  shows "bt_ok m' \<and> set m' = (\<lambda>x. (key x, val x)) ` set xs \<union> set m \<and> length m' = length xs + length m"
  using assms
proof (induction xs arbitrary: m)
  case (Cons x xs)
  obtain old n where i: "bt_insert (key x) (val x) m = (old, n)" by fastforce
  with Cons.prems have r: "old = None" "insert_each guard dup key val xs n = Inr m'"
    by (auto simp: res_then_Inr_iff split: option.splits)
  have n: "bt_ok n" using bt_insert_ok [OF Cons.prems(1), of "key x" "val x"] i by simp
  have "set n = insert (key x, val x) (set m)"
    using bt_insert_new [OF Cons.prems(1), of "key x" "val x"] i r(1) by simp
  moreover have "length n = Suc (length m)"
    using bt_insert_length [of "key x" "val x" m] i r(1) by simp
  ultimately show ?case using Cons.IH [OF n r(2)] by auto
qed simp

lemma insert_each_error:
  assumes "insert_each guard dup key val xs m = Inl e"
  shows "e = dup \<or> (\<exists>x\<in>set xs. guard x = Inl e)"
  using assms
proof (induction xs arbitrary: m)
  case (Cons x xs)
  then show ?case
    by (cases "guard x") (auto split: prod.splits option.splits)
qed simp

end
