(* ===== verification/Byte_Encoding.thy ===== *)
theory Byte_Encoding
  imports Agent_Prelude
begin

text \<open>
  Byte encodings that the program hashes. Texts are hashed as their UTF-8 bytes after an eight-byte big-endian length.
  The locale \<open>prefix_code\<close> is the property that makes such encodings unambiguous when they are concatenated: no
  encoding of a valid value can be continued into another one; \<open>delimited_code\<close> is the weaker property that this holds
  in front of a delimiter. The digests of actions, tool contracts, graphs and evidence are built from such codes.
\<close>

section \<open>Unambiguous encodings\<close>

text \<open>
  An encoding that is unambiguous when what follows it satisfies \<open>follow\<close>, such as the end of the input or the tag of
  the next item.
\<close>

locale delimited_code =
  fixes encode :: "'a \<Rightarrow> byte list" and valid :: "'a \<Rightarrow> bool" and follow :: "byte list \<Rightarrow> bool"
  assumes unique: "valid x \<Longrightarrow> valid y \<Longrightarrow> follow u \<Longrightarrow> follow v \<Longrightarrow> encode x @ u = encode y @ v \<Longrightarrow> x = y \<and> u = v"
begin

text \<open>A run of encodings without a count, ended by something that is not one more of them.\<close>

lemma unique_run:
  assumes more: "\<And>x w. valid x \<Longrightarrow> follow (encode x @ w)" and last: "\<And>w. stop w \<Longrightarrow> follow w"
    and ends: "\<And>x w u. valid x \<Longrightarrow> stop w \<Longrightarrow> encode x @ u \<noteq> w"
  shows "list_all valid xs \<Longrightarrow> list_all valid ys \<Longrightarrow> stop u \<Longrightarrow> stop v \<Longrightarrow>
     concat (map encode xs) @ u = concat (map encode ys) @ v \<Longrightarrow> xs = ys \<and> u = v"
proof (induction xs arbitrary: ys)
  case Nil
  then show ?case using ends [of _ u] by (cases ys) auto
next
  case (Cons x xs)
  have run: "follow (concat (map encode zs) @ w)" if "list_all valid zs" "stop w" for zs w
    using that more [of _ "concat (map encode (tl zs)) @ w"] last by (cases zs) auto
  show ?case
  proof (cases ys)
    case Nil
    with Cons.prems ends [of x v] show ?thesis by auto
  next
    case (Cons y zs)
    with Cons.prems unique [of x y "concat (map encode xs) @ u" "concat (map encode zs) @ v"] run Cons.IH [of zs]
    show ?thesis by simp
  qed
qed

end

locale prefix_code =
  fixes encode :: "'a \<Rightarrow> byte list" and valid :: "'a \<Rightarrow> bool"
  assumes unique: "valid x \<Longrightarrow> valid y \<Longrightarrow> encode x @ u = encode y @ v \<Longrightarrow> x = y \<and> u = v"

sublocale prefix_code \<subseteq> run: delimited_code encode valid "\<lambda>_. True"
  by unfold_locales (rule unique)

context prefix_code
begin

lemma encode_inject: "valid x \<Longrightarrow> valid y \<Longrightarrow> encode x = encode y \<Longrightarrow> x = y"
  using unique [of x y "[]" "[]"] by simp

lemma unique_list:
  "length xs = length ys \<Longrightarrow> list_all valid xs \<Longrightarrow> list_all valid ys \<Longrightarrow>
   concat (map encode xs) @ u = concat (map encode ys) @ v \<Longrightarrow> xs = ys \<and> u = v"
proof (induction xs ys rule: list_induct2)
  case (Cons x xs y ys)
  from Cons.prems unique [of x y "concat (map encode xs) @ u" "concat (map encode ys) @ v"] Cons.IH show ?case by simp
qed simp

end

interpretation be_code: prefix_code to_be_bytes "\<lambda>_. True"
  by unfold_locales simp

section \<open>UTF-8\<close>

text \<open>A Unicode scalar value lies below \<^verbatim>\<open>0x110000\<close>.\<close>

definition utf8_char :: "nat \<Rightarrow> byte list" where
  "utf8_char c =
     (if c < 128 then [of_nat c]
      else if c < 2048 then [of_nat (192 + c div 64), of_nat (128 + c mod 64)]
      else if c < 65536 then [of_nat (224 + c div 4096), of_nat (128 + c div 64 mod 64), of_nat (128 + c mod 64)]
      else [of_nat (240 + c div 262144), of_nat (128 + c div 4096 mod 64), of_nat (128 + c div 64 mod 64),
            of_nat (128 + c mod 64)])"

text \<open>\<^verbatim>\<open>str::as_bytes\<close>.\<close>

definition as_bytes :: "rust_string \<Rightarrow> byte list" where
  "as_bytes s = concat (map utf8_char s)"

definition scalar :: "nat \<Rightarrow> bool" where
  "scalar c \<longleftrightarrow> c < 1114112"

lemma of_nat_byte_inject: "a < 256 \<Longrightarrow> b < 256 \<Longrightarrow> (of_nat a :: byte) = of_nat b \<longleftrightarrow> a = b"
  by (auto simp: word_of_nat_eq_iff take_bit_nat_eq_self)

lemma length_utf8_char: "length (utf8_char c) = len_utf8 c"
  by (simp add: utf8_char_def len_utf8_def)

lemma length_as_bytes: "length (as_bytes s) = str_len s"
  by (induction s) (simp_all add: as_bytes_def str_len_def length_utf8_char)

lemma base64_digits:
  "c div 64 = d div 64 \<Longrightarrow> c mod 64 = d mod 64 \<Longrightarrow> c = d" for c d :: nat
  by (metis div_mult_mod_eq)

lemma base64_digits3:
  fixes c d :: nat
  assumes "c div 4096 = d div 4096" "c div 64 mod 64 = d div 64 mod 64" "c mod 64 = d mod 64"
  shows "c = d"
  using assms base64_digits [of "c div 64" "d div 64"] base64_digits [of c d]
  by (simp add: div_mult2_eq [symmetric])

lemma base64_digits4:
  fixes c d :: nat
  assumes "c div 262144 = d div 262144" "c div 4096 mod 64 = d div 4096 mod 64" "c div 64 mod 64 = d div 64 mod 64"
    "c mod 64 = d mod 64"
  shows "c = d"
proof (rule base64_digits3)
  show "c div 4096 = d div 4096"
    using assms(1,2) base64_digits [of "c div 4096" "d div 4096"] by (simp add: div_mult2_eq [symmetric])
qed (use assms in simp_all)

text \<open>The first byte tells the length.\<close>

definition utf8_lead :: "nat \<Rightarrow> nat" where
  "utf8_lead c = (if c < 128 then c else if c < 2048 then 192 + c div 64 else if c < 65536 then 224 + c div 4096
     else 240 + c div 262144)"

lemma utf8_char_lead: "utf8_char c = of_nat (utf8_lead c) # tl (utf8_char c)"
  by (simp add: utf8_char_def utf8_lead_def)

lemma utf8_lead_bound: "scalar c \<Longrightarrow> utf8_lead c < 256"
  by (auto simp: scalar_def utf8_lead_def)

lemma utf8_lead_len: "scalar c \<Longrightarrow> len_utf8 c =
   (if utf8_lead c < 128 then 1 else if utf8_lead c < 224 then 2 else if utf8_lead c < 240 then 3 else 4)"
  by (auto simp: scalar_def utf8_lead_def len_utf8_def)

lemma utf8_char_inject:
  assumes "scalar c" "scalar d" "len_utf8 c = len_utf8 d" "utf8_char c = utf8_char d"
  shows "c = d"
proof -
  have lead: "utf8_lead c = utf8_lead d"
    using assms(4) utf8_char_lead [of c] utf8_char_lead [of d] of_nat_byte_inject [OF utf8_lead_bound utf8_lead_bound] assms(1,2)
    by (metis list.inject)
  have digit: "128 + n mod 64 < 256" for n :: nat using mod_less_divisor [of 64 n] by simp
  note digits = of_nat_byte_inject [OF digit digit]
  consider "c < 128" "d < 128" | "128 \<le> c" "c < 2048" "128 \<le> d" "d < 2048" | "2048 \<le> c" "c < 65536" "2048 \<le> d" "d < 65536"
    | "65536 \<le> c" "65536 \<le> d"
    using assms(3) by (auto simp: len_utf8_def split: if_splits)
  then show ?thesis
  proof cases
    case 1
    with lead show ?thesis by (simp add: utf8_lead_def)
  next
    case 2
    then have "c mod 64 = d mod 64" "c div 64 = d div 64"
      using assms(4) lead digits [of c d] by (auto simp: utf8_char_def utf8_lead_def)
    then show ?thesis by (rule base64_digits [rotated])
  next
    case 3
    then have "c mod 64 = d mod 64" "c div 64 mod 64 = d div 64 mod 64" "c div 4096 = d div 4096"
      using assms(4) lead digits [of c d] digits [of "c div 64" "d div 64"] by (auto simp: utf8_char_def utf8_lead_def)
    then show ?thesis using base64_digits3 by blast
  next
    case 4
    then have "c mod 64 = d mod 64" "c div 64 mod 64 = d div 64 mod 64" "c div 4096 mod 64 = d div 4096 mod 64"
        "c div 262144 = d div 262144"
      using assms(4) lead digits [of c d] digits [of "c div 64" "d div 64"] digits [of "c div 4096" "d div 4096"]
      by (auto simp: utf8_char_def utf8_lead_def)
    then show ?thesis using base64_digits4 by blast
  qed
qed

interpretation utf8_code: prefix_code utf8_char scalar
proof
  fix c d u v
  assume c: "scalar c" and d: "scalar d" and eq: "utf8_char c @ u = utf8_char d @ v"
  from eq have "(of_nat (utf8_lead c) :: byte) = of_nat (utf8_lead d)"
    using utf8_char_lead [of c] utf8_char_lead [of d] by (metis append_Cons list.inject)
  then have "utf8_lead c = utf8_lead d"
    using of_nat_byte_inject [OF utf8_lead_bound [OF c] utf8_lead_bound [OF d]] by simp
  then have len: "len_utf8 c = len_utf8 d" using utf8_lead_len [OF c] utf8_lead_len [OF d] by simp
  with eq have "utf8_char c = utf8_char d" "u = v" by (simp_all add: length_utf8_char)
  with utf8_char_inject [OF c d len] show "c = d \<and> u = v" by simp
qed

section \<open>Texts with their length\<close>

definition text_ok :: "rust_string \<Rightarrow> bool" where
  "text_ok s \<longleftrightarrow> list_all scalar s \<and> str_len s < 2 ^ 63"

text \<open>\<^verbatim>\<open>encode_len\<close> and \<^verbatim>\<open>encode_string\<close> of \<^verbatim>\<open>action.rs\<close>, \<^verbatim>\<open>update_text\<close> of \<^verbatim>\<open>definition.rs\<close>.\<close>

definition encode_len :: "nat \<Rightarrow> byte list" where
  "encode_len n = to_be_bytes (if n < 2 ^ 64 then of_nat n else - 1)"

definition encode_string :: "rust_string \<Rightarrow> byte list" where
  "encode_string s = encode_len (str_len s) @ as_bytes s"

lemma length_encode_len [simp]: "length (encode_len n) = 8"
  by (simp add: encode_len_def)

lemma encode_len_inject: "m < 2 ^ 64 \<Longrightarrow> n < 2 ^ 64 \<Longrightarrow> encode_len m = encode_len n \<longleftrightarrow> m = n"
  by (auto simp: encode_len_def dest: arg_cong [of _ _ unat] simp: unat_of_nat_u64)

interpretation len_code: prefix_code encode_len "\<lambda>n. n < 2 ^ 64"
  by unfold_locales (simp add: encode_len_inject)

lemma as_bytes_inject: "list_all scalar s \<Longrightarrow> list_all scalar t \<Longrightarrow> as_bytes s = as_bytes t \<Longrightarrow> s = t"
  using utf8_code.run.unique_run [of "\<lambda>w. w = []" s t "[]" "[]"]
  by (simp add: as_bytes_def utf8_char_def)

interpretation string_code: prefix_code encode_string text_ok
proof
  fix s t u v
  assume ok: "text_ok s" "text_ok t" and eq: "encode_string s @ u = encode_string t @ v"
  have small: "str_len s < 2 ^ 64" "str_len t < 2 ^ 64" using ok by (simp_all add: text_ok_def)
  from eq have len: "str_len s = str_len t" and rest: "as_bytes s @ u = as_bytes t @ v"
    using len_code.unique [OF small, of "as_bytes s @ u" "as_bytes t @ v"] by (simp_all add: encode_string_def)
  have "length (as_bytes s) = length (as_bytes t)" using len by (simp add: length_as_bytes)
  with rest have "as_bytes s = as_bytes t" "u = v" by simp_all
  with ok as_bytes_inject show "s = t \<and> u = v" by (simp add: text_ok_def)
qed

text \<open>A text shorter than \<open>2^56\<close> bytes begins with a zero byte.\<close>

lemma encode_len_head: "n < 2 ^ 56 \<Longrightarrow> \<exists>w. encode_len n = 0 # w"
proof -
  assume n: "n < 2 ^ 56"
  then have "unat (drop_bit 56 (of_nat n :: u64)) = 0"
    by (simp only: unat_drop_bit_eq) (simp add: drop_bit_eq_div unat_of_nat_u64)
  then have "drop_bit 56 (of_nat n :: u64) = 0" by (simp only: unat_eq_0)
  then show ?thesis using n by (simp add: encode_len_def to_be_bytes_def)
qed

end
