(* ===== verification/Action_Validation.thy ===== *)
theory Action_Validation
  imports Harness_Types BTree_Map Byte_Encoding
begin

text \<open>
  Model actions, \<^verbatim>\<open>crates/agent-harness/src/action.rs\<close>: the decoding of the text of a model response into an action
  proposal, the structural limits on its arguments, the profile of tool schemas, the validation against the registry
  and the digests of actions and tool contracts.

  \<open>json_lib\<close> stands for the third-party code: the JSON parser (its result keeps the entries of an object in the order of
  the text, with repetitions), the serializer, the schema compiler and validator, and SHA-256.
\<close>

section \<open>Limits and errors\<close>

definition MAX_PLANNING_RESPONSE_BYTES :: nat where "MAX_PLANNING_RESPONSE_BYTES = 16 * 1024"
definition MAX_ACTION_TOOL_NAME_BYTES :: nat where "MAX_ACTION_TOOL_NAME_BYTES = 128"
definition MAX_ACTION_ARGUMENT_BYTES :: nat where "MAX_ACTION_ARGUMENT_BYTES = 8 * 1024"
definition MAX_ACTION_ARGUMENT_DEPTH :: nat where "MAX_ACTION_ARGUMENT_DEPTH = 8"
definition MAX_ACTION_ARGUMENT_KEYS :: nat where "MAX_ACTION_ARGUMENT_KEYS = 64"
definition MAX_ACTION_ARGUMENT_ARRAY_ELEMENTS :: nat where "MAX_ACTION_ARGUMENT_ARRAY_ELEMENTS = 128"
definition MAX_ACTION_ARGUMENT_NODES :: nat where "MAX_ACTION_ARGUMENT_NODES = 256"
definition MAX_TOOL_SCHEMA_BYTES :: nat where "MAX_TOOL_SCHEMA_BYTES = 32 * 1024"
definition MAX_TOOL_SCHEMA_DEPTH :: nat where "MAX_TOOL_SCHEMA_DEPTH = 16"
definition MAX_TOOL_SCHEMA_KEYS :: nat where "MAX_TOOL_SCHEMA_KEYS = 256"

definition DRAFT_2020_12_URI :: rust_string where
  "DRAFT_2020_12_URI = lit ''https://json-schema.org/draft/2020-12/schema''"

record json_lib =
  jl_parse :: "rust_string \<Rightarrow> json option"
  jl_to_vec :: "json \<Rightarrow> byte list option"
  jl_builds :: "json \<Rightarrow> bool"
  jl_is_valid :: "json \<Rightarrow> json \<Rightarrow> bool"
  jl_sha256 :: "byte list \<Rightarrow> digest"

record action_proposal =
  pr_id :: action_proposal_id
  pr_source_model_call_id :: model_call_id
  pr_tool_name :: tool_name
  pr_arguments :: json

record action_validation_error =
  ve_proposal_id :: action_proposal_id
  ve_model_call_id :: model_call_id
  ve_reason :: action_rejection_reason

definition ActionValidationError_new ::
  "action_proposal_id \<Rightarrow> model_call_id \<Rightarrow> action_rejection_reason \<Rightarrow> action_validation_error" where
  "ActionValidationError_new p m r = \<lparr>ve_proposal_id = p, ve_model_call_id = m, ve_reason = r\<rparr>"

datatype (plugins only: code size) tool_schema_registration_error =
  Schema_TooLarge | Schema_TooComplex | Schema_UnsupportedProfile | Schema_CompilationFailed

definition single_text :: "completed_model_invocation \<Rightarrow> rust_string option" where
  "single_text i = (case mr_output (cm_response i) of [Part_Text t] \<Rightarrow> Some t | _ \<Rightarrow> None)"

section \<open>Tool names\<close>

text \<open>\<^verbatim>\<open>char::is_whitespace\<close> and \<^verbatim>\<open>str::trim\<close>.\<close>

definition is_whitespace :: "nat \<Rightarrow> bool" where
  "is_whitespace c \<longleftrightarrow> 9 \<le> c \<and> c \<le> 13 \<or> 8192 \<le> c \<and> c \<le> 8202
     \<or> c \<in> {32, 133, 160, 5760, 8232, 8233, 8239, 8287, 12288}"

definition trim :: "rust_string \<Rightarrow> rust_string" where
  "trim s = rev (dropWhile is_whitespace (rev (dropWhile is_whitespace s)))"

datatype (plugins only: code size) tool_name_error = ToolName_Empty | ToolName_SurroundingWhitespace | ToolName_ControlCharacter

definition ToolName_new :: "rust_string \<Rightarrow> tool_name_error + tool_name" where
  "ToolName_new value =
     (if value = [] then Inl ToolName_Empty
      else if trim value \<noteq> value then Inl ToolName_SurroundingWhitespace
      else if list_ex is_control value then Inl ToolName_ControlCharacter
      else Inr value)"

section \<open>JSON without repeated keys\<close>

text \<open>\<^verbatim>\<open>Number::from_f64\<close> refuses infinities and NaN: the exponent bits are all ones.\<close>

definition finite_f64 :: "u64 \<Rightarrow> bool" where
  "finite_f64 bits \<longleftrightarrow> unat bits div 2 ^ 52 mod 2 ^ 11 \<noteq> 2047"

text \<open>
  The visitor behind \<^verbatim>\<open>UniqueJson\<close>. \<open>visit_map\<close> keeps the set of the keys it has seen next to the ordered map it builds.
\<close>

function (sequential) unique_json :: "json \<Rightarrow> json option"
  and visit_seq :: "json list \<Rightarrow> json list \<Rightarrow> json option"
  and visit_map :: "(rust_string \<times> json) list \<Rightarrow> rust_string set \<Rightarrow> (rust_string, json) btree_map \<Rightarrow> json option" where
  "unique_json (JNumber (JFloat bits)) = (if finite_f64 bits then Some (JNumber (JFloat bits)) else None)"
| "unique_json (JArray xs) = visit_seq xs []"
| "unique_json (JObject kvs) = visit_map kvs {} []"
| "unique_json j = Some j"
| "visit_seq [] values = Some (JArray (rev values))"
| "visit_seq (x # xs) values =
     (case unique_json x of None \<Rightarrow> None | Some v \<Rightarrow> visit_seq xs (v # values))"
| "visit_map [] keys values = Some (JObject values)"
| "visit_map ((k, x) # kvs) keys values =
     (if k \<in> keys then None
      else (case unique_json x of
              None \<Rightarrow> None
            | Some v \<Rightarrow> visit_map kvs (insert k keys) (snd (bt_insert k v values))))"
  by pat_completeness auto

termination
  by (relation "measure (\<lambda>x. case x of Inl j \<Rightarrow> size j | Inr (Inl (xs, _)) \<Rightarrow> size_list size xs
      | Inr (Inr (kvs, _, _)) \<Rightarrow> size_list (size_prod (\<lambda>_. 0) size) kvs)") auto

definition deserialize_unique_json :: "json_lib \<Rightarrow> rust_string \<Rightarrow> json option" where
  "deserialize_unique_json jl text = Option.bind (jl_parse jl text) unique_json"

section \<open>Envelopes\<close>

text \<open>\<^verbatim>\<open>Map::remove\<close>.\<close>

fun map_remove :: "rust_string \<Rightarrow> (rust_string \<times> json) list \<Rightarrow> json option \<times> (rust_string \<times> json) list" where
  "map_remove k [] = (None, [])"
| "map_remove k ((l, v) # m) = (if k = l then (Some v, m) else (case map_remove k m of (r, m') \<Rightarrow> (r, (l, v) # m')))"

definition decode_action :: "(rust_string \<times> json) list \<Rightarrow> action_rejection_reason + (tool_name \<times> json)" where
  "decode_action action =
     (if length action \<noteq> 2 then Inl Reject_MalformedEnvelope
      else (case map_remove (lit ''tool'') action of
              (Some (JString raw_tool_name), action1) \<Rightarrow>
                (case map_remove (lit ''arguments'') action1 of
                   (Some (JObject arguments), action2) \<Rightarrow>
                     if action2 \<noteq> [] then Inl Reject_MalformedEnvelope
                     else if str_len raw_tool_name > MAX_ACTION_TOOL_NAME_BYTES then Inl Reject_SecurityLimitExceeded
                     else (case ToolName_new raw_tool_name of
                             Inl _ \<Rightarrow> Inl Reject_InvalidToolName
                           | Inr tool_name \<Rightarrow> Inr (tool_name, JObject arguments))
                 | _ \<Rightarrow> Inl Reject_MalformedEnvelope)
            | _ \<Rightarrow> Inl Reject_MalformedEnvelope))"

definition decode_envelope :: "json \<Rightarrow> action_rejection_reason + (tool_name \<times> json)" where
  "decode_envelope value =
     (case value of
        JObject root \<Rightarrow>
          if length root \<noteq> 1 then Inl Reject_MalformedEnvelope
          else (case map_remove (lit ''action'') root of
                  (Some (JObject action), _) \<Rightarrow> decode_action action
                | _ \<Rightarrow> Inl Reject_MalformedEnvelope)
      | _ \<Rightarrow> Inl Reject_MalformedEnvelope)"

section \<open>Structural limits\<close>

text \<open>
  The loops of \<^verbatim>\<open>validate_argument_limits\<close> and \<^verbatim>\<open>validate_schema_complexity\<close>. The head of the list is the top of the
  stack: the children of a value are pushed in order, so the last one is popped first. The counters stay far below
  \<^verbatim>\<open>usize::MAX\<close>, where \<^verbatim>\<open>saturating_add\<close> would matter.
\<close>

definition stack_size :: "(json \<times> nat) list \<Rightarrow> nat" where
  "stack_size st = sum_list (map (\<lambda>x. Suc (size (fst x))) st)"

definition push_all :: "json list \<Rightarrow> nat \<Rightarrow> (json \<times> nat) list \<Rightarrow> (json \<times> nat) list" where
  "push_all vs depth st = rev (map (\<lambda>v. (v, depth + 1)) vs) @ st"

lemma stack_size_simps [simp]: "stack_size [] = 0" "stack_size (x # st) = Suc (size (fst x)) + stack_size st"
  "stack_size (st @ st') = stack_size st + stack_size st'"
  by (simp_all add: stack_size_def)

lemma stack_size_push: "stack_size (push_all vs depth st) = sum_list (map (\<lambda>v. Suc (size v)) vs) + stack_size st"
  by (simp add: push_all_def stack_size_def rev_map [symmetric] comp_def sum_list_rev)

lemma children_size:
  "sum_list (map (\<lambda>v. Suc (size v)) vs) \<le> size_list size vs"
  "sum_list (map (\<lambda>v. Suc (size v)) (map snd kvs)) \<le> size_list (size_prod (\<lambda>_. 0) size) kvs"
  by (induction vs) (simp, simp, induction kvs, auto)

function argument_limits_loop ::
  "(json \<times> nat) list \<Rightarrow> nat \<Rightarrow> nat \<Rightarrow> nat \<Rightarrow> action_rejection_reason + unit" where
  "argument_limits_loop [] object_keys array_elements nodes = Inr ()"
| "argument_limits_loop ((value, depth) # stack) object_keys array_elements nodes =
     (if nodes + 1 > MAX_ACTION_ARGUMENT_NODES \<or> depth > MAX_ACTION_ARGUMENT_DEPTH then Inl Reject_SecurityLimitExceeded
      else (case value of
              JObject kvs \<Rightarrow>
                if object_keys + length kvs > MAX_ACTION_ARGUMENT_KEYS then Inl Reject_SecurityLimitExceeded
                else argument_limits_loop (push_all (map snd kvs) depth stack) (object_keys + length kvs) array_elements (nodes + 1)
            | JArray vs \<Rightarrow>
                if array_elements + length vs > MAX_ACTION_ARGUMENT_ARRAY_ELEMENTS then Inl Reject_SecurityLimitExceeded
                else argument_limits_loop (push_all vs depth stack) object_keys (array_elements + length vs) (nodes + 1)
            | _ \<Rightarrow> argument_limits_loop stack object_keys array_elements (nodes + 1)))"
  by pat_completeness auto

termination
  by (relation "measure (\<lambda>(st, _). stack_size st)")
     (auto simp: stack_size_push less_Suc_eq_le le_SucI children_size simp del: map_map sum_list_Suc)

definition validate_argument_limits :: "json_lib \<Rightarrow> json \<Rightarrow> action_rejection_reason + unit" where
  "validate_argument_limits jl arguments =
     (case jl_to_vec jl arguments of
        None \<Rightarrow> Inl Reject_SecurityLimitExceeded
      | Some serialized \<Rightarrow>
          if length serialized > MAX_ACTION_ARGUMENT_BYTES then Inl Reject_SecurityLimitExceeded
          else argument_limits_loop [(arguments, 1)] 0 0 0)"

function schema_complexity_loop :: "(json \<times> nat) list \<Rightarrow> nat \<Rightarrow> tool_schema_registration_error + unit" where
  "schema_complexity_loop [] keys = Inr ()"
| "schema_complexity_loop ((value, depth) # stack) keys =
     (if depth > MAX_TOOL_SCHEMA_DEPTH then Inl Schema_TooComplex
      else (case value of
              JObject kvs \<Rightarrow>
                if keys + length kvs > MAX_TOOL_SCHEMA_KEYS then Inl Schema_TooComplex
                else schema_complexity_loop (push_all (map snd kvs) depth stack) (keys + length kvs)
            | JArray vs \<Rightarrow> schema_complexity_loop (push_all vs depth stack) keys
            | _ \<Rightarrow> schema_complexity_loop stack keys))"
  by pat_completeness auto

termination
  by (relation "measure (\<lambda>(st, _). stack_size st)")
     (auto simp: stack_size_push less_Suc_eq_le le_SucI children_size simp del: map_map sum_list_Suc)

definition validate_schema_complexity :: "json \<Rightarrow> tool_schema_registration_error + unit" where
  "validate_schema_complexity schema = schema_complexity_loop [(schema, 1)] 0"

section \<open>The schema profile\<close>

fun is_string :: "json \<Rightarrow> bool" where "is_string (JString _) = True" | "is_string _ = False"
fun is_boolean :: "json \<Rightarrow> bool" where "is_boolean (JBool _) = True" | "is_boolean _ = False"
fun is_number :: "json \<Rightarrow> bool" where "is_number (JNumber _) = True" | "is_number _ = False"

text \<open>\<^verbatim>\<open>Value::as_u64\<close> is \<^verbatim>\<open>Some\<close> for an integer that fits.\<close>

fun is_u64 :: "json \<Rightarrow> bool" where "is_u64 (JNumber (JInt i)) \<longleftrightarrow> 0 \<le> i \<and> i < 2 ^ 64" | "is_u64 _ \<longleftrightarrow> False"

definition schema_type_names :: "rust_string list" where
  "schema_type_names =
     [lit ''object'', lit ''array'', lit ''string'', lit ''number'', lit ''integer'', lit ''boolean'', lit ''null'']"

definition schema_size_keywords :: "rust_string list" where
  "schema_size_keywords =
     [lit ''minProperties'', lit ''maxProperties'', lit ''minItems'', lit ''maxItems'', lit ''minLength'', lit ''maxLength'']"

definition profile_root :: "bool \<Rightarrow> (rust_string \<times> json) list \<Rightarrow> bool" where
  "profile_root root object \<longleftrightarrow>
     (if root
      then (case map_of object (lit ''$schema'') of None \<Rightarrow> True | Some v \<Rightarrow> v = JString DRAFT_2020_12_URI)
           \<and> map_of object (lit ''type'') = Some (JString (lit ''object''))
      else map_of object (lit ''$schema'') = None)"

text \<open>\<open>profile_entry\<close> is the body of the loop over the keywords, \<open>profile_properties\<close> the loop over the properties.\<close>

function (sequential) validate_schema_profile :: "json \<Rightarrow> bool \<Rightarrow> nat \<Rightarrow> tool_schema_registration_error + unit"
  and profile_entries :: "(rust_string \<times> json) list \<Rightarrow> bool \<Rightarrow> nat \<Rightarrow> tool_schema_registration_error + unit"
  and profile_entry :: "rust_string \<Rightarrow> json \<Rightarrow> bool \<Rightarrow> nat \<Rightarrow> tool_schema_registration_error + unit"
  and profile_properties :: "(rust_string \<times> json) list \<Rightarrow> nat \<Rightarrow> tool_schema_registration_error + unit" where
  "validate_schema_profile schema root depth =
     (if depth > MAX_TOOL_SCHEMA_DEPTH then Inl Schema_TooComplex
      else (case schema of
              JObject object \<Rightarrow>
                if profile_root root object then profile_entries object root depth else Inl Schema_UnsupportedProfile
            | _ \<Rightarrow> Inl Schema_UnsupportedProfile))"
| "profile_entries [] root depth = Inr ()"
| "profile_entries ((keyword, value) # rest) root depth =
     (case profile_entry keyword value root depth of Inl e \<Rightarrow> Inl e | Inr _ \<Rightarrow> profile_entries rest root depth)"
| "profile_entry keyword value root depth =
     (if keyword = lit ''$schema'' \<and> root then Inr ()
      else if keyword = lit ''title'' \<or> keyword = lit ''description'' then check (is_string value) Schema_UnsupportedProfile
      else if keyword = lit ''type''
      then check (case value of JString kind \<Rightarrow> kind \<in> set schema_type_names | _ \<Rightarrow> False) Schema_UnsupportedProfile
      else if keyword = lit ''enum''
      then check (case value of JArray values \<Rightarrow> values \<noteq> [] | _ \<Rightarrow> False) Schema_UnsupportedProfile
      else if keyword = lit ''const'' then Inr ()
      else if keyword = lit ''properties''
      then (case value of JObject properties \<Rightarrow> profile_properties properties depth | _ \<Rightarrow> Inl Schema_UnsupportedProfile)
      else if keyword = lit ''required''
      then check (case value of JArray values \<Rightarrow> list_all is_string values | _ \<Rightarrow> False) Schema_UnsupportedProfile
      else if keyword = lit ''additionalProperties'' then check (is_boolean value) Schema_UnsupportedProfile
      else if keyword \<in> set schema_size_keywords then check (is_u64 value) Schema_UnsupportedProfile
      else if keyword = lit ''items'' then validate_schema_profile value False (depth + 1)
      else if keyword = lit ''minimum'' \<or> keyword = lit ''maximum'' then check (is_number value) Schema_UnsupportedProfile
      else Inl Schema_UnsupportedProfile)"
| "profile_properties [] depth = Inr ()"
| "profile_properties ((_, property_schema) # rest) depth =
     (case validate_schema_profile property_schema False (depth + 1) of
        Inl e \<Rightarrow> Inl e
      | Inr _ \<Rightarrow> profile_properties rest depth)"
  by pat_completeness auto

termination
  by (relation "measure (\<lambda>x. case x of Inl (Inl (j, _, _)) \<Rightarrow> 2 * size j
      | Inl (Inr (kvs, _, _)) \<Rightarrow> 2 * size_list (size_prod (\<lambda>_. 0) size) kvs
      | Inr (Inl (_, j, _, _)) \<Rightarrow> Suc (2 * size j)
      | Inr (Inr (kvs, _)) \<Rightarrow> 2 * size_list (size_prod (\<lambda>_. 0) size) kvs)") auto

definition compile_tool_schema :: "json_lib \<Rightarrow> json \<Rightarrow> tool_schema_registration_error + unit" where
  "compile_tool_schema jl schema =
     (case jl_to_vec jl schema of
        None \<Rightarrow> Inl Schema_CompilationFailed
      | Some bytes \<Rightarrow>
          if length bytes > MAX_TOOL_SCHEMA_BYTES then Inl Schema_TooLarge
          else res_then (validate_schema_complexity schema) (\<lambda>_.
               res_then (validate_schema_profile schema True 1) (\<lambda>_.
               check (jl_builds jl schema) Schema_CompilationFailed)))"

section \<open>Digests\<close>

text \<open>
  What is fed to the hash function. An integer of a \<^verbatim>\<open>Number\<close> fits in \<^verbatim>\<open>i64\<close> or \<^verbatim>\<open>u64\<close>, so one of the first two branches is
  taken for it.
\<close>

fun encode_number :: "json_number \<Rightarrow> byte list" where
  "encode_number (JInt i) =
     (if - (2 ^ 63) \<le> i \<and> i < 2 ^ 63 then 73 # to_be_bytes (of_int i)
      else if 0 \<le> i \<and> i < 2 ^ 64 then 85 # to_be_bytes (of_int i)
      else [])"
| "encode_number (JFloat bits) = 70 # to_be_bytes bits"

fun encode_capability :: "capability_kind \<Rightarrow> byte list" where
  "encode_capability ReadOnly = [67, 0]"
| "encode_capability LocalWrite = [67, 1]"
| "encode_capability ExternalWrite = [67, 2]"
| "encode_capability Privileged = [67, 3]"

fun encode_json :: "json \<Rightarrow> byte list" where
  "encode_json JNull = [78]"
| "encode_json (JBool b) = [66, if b then 1 else 0]"
| "encode_json (JNumber n) = encode_number n"
| "encode_json (JString s) = 83 # encode_string s"
| "encode_json (JArray vs) = 65 # encode_len (length vs) @ concat (map encode_json vs)"
| "encode_json (JObject kvs) =
     79 # encode_len (length kvs)
     @ concat (map (\<lambda>kv. encode_string (fst kv) @ encode_json (snd kv)) (sort_key (\<lambda>kv. as_bytes (fst kv)) kvs))"

definition action_bytes :: "tool_name \<Rightarrow> capability_kind \<Rightarrow> json \<Rightarrow> byte list" where
  "action_bytes name cap arguments =
     as_bytes (lit ''enterprise-local-agent/action-digest/v1'') @ [0]
     @ encode_string name @ encode_capability cap @ encode_json arguments"

definition compute_action_digest :: "(byte list \<Rightarrow> digest) \<Rightarrow> tool_name \<Rightarrow> capability_kind \<Rightarrow> json \<Rightarrow> digest" where
  "compute_action_digest sha name cap arguments = sha (action_bytes name cap arguments)"

definition contract_bytes :: "tool_definition \<Rightarrow> byte list" where
  "contract_bytes d =
     as_bytes (lit ''enterprise-local-agent/tool-contract/v1'') @ [0]
     @ encode_string (td_name d) @ encode_capability (td_capability d) @ encode_string (td_description d)
     @ encode_json (td_input_schema d)"

definition compute_tool_contract_digest :: "(byte list \<Rightarrow> digest) \<Rightarrow> tool_definition \<Rightarrow> digest" where
  "compute_tool_contract_digest sha d = sha (contract_bytes d)"

section \<open>Decoding and validation\<close>

definition TextActionDecoder_decode ::
  "json_lib \<Rightarrow> model_response \<Rightarrow> action_proposal_id \<Rightarrow> model_call_id \<Rightarrow> action_validation_error + action_proposal" where
  "TextActionDecoder_decode jl response p m =
     (let reject = (\<lambda>r. Inl (ActionValidationError_new p m r)) in
      case mr_output response of
        [] \<Rightarrow> reject Reject_EmptyOutput
      | [Part_Text text] \<Rightarrow>
          if trim text = [] then reject Reject_EmptyOutput
          else if str_len text > MAX_PLANNING_RESPONSE_BYTES then reject Reject_ResponseTooLarge
          else (case deserialize_unique_json jl text of
                  None \<Rightarrow> reject Reject_MalformedEnvelope
                | Some value \<Rightarrow>
                    (case decode_envelope value of
                       Inl r \<Rightarrow> reject r
                     | Inr (tool_name, arguments) \<Rightarrow>
                         (case validate_argument_limits jl arguments of
                            Inl r \<Rightarrow> reject r
                          | Inr _ \<Rightarrow> Inr \<lparr>pr_id = p, pr_source_model_call_id = m, pr_tool_name = tool_name,
                                            pr_arguments = arguments\<rparr>)))
      | _ \<Rightarrow> reject Reject_UnsupportedOutputShape)"

definition ActionValidator_validate ::
  "json_lib \<Rightarrow> action_proposal \<Rightarrow> tool_registry \<Rightarrow> action_validation_error + validated_action" where
  "ActionValidator_validate jl proposal registry =
     (let reject = (\<lambda>r. Inl (ActionValidationError_new (pr_id proposal) (pr_source_model_call_id proposal) r)) in
      if str_len (pr_tool_name proposal) > MAX_ACTION_TOOL_NAME_BYTES then reject Reject_SecurityLimitExceeded
      else if \<not> (case pr_arguments proposal of JObject _ \<Rightarrow> True | _ \<Rightarrow> False) then reject Reject_ArgumentsSchemaMismatch
      else (case validate_argument_limits jl (pr_arguments proposal) of
              Inl r \<Rightarrow> reject r
            | Inr _ \<Rightarrow>
                (case registry (pr_tool_name proposal) of
                   None \<Rightarrow> reject Reject_UnknownTool
                 | Some binding \<Rightarrow>
                     if \<not> jl_is_valid jl (td_input_schema (tb_definition binding)) (pr_arguments proposal)
                     then reject Reject_ArgumentsSchemaMismatch
                     else let capability = td_capability (tb_definition binding)
                          in Inr \<lparr>va_proposal_id = pr_id proposal, va_tool_name = pr_tool_name proposal,
                                  va_arguments = pr_arguments proposal, va_capability = capability,
                                  va_digest = compute_action_digest (jl_sha256 jl) (pr_tool_name proposal) capability
                                    (pr_arguments proposal)\<rparr>)))"

end
