(* ===== verification/Harness.thy ===== *)
theory Harness
  imports Knowledge
begin

text \<open>
  The execution harness of \<^verbatim>\<open>crates/agent-harness/src/execution.rs\<close>: persistence, audit, terminalization and
  preflight, and the run operations built on them. A method \<^verbatim>\<open>async fn m(&self, context: &mut RunContext, \<dots>)\<close>
  is a computation over the run context, the database and a trace of the port calls it made.

  \<open>harness_env\<close> holds the configuration of the harness and everything outside of it: clocks, random
  identifiers, cancellation by other tasks, I/O failures of the store, and the answers of the audit sink, the
  model, the tools and the approval port. Each question to the outside takes the next tick, and the
  environment answers by tick, so that every possible behaviour of the outside is some environment.
  \<open>wait_outcome\<close> is the branch that wins a biased \<^verbatim>\<open>select!\<close>; its flag tells whether the port's future had already
  been polled when cancellation or the deadline won. The persistence port is the SQLite store.
\<close>

section \<open>Errors\<close>

datatype (plugins only: code size) audit_failure_policy = FailClosed | FailOpen
datatype (plugins only: code size) model_port_error = Model_Unavailable | Model_Rejected | Model_Failed
datatype (plugins only: code size) tool_port_error = ToolPort_Unavailable | ToolPort_AdapterFailure
datatype (plugins only: code size) audit_port_error = Audit_Unavailable | Audit_RecordFailed | Audit_TimedOut
datatype (plugins only: code size) approval_port_error = ApprovalPort_Unavailable | ApprovalPort_Failed
datatype (plugins only: code size) containment_port_error =
  Containment_Unavailable | Containment_PreviewRejected | Containment_Infrastructure

datatype (plugins only: code size) harness_operation =
  Op_StartRun | Op_Checkpoint | Op_BeginIteration | Op_RecordLoopProgress | Op_StartGraph | Op_EnterGraphNode
| Op_CompleteGraphNode | Op_FinishGraph | Op_InvokeModel | Op_RetrieveKnowledge | Op_BindModelGrounding
| Op_PrepareAction | Op_InvokeValidatedAction | Op_InvokeTool | Op_RequestApproval | Op_CompleteRun | Op_FailRun
| Op_CancelRun

datatype (plugins only: code size) execution_stage =
  Stage_Preflight | Stage_PreInvocationAudit | Stage_Invocation | Stage_PostInvocationAudit | Stage_LifecycleAudit

datatype (plugins only: code size) audit_phase = Phase_BeforeInvocation | Phase_AfterInvocation | Phase_Lifecycle

datatype (plugins only: code size) operation_effect = Effect_NotInvoked | Effect_InvocationStarted | Effect_StateCommitted

datatype (plugins only: code size) harness_error =
  HE_InvalidLifecycle harness_operation run_status
| HE_BudgetExceeded budget_dimension
| HE_Cancelled execution_stage
| HE_DeadlineExceeded execution_stage
| HE_ToolNotFound tool_name
| HE_PolicyDenied policy_denial
| HE_AuditDegraded
| HE_ApprovalRequired
| HE_CapabilityNotExecutable capability_kind
| HE_ContainmentUnavailable tool_name
| HE_ApprovalPortMissing
| HE_ApprovalPort approval_port_error
| HE_ApprovalDecisionMismatch
| HE_DurableApprovalMismatch
| HE_ActionSeal action_seal_error
| HE_ApprovalDenied
| HE_ContainmentPort containment_port_error
| HE_Audit audit_phase harness_operation operation_effect audit_port_error
| HE_ModelPort model_port_error
| HE_KnowledgePort knowledge_error
| HE_GroundingMismatch
| HE_ToolPort tool_port_error
| HE_Persistence persistence_port_error
| HE_Recovery recovery_error
| HE_Context run_context_error

fun audit_stage :: "audit_phase \<Rightarrow> execution_stage" where
  "audit_stage Phase_BeforeInvocation = Stage_PreInvocationAudit"
| "audit_stage Phase_AfterInvocation = Stage_PostInvocationAudit"
| "audit_stage Phase_Lifecycle = Stage_LifecycleAudit"

fun containment_failure_kind_of :: "containment_port_error \<Rightarrow> containment_failure_kind" where
  "containment_failure_kind_of Containment_Unavailable = CF_Unavailable"
| "containment_failure_kind_of Containment_PreviewRejected = CF_PreviewRejected"
| "containment_failure_kind_of Containment_Infrastructure = CF_Infrastructure"

section \<open>State and environment\<close>

datatype (plugins only: code size) wait_outcome = Wait_Cancelled bool | Wait_Deadline bool | Wait_Ready

record harness_env =
  he_store_codec :: store_codec
  he_persistence :: bool
  he_approval_port :: bool
  he_policy :: "capability_kind \<Rightarrow> authorization_decision"
  he_tools :: tool_registry
  he_audit_policy :: audit_failure_policy
  he_io :: "nat \<Rightarrow> io"
  he_now :: "nat \<Rightarrow> instant"
  he_wall :: "nat \<Rightarrow> system_time"
  he_uuid :: "nat \<Rightarrow> uuid"
  he_cancelled :: "nat \<Rightarrow> bool"
  he_wait :: "nat \<Rightarrow> wait_outcome"
  he_audit :: "nat \<Rightarrow> agent_event \<Rightarrow> audit_port_error option"
  he_model :: "nat \<Rightarrow> model_request \<Rightarrow> model_port_error + model_response"
  he_tool :: "nat \<Rightarrow> port \<Rightarrow> tool_call \<Rightarrow> tool_port_error + tool_result"
  he_managed_start :: "nat \<Rightarrow> port \<Rightarrow> tool_call \<Rightarrow> tool_port_error + unit"
  he_managed_reap :: "nat \<Rightarrow> port \<Rightarrow> tool_port_error + unit"
  he_contained_start :: "nat \<Rightarrow> port \<Rightarrow> tool_call \<Rightarrow> containment_port_error + unit"
  he_contained_wait :: "nat \<Rightarrow> port \<Rightarrow> tool_call \<Rightarrow> containment_port_error + tool_result"
  he_contained_reap :: "nat \<Rightarrow> port \<Rightarrow> containment_port_error + unit"
  he_preview :: "nat \<Rightarrow> port \<Rightarrow> json \<Rightarrow> containment_port_error + approval_preview"
  he_approve :: "nat \<Rightarrow> approval_request \<Rightarrow> approval_port_error + approval_decision"
  he_json :: json_lib
  he_knowledge :: "(nat \<Rightarrow> knowledge_request \<Rightarrow> knowledge_error + evidence_set) option"

datatype (plugins only: code size) trace_entry =
  Tr_Created run_record
| Tr_Persisted agent_event
| Tr_Audited agent_event
| Tr_ModelInvoked model_request
| Tr_ToolInvoked tool_call
| Tr_ApprovalAsked approval_request
| Tr_ApprovalAnswered approval_request approval_decision
| Tr_KnowledgeAsked knowledge_request

record harness_state =
  hs_ctx :: run_context
  hs_store :: sqlite_store
  hs_tick :: nat
  hs_trace :: "trace_entry list"

type_synonym 'a hm = "(harness_state, harness_error, 'a) sx"

definition ask :: "(nat \<Rightarrow> 'a) \<Rightarrow> 'a hm" where
  "ask f s = (Inr (f (hs_tick s)), s\<lparr>hs_tick := Suc (hs_tick s)\<rparr>)"

definition log_entry :: "trace_entry \<Rightarrow> unit hm" where
  "log_entry x = modify (\<lambda>s. s\<lparr>hs_trace := hs_trace s @ [x]\<rparr>)"

text \<open>A method of the context whose error is converted by \<open>f\<close>.\<close>

definition on_ctx :: "('e \<Rightarrow> harness_error) \<Rightarrow> (run_context, 'e, 'a) sx \<Rightarrow> 'a hm" where
  "on_ctx f m s =
     (case m (hs_ctx s) of
        (Inl e, c) \<Rightarrow> (Inl (f e), s\<lparr>hs_ctx := c\<rparr>)
      | (Inr x, c) \<Rightarrow> (Inr x, s\<lparr>hs_ctx := c\<rparr>))"

definition upd_ctx :: "(run_context \<Rightarrow> run_context) \<Rightarrow> unit hm" where
  "upd_ctx f = modify (\<lambda>s. s\<lparr>hs_ctx := f (hs_ctx s)\<rparr>)"

definition get_ctx :: "run_context hm" where
  "get_ctx = gets hs_ctx"

abbreviation he_codec :: "harness_env \<Rightarrow> codec" where
  "he_codec env \<equiv> sc_events (he_store_codec env)"

definition emit :: "harness_env \<Rightarrow> agent_event_kind \<Rightarrow> agent_event hm" where
  "emit env k = on_ctx HE_Context (next_event (he_codec env) k)"

section \<open>Persistence\<close>

definition transition_for :: "run_context \<Rightarrow> agent_event \<Rightarrow> bool \<Rightarrow> append_transition" where
  "transition_for c e checkpoint =
     \<lparr>at_key = context_key c,
      at_expected_sequence = (if ev_sequence e = 0 then None else Some (ev_sequence e - 1)),
      at_event = e,
      at_checkpoint = (if checkpoint then Some (DurableCheckpoint_new (rc_durable_state c)) else None)\<rparr>"

text \<open>A call of the persistence port.\<close>

definition store_call :: "(io \<Rightarrow> unit tx) \<Rightarrow> harness_env \<Rightarrow> unit hm" where
  "store_call f env s =
     (case f (he_io env (hs_tick s)) (hs_store s) of
        (Inl e, st) \<Rightarrow> (Inl (HE_Persistence e), s\<lparr>hs_store := st, hs_tick := Suc (hs_tick s)\<rparr>)
      | (Inr _, st) \<Rightarrow> (Inr (), s\<lparr>hs_store := st, hs_tick := Suc (hs_tick s)\<rparr>))"

definition persist_transition :: "harness_env \<Rightarrow> agent_event \<Rightarrow> unit hm" where
  "persist_transition env e =
     (if \<not> he_persistence env then ok ()
      else and_then get_ctx (\<lambda>c.
        on_result (store_call (\<lambda>io. append_transition (he_store_codec env) io
                     (transition_for c e (is_quiescent (rc_durable_state c)))) env)
          (\<lambda>r. case r of
                 Inl err_kind \<Rightarrow> and_then (upd_ctx mark_persistence_failed) (\<lambda>_. err err_kind)
               | Inr _ \<Rightarrow> log_entry (Tr_Persisted e))))"

section \<open>Audit\<close>

text \<open>\<^verbatim>\<open>timeout(self.config.audit_timeout(), self.audit.record(event))\<close>: \<open>None\<close> when the sink acknowledged in time.\<close>

definition audit_record :: "harness_env \<Rightarrow> agent_event \<Rightarrow> audit_port_error option hm" where
  "audit_record env e =
     and_then (ask (\<lambda>t. he_audit env t e)) (\<lambda>r.
       case r of
         None \<Rightarrow> and_then (log_entry (Tr_Audited e)) (\<lambda>_. ok None)
       | Some k \<Rightarrow> ok (Some k))"

datatype (plugins only: code size) audit_outcome =
  Audit_Recorded | Audit_Failed audit_port_error | Audit_Cancelled | Audit_DeadlineExceeded

definition audit_with_run_bounds :: "harness_env \<Rightarrow> agent_event \<Rightarrow> audit_outcome hm" where
  "audit_with_run_bounds env e =
     and_then get_ctx (\<lambda>c.
       if rc_runtime c = None then ok (Audit_Failed Audit_Unavailable)
       else and_then (ask (he_wait env)) (\<lambda>w.
         case w of
           Wait_Cancelled _ \<Rightarrow> ok Audit_Cancelled
         | Wait_Deadline _ \<Rightarrow> ok Audit_DeadlineExceeded
         | Wait_Ready \<Rightarrow> and_then (audit_record env e) (\<lambda>r.
             ok (case r of None \<Rightarrow> Audit_Recorded | Some k \<Rightarrow> Audit_Failed k))))"

definition record_audit_degraded :: "harness_env \<Rightarrow> unit hm" where
  "record_audit_degraded env =
     and_then (emit env Ev_AuditDegraded) (\<lambda>e.
     and_then (upd_ctx mark_audit_degraded) (\<lambda>_.
     persist_transition env e))"

definition apply_audit_failure ::
  "harness_env \<Rightarrow> harness_operation \<Rightarrow> audit_phase \<Rightarrow> operation_effect \<Rightarrow> audit_port_error \<Rightarrow> unit hm" where
  "apply_audit_failure env op phase effect k =
     (case he_audit_policy env of
        FailClosed \<Rightarrow> err (HE_Audit phase op effect k)
      | FailOpen \<Rightarrow> record_audit_degraded env)"

definition audit_terminal_best_effort :: "harness_env \<Rightarrow> agent_event \<Rightarrow> unit hm" where
  "audit_terminal_best_effort env e =
     on_result (persist_transition env e) (\<lambda>r.
       case r of
         Inl _ \<Rightarrow> upd_ctx mark_persistence_failed
       | Inr _ \<Rightarrow> and_then (audit_record env e) (\<lambda>a.
           if a = None then ok () else upd_ctx mark_audit_degraded))"

section \<open>Terminalization\<close>

datatype (plugins only: code size) safety_terminalization =
  Safety_Cancelled | Safety_DeadlineExceeded | Safety_BudgetExceeded budget_dimension

fun safety_outcome :: "safety_terminalization \<Rightarrow> run_outcome" where
  "safety_outcome Safety_Cancelled = Outcome_Cancelled"
| "safety_outcome Safety_DeadlineExceeded = Outcome_BudgetExceeded Dim_Elapsed"
| "safety_outcome (Safety_BudgetExceeded d) = Outcome_BudgetExceeded d"

text \<open>The part that \<^verbatim>\<open>terminalize_safety\<close> and \<^verbatim>\<open>terminalize_after_start_audit_failure\<close> share.\<close>

definition terminalize_with :: "harness_env \<Rightarrow> run_outcome \<Rightarrow> unit hm" where
  "terminalize_with env outcome =
     and_then get_ctx (\<lambda>c.
       if rc_status c \<noteq> Status_Running then ok ()
       else on_result (on_ctx HE_Context (commit_finished outcome)) (\<lambda>r.
         case r of
           Inl _ \<Rightarrow> upd_ctx mark_audit_degraded
         | Inr _ \<Rightarrow> on_result (emit env (Ev_RunFinished outcome)) (\<lambda>r.
             case r of
               Inl _ \<Rightarrow> upd_ctx mark_audit_degraded
             | Inr e \<Rightarrow> audit_terminal_best_effort env e)))"

definition terminalize_safety :: "harness_env \<Rightarrow> safety_terminalization \<Rightarrow> unit hm" where
  "terminalize_safety env t = terminalize_with env (safety_outcome t)"

definition terminalize_after_start_audit_failure :: "harness_env \<Rightarrow> unit hm" where
  "terminalize_after_start_audit_failure env = terminalize_with env (Outcome_Failed Fail_AuditUnavailable)"

section \<open>Audited events\<close>

text \<open>The three ways an event is audited after it was persisted: what the outcome leads to.\<close>

definition settle_audit ::
  "harness_env \<Rightarrow> audit_phase \<Rightarrow> (audit_port_error \<Rightarrow> unit hm) \<Rightarrow> audit_outcome \<Rightarrow> unit hm" where
  "settle_audit env phase on_failure out =
     (case out of
        Audit_Recorded \<Rightarrow> ok ()
      | Audit_Failed k \<Rightarrow> on_failure k
      | Audit_Cancelled \<Rightarrow> and_then (terminalize_safety env Safety_Cancelled) (\<lambda>_. err (HE_Cancelled (audit_stage phase)))
      | Audit_DeadlineExceeded \<Rightarrow>
          and_then (terminalize_safety env Safety_DeadlineExceeded) (\<lambda>_. err (HE_DeadlineExceeded (audit_stage phase))))"

definition audit_invocation ::
  "harness_env \<Rightarrow> agent_event \<Rightarrow> harness_operation \<Rightarrow> audit_phase \<Rightarrow> operation_effect \<Rightarrow> unit hm" where
  "audit_invocation env e op phase effect =
     and_then (persist_transition env e) (\<lambda>_.
     and_then (audit_with_run_bounds env e) (\<lambda>out.
     settle_audit env phase (apply_audit_failure env op phase effect) out))"

definition audit_required ::
  "harness_env \<Rightarrow> agent_event \<Rightarrow> harness_operation \<Rightarrow> audit_phase \<Rightarrow> operation_effect \<Rightarrow> unit hm" where
  "audit_required env e op phase effect =
     and_then (persist_transition env e) (\<lambda>_.
     and_then (audit_with_run_bounds env e) (\<lambda>out.
     settle_audit env phase
       (\<lambda>k. and_then (record_audit_degraded env) (\<lambda>_. err (HE_Audit phase op effect k))) out))"

definition audit_lifecycle :: "harness_env \<Rightarrow> agent_event \<Rightarrow> harness_operation \<Rightarrow> unit hm" where
  "audit_lifecycle env e op =
     and_then (persist_transition env e) (\<lambda>_.
     and_then (audit_record env e) (\<lambda>r.
       case r of
         None \<Rightarrow> ok ()
       | Some k \<Rightarrow> apply_audit_failure env op Phase_Lifecycle Effect_StateCommitted k))"

section \<open>Status and preflight\<close>

datatype (plugins only: code size) required_status = Require_Pending | Require_Running

fun status_satisfies :: "required_status \<Rightarrow> run_status \<Rightarrow> bool" where
  "status_satisfies Require_Pending Status_Pending = True"
| "status_satisfies Require_Running Status_Running = True"
| "status_satisfies _ _ = False"

definition require_status :: "harness_operation \<Rightarrow> required_status \<Rightarrow> unit hm" where
  "require_status op required =
     and_then get_ctx (\<lambda>c.
       if rc_persistence_failed c then err (HE_Persistence PE_Failed)
       else if status_satisfies required (rc_status c) then ok ()
       else err (HE_InvalidLifecycle op (rc_status c)))"

text \<open>\<^verbatim>\<open>context.cancellation()?\<close> and \<^verbatim>\<open>context.deadline_at()?\<close>.\<close>

definition runtime_of :: "run_runtime hm" where
  "runtime_of =
     and_then get_ctx (\<lambda>c. case rc_runtime c of None \<Rightarrow> err (HE_Context CE_RuntimeUnavailable) | Some rt \<Rightarrow> ok rt)"

definition preflight :: "harness_env \<Rightarrow> harness_operation \<Rightarrow> unit hm" where
  "preflight env op =
     and_then (require_status op Require_Running) (\<lambda>_.
     and_then runtime_of (\<lambda>rt.
     and_then (ask (he_cancelled env)) (\<lambda>cancelled.
       if cancelled \<or> rt_cancelled rt
       then and_then (terminalize_safety env Safety_Cancelled) (\<lambda>_. err (HE_Cancelled Stage_Preflight))
       else and_then (ask (he_now env)) (\<lambda>now.
         if now \<ge> rt_deadline_at rt
         then and_then (terminalize_safety env Safety_DeadlineExceeded) (\<lambda>_. err (HE_DeadlineExceeded Stage_Preflight))
         else ok ()))))"

text \<open>A reservation that terminalizes the run when the budget is exhausted.\<close>

definition reserve :: "harness_env \<Rightarrow> (run_context, budget_dimension, 'a) sx \<Rightarrow> 'a hm" where
  "reserve env m =
     on_result (on_ctx HE_BudgetExceeded m) (\<lambda>r.
       case r of
         Inl e \<Rightarrow> (case e of
             HE_BudgetExceeded d \<Rightarrow> and_then (terminalize_safety env (Safety_BudgetExceeded d)) (\<lambda>_. err e)
           | _ \<Rightarrow> err e)
       | Inr x \<Rightarrow> ok x)"

text \<open>
  A biased select between cancellation, the deadline and a port call: \<open>started\<close> records that the port was given
  the request, \<open>answer\<close> is its answer.
\<close>

definition guarded_call :: "harness_env \<Rightarrow> unit hm \<Rightarrow> unit hm \<Rightarrow> 'a hm \<Rightarrow> 'a hm" where
  "guarded_call env started reap answer =
     and_then (ask (he_wait env)) (\<lambda>w.
       case w of
         Wait_Cancelled polled \<Rightarrow>
           and_then (if polled then started else ok ()) (\<lambda>_.
           and_then reap (\<lambda>_.
           and_then (terminalize_safety env Safety_Cancelled) (\<lambda>_. err (HE_Cancelled Stage_Invocation))))
       | Wait_Deadline polled \<Rightarrow>
           and_then (if polled then started else ok ()) (\<lambda>_.
           and_then reap (\<lambda>_.
           and_then (terminalize_safety env Safety_DeadlineExceeded) (\<lambda>_. err (HE_DeadlineExceeded Stage_Invocation))))
       | Wait_Ready \<Rightarrow> and_then started (\<lambda>_. answer))"

definition lift_port :: "('e \<Rightarrow> harness_error) \<Rightarrow> (nat \<Rightarrow> 'e + 'a) \<Rightarrow> 'a hm" where
  "lift_port f q =
     and_then (ask q) (\<lambda>r. case r of Inl e \<Rightarrow> err (f e) | Inr x \<Rightarrow> ok x)"

end
