(* ===== verification/Harness_Ops.thy ===== *)
theory Harness_Ops
  imports Harness
begin

text \<open>
  The public operations of the harness (\<^verbatim>\<open>crates/agent-harness/src/execution.rs\<close>): the run lifecycle, loop and
  graph progress, model calls, direct, managed and contained tools, and local writes under interactive
  approval. Each operation is a computation over the run context, the database and the trace of port calls.
\<close>

section \<open>Starting and recovering a run\<close>

text \<open>The handle \<^verbatim>\<open>start_run\<close> returns shares the cancellation token of the context's runtime.\<close>

definition start_run_record :: "harness_env \<Rightarrow> run_record \<Rightarrow> unit hm" where
  "start_run_record env r =
     and_then (require_status Op_StartRun Require_Pending) (\<lambda>_.
     and_then (if he_persistence env
               then and_then get_ctx (\<lambda>c.
                    and_then (store_call (\<lambda>io. create_run (he_store_codec env) io r
                        (DurableCheckpoint_new (rc_durable_state c))) env) (\<lambda>_.
                    log_entry (Tr_Created r)))
               else ok ()) (\<lambda>_.
     and_then (ask (he_now env)) (\<lambda>now.
     and_then (ask (he_wall env)) (\<lambda>wall.
     and_then (on_ctx HE_Context (commit_running now wall)) (\<lambda>_.
     and_then get_ctx (\<lambda>c.
       case ctx_started_at_unix_millis c of
         Inl e \<Rightarrow> err (HE_Context e)
       | Inr started \<Rightarrow>
           and_then (emit env (Ev_RunStarted started)) (\<lambda>e.
             on_result (audit_lifecycle env e Op_StartRun) (\<lambda>r.
               case r of
                 Inr _ \<Rightarrow> ok ()
               | Inl x \<Rightarrow>
                   and_then (if he_audit_policy env = FailClosed
                             then terminalize_after_start_audit_failure env else ok ()) (\<lambda>_. err x))))))))) "

definition start_run :: "harness_env \<Rightarrow> unit hm" where
  "start_run env = and_then get_ctx (\<lambda>c. start_run_record env (ctx_run_record c))"

definition start_run_with_authorization :: "harness_env \<Rightarrow> durable_run_authorization \<Rightarrow> unit hm" where
  "start_run_with_authorization env a =
     and_then get_ctx (\<lambda>c. start_run_record env (with_authorization a (ctx_run_record c)))"

text \<open>\<^verbatim>\<open>recover_run\<close> has no context yet: it reads the database.\<close>

definition recover_run ::
  "harness_env \<Rightarrow> io \<Rightarrow> system_time \<Rightarrow> instant \<Rightarrow> run_key \<Rightarrow> sqlite_store \<Rightarrow> harness_error + recovery_disposition" where
  "recover_run env io wall now k st =
     (if \<not> he_persistence env then Inl (HE_Persistence PE_Unavailable)
      else (case load_run (he_store_codec env) io k st of
              Inl e \<Rightarrow> Inl (HE_Persistence e)
            | Inr l \<Rightarrow>
                (case unix_millis wall of
                   None \<Rightarrow> Inl (HE_Recovery RE_ClockAmbiguous)
                 | Some ms \<Rightarrow>
                     (case recover_loaded_run (he_codec env) l ms now of
                        Inl e \<Rightarrow> Inl (HE_Recovery e)
                      | Inr d \<Rightarrow> Inr d))))"

section \<open>Model calls\<close>

definition invoke_model_port :: "harness_env \<Rightarrow> model_request \<Rightarrow> model_response hm" where
  "invoke_model_port env request =
     and_then runtime_of (\<lambda>_.
       guarded_call env (log_entry (Tr_ModelInvoked request)) (ok ())
         (lift_port HE_ModelPort (\<lambda>t. he_model env t request)))"

record grounding_binding =
  gb_retrieval_id :: knowledge_retrieval_id
  gb_evidence_count :: u8
  gb_manifest_digest :: digest

definition bind_grounding :: "harness_env \<Rightarrow> model_call_id \<Rightarrow> grounding_binding option \<Rightarrow> unit hm" where
  "bind_grounding env mid g =
     (case g of
        None \<Rightarrow> ok ()
      | Some b \<Rightarrow>
          and_then (emit env (Ev_ModelGroundingBound (gb_retrieval_id b) mid (gb_evidence_count b)
                      (gb_manifest_digest b))) (\<lambda>e.
          audit_invocation env e Op_BindModelGrounding Phase_Lifecycle Effect_NotInvoked))"

definition invoke_model_internal ::
  "harness_env \<Rightarrow> model_request \<Rightarrow> grounding_binding option \<Rightarrow> completed_model_invocation hm" where
  "invoke_model_internal env request grounding =
     and_then (preflight env Op_InvokeModel) (\<lambda>_.
     and_then (reserve env reserve_model_call) (\<lambda>_.
     and_then (ask (he_uuid env)) (\<lambda>mid.
     and_then get_ctx (\<lambda>c.
     and_then (emit env (Ev_ModelInvocationStarted mid (model_calls (rc_usage c))
                 (max_model_calls (rc_budget c)))) (\<lambda>e.
     and_then (audit_invocation env e Op_InvokeModel Phase_BeforeInvocation Effect_NotInvoked) (\<lambda>_.
     and_then (bind_grounding env mid grounding) (\<lambda>_.
       on_result (invoke_model_port env request) (\<lambda>r.
         case r of
           Inr response \<Rightarrow>
             and_then (emit env (Ev_ModelInvocationCompleted mid (mr_token_usage response))) (\<lambda>e.
             and_then (audit_invocation env e Op_InvokeModel Phase_AfterInvocation Effect_InvocationStarted) (\<lambda>_.
             ok \<lparr>cm_model_call_id = mid, cm_response = response\<rparr>))
         | Inl x \<Rightarrow> (case x of
             HE_ModelPort _ \<Rightarrow>
               and_then (emit env (Ev_ModelInvocationFailed mid)) (\<lambda>e.
               and_then (audit_invocation env e Op_InvokeModel Phase_AfterInvocation Effect_InvocationStarted) (\<lambda>_.
               err x))
           | _ \<Rightarrow> err x)))))))))"

definition invoke_model_tracked :: "harness_env \<Rightarrow> model_request \<Rightarrow> completed_model_invocation hm" where
  "invoke_model_tracked env request = invoke_model_internal env request None"

definition invoke_model :: "harness_env \<Rightarrow> model_request \<Rightarrow> model_response hm" where
  "invoke_model env request = and_then (invoke_model_tracked env request) (\<lambda>i. ok (cm_response i))"

text \<open>A retrieval that the harness has recorded, and what binds a model call to it.\<close>

record completed_knowledge_retrieval =
  ck_retrieval_id :: knowledge_retrieval_id
  ck_evidence :: evidence_set

definition invoke_grounded_model ::
  "harness_env \<Rightarrow> completed_knowledge_retrieval \<Rightarrow> grounded_model_request \<Rightarrow> completed_model_invocation hm" where
  "invoke_grounded_model env retrieval request =
     (if gm_manifest_digest request \<noteq> se_manifest_digest (ck_evidence retrieval)
         \<or> gm_evidence_count request \<noteq> u8_saturating (length (se_evidence (ck_evidence retrieval)))
      then err HE_GroundingMismatch
      else invoke_model_internal env (gm_request request)
             (Some \<lparr>gb_retrieval_id = ck_retrieval_id retrieval, gb_evidence_count = gm_evidence_count request,
                    gb_manifest_digest = gm_manifest_digest request\<rparr>))"

section \<open>Retrieval\<close>

fun knowledge_failure_kind_of :: "knowledge_error \<Rightarrow> knowledge_failure_kind" where
  "knowledge_failure_kind_of (KE_Unavailable _) = KF_Unavailable"
| "knowledge_failure_kind_of (KE_Rejected _) = KF_Rejected"
| "knowledge_failure_kind_of KE_MalformedResponse = KF_MalformedResponse"
| "knowledge_failure_kind_of KE_SnapshotMismatch = KF_SnapshotMismatch"
| "knowledge_failure_kind_of (KE_Failed _) = KF_Failed"
| "knowledge_failure_kind_of KE_AllBackendsFailed = KF_Failed"

definition record_knowledge_failure ::
  "harness_env \<Rightarrow> knowledge_retrieval_id \<Rightarrow> knowledge_failure_kind \<Rightarrow> unit hm" where
  "record_knowledge_failure env rid kind =
     and_then (emit env (Ev_KnowledgeRetrievalFailed rid kind)) (\<lambda>e.
     audit_invocation env e Op_RetrieveKnowledge Phase_AfterInvocation Effect_InvocationStarted)"

definition record_knowledge_interruption ::
  "harness_env \<Rightarrow> knowledge_retrieval_id \<Rightarrow> knowledge_failure_kind \<Rightarrow> unit hm" where
  "record_knowledge_interruption env rid kind =
     and_then (emit env (Ev_KnowledgeRetrievalFailed rid kind)) (\<lambda>e.
     and_then (persist_transition env e) (\<lambda>_.
     and_then (audit_record env e) (\<lambda>r.
       if r = None then ok () else upd_ctx mark_audit_degraded)))"

text \<open>The event that announces a retrieval: a restart of the pending one when it asks the same question.\<close>

definition retrieval_event ::
  "durable_run_state \<Rightarrow> knowledge_request \<Rightarrow> knowledge_retrieval_id \<Rightarrow> digest \<Rightarrow> u16 \<Rightarrow> harness_error + agent_event_kind" where
  "retrieval_event s request rid qd qb =
     (let route = kr_metadata (kq_route request) in
      case ds_pending_knowledge_retrieval s of
        Some p \<Rightarrow>
          if pk_route p \<noteq> route \<or> pk_query_digest p \<noteq> qd \<or> pk_query_bytes p \<noteq> qb
          then Inl (HE_KnowledgePort (KE_Rejected (hd (kr_backends (kq_route request)))))
          else Inr (Ev_KnowledgeRetrievalRestarted (pk_retrieval_id p) rid route qd qb)
      | None \<Rightarrow> Inr (Ev_KnowledgeRetrievalStarted rid route qd qb))"

definition finish_retrieval ::
  "harness_env \<Rightarrow> knowledge_retrieval_id \<Rightarrow> knowledge_error + evidence_set \<Rightarrow> completed_knowledge_retrieval hm" where
  "finish_retrieval env rid r =
     (case r of
        Inr es \<Rightarrow>
          (case those (map durable_reference (se_evidence es)) of
             None \<Rightarrow> err (HE_KnowledgePort KE_MalformedResponse)
           | Some refs \<Rightarrow>
               if length refs \<ge> 256 then err (HE_KnowledgePort KE_MalformedResponse)
               else
               and_then (emit env (Ev_KnowledgeRetrievalCompleted rid (se_snapshots es) refs (of_nat (length refs))
                           (se_truncated es) (se_degraded es) (se_manifest_digest es))) (\<lambda>e.
               and_then (audit_invocation env e Op_RetrieveKnowledge Phase_AfterInvocation Effect_InvocationStarted) (\<lambda>_.
               ok \<lparr>ck_retrieval_id = rid, ck_evidence = es\<rparr>)))
      | Inl x \<Rightarrow>
          and_then (record_knowledge_failure env rid (knowledge_failure_kind_of x)) (\<lambda>_. err (HE_KnowledgePort x)))"

text \<open>Unlike other calls, an interrupted retrieval records its failure before the run is ended.\<close>

definition await_knowledge ::
  "harness_env \<Rightarrow> (nat \<Rightarrow> knowledge_request \<Rightarrow> knowledge_error + evidence_set) \<Rightarrow> knowledge_request \<Rightarrow> knowledge_retrieval_id \<Rightarrow>
   completed_knowledge_retrieval hm" where
  "await_knowledge env port request rid =
     and_then runtime_of (\<lambda>_.
     and_then (ask (he_wait env)) (\<lambda>w.
       case w of
         Wait_Ready \<Rightarrow>
           and_then (log_entry (Tr_KnowledgeAsked request)) (\<lambda>_.
           and_then (ask (\<lambda>t. port t request)) (finish_retrieval env rid))
       | Wait_Cancelled polled \<Rightarrow>
           and_then (if polled then log_entry (Tr_KnowledgeAsked request) else ok ()) (\<lambda>_.
           and_then (record_knowledge_interruption env rid KF_Cancelled) (\<lambda>_.
           and_then (terminalize_safety env Safety_Cancelled) (\<lambda>_. err (HE_Cancelled Stage_Invocation))))
       | Wait_Deadline polled \<Rightarrow>
           and_then (if polled then log_entry (Tr_KnowledgeAsked request) else ok ()) (\<lambda>_.
           and_then (record_knowledge_interruption env rid KF_DeadlineExceeded) (\<lambda>_.
           and_then (terminalize_safety env Safety_DeadlineExceeded) (\<lambda>_. err (HE_DeadlineExceeded Stage_Invocation))))))"

text \<open>A route has at least one backend, so that \<^verbatim>\<open>backends()[0]\<close> exists.\<close>

definition retrieve_knowledge :: "harness_env \<Rightarrow> knowledge_request \<Rightarrow> completed_knowledge_retrieval hm" where
  "retrieve_knowledge env request =
     and_then (preflight env Op_RetrieveKnowledge) (\<lambda>_.
       case he_knowledge env of
         None \<Rightarrow> err (HE_KnowledgePort (KE_Unavailable (hd (kr_backends (kq_route request)))))
       | Some port \<Rightarrow>
           and_then (ask (he_uuid env)) (\<lambda>rid.
             if str_len (kq_query request) \<ge> 65536 then err (HE_KnowledgePort KE_MalformedResponse)
             else and_then get_ctx (\<lambda>c.
               case retrieval_event (rc_durable_state c) request rid (query_digest (jl_sha256 (he_json env)) (kq_query request))
                      (of_nat (str_len (kq_query request))) of
                 Inl x \<Rightarrow> err x
               | Inr k \<Rightarrow>
                   and_then (emit env k) (\<lambda>e.
                   and_then (audit_invocation env e Op_RetrieveKnowledge Phase_BeforeInvocation Effect_NotInvoked) (\<lambda>_.
                   await_knowledge env port request rid)))))"

section \<open>Actions\<close>

definition record_action_rejected :: "harness_env \<Rightarrow> action_validation_error \<Rightarrow> unit hm" where
  "record_action_rejected env v =
     and_then (emit env (Ev_ActionRejected (ve_model_call_id v) (ve_proposal_id v) (ve_reason v))) (\<lambda>e.
     audit_invocation env e Op_PrepareAction Phase_Lifecycle Effect_StateCommitted)"

text \<open>
  \<^verbatim>\<open>ActionPreparationError\<close> has two constructors: \<^verbatim>\<open>Harness\<close> is the error of the computation, \<^verbatim>\<open>Validation\<close> its result \<open>Inl\<close>.
\<close>

definition prepare_action ::
  "harness_env \<Rightarrow> completed_model_invocation \<Rightarrow> (action_validation_error + validated_action) hm" where
  "prepare_action env invocation =
     and_then (preflight env Op_PrepareAction) (\<lambda>_.
     and_then (ask (he_uuid env)) (\<lambda>pid.
       case TextActionDecoder_decode (he_json env) (cm_response invocation) pid (cm_model_call_id invocation) of
         Inl v \<Rightarrow> and_then (record_action_rejected env v) (\<lambda>_. ok (Inl v))
       | Inr proposal \<Rightarrow>
           and_then (emit env (Ev_ActionProposed (cm_model_call_id invocation) pid (pr_tool_name proposal))) (\<lambda>e.
           and_then (audit_invocation env e Op_PrepareAction Phase_Lifecycle Effect_StateCommitted) (\<lambda>_.
             case ActionValidator_validate (he_json env) proposal (he_tools env) of
               Inl v \<Rightarrow> and_then (record_action_rejected env v) (\<lambda>_. ok (Inl v))
             | Inr validated \<Rightarrow>
                 and_then (emit env (Ev_ActionValidated pid)) (\<lambda>e.
                 and_then (audit_invocation env e Op_PrepareAction Phase_Lifecycle Effect_StateCommitted) (\<lambda>_.
                 ok (Inr validated)))))))"

section \<open>Tool ports\<close>

definition invoke_tool_port :: "harness_env \<Rightarrow> port \<Rightarrow> tool_call \<Rightarrow> tool_result hm" where
  "invoke_tool_port env p call =
     and_then runtime_of (\<lambda>_.
       guarded_call env (log_entry (Tr_ToolInvoked call)) (ok ())
         (lift_port HE_ToolPort (\<lambda>t. he_tool env t p call)))"

text \<open>\<^verbatim>\<open>start_contained\<close> and \<^verbatim>\<open>start_managed\<close> hand the call over before the wait begins.\<close>

definition invoke_contained_tool_port :: "harness_env \<Rightarrow> port \<Rightarrow> tool_call \<Rightarrow> tool_result hm" where
  "invoke_contained_tool_port env p call =
     and_then runtime_of (\<lambda>_.
     and_then (log_entry (Tr_ToolInvoked call)) (\<lambda>_.
     and_then (lift_port HE_ContainmentPort (\<lambda>t. he_contained_start env t p call)) (\<lambda>_.
       guarded_call env (ok ()) (lift_port HE_ContainmentPort (\<lambda>t. he_contained_reap env t p))
         (lift_port HE_ContainmentPort (\<lambda>t. he_contained_wait env t p call)))))"

definition invoke_managed_tool_port :: "harness_env \<Rightarrow> port \<Rightarrow> tool_call \<Rightarrow> tool_result hm" where
  "invoke_managed_tool_port env p call =
     and_then runtime_of (\<lambda>_.
     and_then (log_entry (Tr_ToolInvoked call)) (\<lambda>_.
     and_then (lift_port HE_ToolPort (\<lambda>t. he_managed_start env t p call)) (\<lambda>_.
       guarded_call env (ok ()) (lift_port HE_ToolPort (\<lambda>t. he_managed_reap env t p))
         (lift_port HE_ToolPort (\<lambda>t. he_tool env t p call)))))"

definition await_approval :: "harness_env \<Rightarrow> approval_request \<Rightarrow> approval_decision hm" where
  "await_approval env q =
     and_then runtime_of (\<lambda>_.
       guarded_call env (log_entry (Tr_ApprovalAsked q)) (ok ())
         (and_then (lift_port HE_ApprovalPort (\<lambda>t. he_approve env t q)) (\<lambda>d.
          and_then (log_entry (Tr_ApprovalAnswered q d)) (\<lambda>_. ok d))))"

section \<open>Recording the course of a tool call\<close>

datatype (plugins only: code size) tool_audit = Audit_Configured | Audit_RequiredMode

definition audit_by_mode ::
  "harness_env \<Rightarrow> tool_audit \<Rightarrow> agent_event \<Rightarrow> harness_operation \<Rightarrow> audit_phase \<Rightarrow> operation_effect \<Rightarrow> unit hm" where
  "audit_by_mode env mode e op phase effect =
     (case mode of
        Audit_Configured \<Rightarrow> audit_invocation env e op phase effect
      | Audit_RequiredMode \<Rightarrow> audit_required env e op phase effect)"

definition reserve_and_record_tool_started ::
  "harness_env \<Rightarrow> tool_call_id \<Rightarrow> tool_name \<Rightarrow> capability_kind \<Rightarrow> harness_operation \<Rightarrow> tool_audit \<Rightarrow> unit hm" where
  "reserve_and_record_tool_started env i name cap op mode =
     and_then (reserve env reserve_tool_call) (\<lambda>_.
     and_then get_ctx (\<lambda>c.
     and_then (emit env (Ev_ToolInvocationStarted i name cap (tool_calls (rc_usage c))
                 (max_tool_calls (rc_budget c)))) (\<lambda>e.
     audit_by_mode env mode e op Phase_BeforeInvocation Effect_NotInvoked)))"

definition record_tool_terminal_event ::
  "harness_env \<Rightarrow> agent_event_kind \<Rightarrow> harness_operation \<Rightarrow> tool_audit \<Rightarrow> unit hm" where
  "record_tool_terminal_event env k op mode =
     and_then (emit env k) (\<lambda>e. audit_by_mode env mode e op Phase_AfterInvocation Effect_InvocationStarted)"

definition record_tool_terminal_after_runtime_error ::
  "harness_env \<Rightarrow> tool_call_id \<Rightarrow> harness_operation \<Rightarrow> tool_audit \<Rightarrow> unit hm" where
  "record_tool_terminal_after_runtime_error env i op mode =
     and_then get_ctx (\<lambda>c.
       if rc_status c = Status_Running
       then record_tool_terminal_event env (Ev_ToolInvocationAdapterFailed i) op mode
       else on_result (emit env (Ev_ToolInvocationAdapterFailed i)) (\<lambda>r.
         case r of
           Inr e \<Rightarrow> audit_terminal_best_effort env e
         | Inl _ \<Rightarrow> upd_ctx mark_audit_degraded))"

definition finish_tool_invocation ::
  "harness_env \<Rightarrow> tool_call_id \<Rightarrow> harness_operation \<Rightarrow> tool_audit \<Rightarrow> harness_error + tool_result \<Rightarrow> tool_result hm" where
  "finish_tool_invocation env i op mode r =
     (case r of
        Inr result \<Rightarrow>
          if tool_result_call_id result \<noteq> i
          then and_then (record_tool_terminal_event env (Ev_ToolInvocationAdapterFailed i) op mode) (\<lambda>_.
               err (HE_ToolPort ToolPort_AdapterFailure))
          else and_then (record_tool_terminal_event env
                 (case result of
                    Tool_Succeeded _ _ \<Rightarrow> Ev_ToolInvocationCompleted i
                  | Tool_DomainFailure _ kind \<Rightarrow> Ev_ToolInvocationDomainFailed i kind) op mode) (\<lambda>_. ok result)
      | Inl x \<Rightarrow>
          (case x of
             HE_ToolPort _ \<Rightarrow>
               and_then (record_tool_terminal_event env (Ev_ToolInvocationAdapterFailed i) op mode) (\<lambda>_. err x)
           | HE_ContainmentPort _ \<Rightarrow>
               and_then (record_tool_terminal_event env (Ev_ToolInvocationAdapterFailed i) op mode) (\<lambda>_. err x)
           | _ \<Rightarrow>
               and_then (record_tool_terminal_after_runtime_error env i op mode) (\<lambda>_. err x)))"

definition record_policy_denied ::
  "harness_env \<Rightarrow> tool_call_id \<Rightarrow> tool_name \<Rightarrow> capability_kind \<Rightarrow> harness_operation \<Rightarrow> unit hm" where
  "record_policy_denied env i name cap op =
     and_then (emit env (Ev_ToolPolicyDenied i name cap)) (\<lambda>e.
     audit_invocation env e op Phase_BeforeInvocation Effect_NotInvoked)"

definition record_containment_failed ::
  "harness_env \<Rightarrow> tool_call_id \<Rightarrow> tool_name \<Rightarrow> capability_kind \<Rightarrow> containment_failure_kind \<Rightarrow> unit hm" where
  "record_containment_failed env i name cap kind =
     and_then (emit env (Ev_ContainmentFailed i name cap kind)) (\<lambda>e.
     audit_required env e Op_InvokeValidatedAction Phase_BeforeInvocation Effect_NotInvoked)"

section \<open>Tool calls\<close>

definition invoke_direct_tool ::
  "harness_env \<Rightarrow> port \<Rightarrow> tool_call \<Rightarrow> tool_name \<Rightarrow> capability_kind \<Rightarrow> tool_result hm" where
  "invoke_direct_tool env p call name cap =
     and_then (reserve_and_record_tool_started env (tc_id call) name cap Op_InvokeTool Audit_Configured) (\<lambda>_.
     on_result (invoke_tool_port env p call)
       (finish_tool_invocation env (tc_id call) Op_InvokeTool Audit_Configured))"

definition invoke_contained_read_only ::
  "harness_env \<Rightarrow> port \<Rightarrow> tool_call \<Rightarrow> tool_name \<Rightarrow> capability_kind \<Rightarrow> tool_result hm" where
  "invoke_contained_read_only env p call name cap =
     and_then (reserve_and_record_tool_started env (tc_id call) name cap Op_InvokeTool Audit_Configured) (\<lambda>_.
     on_result (invoke_contained_tool_port env p call)
       (finish_tool_invocation env (tc_id call) Op_InvokeTool Audit_Configured))"

definition invoke_managed_tool ::
  "harness_env \<Rightarrow> port \<Rightarrow> tool_call \<Rightarrow> tool_name \<Rightarrow> capability_kind \<Rightarrow> tool_result hm" where
  "invoke_managed_tool env p call name cap =
     and_then (reserve_and_record_tool_started env (tc_id call) name cap Op_InvokeTool Audit_Configured) (\<lambda>_.
     on_result (invoke_managed_tool_port env p call)
       (finish_tool_invocation env (tc_id call) Op_InvokeTool Audit_Configured))"

text \<open>The three arms of the matches on \<^verbatim>\<open>ExecutionBinding\<close> for a read-only tool.\<close>

definition invoke_read_only ::
  "harness_env \<Rightarrow> execution_binding \<Rightarrow> tool_call \<Rightarrow> tool_name \<Rightarrow> capability_kind \<Rightarrow> tool_result hm" where
  "invoke_read_only env x call name cap =
     (case x of
        Exec_Direct p \<Rightarrow> invoke_direct_tool env p call name cap
      | Exec_ManagedDirect p \<Rightarrow> invoke_managed_tool env p call name cap
      | Exec_Contained p \<Rightarrow> invoke_contained_read_only env p call name cap)"

definition invoke_tool :: "harness_env \<Rightarrow> tool_call \<Rightarrow> tool_result hm" where
  "invoke_tool env call =
     and_then (preflight env Op_InvokeTool) (\<lambda>_.
       case he_tools env (tc_name call) of
         None \<Rightarrow> err (HE_ToolNotFound (tc_name call))
       | Some b \<Rightarrow>
           let cap = td_capability (tb_definition b); name = td_name (tb_definition b);
               denied = record_policy_denied env (tc_id call) name cap Op_InvokeTool
           in (case he_policy env cap of
                 Auth_RequiresApproval \<Rightarrow>
                   and_then denied (\<lambda>_. err (HE_PolicyDenied (PolicyDenial_new cap ApprovalRequiredButUnsupported)))
               | Auth_Denied d \<Rightarrow> and_then denied (\<lambda>_. err (HE_PolicyDenied d))
               | Auth_Allowed \<Rightarrow>
                   if cap = ReadOnly then invoke_read_only env (tb_execution b) call name cap
                   else and_then denied (\<lambda>_. err (HE_CapabilityNotExecutable cap))))"

section \<open>Local writes under interactive approval\<close>

fun approval_failure_of :: "approval_port_error \<Rightarrow> approval_failure_kind" where
  "approval_failure_of ApprovalPort_Unavailable = AF_PortUnavailable"
| "approval_failure_of ApprovalPort_Failed = AF_PortFailed"

text \<open>An event of the approval dialogue, under the audit that no policy relaxes.\<close>

definition record_approval_event :: "harness_env \<Rightarrow> agent_event_kind \<Rightarrow> unit hm" where
  "record_approval_event env k =
     and_then (emit env k) (\<lambda>e. audit_required env e Op_RequestApproval Phase_AfterInvocation Effect_NotInvoked)"

definition invoke_granted_local_write ::
  "harness_env \<Rightarrow> port \<Rightarrow> tool_call \<Rightarrow> tool_name \<Rightarrow> capability_kind \<Rightarrow> tool_result hm" where
  "invoke_granted_local_write env p call name cap =
     and_then (preflight env Op_InvokeTool) (\<lambda>_.
     and_then (reserve_and_record_tool_started env (tc_id call) name cap Op_InvokeTool Audit_RequiredMode) (\<lambda>_.
     on_result (invoke_contained_tool_port env p call)
       (finish_tool_invocation env (tc_id call) Op_InvokeTool Audit_RequiredMode)))"

definition settle_approval ::
  "harness_env \<Rightarrow> port \<Rightarrow> tool_call \<Rightarrow> approval_request \<Rightarrow> approval_decision \<Rightarrow> tool_result hm" where
  "settle_approval env p call q d =
     and_then (preflight env Op_RequestApproval) (\<lambda>_.
       if ad_request_id d \<noteq> aq_id q \<or> ad_action_digest d \<noteq> aq_action_digest q
       then and_then (record_approval_event env (Ev_ApprovalFailed (aq_id q) AF_DecisionMismatch)) (\<lambda>_.
            err HE_ApprovalDecisionMismatch)
       else (case ad_outcome d of
           Approval_Denied \<Rightarrow>
             and_then (record_approval_event env (Ev_ApprovalDenied (aq_id q))) (\<lambda>_. err HE_ApprovalDenied)
         | Approval_Granted \<Rightarrow>
             and_then (record_approval_event env (Ev_ApprovalGranted (aq_id q))) (\<lambda>_.
             invoke_granted_local_write env p call (aq_tool_name q) (aq_capability q))))"

definition invoke_approved_local_write ::
  "harness_env \<Rightarrow> port \<Rightarrow> tool_call \<Rightarrow> validated_action \<Rightarrow> tool_result hm" where
  "invoke_approved_local_write env p call a =
     and_then (ask (\<lambda>t. he_preview env t p (tc_input call))) (\<lambda>r.
       case r of
         Inl x \<Rightarrow>
           and_then (record_containment_failed env (tc_id call) (va_tool_name a) (va_capability a)
                       (containment_failure_kind_of x)) (\<lambda>_. err (HE_ContainmentPort x))
       | Inr preview \<Rightarrow>
           and_then (preflight env Op_RequestApproval) (\<lambda>_.
           and_then (require (he_approval_port env) HE_ApprovalPortMissing) (\<lambda>_.
           and_then (ask (he_uuid env)) (\<lambda>qid.
           and_then (reserve env reserve_approval_request) (\<lambda>_.
           and_then get_ctx (\<lambda>c.
             let q = \<lparr>aq_id = qid, aq_action_proposal_id = va_proposal_id a, aq_tool_call_id = tc_id call,
                      aq_tool_name = va_tool_name a, aq_capability = va_capability a,
                      aq_action_digest = va_digest a, aq_preview = preview\<rparr>
             in
             and_then (emit env (Ev_ApprovalRequested qid (va_proposal_id a) (tc_id call) (va_tool_name a)
                         (va_capability a) (approval_requests (rc_usage c))
                         (max_approval_requests (rc_budget c)))) (\<lambda>e.
             and_then (audit_required env e Op_RequestApproval Phase_BeforeInvocation Effect_NotInvoked) (\<lambda>_.
             on_result (await_approval env q) (\<lambda>r.
               case r of
                 Inl x \<Rightarrow> (case x of
                     HE_ApprovalPort k \<Rightarrow>
                       and_then (record_approval_event env (Ev_ApprovalFailed qid (approval_failure_of k))) (\<lambda>_. err x)
                   | _ \<Rightarrow> err x)
               | Inr d \<Rightarrow> settle_approval env p call q d)))))))))"

definition invoke_validated_action :: "harness_env \<Rightarrow> validated_action \<Rightarrow> tool_result hm" where
  "invoke_validated_action env a =
     and_then (preflight env Op_InvokeValidatedAction) (\<lambda>_.
     and_then (ask (he_uuid env)) (\<lambda>i.
       let name = va_tool_name a; cap = va_capability a;
           denied = record_policy_denied env i name cap Op_InvokeValidatedAction
       in (case he_tools env name of
             None \<Rightarrow> err (HE_ToolNotFound name)
           | Some b \<Rightarrow>
               if td_capability (tb_definition b) \<noteq> cap then err (HE_ToolPort ToolPort_AdapterFailure)
               else
               and_then (emit env (Ev_ActionExecutionBound (va_proposal_id a) i)) (\<lambda>e.
               and_then (audit_by_mode env (if cap = LocalWrite then Audit_RequiredMode else Audit_Configured)
                           e Op_InvokeValidatedAction Phase_BeforeInvocation Effect_NotInvoked) (\<lambda>_.
                 case cap of
                   ReadOnly \<Rightarrow> (case he_policy env cap of
                       Auth_Allowed \<Rightarrow> invoke_read_only env (tb_execution b) (into_tool_call a i) name cap
                     | Auth_RequiresApproval \<Rightarrow>
                         and_then denied (\<lambda>_. err (HE_PolicyDenied (PolicyDenial_new cap ApprovalRequiredButUnsupported)))
                     | Auth_Denied d \<Rightarrow> and_then denied (\<lambda>_. err (HE_PolicyDenied d)))
                 | LocalWrite \<Rightarrow> (case he_policy env cap of
                       Auth_Denied d \<Rightarrow> and_then denied (\<lambda>_. err (HE_PolicyDenied d))
                     | Auth_Allowed \<Rightarrow> and_then denied (\<lambda>_. err HE_ApprovalRequired)
                     | Auth_RequiresApproval \<Rightarrow> (case tb_execution b of
                           Exec_Contained p \<Rightarrow>
                             and_then get_ctx (\<lambda>c.
                               if rc_audit_degraded c then err HE_AuditDegraded
                               else invoke_approved_local_write env p (into_tool_call a i) a)
                         | _ \<Rightarrow> and_then (record_containment_failed env i name cap CF_Unavailable) (\<lambda>_.
                                err (HE_ContainmentUnavailable name))))
                 | _ \<Rightarrow> and_then denied (\<lambda>_. err (HE_CapabilityNotExecutable cap)))))))"

section \<open>Loop progress\<close>

definition checkpoint :: "harness_env \<Rightarrow> unit hm" where
  "checkpoint env = preflight env Op_Checkpoint"

definition begin_iteration :: "harness_env \<Rightarrow> u32 hm" where
  "begin_iteration env =
     and_then (preflight env Op_BeginIteration) (\<lambda>_.
     and_then (reserve env reserve_iteration) (\<lambda>n.
     and_then get_ctx (\<lambda>c.
     and_then (emit env (Ev_Loop (LE_IterationStarted n (iterations (rc_usage c)) (max_iterations (rc_budget c))))) (\<lambda>e.
     and_then (audit_invocation env e Op_BeginIteration Phase_Lifecycle Effect_StateCommitted) (\<lambda>_. ok n)))))"

definition record_loop_progress :: "harness_env \<Rightarrow> loop_progress_event \<Rightarrow> unit hm" where
  "record_loop_progress env progress =
     and_then (preflight env Op_RecordLoopProgress) (\<lambda>_.
     and_then (emit env (Ev_Loop (LoopEventKind_from progress))) (\<lambda>e.
     audit_invocation env e Op_RecordLoopProgress Phase_Lifecycle Effect_StateCommitted))"

section \<open>Graph progress\<close>

definition start_graph ::
  "harness_env \<Rightarrow> digest \<Rightarrow> graph_node_id \<Rightarrow> graph_node_kind \<Rightarrow> graph_recovery_mode \<Rightarrow> unit hm" where
  "start_graph env d n k m =
     and_then (preflight env Op_StartGraph) (\<lambda>_.
     and_then (emit env (Ev_Graph (GE_GraphStarted d n k m))) (\<lambda>e.
     audit_invocation env e Op_StartGraph Phase_Lifecycle Effect_StateCommitted))"

definition enter_graph_node ::
  "harness_env \<Rightarrow> graph_node_id \<Rightarrow> graph_node_kind \<Rightarrow> graph_recovery_mode \<Rightarrow> graph_node_attempt_id hm" where
  "enter_graph_node env n k m =
     and_then (preflight env Op_EnterGraphNode) (\<lambda>_.
     and_then (reserve env reserve_graph_step) (\<lambda>step.
     and_then (ask (he_uuid env)) (\<lambda>attempt.
     and_then get_ctx (\<lambda>c.
     and_then (emit env (Ev_Graph (GE_GraphNodeEntered attempt n k m step (max_graph_steps (rc_budget c))))) (\<lambda>e.
     and_then (audit_invocation env e Op_EnterGraphNode Phase_Lifecycle Effect_StateCommitted) (\<lambda>_. ok attempt))))))"

definition restart_graph_node ::
  "harness_env \<Rightarrow> graph_node_attempt_id option \<Rightarrow> graph_node_id \<Rightarrow> graph_node_kind \<Rightarrow> graph_recovery_mode \<Rightarrow>
   graph_node_attempt_id hm" where
  "restart_graph_node env previous n k m =
     and_then (preflight env Op_EnterGraphNode) (\<lambda>_.
     and_then (reserve env reserve_graph_step) (\<lambda>step.
     and_then (ask (he_uuid env)) (\<lambda>attempt.
     and_then get_ctx (\<lambda>c.
     and_then (emit env (Ev_Graph (GE_GraphNodeRestarted previous attempt n k m step
                 (max_graph_steps (rc_budget c))))) (\<lambda>e.
     and_then (audit_invocation env e Op_EnterGraphNode Phase_Lifecycle Effect_StateCommitted) (\<lambda>_. ok attempt))))))"

definition complete_graph_node ::
  "harness_env \<Rightarrow> graph_node_attempt_id \<Rightarrow> graph_node_id \<Rightarrow> graph_transition_key \<Rightarrow> graph_node_id \<Rightarrow>
   graph_node_kind \<Rightarrow> graph_recovery_mode \<Rightarrow> unit hm" where
  "complete_graph_node env attempt n key next_node next_kind next_recovery =
     and_then (preflight env Op_CompleteGraphNode) (\<lambda>_.
     and_then (emit env (Ev_Graph (GE_GraphNodeCompleted attempt n key next_node next_kind next_recovery))) (\<lambda>e.
     audit_invocation env e Op_CompleteGraphNode Phase_Lifecycle Effect_StateCommitted))"

definition complete_graph :: "harness_env \<Rightarrow> graph_node_attempt_id \<Rightarrow> graph_node_id \<Rightarrow> unit hm" where
  "complete_graph env attempt n =
     and_then (preflight env Op_FinishGraph) (\<lambda>_.
     and_then (on_ctx HE_Context (commit_finished Outcome_Completed)) (\<lambda>_.
     and_then get_ctx (\<lambda>c.
     and_then (emit env (Ev_Graph (GE_GraphCompleted attempt n (graph_steps (rc_usage c))))) (\<lambda>e.
     audit_lifecycle env e Op_FinishGraph))))"

definition fail_graph ::
  "harness_env \<Rightarrow> graph_node_attempt_id \<Rightarrow> graph_node_id \<Rightarrow> graph_failure_kind \<Rightarrow> unit hm" where
  "fail_graph env attempt n failure =
     and_then (preflight env Op_FinishGraph) (\<lambda>_.
     and_then (on_ctx HE_Context (commit_finished (Outcome_Failed (Fail_Graph failure)))) (\<lambda>_.
     and_then get_ctx (\<lambda>c.
     and_then (emit env (Ev_Graph (GE_GraphFailed attempt n (graph_steps (rc_usage c)) failure
                 (Fail_Graph failure)))) (\<lambda>e.
     audit_lifecycle env e Op_FinishGraph))))"

section \<open>Ending a run\<close>

definition complete_run :: "harness_env \<Rightarrow> unit hm" where
  "complete_run env =
     and_then (preflight env Op_CompleteRun) (\<lambda>_.
     and_then (on_ctx HE_Context (commit_finished Outcome_Completed)) (\<lambda>_.
     and_then (emit env (Ev_RunFinished Outcome_Completed)) (\<lambda>e.
     audit_lifecycle env e Op_CompleteRun)))"

definition fail_run :: "harness_env \<Rightarrow> run_failure_kind \<Rightarrow> unit hm" where
  "fail_run env kind =
     and_then (preflight env Op_FailRun) (\<lambda>_.
     and_then (on_ctx HE_Context (commit_finished (Outcome_Failed kind))) (\<lambda>_.
     and_then (emit env (Ev_RunFinished (Outcome_Failed kind))) (\<lambda>e.
     audit_lifecycle env e Op_FailRun)))"

definition cancel_run :: "harness_env \<Rightarrow> unit hm" where
  "cancel_run env =
     and_then (require_status Op_CancelRun Require_Running) (\<lambda>_.
     and_then (on_ctx HE_Context ctx_request_cancel) (\<lambda>_.
     and_then (on_ctx HE_Context (commit_finished Outcome_Cancelled)) (\<lambda>_.
     and_then (emit env (Ev_RunFinished Outcome_Cancelled)) (\<lambda>e.
     audit_terminal_best_effort env e))))"

text \<open>A step of a run: any operation of the harness's interface.\<close>

datatype (plugins only: code size) run_call =
  Call_Start | Call_StartAuthorized durable_run_authorization | Call_Checkpoint | Call_BeginIteration
| Call_LoopProgress loop_progress_event
| Call_InvokeModel model_request "grounding_binding option"
| Call_RetrieveKnowledge knowledge_request | Call_InvokeGrounded completed_knowledge_retrieval grounded_model_request
| Call_PrepareAction completed_model_invocation
| Call_InvokeTool tool_call | Call_InvokeAction validated_action
| Call_StartGraph digest graph_node_id graph_node_kind graph_recovery_mode
| Call_EnterNode graph_node_id graph_node_kind graph_recovery_mode
| Call_RestartNode "graph_node_attempt_id option" graph_node_id graph_node_kind graph_recovery_mode
| Call_CompleteNode graph_node_attempt_id graph_node_id graph_transition_key graph_node_id graph_node_kind
    graph_recovery_mode
| Call_CompleteGraph graph_node_attempt_id graph_node_id
| Call_FailGraph graph_node_attempt_id graph_node_id graph_failure_kind
| Call_Complete | Call_Fail run_failure_kind | Call_Cancel

definition discard :: "'a hm \<Rightarrow> unit hm" where
  "discard m = on_result m (\<lambda>_. ok ())"

fun perform :: "harness_env \<Rightarrow> run_call \<Rightarrow> unit hm" where
  "perform env Call_Start = discard (start_run env)"
| "perform env (Call_StartAuthorized a) = discard (start_run_with_authorization env a)"
| "perform env Call_Checkpoint = discard (checkpoint env)"
| "perform env Call_BeginIteration = discard (begin_iteration env)"
| "perform env (Call_LoopProgress p) = discard (record_loop_progress env p)"
| "perform env (Call_InvokeModel q g) = discard (invoke_model_internal env q g)"
| "perform env (Call_RetrieveKnowledge q) = discard (retrieve_knowledge env q)"
| "perform env (Call_InvokeGrounded k r) = discard (invoke_grounded_model env k r)"
| "perform env (Call_PrepareAction i) = discard (prepare_action env i)"
| "perform env (Call_InvokeTool c) = discard (invoke_tool env c)"
| "perform env (Call_InvokeAction a) = discard (invoke_validated_action env a)"
| "perform env (Call_StartGraph d n k m) = discard (start_graph env d n k m)"
| "perform env (Call_EnterNode n k m) = discard (enter_graph_node env n k m)"
| "perform env (Call_RestartNode p n k m) = discard (restart_graph_node env p n k m)"
| "perform env (Call_CompleteNode a n t n' k m) = discard (complete_graph_node env a n t n' k m)"
| "perform env (Call_CompleteGraph a n) = discard (complete_graph env a n)"
| "perform env (Call_FailGraph a n f) = discard (fail_graph env a n f)"
| "perform env Call_Complete = discard (complete_run env)"
| "perform env (Call_Fail k) = discard (fail_run env k)"
| "perform env Call_Cancel = discard (cancel_run env)"

fun perform_all :: "harness_env \<Rightarrow> run_call list \<Rightarrow> unit hm" where
  "perform_all env [] = ok ()"
| "perform_all env (c # cs) = and_then (perform env c) (\<lambda>_. perform_all env cs)"

end
