(* ===== verification/Harness_Logic.thy ===== *)
theory Harness_Logic
  imports Harness_Ops
begin

text \<open>
  The program logic in which the properties of the harness operations are proved.

  \<^item> \<open>triple P m Q E\<close>: from a state satisfying \<open>P\<close> the computation \<open>m\<close> either returns a value \<open>x\<close> in a state
    satisfying \<open>Q x\<close>, or an error \<open>e\<close> in a state satisfying \<open>E e\<close>.
  \<^item> \<open>within R m\<close>: the state after \<open>m\<close>, whatever its result, is related by \<open>R\<close> to the state before. For a
    reflexive and transitive \<open>R\<close> (locale \<open>frame_relation\<close>) the judgement is closed under all combinators, and a
    predicate that \<open>R\<close> carries over is an invariant of \<open>m\<close>.
\<close>

section \<open>Triples\<close>

definition triple ::
  "('s \<Rightarrow> bool) \<Rightarrow> ('s, 'e, 'a) sx \<Rightarrow> ('a \<Rightarrow> 's \<Rightarrow> bool) \<Rightarrow> ('e \<Rightarrow> 's \<Rightarrow> bool) \<Rightarrow> bool" where
  "triple P m Q E \<longleftrightarrow> (\<forall>s r t. P s \<longrightarrow> m s = (r, t) \<longrightarrow> (case r of Inl e \<Rightarrow> E e t | Inr x \<Rightarrow> Q x t))"

lemma triple_state:
  "triple P m (\<lambda>_. I) (\<lambda>_. I) \<Longrightarrow> P s \<Longrightarrow> I (snd (m s))"
  by (cases "m s"; cases "fst (m s)") (fastforce simp: triple_def)+

lemma triple_returns: "triple P m Q E \<Longrightarrow> P s \<Longrightarrow> m s = (Inr x, t) \<Longrightarrow> Q x t"
  by (fastforce simp: triple_def)

lemma triple_conseq:
  "triple P m Q E \<Longrightarrow> (\<And>s. P' s \<Longrightarrow> P s) \<Longrightarrow> (\<And>x s. Q x s \<Longrightarrow> Q' x s) \<Longrightarrow> (\<And>e s. E e s \<Longrightarrow> E' e s) \<Longrightarrow>
   triple P' m Q' E'"
  unfolding triple_def by (fastforce split: sum.split_asm sum.split)

lemma triple_pre: "triple P m Q E \<Longrightarrow> (\<And>s. P' s \<Longrightarrow> P s) \<Longrightarrow> triple P' m Q E"
  by (rule triple_conseq)

lemma triple_ok: "(\<And>s. P s \<Longrightarrow> Q x s) \<Longrightarrow> triple P (ok x) Q E"
  by (simp add: triple_def)

lemma triple_err: "(\<And>s. P s \<Longrightarrow> E e s) \<Longrightarrow> triple P (err e) Q E"
  by (simp add: triple_def)

lemma triple_and_then:
  assumes "triple P m R E" "\<And>x. triple (R x) (k x) Q E"
  shows "triple P (and_then m k) Q E"
  unfolding triple_def
proof (intro allI impI)
  fix s r t assume s: "P s" and run: "and_then m k s = (r, t)"
  obtain r1 s1 where m: "m s = (r1, s1)" by fastforce
  with assms(1) s have "case r1 of Inl e \<Rightarrow> E e s1 | Inr x \<Rightarrow> R x s1"
    by (simp add: triple_def)
  with assms(2) run m show "case r of Inl e \<Rightarrow> E e t | Inr x \<Rightarrow> Q x t"
    by (cases r1) (auto simp: triple_def and_then_apply)
qed

lemma triple_on_result:
  assumes "triple P m R F" "\<And>x. triple (R x) (h (Inr x)) Q E" "\<And>e. triple (F e) (h (Inl e)) Q E"
  shows "triple P (on_result m h) Q E"
  unfolding triple_def
proof (intro allI impI)
  fix s r t assume s: "P s" and run: "on_result m h s = (r, t)"
  obtain r1 s1 where m: "m s = (r1, s1)" by fastforce
  with assms(1) s have "case r1 of Inl e \<Rightarrow> F e s1 | Inr x \<Rightarrow> R x s1"
    by (simp add: triple_def)
  with assms(2,3) run m show "case r of Inl e \<Rightarrow> E e t | Inr x \<Rightarrow> Q x t"
    by (cases r1) (auto simp: triple_def on_result_apply)
qed

lemma triple_gets:
  "(\<And>c. triple (\<lambda>s. P s \<and> c = f s) (k c) Q E) \<Longrightarrow> triple P (and_then (gets f) k) Q E"
  by (simp add: triple_def and_then_apply)

lemma triple_if:
  "(b \<Longrightarrow> triple P m Q E) \<Longrightarrow> (\<not> b \<Longrightarrow> triple P n Q E) \<Longrightarrow> triple P (if b then m else n) Q E"
  by simp

lemma triple_lift: "(b \<Longrightarrow> triple P m Q E) \<Longrightarrow> triple (\<lambda>s. b \<and> P s) m Q E"
  by (cases b) (simp_all add: triple_def)

lemma triple_case: "triple P m Q E \<Longrightarrow> P s \<Longrightarrow> m s = (r, t) \<Longrightarrow> (case r of Inl e \<Rightarrow> E e t | Inr x \<Rightarrow> Q x t)"
  by (simp add: triple_def)

lemma triple_result: "triple P m Q E \<Longrightarrow> P s \<Longrightarrow> (case fst (m s) of Inl e \<Rightarrow> E e (snd (m s)) | Inr x \<Rightarrow> Q x (snd (m s)))"
  by (simp add: triple_def)

lemma triple_trivial: "triple (\<lambda>_. True) m (\<lambda>_ _. True) (\<lambda>_ _. True)"
  by (simp add: triple_def split: sum.split)

lemma triple_both:
  "triple P m Q E \<Longrightarrow> triple P' m Q' E' \<Longrightarrow> triple (\<lambda>s. P s \<and> P' s) m (\<lambda>x s. Q x s \<and> Q' x s) (\<lambda>e s. E e s \<and> E' e s)"
  unfolding triple_def by (auto split: sum.split sum.split_asm)

section \<open>Frame relations\<close>

definition within :: "('s \<Rightarrow> 's \<Rightarrow> bool) \<Rightarrow> ('s, 'e, 'a) sx \<Rightarrow> bool" where
  "within R m \<longleftrightarrow> (\<forall>s. R s (snd (m s)))"

lemma within_step: "within R m \<Longrightarrow> m s = (r, t) \<Longrightarrow> R s t"
  unfolding within_def by (metis snd_conv)

locale frame_relation =
  fixes R :: "'s \<Rightarrow> 's \<Rightarrow> bool"
  assumes refl: "R s s"
    and trans: "R s t \<Longrightarrow> R t u \<Longrightarrow> R s u"
begin

lemma within_ok: "within R (ok x)"
  by (simp add: within_def refl)

lemma within_err: "within R (err e)"
  by (simp add: within_def refl)

lemma within_gets: "within R (gets f)"
  by (simp add: within_def refl)

lemma within_require: "within R (require b e)"
  by (simp add: require_def within_ok within_err)

lemma within_and_then: "within R m \<Longrightarrow> (\<And>x. within R (k x)) \<Longrightarrow> within R (and_then m k)"
  unfolding within_def and_then_apply
  by (auto split: prod.splits sum.splits) (metis snd_conv, metis snd_conv trans)

lemma within_on_result: "within R m \<Longrightarrow> (\<And>r. within R (h r)) \<Longrightarrow> within R (on_result m h)"
  unfolding within_def on_result_apply
  by (auto split: prod.splits) (metis snd_conv trans)

lemma within_if: "(b \<Longrightarrow> within R m) \<Longrightarrow> (\<not> b \<Longrightarrow> within R n) \<Longrightarrow> within R (if b then m else n)"
  by simp

lemma within_option:
  "within R m \<Longrightarrow> (\<And>x. within R (n x)) \<Longrightarrow> within R (case v of None \<Rightarrow> m | Some x \<Rightarrow> n x)"
  by (cases v) simp_all

lemma within_sum:
  "(\<And>x. within R (m x)) \<Longrightarrow> (\<And>x. within R (n x)) \<Longrightarrow> within R (case v of Inl x \<Rightarrow> m x | Inr x \<Rightarrow> n x)"
  by (cases v) simp_all

lemmas within_combinators =
  within_ok within_err within_gets within_require within_and_then within_on_result within_if within_option within_sum

text \<open>A predicate that the relation carries over survives the computation.\<close>

lemma triple_within:
  assumes "within R m" "\<And>s t. R s t \<Longrightarrow> F s \<Longrightarrow> F t"
  shows "triple F m (\<lambda>_. F) (\<lambda>_. F)"
  unfolding triple_def
proof (intro allI impI)
  fix s r t assume "F s" "m s = (r, t)"
  with assms(1) have "R s t" by (simp add: within_def) (metis snd_conv)
  with \<open>F s\<close> assms(2) have "F t" by blast
  then show "case r of Inl e \<Rightarrow> F t | Inr x \<Rightarrow> F t" by (cases r) simp_all
qed

lemma triple_skip:
  assumes "within R m" "\<And>s t. R s t \<Longrightarrow> F s \<Longrightarrow> F t" "\<And>s. F s \<Longrightarrow> I s"
    "\<And>x. triple F (k x) Q (\<lambda>_. I)"
  shows "triple F (and_then m k) Q (\<lambda>_. I)"
proof (rule triple_and_then)
  show "triple F m (\<lambda>_. F) (\<lambda>_. I)"
    by (rule triple_conseq [OF triple_within [of m F, OF assms(1,2)]]) (use assms(3) in blast)+
qed (rule assms(4))

end

text \<open>Relations on the state of the harness.\<close>

locale harness_frame = frame_relation R for R :: "harness_state \<Rightarrow> harness_state \<Rightarrow> bool"
begin

lemma within_get_ctx: "within R get_ctx"
  by (simp add: get_ctx_def within_gets)

lemmas within_rules = within_get_ctx within_combinators

end

end
