(* ===== verification/Harness_Trace.thy ===== *)
theory Harness_Trace
  imports Harness_Logic
begin

text \<open>
  What the trace of port calls of a run looks like. \<open>entry_ok env xs x\<close> is the condition under which the entry
  \<open>x\<close> may follow the trace \<open>xs\<close>: an event is audited after it was persisted; the model is invoked after a
  persisted start event of its own; a tool is invoked after its start event, within its capability, and a
  local write after a matching, audited approval. \<open>trace_ok\<close> says so of every entry, and \<open>accounted\<close> bounds the
  number of invocations by the units reserved from the budget. Both are invariants of every operation.
\<close>

section \<open>Admissible traces\<close>

definition is_model_start :: "agent_event \<Rightarrow> bool" where
  "is_model_start e = (case ev_kind e of Ev_ModelInvocationStarted _ _ _ \<Rightarrow> True | _ \<Rightarrow> False)"

text \<open>A start event was persisted since the last invocation of the model.\<close>

definition model_armed :: "trace_entry list \<Rightarrow> bool" where
  "model_armed tr = foldl (\<lambda>b x. case x of
       Tr_Persisted e \<Rightarrow> b \<or> is_model_start e | Tr_ModelInvoked _ \<Rightarrow> False | _ \<Rightarrow> b) False tr"

definition tool_start_recorded :: "harness_env \<Rightarrow> trace_entry list \<Rightarrow> tool_call \<Rightarrow> capability_kind \<Rightarrow> bool" where
  "tool_start_recorded env xs call cap \<longleftrightarrow>
     (\<exists>e u l. ev_kind e = Ev_ToolInvocationStarted (tc_id call) (tc_name call) cap u l
        \<and> (he_persistence env \<longrightarrow> Tr_Persisted e \<in> set xs)
        \<and> (he_audit_policy env = FailClosed \<or> cap = LocalWrite \<longrightarrow> Tr_Audited e \<in> set xs))"

definition approval_recorded :: "harness_env \<Rightarrow> trace_entry list \<Rightarrow> tool_call \<Rightarrow> bool" where
  "approval_recorded env xs call \<longleftrightarrow>
     (\<exists>q e. aq_tool_call_id q = tc_id call \<and> aq_tool_name q = tc_name call
        \<and> Tr_ApprovalAnswered q (ApprovalRequest_approve q) \<in> set xs
        \<and> ev_kind e = Ev_ApprovalGranted (aq_id q) \<and> Tr_Audited e \<in> set xs)"

definition tool_call_backed :: "harness_env \<Rightarrow> trace_entry list \<Rightarrow> tool_call \<Rightarrow> bool" where
  "tool_call_backed env xs call \<longleftrightarrow>
     (\<exists>b. he_tools env (tc_name call) = Some b
        \<and> tool_start_recorded env xs call (td_capability (tb_definition b))
        \<and> (td_capability (tb_definition b) = ReadOnly \<and> he_policy env ReadOnly = Auth_Allowed
           \<or> td_capability (tb_definition b) = LocalWrite \<and> he_policy env LocalWrite = Auth_RequiresApproval
             \<and> (\<exists>p. tb_execution b = Exec_Contained p) \<and> approval_recorded env xs call))"

definition approval_announced :: "trace_entry list \<Rightarrow> approval_request \<Rightarrow> bool" where
  "approval_announced xs q \<longleftrightarrow>
     (\<exists>e u l. ev_kind e = Ev_ApprovalRequested (aq_id q) (aq_action_proposal_id q) (aq_tool_call_id q)
          (aq_tool_name q) (aq_capability q) u l \<and> Tr_Audited e \<in> set xs)"

text \<open>A retrieval is announced by an event with its route and the digest of its query.\<close>

definition retrieval_recorded :: "harness_env \<Rightarrow> trace_entry list \<Rightarrow> knowledge_request \<Rightarrow> bool" where
  "retrieval_recorded env xs q \<longleftrightarrow>
     (he_persistence env \<longrightarrow>
       (\<exists>e rid. (let r = kr_metadata (kq_route q); d = query_digest (jl_sha256 (he_json env)) (kq_query q);
                    n = of_nat (str_len (kq_query q))
                in ev_kind e = Ev_KnowledgeRetrievalStarted rid r d n
                   \<or> (\<exists>prev. ev_kind e = Ev_KnowledgeRetrievalRestarted prev rid r d n))
          \<and> Tr_Persisted e \<in> set xs))"

fun entry_ok :: "harness_env \<Rightarrow> trace_entry list \<Rightarrow> trace_entry \<Rightarrow> bool" where
  "entry_ok env xs (Tr_Audited e) \<longleftrightarrow> (he_persistence env \<longrightarrow> Tr_Persisted e \<in> set xs)"
| "entry_ok env xs (Tr_ModelInvoked q) \<longleftrightarrow> (he_persistence env \<longrightarrow> model_armed xs)"
| "entry_ok env xs (Tr_ToolInvoked call) \<longleftrightarrow> tool_call_backed env xs call"
| "entry_ok env xs (Tr_ApprovalAsked q) \<longleftrightarrow> approval_announced xs q"
| "entry_ok env xs (Tr_ApprovalAnswered q d) \<longleftrightarrow> Tr_ApprovalAsked q \<in> set xs"
| "entry_ok env xs (Tr_KnowledgeAsked q) \<longleftrightarrow> retrieval_recorded env xs q"
| "entry_ok env xs _ \<longleftrightarrow> True"

definition trace_ok :: "harness_env \<Rightarrow> trace_entry list \<Rightarrow> bool" where
  "trace_ok env tr \<longleftrightarrow> (\<forall>i < length tr. entry_ok env (take i tr) (tr ! i))"

lemma trace_ok_Nil: "trace_ok env []"
  by (simp add: trace_ok_def)

lemma trace_ok_snoc: "trace_ok env (tr @ [x]) \<longleftrightarrow> trace_ok env tr \<and> entry_ok env tr x"
  by (auto simp: trace_ok_def less_Suc_eq nth_append)

lemma trace_ok_at: "trace_ok env (xs @ x # ys) \<Longrightarrow> entry_ok env xs x"
  unfolding trace_ok_def by (drule spec [of _ "length xs"]) simp

lemma model_armed_snoc [simp]:
  "model_armed (tr @ [x]) = (case x of
       Tr_Persisted e \<Rightarrow> model_armed tr \<or> is_model_start e | Tr_ModelInvoked _ \<Rightarrow> False | _ \<Rightarrow> model_armed tr)"
  unfolding model_armed_def by (cases x) simp_all

lemma model_armed_split:
  "model_armed xs \<Longrightarrow> \<exists>as e bs. xs = as @ Tr_Persisted e # bs \<and> is_model_start e \<and> (\<forall>q. Tr_ModelInvoked q \<notin> set bs)"
proof (induction xs rule: rev_induct)
  case Nil
  then show ?case by (simp add: model_armed_def)
next
  case (snoc x xs)
  show ?case
  proof (cases "\<exists>e. x = Tr_Persisted e \<and> is_model_start e")
    case True
    then show ?thesis by fastforce
  next
    case False
    with snoc.prems have "model_armed xs" and x: "\<forall>q. x \<noteq> Tr_ModelInvoked q" by (cases x; simp)+
    with snoc.IH obtain as e bs where "xs = as @ Tr_Persisted e # bs" "is_model_start e" "\<forall>q. Tr_ModelInvoked q \<notin> set bs"
      by blast
    with x have "xs @ [x] = as @ Tr_Persisted e # (bs @ [x])" "\<forall>q. Tr_ModelInvoked q \<notin> set (bs @ [x])" by auto
    with \<open>is_model_start e\<close> show ?thesis by blast
  qed
qed

section \<open>Accounting\<close>

definition models_invoked :: "trace_entry list \<Rightarrow> nat" where
  "models_invoked tr = length (filter (\<lambda>x. case x of Tr_ModelInvoked _ \<Rightarrow> True | _ \<Rightarrow> False) tr)"

definition tools_invoked :: "trace_entry list \<Rightarrow> nat" where
  "tools_invoked tr = length (filter (\<lambda>x. case x of Tr_ToolInvoked _ \<Rightarrow> True | _ \<Rightarrow> False) tr)"

definition approvals_asked :: "trace_entry list \<Rightarrow> nat" where
  "approvals_asked tr = length (filter (\<lambda>x. case x of Tr_ApprovalAsked _ \<Rightarrow> True | _ \<Rightarrow> False) tr)"

lemmas counts_def = models_invoked_def tools_invoked_def approvals_asked_def

text \<open>\<open>c0\<close> is the context the run began or resumed with: what it had used already is counted too.\<close>

definition accounted :: "run_context \<Rightarrow> harness_state \<Rightarrow> bool" where
  "accounted c0 s \<longleftrightarrow>
     within_budget (hs_ctx s) \<and> rc_budget (hs_ctx s) = rc_budget c0
     \<and> unat (model_calls (rc_usage c0)) + models_invoked (hs_trace s) \<le> unat (model_calls (rc_usage (hs_ctx s)))
     \<and> unat (tool_calls (rc_usage c0)) + tools_invoked (hs_trace s) \<le> unat (tool_calls (rc_usage (hs_ctx s)))
     \<and> unat (approval_requests (rc_usage c0)) + approvals_asked (hs_trace s)
         \<le> unat (approval_requests (rc_usage (hs_ctx s)))"

definition model_unit :: "run_context \<Rightarrow> harness_state \<Rightarrow> bool" where
  "model_unit c0 s \<longleftrightarrow>
     unat (model_calls (rc_usage c0)) + models_invoked (hs_trace s) < unat (model_calls (rc_usage (hs_ctx s)))"

definition tool_unit :: "run_context \<Rightarrow> harness_state \<Rightarrow> bool" where
  "tool_unit c0 s \<longleftrightarrow>
     unat (tool_calls (rc_usage c0)) + tools_invoked (hs_trace s) < unat (tool_calls (rc_usage (hs_ctx s)))"

definition approval_unit :: "run_context \<Rightarrow> harness_state \<Rightarrow> bool" where
  "approval_unit c0 s \<longleftrightarrow>
     unat (approval_requests (rc_usage c0)) + approvals_asked (hs_trace s)
       < unat (approval_requests (rc_usage (hs_ctx s)))"

lemmas units_def = model_unit_def tool_unit_def approval_unit_def

definition run_inv :: "harness_env \<Rightarrow> run_context \<Rightarrow> harness_state \<Rightarrow> bool" where
  "run_inv env c0 s \<longleftrightarrow> trace_ok env (hs_trace s) \<and> accounted c0 s"

section \<open>Quiet steps\<close>

text \<open>
  A quiet step may persist, audit and change the lifecycle, but it invokes no port that acts for the run and
  reserves nothing.
\<close>

fun bookkeeping :: "trace_entry \<Rightarrow> bool" where
  "bookkeeping (Tr_Created _) = True"
| "bookkeeping (Tr_Persisted _) = True"
| "bookkeeping (Tr_Audited _) = True"
| "bookkeeping _ = False"

definition quiet :: "harness_env \<Rightarrow> harness_state \<Rightarrow> harness_state \<Rightarrow> bool" where
  "quiet env s t \<longleftrightarrow>
     rc_usage (hs_ctx t) = rc_usage (hs_ctx s) \<and> rc_budget (hs_ctx t) = rc_budget (hs_ctx s)
     \<and> (\<exists>ys. hs_trace t = hs_trace s @ ys \<and> list_all bookkeeping ys)
     \<and> (trace_ok env (hs_trace s) \<longrightarrow> trace_ok env (hs_trace t))"

interpretation quiet: harness_frame "quiet env" for env
proof
  show "quiet env s s" for s by (auto simp: quiet_def)
  show "quiet env s u" if "quiet env s t" "quiet env t u" for s t u
    using that by (auto simp: quiet_def)
qed

lemma bookkeeping_counts:
  "list_all bookkeeping ys \<Longrightarrow>
   models_invoked (tr @ ys) = models_invoked tr \<and> tools_invoked (tr @ ys) = tools_invoked tr
   \<and> approvals_asked (tr @ ys) = approvals_asked tr \<and> (model_armed tr \<longrightarrow> model_armed (tr @ ys))"
proof (induction ys rule: rev_induct)
  case (snoc y ys)
  then show ?case by (cases y) (auto simp: counts_def simp flip: append_assoc)
qed simp

lemma quiet_trace: "quiet env s t \<Longrightarrow> set (hs_trace s) \<subseteq> set (hs_trace t)"
  by (auto simp: quiet_def)

lemma quiet_counts:
  assumes "quiet env s t"
  shows "run_inv env c0 s \<Longrightarrow> run_inv env c0 t"
    and "model_unit c0 s \<Longrightarrow> model_unit c0 t" and "tool_unit c0 s \<Longrightarrow> tool_unit c0 t"
    and "approval_unit c0 s \<Longrightarrow> approval_unit c0 t"
    and "model_armed (hs_trace s) \<Longrightarrow> model_armed (hs_trace t)"
  using assms bookkeeping_counts [of _ "hs_trace s"]
  by (auto simp: quiet_def run_inv_def accounted_def within_budget_def units_def)

text \<open>The recorded facts about a call outlive any extension of the trace.\<close>

lemma recorded_mono:
  assumes "set xs \<subseteq> set ys"
  shows "tool_start_recorded env xs call cap \<Longrightarrow> tool_start_recorded env ys call cap"
    and "approval_recorded env xs call \<Longrightarrow> approval_recorded env ys call"
    and "approval_announced xs q \<Longrightarrow> approval_announced ys q"
    and "retrieval_recorded env xs k \<Longrightarrow> retrieval_recorded env ys k"
  using assms unfolding tool_start_recorded_def approval_recorded_def approval_announced_def retrieval_recorded_def Let_def
  by blast+

lemmas quiet_carries = quiet_counts recorded_mono [OF quiet_trace]

section \<open>Quiet operations\<close>

lemma quiet_ask: "within (quiet env) (ask f)"
  by (auto simp: within_def ask_def quiet_def)

lemma quiet_store_call: "within (quiet env) (store_call f env')"
  by (auto simp: within_def store_call_def quiet_def split: prod.split sum.split)

lemma quiet_on_ctx:
  "(\<And>c. rc_usage (snd (m c)) = rc_usage c \<and> rc_budget (snd (m c)) = rc_budget c) \<Longrightarrow> within (quiet env) (on_ctx f m)"
  unfolding within_def
proof
  fix s :: harness_state
  assume m: "\<And>c. rc_usage (snd (m c)) = rc_usage c \<and> rc_budget (snd (m c)) = rc_budget c"
  obtain r c where "m (hs_ctx s) = (r, c)" by fastforce
  with m [of "hs_ctx s"] show "quiet env s (snd (on_ctx f m s))"
    by (cases r) (simp_all add: on_ctx_def quiet_def)
qed

lemma quiet_upd_ctx:
  "(\<And>c. rc_usage (f c) = rc_usage c \<and> rc_budget (f c) = rc_budget c) \<Longrightarrow> within (quiet env) (upd_ctx f)"
  by (auto simp: within_def upd_ctx_def quiet_def)

lemma quiet_log_bookkeeping:
  "x = Tr_Created r \<or> x = Tr_Persisted e \<Longrightarrow> within (quiet env) (log_entry x)"
  by (auto simp: within_def log_entry_def quiet_def trace_ok_snoc)

lemma next_event_usage:
  "rc_usage (snd (next_event cd k c)) = rc_usage c \<and> rc_budget (snd (next_event cd k c)) = rc_budget c"
  by (auto simp: next_event_def Let_def split: option.split sum.split)

lemma commit_usage:
  "rc_usage (snd (commit_finished out c)) = rc_usage c \<and> rc_budget (snd (commit_finished out c)) = rc_budget c"
  "rc_usage (snd (commit_running now wall c)) = rc_usage c \<and> rc_budget (snd (commit_running now wall c)) = rc_budget c"
  "rc_usage (snd (ctx_request_cancel c)) = rc_usage c \<and> rc_budget (snd (ctx_request_cancel c)) = rc_budget c"
  by (auto simp: commit_finished_def commit_running_def ctx_request_cancel_def split: option.split sum.split)

lemma mark_usage:
  "rc_usage (mark_audit_degraded c) = rc_usage c \<and> rc_budget (mark_audit_degraded c) = rc_budget c"
  "rc_usage (mark_persistence_failed c) = rc_usage c \<and> rc_budget (mark_persistence_failed c) = rc_budget c"
  by (simp_all add: mark_audit_degraded_def mark_persistence_failed_def)

lemma quiet_emit: "within (quiet env) (emit env' k)"
  unfolding emit_def by (rule quiet_on_ctx) (rule next_event_usage)

lemma quiet_commit:
  "within (quiet env) (on_ctx f (commit_finished out))"
  "within (quiet env) (on_ctx f (commit_running now wall))"
  "within (quiet env) (on_ctx f ctx_request_cancel)"
  by (rule quiet_on_ctx, rule commit_usage)+

lemma quiet_mark: "within (quiet env) (upd_ctx mark_audit_degraded)" "within (quiet env) (upd_ctx mark_persistence_failed)"
  by (rule quiet_upd_ctx, rule mark_usage)+

lemmas quiet_basic =
  quiet.within_rules quiet_ask quiet_store_call quiet_log_bookkeeping quiet_emit quiet_commit quiet_mark

lemma quiet_persist: "within (quiet env) (persist_transition env' e)"
  unfolding persist_transition_def by (intro quiet_basic) blast

text \<open>A predicate that quiet steps preserve.\<close>

definition carried :: "harness_env \<Rightarrow> (harness_state \<Rightarrow> bool) \<Rightarrow> bool" where
  "carried env F \<longleftrightarrow> (\<forall>s t. quiet env s t \<longrightarrow> F s \<longrightarrow> F t)"

lemma carriedD: "carried env F \<Longrightarrow> quiet env s t \<Longrightarrow> F s \<Longrightarrow> F t"
  by (simp add: carried_def)

lemma carried_quiet: "carried env (quiet env s0)"
  by (auto simp: carried_def intro: quiet.trans)

lemma carried_conj: "carried env F \<Longrightarrow> carried env G \<Longrightarrow> carried env (\<lambda>s. F s \<and> G s)"
  by (simp add: carried_def)

lemma carried_imp: "(b \<Longrightarrow> carried env F) \<Longrightarrow> carried env (\<lambda>s. b \<longrightarrow> F s)"
  by (auto simp: carried_def)

lemma carried_const: "carried env (\<lambda>s. b)"
  by (simp add: carried_def)

lemma carried_entry: "carried env (\<lambda>s. x \<in> set (hs_trace s))"
  using quiet_trace by (auto simp: carried_def)

lemma carried_facts:
  "carried env (run_inv env c0)" "carried env (model_unit c0)" "carried env (tool_unit c0)"
  "carried env (approval_unit c0)" "carried env (\<lambda>s. model_armed (hs_trace s))"
  "carried env (\<lambda>s. tool_start_recorded env' (hs_trace s) call cap)"
  "carried env (\<lambda>s. approval_recorded env' (hs_trace s) call)"
  "carried env (\<lambda>s. approval_announced (hs_trace s) q)"
  "carried env (\<lambda>s. retrieval_recorded env' (hs_trace s) k)"
  unfolding carried_def by (intro allI impI; erule (1) quiet_carries)+

lemmas carried_rules = carried_facts carried_conj carried_imp carried_const carried_entry

lemma triple_quiet: "carried env F \<Longrightarrow> within (quiet env) m \<Longrightarrow> triple F m (\<lambda>_. F) (\<lambda>_. F)"
  by (erule quiet.triple_within) (rule carriedD)

lemma within_from_triples:
  assumes "\<And>F. carried env F \<Longrightarrow> triple F m (\<lambda>_. F) (\<lambda>_. F)"
  shows "within (quiet env) m"
  unfolding within_def using triple_state [OF assms [OF carried_quiet]] quiet.refl by blast

section \<open>Audited events\<close>

definition persisted :: "harness_env \<Rightarrow> agent_event \<Rightarrow> harness_state \<Rightarrow> bool" where
  "persisted env e s \<longleftrightarrow> (he_persistence env \<longrightarrow> Tr_Persisted e \<in> set (hs_trace s))
     \<and> (he_persistence env \<and> is_model_start e \<longrightarrow> model_armed (hs_trace s))"

lemma carried_persisted: "carried env (persisted env e)"
  unfolding persisted_def by (intro carried_rules)

lemma persist_spec:
  assumes "carried env F"
  shows "triple F (persist_transition env e) (\<lambda>_ s. F s \<and> persisted env e s) (\<lambda>_. F)"
proof (cases "he_persistence env")
  case False
  then show ?thesis
    by (auto simp: persist_transition_def persisted_def intro!: triple_ok)
next
  case True
  have "triple F (persist_transition env e) (\<lambda>_. F) (\<lambda>_. F)"
    by (rule triple_quiet [OF assms quiet_persist])
  moreover have "persisted env e t" if "persist_transition env e s = (Inr u, t)" for s t u
    using that True
    by (auto simp: persist_transition_def persisted_def and_then_apply on_result_apply get_ctx_def upd_ctx_def
          log_entry_def split: prod.splits sum.splits)
  ultimately show ?thesis unfolding triple_def by (auto split: sum.splits)
qed

lemma audit_record_cases:
  "audit_record env e s =
     (Inr (he_audit env (hs_tick s) e),
      s\<lparr>hs_tick := Suc (hs_tick s),
        hs_trace := (if he_audit env (hs_tick s) e = None then hs_trace s @ [Tr_Audited e] else hs_trace s)\<rparr>)"
  by (cases "he_audit env (hs_tick s) e")
     (simp_all add: audit_record_def and_then_apply ask_def log_entry_def)

lemma audit_record_quiet: "persisted env e s \<Longrightarrow> quiet env s (snd (audit_record env e s))"
  by (auto simp: audit_record_cases quiet_def trace_ok_snoc persisted_def)

lemma audit_with_run_bounds_cases:
  "\<exists>out t. audit_with_run_bounds env e s = (Inr out, t) \<and> hs_ctx t = hs_ctx s \<and> hs_store t = hs_store s
     \<and> hs_trace t = (if out = Audit_Recorded then hs_trace s @ [Tr_Audited e] else hs_trace s)"
proof (cases "rc_runtime (hs_ctx s)")
  case None
  then show ?thesis by (simp add: audit_with_run_bounds_def and_then_apply get_ctx_def)
next
  case (Some rt)
  have run: "audit_with_run_bounds env e s =
      (case he_wait env (hs_tick s) of
         Wait_Cancelled _ \<Rightarrow> (Inr Audit_Cancelled, s\<lparr>hs_tick := Suc (hs_tick s)\<rparr>)
       | Wait_Deadline _ \<Rightarrow> (Inr Audit_DeadlineExceeded, s\<lparr>hs_tick := Suc (hs_tick s)\<rparr>)
       | Wait_Ready \<Rightarrow>
           (case audit_record env e (s\<lparr>hs_tick := Suc (hs_tick s)\<rparr>) of
              (Inl x, t) \<Rightarrow> (Inl x, t)
            | (Inr r, t) \<Rightarrow> (Inr (case r of None \<Rightarrow> Audit_Recorded | Some k \<Rightarrow> Audit_Failed k), t)))"
    using Some
    by (simp add: audit_with_run_bounds_def and_then_apply get_ctx_def ask_def ok_def split: wait_outcome.split)
  show ?thesis
    unfolding run audit_record_cases
    by (cases "he_wait env (hs_tick s)"; cases "he_audit env (Suc (hs_tick s)) e") simp_all
qed

lemma audit_spec:
  assumes "carried env F"
  shows "triple (\<lambda>s. F s \<and> persisted env e s) (audit_with_run_bounds env e)
     (\<lambda>out s. F s \<and> persisted env e s \<and> (out = Audit_Recorded \<longrightarrow> Tr_Audited e \<in> set (hs_trace s))) (\<lambda>_. F)"
  unfolding triple_def
proof (intro allI impI)
  fix s r t assume s: "F s \<and> persisted env e s" and run: "audit_with_run_bounds env e s = (r, t)"
  from run audit_with_run_bounds_cases [of env e s] obtain out where
    t: "r = Inr out" "hs_ctx t = hs_ctx s" "hs_trace t = (if out = Audit_Recorded then hs_trace s @ [Tr_Audited e] else hs_trace s)"
    by auto
  then have "quiet env s t" using s by (auto simp: quiet_def trace_ok_snoc persisted_def)
  with s assms carried_persisted have "F t" "persisted env e t" by (blast dest: carriedD)+
  with t show "case r of Inl e \<Rightarrow> F t
    | Inr out \<Rightarrow> F t \<and> persisted env e t \<and> (out = Audit_Recorded \<longrightarrow> Tr_Audited e \<in> set (hs_trace t))"
    by simp
qed

lemma audit_record_spec:
  assumes "carried env F"
  shows "triple (\<lambda>s. F s \<and> persisted env e s) (audit_record env e) (\<lambda>_. F) (\<lambda>_. F)"
  unfolding triple_def
proof (intro allI impI)
  fix s r t assume s: "F s \<and> persisted env e s" and run: "audit_record env e s = (r, t)"
  with assms audit_record_quiet [of env e s] have "F t" by (metis carriedD snd_conv)
  then show "case r of Inl _ \<Rightarrow> F t | Inr _ \<Rightarrow> F t" by (cases r) simp_all
qed

lemma audit_best_effort_spec:
  assumes "carried env F"
  shows "triple F (audit_terminal_best_effort env e) (\<lambda>_. F) (\<lambda>_. F)"
  unfolding audit_terminal_best_effort_def
proof (rule triple_on_result [OF persist_spec [OF assms]], goal_cases)
  case 1
  from audit_record_spec [OF assms, of e] show ?case
    by simp (erule triple_and_then, simp add: triple_ok triple_quiet [OF assms quiet_mark(1)])
next
  case 2
  then show ?case by (simp add: triple_quiet [OF assms quiet_mark(2)])
qed

lemma quiet_best_effort: "within (quiet env) (audit_terminal_best_effort env e)"
  by (rule within_from_triples) (rule audit_best_effort_spec)

lemma quiet_terminalize: "within (quiet env) (terminalize_with env out)" "within (quiet env) (terminalize_safety env t)"
  "within (quiet env) (terminalize_after_start_audit_failure env)"
proof -
  show "within (quiet env) (terminalize_with env out)" for out
    unfolding terminalize_with_def by (intro quiet_basic quiet_best_effort)
  then show "within (quiet env) (terminalize_safety env t)" "within (quiet env) (terminalize_after_start_audit_failure env)"
    by (simp_all add: terminalize_safety_def terminalize_after_start_audit_failure_def)
qed

lemma quiet_record_audit_degraded: "within (quiet env) (record_audit_degraded env)"
  unfolding record_audit_degraded_def by (intro quiet_basic quiet_persist)

lemma quiet_apply_audit_failure: "within (quiet env) (apply_audit_failure env op ph ef k)"
  unfolding apply_audit_failure_def
  by (cases "he_audit_policy env") (simp_all add: quiet.within_err quiet_record_audit_degraded)

lemma terminalize_err_spec:
  "carried env F \<Longrightarrow> triple F (and_then (terminalize_safety env t) (\<lambda>_. err x)) Q (\<lambda>_. F)"
  by (rule triple_and_then [OF triple_quiet [OF _ quiet_terminalize(2)]]) (auto intro: triple_err)

lemma settle_spec:
  assumes P: "carried env P"
    and failed: "\<And>k. triple P (on_failure k) (\<lambda>_. Q) (\<lambda>_. P)"
    and recorded: "\<And>s. P s \<Longrightarrow> G s \<Longrightarrow> Q s"
  shows "triple (\<lambda>s. P s \<and> (out = Audit_Recorded \<longrightarrow> G s)) (settle_audit env ph on_failure out) (\<lambda>_. Q) (\<lambda>_. P)"
proof (cases out)
  case Audit_Recorded
  then show ?thesis by (auto simp: settle_audit_def intro: triple_ok recorded)
next
  case (Audit_Failed k)
  then show ?thesis by (simp add: settle_audit_def failed)
next
  case Audit_Cancelled
  then show ?thesis by (simp add: settle_audit_def terminalize_err_spec [OF P])
next
  case Audit_DeadlineExceeded
  then show ?thesis by (simp add: settle_audit_def terminalize_err_spec [OF P])
qed

lemma persist_and_audit_spec:
  assumes F: "carried env F"
    and failed: "\<And>k. triple (\<lambda>s. F s \<and> persisted env e s) (on_failure k) (\<lambda>_ s. Q s) (\<lambda>_ s. F s \<and> persisted env e s)"
    and recorded: "\<And>s. F s \<Longrightarrow> persisted env e s \<Longrightarrow> Tr_Audited e \<in> set (hs_trace s) \<Longrightarrow> Q s"
  shows "triple F (and_then (persist_transition env e) (\<lambda>_. and_then (audit_with_run_bounds env e) (\<lambda>out.
       settle_audit env ph on_failure out))) (\<lambda>_. Q) (\<lambda>_. F)"
proof (rule triple_and_then [OF persist_spec [OF F]], rule triple_and_then [OF audit_spec [OF F]])
  fix out
  show "triple (\<lambda>s. F s \<and> persisted env e s \<and> (out = Audit_Recorded \<longrightarrow> Tr_Audited e \<in> set (hs_trace s)))
     (settle_audit env ph on_failure out) (\<lambda>_. Q) (\<lambda>_. F)"
    by (rule triple_conseq [OF settle_spec [OF carried_conj [OF F carried_persisted] failed, where G = "\<lambda>s. Tr_Audited e \<in> set (hs_trace s)"]])
       (auto intro: recorded)
qed

text \<open>What a successful audit leaves behind: under the fail-closed policy the sink has acknowledged the event.\<close>

lemma audit_invocation_spec:
  assumes F: "carried env F"
  shows "triple F (audit_invocation env e op ph ef)
     (\<lambda>_ s. F s \<and> persisted env e s \<and> (he_audit_policy env = FailClosed \<longrightarrow> Tr_Audited e \<in> set (hs_trace s))) (\<lambda>_. F)"
  unfolding audit_invocation_def
proof (rule persist_and_audit_spec [OF F])
  fix k
  let ?P = "\<lambda>s. F s \<and> persisted env e s"
  show "triple ?P (apply_audit_failure env op ph ef k)
      (\<lambda>_ s. F s \<and> persisted env e s \<and> (he_audit_policy env = FailClosed \<longrightarrow> Tr_Audited e \<in> set (hs_trace s))) (\<lambda>_. ?P)"
    using triple_quiet [OF carried_conj [OF F carried_persisted [of env e]] quiet_apply_audit_failure [of env op ph ef k]]
    by (cases "he_audit_policy env") (auto simp: apply_audit_failure_def intro: triple_err)
qed simp

text \<open>The required audit succeeds only with an acknowledged event, whatever the policy.\<close>

lemma audit_required_spec:
  assumes F: "carried env F"
  shows "triple F (audit_required env e op ph ef)
     (\<lambda>_ s. F s \<and> persisted env e s \<and> Tr_Audited e \<in> set (hs_trace s)) (\<lambda>_. F)"
  unfolding audit_required_def
proof (rule persist_and_audit_spec [OF F])
  fix k
  let ?P = "\<lambda>s. F s \<and> persisted env e s"
  show "triple ?P (and_then (record_audit_degraded env) (\<lambda>_. err (HE_Audit ph op ef k)))
      (\<lambda>_ s. F s \<and> persisted env e s \<and> Tr_Audited e \<in> set (hs_trace s)) (\<lambda>_. ?P)"
    by (rule triple_and_then [OF triple_quiet [OF carried_conj [OF F carried_persisted] quiet_record_audit_degraded]])
       (auto intro: triple_err)
qed simp

lemma audit_lifecycle_spec:
  assumes F: "carried env F"
  shows "triple F (audit_lifecycle env e op) (\<lambda>_. F) (\<lambda>_. F)"
  unfolding audit_lifecycle_def
proof (rule triple_and_then [OF persist_spec [OF F]])
  have "triple (\<lambda>s. F s \<and> persisted env e s) (audit_record env e) (\<lambda>_. F) (\<lambda>_. F)"
    by (rule audit_record_spec [OF F])
  then show "triple (\<lambda>s. F s \<and> persisted env e s) (and_then (audit_record env e) (\<lambda>r. case r of
      None \<Rightarrow> ok () | Some k \<Rightarrow> apply_audit_failure env op Phase_Lifecycle Effect_StateCommitted k)) (\<lambda>_. F) (\<lambda>_. F)"
    by (rule triple_and_then)
       (auto intro: triple_ok triple_quiet [OF F quiet_apply_audit_failure] split: option.split)
qed

lemma quiet_audits:
  "within (quiet env) (audit_invocation env e op ph ef)"
  "within (quiet env) (audit_required env e op ph ef)"
  "within (quiet env) (audit_lifecycle env e op)"
  by (rule within_from_triples, rule triple_conseq, erule audit_invocation_spec audit_required_spec audit_lifecycle_spec; simp)+

section \<open>Guards, reservations and port calls\<close>

lemma quiet_guards:
  "within (quiet env) (require_status op r)"
  "within (quiet env) runtime_of"
  "within (quiet env) (lift_port f q)"
  unfolding require_status_def runtime_of_def lift_port_def by (intro quiet_basic)+

lemma quiet_preflight: "within (quiet env) (preflight env op)"
  unfolding preflight_def by (intro quiet_basic quiet_guards quiet_terminalize)

lemmas quiet_rules = quiet_basic quiet_persist quiet_best_effort quiet_terminalize quiet_record_audit_degraded
  quiet_audits quiet_guards quiet_preflight

lemma reserve_spec:
  assumes I: "carried env I"
    and refused: "\<And>c d x. m c = (Inl x, d) \<Longrightarrow> d = c"
    and granted: "\<And>s v d. I s \<Longrightarrow> P s \<Longrightarrow> m (hs_ctx s) = (Inr v, d) \<Longrightarrow> Q (s\<lparr>hs_ctx := d\<rparr>)"
  shows "triple (\<lambda>s. I s \<and> P s) (reserve env m) (\<lambda>_. Q) (\<lambda>_. I)"
  unfolding reserve_def
proof (rule triple_on_result)
  show "triple (\<lambda>s. I s \<and> P s) (on_ctx HE_BudgetExceeded m) (\<lambda>_. Q) (\<lambda>_. I)"
    unfolding triple_def
  proof (intro allI impI)
    fix s r t assume s: "I s \<and> P s" and run: "on_ctx HE_BudgetExceeded m s = (r, t)"
    obtain r' d where m: "m (hs_ctx s) = (r', d)" by fastforce
    show "case r of Inl _ \<Rightarrow> I t | Inr _ \<Rightarrow> Q t"
      using s run m refused [of "hs_ctx s"] granted [of s]
      by (cases r') (auto simp: on_ctx_def)
  qed
  show "triple I (case Inl x of Inl e \<Rightarrow> (case e of HE_BudgetExceeded d \<Rightarrow>
       and_then (terminalize_safety env (Safety_BudgetExceeded d)) (\<lambda>_. err e) | _ \<Rightarrow> err e) | Inr x \<Rightarrow> ok x) (\<lambda>_. Q) (\<lambda>_. I)" for x
    by (auto intro: triple_err terminalize_err_spec [OF I] split: harness_error.split)
qed (simp add: triple_ok)

lemma guarded_call_spec:
  assumes P: "carried env P" and J: "carried env J" and I: "carried env I"
    and PI: "\<And>s. P s \<Longrightarrow> I s" and JI: "\<And>s. J s \<Longrightarrow> I s"
    and started: "triple P started (\<lambda>_. J) (\<lambda>_. I)"
    and reap: "within (quiet env) reap"
    and answer: "triple J answer Q (\<lambda>_. I)"
  shows "triple P (guarded_call env started reap answer) Q (\<lambda>_. I)"
  unfolding guarded_call_def
proof (rule triple_and_then)
  show "triple P (ask (he_wait env)) (\<lambda>_. P) (\<lambda>_. I)"
    by (rule triple_conseq [OF triple_quiet [OF P quiet_ask]]) (use PI in auto)
  fix w
  have interrupted: "triple P (and_then (if polled then started else ok ()) (\<lambda>_. and_then reap (\<lambda>_.
      and_then (terminalize_safety env t) (\<lambda>_. err x)))) Q (\<lambda>_. I)" for polled t x
  proof (rule triple_and_then [where R = "\<lambda>_. I"])
    show "triple P (if polled then started else ok ()) (\<lambda>_. I) (\<lambda>_. I)"
      using triple_conseq [OF started, of P "\<lambda>_. I" "\<lambda>_. I"] JI PI by (auto intro: triple_ok)
    show "triple I (and_then reap (\<lambda>_. and_then (terminalize_safety env t) (\<lambda>_. err x))) Q (\<lambda>_. I)" for u :: unit
      by (rule triple_and_then [OF triple_quiet [OF I reap]]) (rule terminalize_err_spec [OF I])
  qed
  show "triple P (case w of
      Wait_Cancelled polled \<Rightarrow> and_then (if polled then started else ok ()) (\<lambda>_. and_then reap (\<lambda>_.
        and_then (terminalize_safety env Safety_Cancelled) (\<lambda>_. err (HE_Cancelled Stage_Invocation))))
    | Wait_Deadline polled \<Rightarrow> and_then (if polled then started else ok ()) (\<lambda>_. and_then reap (\<lambda>_.
        and_then (terminalize_safety env Safety_DeadlineExceeded) (\<lambda>_. err (HE_DeadlineExceeded Stage_Invocation))))
    | Wait_Ready \<Rightarrow> and_then started (\<lambda>_. answer)) Q (\<lambda>_. I)"
    using triple_and_then [OF started answer] by (cases w) (simp_all add: interrupted)
qed

text \<open>The reservations that pay for port calls; a reservation leaves the trace alone.\<close>

lemma unat_inc_of_less: "(x::'a::len word) < y \<Longrightarrow> unat (x + 1) = Suc (unat x)"
  using unat_inc [of x] word_order.extremum_strict by metis

lemma reserve_refused:
  "reserve_model_call c = (Inl x, d) \<Longrightarrow> d = c" "reserve_tool_call c = (Inl x, d) \<Longrightarrow> d = c"
  "reserve_approval_request c = (Inl x, d) \<Longrightarrow> d = c" "reserve_iteration c = (Inl x, d) \<Longrightarrow> d = c"
  "reserve_graph_step c = (Inl x, d) \<Longrightarrow> d = c"
  by (auto simp: reserve_defs Let_def split: if_splits)

lemma reserve_accounted:
  assumes "accounted c0 s"
  shows "reserve_model_call (hs_ctx s) = (Inr u, d) \<Longrightarrow>
      accounted c0 (s\<lparr>hs_ctx := d\<rparr>) \<and> model_unit c0 (s\<lparr>hs_ctx := d\<rparr>)"
    and "reserve_tool_call (hs_ctx s) = (Inr u, d) \<Longrightarrow>
      accounted c0 (s\<lparr>hs_ctx := d\<rparr>) \<and> tool_unit c0 (s\<lparr>hs_ctx := d\<rparr>)"
    and "reserve_approval_request (hs_ctx s) = (Inr u, d) \<Longrightarrow>
      accounted c0 (s\<lparr>hs_ctx := d\<rparr>) \<and> approval_unit c0 (s\<lparr>hs_ctx := d\<rparr>)"
    and "reserve_iteration (hs_ctx s) = (Inr n, d) \<Longrightarrow> accounted c0 (s\<lparr>hs_ctx := d\<rparr>)"
    and "reserve_graph_step (hs_ctx s) = (Inr n, d) \<Longrightarrow> accounted c0 (s\<lparr>hs_ctx := d\<rparr>)"
  using assms
  by (auto simp: accounted_def units_def reserve_defs usage_defs Let_def not_le within_budget_def inc_le_of_less
        unat_inc_of_less split: if_splits)

lemma reserve_call_specs:
  assumes G: "carried env (\<lambda>s. G (hs_trace s))"
  shows "triple (\<lambda>s. run_inv env c0 s \<and> G (hs_trace s)) (reserve env reserve_model_call)
      (\<lambda>_ s. run_inv env c0 s \<and> model_unit c0 s \<and> G (hs_trace s)) (\<lambda>_. run_inv env c0)"
    and "triple (\<lambda>s. run_inv env c0 s \<and> G (hs_trace s)) (reserve env reserve_tool_call)
      (\<lambda>_ s. run_inv env c0 s \<and> tool_unit c0 s \<and> G (hs_trace s)) (\<lambda>_. run_inv env c0)"
    and "triple (\<lambda>s. run_inv env c0 s \<and> G (hs_trace s)) (reserve env reserve_approval_request)
      (\<lambda>_ s. run_inv env c0 s \<and> approval_unit c0 s \<and> G (hs_trace s)) (\<lambda>_. run_inv env c0)"
    and "triple (run_inv env c0) (reserve env reserve_iteration) (\<lambda>_. run_inv env c0) (\<lambda>_. run_inv env c0)"
    and "triple (run_inv env c0) (reserve env reserve_graph_step) (\<lambda>_. run_inv env c0) (\<lambda>_. run_inv env c0)"
proof -
  note spec = reserve_spec [OF carried_facts(1)]
  show "triple (\<lambda>s. run_inv env c0 s \<and> G (hs_trace s)) (reserve env reserve_model_call)
      (\<lambda>_ s. run_inv env c0 s \<and> model_unit c0 s \<and> G (hs_trace s)) (\<lambda>_. run_inv env c0)"
    by (rule spec, erule reserve_refused) (use reserve_accounted in \<open>auto simp: run_inv_def\<close>)
  show "triple (\<lambda>s. run_inv env c0 s \<and> G (hs_trace s)) (reserve env reserve_tool_call)
      (\<lambda>_ s. run_inv env c0 s \<and> tool_unit c0 s \<and> G (hs_trace s)) (\<lambda>_. run_inv env c0)"
    by (rule spec, erule reserve_refused) (use reserve_accounted in \<open>auto simp: run_inv_def\<close>)
  show "triple (\<lambda>s. run_inv env c0 s \<and> G (hs_trace s)) (reserve env reserve_approval_request)
      (\<lambda>_ s. run_inv env c0 s \<and> approval_unit c0 s \<and> G (hs_trace s)) (\<lambda>_. run_inv env c0)"
    by (rule spec, erule reserve_refused) (use reserve_accounted in \<open>auto simp: run_inv_def\<close>)
  show "triple (run_inv env c0) (reserve env reserve_iteration) (\<lambda>_. run_inv env c0) (\<lambda>_. run_inv env c0)"
    by (rule triple_pre [OF spec [where P = "\<lambda>_. True"]], erule reserve_refused)
       (use reserve_accounted in \<open>auto simp: run_inv_def\<close>)
  show "triple (run_inv env c0) (reserve env reserve_graph_step) (\<lambda>_. run_inv env c0) (\<lambda>_. run_inv env c0)"
    by (rule triple_pre [OF spec [where P = "\<lambda>_. True"]], erule reserve_refused)
       (use reserve_accounted in \<open>auto simp: run_inv_def\<close>)
qed

end
