(* ===== verification/Harness_Safety.thy ===== *)
theory Harness_Safety
  imports Harness_Trace
begin

text \<open>
  Every operation of the harness keeps the trace admissible and the port calls within the budget
  (\<open>run_inv\<close>). The lemmas follow the structure of the operations; \<open>perform_all_inv\<close> is the result for any sequence
  of calls.
\<close>

section \<open>Ports\<close>

lemma triple_then_quiet:
  assumes "carried env P" "within (quiet env) m" "\<And>s. P s \<Longrightarrow> I s" "\<And>x. triple P (k x) Q (\<lambda>_. I)"
  shows "triple P (and_then m k) Q (\<lambda>_. I)"
  using assms by (intro quiet.triple_skip [OF assms(2)]) (auto dest: carriedD)

lemma run_inv_quiet: "within (quiet env) m \<Longrightarrow> triple (run_inv env c0) m (\<lambda>_. run_inv env c0) (\<lambda>_. run_inv env c0)"
  by (rule triple_quiet [OF carried_facts(1)])

lemma carried_backed: "carried env (\<lambda>s. tool_call_backed env' (hs_trace s) call)"
  unfolding carried_def tool_call_backed_def by (fast dest: quiet_trace recorded_mono(1,2))

lemmas carried_all = carried_rules carried_backed carried_persisted

lemma emit_spec:
  assumes "carried env P"
  shows "triple P (emit env k) (\<lambda>e s. P s \<and> ev_kind e = k) (\<lambda>_. P)"
proof -
  have kind: "ev_kind e = k" if "emit env k s = (Inr e, t)" for s e t
    using that
    by (auto simp: emit_def on_ctx_def next_event_def Let_def AgentEvent_new_def
          split: prod.splits sum.splits option.splits)
  show ?thesis
    using triple_quiet [OF assms quiet_emit] kind unfolding triple_def by (auto split: sum.splits)
qed

lemma log_invocation_specs:
  "triple (\<lambda>s. run_inv env c0 s \<and> model_unit c0 s \<and> (he_persistence env \<longrightarrow> model_armed (hs_trace s)))
     (log_entry (Tr_ModelInvoked q)) (\<lambda>_. run_inv env c0) (\<lambda>_. run_inv env c0)"
  "triple (\<lambda>s. run_inv env c0 s \<and> tool_unit c0 s \<and> tool_call_backed env (hs_trace s) call)
     (log_entry (Tr_ToolInvoked call)) (\<lambda>_. run_inv env c0) (\<lambda>_. run_inv env c0)"
  "triple (\<lambda>s. run_inv env c0 s \<and> approval_unit c0 s \<and> approval_announced (hs_trace s) a)
     (log_entry (Tr_ApprovalAsked a)) (\<lambda>_ s. run_inv env c0 s \<and> Tr_ApprovalAsked a \<in> set (hs_trace s))
     (\<lambda>_. run_inv env c0)"
  "triple (\<lambda>s. run_inv env c0 s \<and> Tr_ApprovalAsked a \<in> set (hs_trace s))
     (log_entry (Tr_ApprovalAnswered a d)) (\<lambda>_ s. run_inv env c0 s \<and> Tr_ApprovalAnswered a d \<in> set (hs_trace s))
     (\<lambda>_. run_inv env c0)"
  "triple (\<lambda>s. run_inv env c0 s \<and> retrieval_recorded env (hs_trace s) k)
     (log_entry (Tr_KnowledgeAsked k)) (\<lambda>_. run_inv env c0) (\<lambda>_. run_inv env c0)"
  by (auto simp: triple_def log_entry_def run_inv_def trace_ok_snoc accounted_def units_def counts_def)

lemma invoke_model_port_spec:
  "triple (\<lambda>s. run_inv env c0 s \<and> model_unit c0 s \<and> (he_persistence env \<longrightarrow> model_armed (hs_trace s)))
     (invoke_model_port env q) (\<lambda>_. run_inv env c0) (\<lambda>_. run_inv env c0)"
proof -
  let ?P = "\<lambda>s. run_inv env c0 s \<and> model_unit c0 s \<and> (he_persistence env \<longrightarrow> model_armed (hs_trace s))"
  have P: "carried env ?P" by (intro carried_all)
  show ?thesis
    unfolding invoke_model_port_def
    by (rule triple_then_quiet [OF P quiet_guards(2)], simp,
        rule guarded_call_spec [OF P _ _ _ _ log_invocation_specs(1)])
       (auto intro!: carried_all run_inv_quiet quiet_basic quiet_guards)
qed

text \<open>Whether the call is handed over before or during the wait, it is backed when that happens.\<close>

lemma tool_port_specs:
  "triple (\<lambda>s. run_inv env c0 s \<and> tool_unit c0 s \<and> tool_call_backed env (hs_trace s) call)
     (invoke_tool_port env p call) (\<lambda>_. run_inv env c0) (\<lambda>_. run_inv env c0)"
  "triple (\<lambda>s. run_inv env c0 s \<and> tool_unit c0 s \<and> tool_call_backed env (hs_trace s) call)
     (invoke_contained_tool_port env p call) (\<lambda>_. run_inv env c0) (\<lambda>_. run_inv env c0)"
  "triple (\<lambda>s. run_inv env c0 s \<and> tool_unit c0 s \<and> tool_call_backed env (hs_trace s) call)
     (invoke_managed_tool_port env p call) (\<lambda>_. run_inv env c0) (\<lambda>_. run_inv env c0)"
proof -
  let ?P = "\<lambda>s. run_inv env c0 s \<and> tool_unit c0 s \<and> tool_call_backed env (hs_trace s) call"
  have P: "carried env ?P" by (intro carried_all)
  note quiet_tail = quiet_basic quiet_guards
  have waited: "triple (run_inv env c0) (guarded_call env (ok ()) (lift_port f r) (lift_port g a))
      (\<lambda>_. run_inv env c0) (\<lambda>_. run_inv env c0)"
    for f g and r :: "nat \<Rightarrow> 'x + unit" and a :: "nat \<Rightarrow> 'x + tool_result"
    by (rule guarded_call_spec) (auto intro!: carried_all run_inv_quiet quiet_tail triple_ok)
  show "triple ?P (invoke_tool_port env p call) (\<lambda>_. run_inv env c0) (\<lambda>_. run_inv env c0)"
    unfolding invoke_tool_port_def
    by (rule triple_then_quiet [OF P quiet_guards(2)], simp,
        rule guarded_call_spec [OF P _ _ _ _ log_invocation_specs(2)])
       (auto intro!: carried_all run_inv_quiet quiet_tail)
  show "triple ?P (invoke_contained_tool_port env p call) (\<lambda>_. run_inv env c0) (\<lambda>_. run_inv env c0)"
    unfolding invoke_contained_tool_port_def
    by (rule triple_then_quiet [OF P quiet_guards(2)], simp,
        rule triple_and_then [OF log_invocation_specs(2)],
        rule triple_and_then [OF run_inv_quiet [OF quiet_guards(3)]], rule waited)
  show "triple ?P (invoke_managed_tool_port env p call) (\<lambda>_. run_inv env c0) (\<lambda>_. run_inv env c0)"
    unfolding invoke_managed_tool_port_def
    by (rule triple_then_quiet [OF P quiet_guards(2)], simp,
        rule triple_and_then [OF log_invocation_specs(2)],
        rule triple_and_then [OF run_inv_quiet [OF quiet_guards(3)]], rule waited)
qed

section \<open>Model calls\<close>

lemma quiet_bind_grounding: "within (quiet env) (bind_grounding env mid g)"
  unfolding bind_grounding_def by (intro quiet_rules)

lemma invoke_model_internal_inv:
  "triple (run_inv env c0) (invoke_model_internal env q g) (\<lambda>_. run_inv env c0) (\<lambda>_. run_inv env c0)"
proof -
  let ?I = "run_inv env c0"
  let ?P = "\<lambda>s. ?I s \<and> model_unit c0 s"
  let ?A = "\<lambda>s. ?I s \<and> model_unit c0 s \<and> (he_persistence env \<longrightarrow> model_armed (hs_trace s))"
  have P: "carried env ?P" and A: "carried env ?A" by (intro carried_all)+
  have reserved: "triple ?I (reserve env reserve_model_call) (\<lambda>_. ?P) (\<lambda>_. ?I)"
    by (rule triple_conseq [OF reserve_call_specs(1) [where G = "\<lambda>_. True", OF carried_const]]) auto
  have started: "triple (\<lambda>s. ?P s \<and> ev_kind e = Ev_ModelInvocationStarted mid u l)
      (audit_invocation env e op ph ef) (\<lambda>_. ?A) (\<lambda>_. ?I)" for e mid u l op ph ef
    by (rule triple_conseq [OF audit_invocation_spec
            [OF carried_conj [OF P carried_const [of env "ev_kind e = Ev_ModelInvocationStarted mid u l"]]]])
       (auto simp: persisted_def is_model_start_def)
  have announced: "triple ?P (emit env k) (\<lambda>e s. ?P s \<and> ev_kind e = k) (\<lambda>_. ?I)" for k
    by (rule triple_conseq [OF emit_spec [OF P]]) auto
  show ?thesis
    unfolding invoke_model_internal_def
    by (rule triple_and_then [OF run_inv_quiet [OF quiet_preflight]],
        rule triple_and_then [OF reserved],
        rule triple_then_quiet [OF P quiet_ask], simp,
        rule triple_then_quiet [OF P quiet.within_get_ctx], simp,
        rule triple_and_then [OF announced],
        rule triple_and_then [OF started],
        rule triple_then_quiet [OF A quiet_bind_grounding], simp,
        rule triple_on_result [OF invoke_model_port_spec])
       (auto intro!: run_inv_quiet quiet_rules split: harness_error.split)
qed

lemma invoke_grounded_model_inv:
  "triple (run_inv env c0) (invoke_grounded_model env r q) (\<lambda>_. run_inv env c0) (\<lambda>_. run_inv env c0)"
  unfolding invoke_grounded_model_def by (intro triple_if triple_err invoke_model_internal_inv)

section \<open>Retrieval and actions\<close>

lemma quiet_record_knowledge_interruption: "within (quiet env) (record_knowledge_interruption env rid kind)"
proof (rule within_from_triples)
  fix F assume F: "carried env F"
  show "triple F (record_knowledge_interruption env rid kind) (\<lambda>_. F) (\<lambda>_. F)"
    unfolding record_knowledge_interruption_def
    by (rule triple_and_then [OF triple_quiet [OF F quiet_emit]], rule triple_and_then [OF persist_spec [OF F]],
        rule triple_and_then [OF audit_record_spec [OF F]])
       (auto intro: triple_ok triple_quiet [OF F quiet_mark(1)])
qed

lemma quiet_finish_retrieval: "within (quiet env) (finish_retrieval env rid r)"
  unfolding finish_retrieval_def record_knowledge_failure_def by (intro quiet_rules)

lemma await_knowledge_spec:
  "triple (\<lambda>s. run_inv env c0 s \<and> retrieval_recorded env (hs_trace s) q)
     (await_knowledge env port q rid) (\<lambda>_. run_inv env c0) (\<lambda>_. run_inv env c0)"
proof -
  let ?P = "\<lambda>s. run_inv env c0 s \<and> retrieval_recorded env (hs_trace s) q"
  have P: "carried env ?P" by (intro carried_all)
  have polled: "triple ?P (if polled then log_entry (Tr_KnowledgeAsked q) else ok ()) (\<lambda>_. run_inv env c0) (\<lambda>_. run_inv env c0)"
    for polled using log_invocation_specs(5) by (auto intro: triple_ok)
  have interrupted: "triple ?P (and_then (if polled then log_entry (Tr_KnowledgeAsked q) else ok ()) (\<lambda>_.
      and_then (record_knowledge_interruption env rid kind) (\<lambda>_. and_then (terminalize_safety env t) (\<lambda>_. err x))))
      (\<lambda>_. run_inv env c0) (\<lambda>_. run_inv env c0)" for polled kind t x
    by (rule triple_and_then [OF polled], rule run_inv_quiet) (intro quiet_rules quiet_record_knowledge_interruption)
  have ready: "triple ?P (and_then (log_entry (Tr_KnowledgeAsked q)) (\<lambda>_. and_then (ask a) (finish_retrieval env rid)))
      (\<lambda>_. run_inv env c0) (\<lambda>_. run_inv env c0)" for a
    by (rule triple_and_then [OF log_invocation_specs(5)], rule run_inv_quiet) (intro quiet_rules quiet_finish_retrieval)
  show ?thesis
    unfolding await_knowledge_def
    by (rule triple_then_quiet [OF P quiet_guards(2)], simp, rule triple_then_quiet [OF P quiet_ask], simp,
        split wait_outcome.split, intro conjI allI impI)
       (rule interrupted ready)+
qed

lemma retrieval_event_announces:
  assumes "retrieval_event st q rid (query_digest (jl_sha256 (he_json env)) (kq_query q)) (of_nat (str_len (kq_query q))) = Inr k"
    and "ev_kind e = k" "persisted env e s"
  shows "retrieval_recorded env (hs_trace s) q"
proof -
  have kind: "\<exists>prev. k \<in> {Ev_KnowledgeRetrievalStarted rid (kr_metadata (kq_route q)) (query_digest (jl_sha256 (he_json env)) (kq_query q))
        (of_nat (str_len (kq_query q))),
      Ev_KnowledgeRetrievalRestarted prev rid (kr_metadata (kq_route q)) (query_digest (jl_sha256 (he_json env)) (kq_query q))
        (of_nat (str_len (kq_query q)))}"
    using assms(1) by (auto simp: retrieval_event_def Let_def split: option.splits if_splits)
  show ?thesis
    unfolding retrieval_recorded_def Let_def
    by (intro impI exI [of _ e] exI [of _ rid]) (use kind assms(2,3) in \<open>auto simp: persisted_def\<close>)
qed

lemma retrieve_knowledge_inv:
  "triple (run_inv env c0) (retrieve_knowledge env q) (\<lambda>_. run_inv env c0) (\<lambda>_. run_inv env c0)"
proof -
  let ?I = "run_inv env c0"
  have I: "carried env ?I" by (rule carried_facts)
  have announce: "triple ?I (and_then (emit env k) (\<lambda>e. and_then
      (audit_invocation env e Op_RetrieveKnowledge Phase_BeforeInvocation Effect_NotInvoked) (\<lambda>_. await_knowledge env port q rid)))
      (\<lambda>_. ?I) (\<lambda>_. ?I)"
    if k: "retrieval_event st q rid (query_digest (jl_sha256 (he_json env)) (kq_query q)) (of_nat (str_len (kq_query q))) = Inr k"
    for k st port rid
  proof (rule triple_and_then [OF emit_spec [OF I]])
    fix e
    have "triple (\<lambda>s. ?I s \<and> ev_kind e = k) (audit_invocation env e op ph ef)
        (\<lambda>_ s. ?I s \<and> retrieval_recorded env (hs_trace s) q) (\<lambda>_. ?I)" for op ph ef
      by (rule triple_conseq [OF audit_invocation_spec [OF carried_conj [OF I carried_const [of env "ev_kind e = k"]]]])
         (auto intro: retrieval_event_announces [OF k])
    then show "triple (\<lambda>s. ?I s \<and> ev_kind e = k) (and_then
      (audit_invocation env e Op_RetrieveKnowledge Phase_BeforeInvocation Effect_NotInvoked) (\<lambda>_. await_knowledge env port q rid))
      (\<lambda>_. ?I) (\<lambda>_. ?I)"
      by (rule triple_and_then) (rule await_knowledge_spec)
  qed
  show ?thesis
    unfolding retrieve_knowledge_def
    by (rule triple_and_then [OF run_inv_quiet [OF quiet_preflight]])
       (auto intro!: triple_err triple_and_then [OF run_inv_quiet [OF quiet_ask]]
          triple_and_then [OF run_inv_quiet [OF quiet.within_get_ctx]] announce split: option.split sum.split)
qed

lemma quiet_prepare_action: "within (quiet env) (prepare_action env i)"
  unfolding prepare_action_def record_action_rejected_def by (intro quiet_rules)

section \<open>Tool calls\<close>

lemma quiet_audit_by_mode: "within (quiet env) (audit_by_mode env mode e op ph ef)"
  by (cases mode) (simp_all add: audit_by_mode_def quiet_audits)

lemma quiet_record_tool_terminal_event: "within (quiet env) (record_tool_terminal_event env k op mode)"
  unfolding record_tool_terminal_event_def by (intro quiet_rules quiet_audit_by_mode)

lemma quiet_record_tool_terminal_after_runtime_error:
  "within (quiet env) (record_tool_terminal_after_runtime_error env i op mode)"
  unfolding record_tool_terminal_after_runtime_error_def
  by (intro quiet_rules quiet_record_tool_terminal_event)

lemma quiet_finish_tool_invocation: "within (quiet env) (finish_tool_invocation env i op mode r)"
  unfolding finish_tool_invocation_def
  by (auto intro!: quiet_rules quiet_record_tool_terminal_event quiet_record_tool_terminal_after_runtime_error
        split: sum.split harness_error.split)

lemma quiet_record_denials:
  "within (quiet env) (record_policy_denied env i name cap op)"
  "within (quiet env) (record_containment_failed env i name cap kind)"
  unfolding record_policy_denied_def record_containment_failed_def by (intro quiet_rules)+

lemma tool_started_spec:
  assumes G: "carried env (\<lambda>s. G (hs_trace s))"
    and mode: "cap = LocalWrite \<Longrightarrow> mode = Audit_RequiredMode"
  shows "triple (\<lambda>s. run_inv env c0 s \<and> G (hs_trace s))
      (reserve_and_record_tool_started env (tc_id call) (tc_name call) cap op mode)
      (\<lambda>_ s. run_inv env c0 s \<and> tool_unit c0 s \<and> G (hs_trace s) \<and> tool_start_recorded env (hs_trace s) call cap)
      (\<lambda>_. run_inv env c0)"
proof -
  let ?I = "run_inv env c0"
  let ?P = "\<lambda>s. ?I s \<and> tool_unit c0 s \<and> G (hs_trace s)"
  have P: "carried env ?P" by (intro carried_all G)
  have announced: "triple ?P (emit env k) (\<lambda>e s. ?P s \<and> ev_kind e = k) (\<lambda>_. ?I)" for k
    by (rule triple_conseq [OF emit_spec [OF P]]) auto
  have audited: "triple ?P (audit_by_mode env mode e op ph ef)
      (\<lambda>_ s. ?P s \<and> persisted env e s
         \<and> (he_audit_policy env = FailClosed \<or> cap = LocalWrite \<longrightarrow> Tr_Audited e \<in> set (hs_trace s))) (\<lambda>_. ?I)" for e ph ef
  proof (cases mode)
    case Audit_Configured
    with mode have "cap \<noteq> LocalWrite" by auto
    then show ?thesis
      unfolding Audit_Configured audit_by_mode_def tool_audit.case
      by (intro triple_conseq [OF audit_invocation_spec [OF P]]) auto
  next
    case Audit_RequiredMode
    show ?thesis
      unfolding Audit_RequiredMode audit_by_mode_def tool_audit.case
      by (rule triple_conseq [OF audit_required_spec [OF P]]) auto
  qed
  have recorded: "triple (\<lambda>s. ?P s \<and> ev_kind e = Ev_ToolInvocationStarted (tc_id call) (tc_name call) cap u l)
      (audit_by_mode env mode e op ph ef)
      (\<lambda>_ s. ?I s \<and> tool_unit c0 s \<and> G (hs_trace s) \<and> tool_start_recorded env (hs_trace s) call cap) (\<lambda>_. ?I)" for e u l ph ef
  proof (cases "ev_kind e = Ev_ToolInvocationStarted (tc_id call) (tc_name call) cap u l")
    case True
    then show ?thesis
      by (intro triple_conseq [OF audited])
         (auto simp: tool_start_recorded_def persisted_def)
  qed (simp add: triple_def)
  show ?thesis
    unfolding reserve_and_record_tool_started_def
    by (rule triple_and_then [OF reserve_call_specs(2) [OF G]],
        rule triple_then_quiet [OF P quiet.within_get_ctx], simp,
        rule triple_and_then [OF announced], rule recorded)
qed

lemma read_only_backed:
  assumes "he_tools env (tc_name call) = Some b" "td_capability (tb_definition b) = ReadOnly"
    "he_policy env ReadOnly = Auth_Allowed" "tool_start_recorded env xs call ReadOnly"
  shows "tool_call_backed env xs call"
  using assms by (auto simp: tool_call_backed_def)

lemma invoke_read_only_inv:
  assumes b: "he_tools env (tc_name call) = Some b" "td_capability (tb_definition b) = ReadOnly"
    "he_policy env ReadOnly = Auth_Allowed"
  shows "triple (run_inv env c0) (invoke_read_only env x call (tc_name call) ReadOnly)
     (\<lambda>_. run_inv env c0) (\<lambda>_. run_inv env c0)"
proof -
  let ?I = "run_inv env c0"
  have started: "triple ?I (reserve_and_record_tool_started env (tc_id call) (tc_name call) ReadOnly op Audit_Configured)
      (\<lambda>_ s. ?I s \<and> tool_unit c0 s \<and> tool_call_backed env (hs_trace s) call) (\<lambda>_. ?I)" for op
    by (rule triple_conseq [OF tool_started_spec [where G = "\<lambda>_. True", OF carried_const]])
       (auto intro: read_only_backed [OF b])
  note finish = run_inv_quiet [OF quiet_finish_tool_invocation]
  have call: "triple ?I (and_then (reserve_and_record_tool_started env (tc_id call) (tc_name call) ReadOnly op Audit_Configured)
       (\<lambda>_. on_result m (finish_tool_invocation env (tc_id call) op Audit_Configured))) (\<lambda>_. ?I) (\<lambda>_. ?I)"
    if "triple (\<lambda>s. ?I s \<and> tool_unit c0 s \<and> tool_call_backed env (hs_trace s) call) m (\<lambda>_. ?I) (\<lambda>_. ?I)" for m op
    by (rule triple_and_then [OF started], rule triple_on_result [OF that]) (rule finish)+
  show ?thesis
    by (cases x)
       (simp_all add: invoke_read_only_def invoke_direct_tool_def invoke_managed_tool_def
          invoke_contained_read_only_def call tool_port_specs)
qed

lemma invoke_tool_inv:
  assumes "registry_ok (he_tools env)"
  shows "triple (run_inv env c0) (invoke_tool env call) (\<lambda>_. run_inv env c0) (\<lambda>_. run_inv env c0)"
  unfolding invoke_tool_def
proof (rule triple_and_then [OF run_inv_quiet [OF quiet_preflight]])
  show "triple (run_inv env c0) (case he_tools env (tc_name call) of
         None \<Rightarrow> err (HE_ToolNotFound (tc_name call))
       | Some b \<Rightarrow>
           let cap = td_capability (tb_definition b); name = td_name (tb_definition b);
               denied = record_policy_denied env (tc_id call) name cap Op_InvokeTool
           in (case he_policy env cap of
                 Auth_RequiresApproval \<Rightarrow>
                   and_then denied (\<lambda>_. err (HE_PolicyDenied (PolicyDenial_new cap ApprovalRequiredButUnsupported)))
               | Auth_Denied d \<Rightarrow> and_then denied (\<lambda>_. err (HE_PolicyDenied d))
               | Auth_Allowed \<Rightarrow>
                   if cap = ReadOnly then invoke_read_only env (tb_execution b) call name cap
                   else and_then denied (\<lambda>_. err (HE_CapabilityNotExecutable cap))))
     (\<lambda>_. run_inv env c0) (\<lambda>_. run_inv env c0)"
  proof (cases "he_tools env (tc_name call)")
    case (Some b)
    with assms have "td_name (tb_definition b) = tc_name call" by (simp add: registry_ok_def)
    with Some invoke_read_only_inv [OF Some, of c0 "tb_execution b"] show ?thesis
      by (cases "td_capability (tb_definition b) = ReadOnly \<and> he_policy env ReadOnly = Auth_Allowed")
         (auto simp: Let_def intro!: run_inv_quiet quiet_rules quiet_record_denials
            split: authorization_decision.split)
  qed (auto intro!: run_inv_quiet quiet_rules)
qed

section \<open>Local writes under approval\<close>

lemma record_approval_event_spec:
  assumes P: "carried env P" and PI: "\<And>s. P s \<Longrightarrow> I s"
  shows "triple P (record_approval_event env k)
     (\<lambda>_ s. P s \<and> (\<exists>e. ev_kind e = k \<and> Tr_Audited e \<in> set (hs_trace s))) (\<lambda>_. I)"
  unfolding record_approval_event_def
proof (rule triple_and_then)
  show "triple P (emit env k) (\<lambda>e s. P s \<and> ev_kind e = k) (\<lambda>_. I)"
    by (rule triple_conseq [OF emit_spec [OF P]]) (auto intro: PI)
  show "triple (\<lambda>s. P s \<and> ev_kind e = k)
      (audit_required env e Op_RequestApproval Phase_AfterInvocation Effect_NotInvoked)
      (\<lambda>_ s. P s \<and> (\<exists>e. ev_kind e = k \<and> Tr_Audited e \<in> set (hs_trace s))) (\<lambda>_. I)" for e
    by (rule triple_conseq [OF audit_required_spec [OF carried_conj [OF P carried_const [of env "ev_kind e = k"]]]])
       (auto intro: PI)
qed

lemma quiet_record_approval_event: "within (quiet env) (record_approval_event env k)"
  unfolding record_approval_event_def by (intro quiet_rules)

text \<open>The binding of a local write that can be approved.\<close>

definition approvable :: "harness_env \<Rightarrow> tool_name \<Rightarrow> bool" where
  "approvable env name \<longleftrightarrow> he_policy env LocalWrite = Auth_RequiresApproval
     \<and> (\<exists>b p. he_tools env name = Some b \<and> td_capability (tb_definition b) = LocalWrite
          \<and> tb_execution b = Exec_Contained p)"

lemma local_write_backed:
  "approvable env (tc_name call) \<Longrightarrow> approval_recorded env xs call \<Longrightarrow> tool_start_recorded env xs call LocalWrite \<Longrightarrow>
   tool_call_backed env xs call"
  by (auto simp: approvable_def tool_call_backed_def)

lemma invoke_granted_local_write_inv:
  assumes "approvable env (tc_name call)"
  shows "triple (\<lambda>s. run_inv env c0 s \<and> approval_recorded env (hs_trace s) call)
     (invoke_granted_local_write env p call (tc_name call) LocalWrite) (\<lambda>_. run_inv env c0) (\<lambda>_. run_inv env c0)"
proof -
  let ?I = "run_inv env c0"
  let ?A = "\<lambda>s. ?I s \<and> approval_recorded env (hs_trace s) call"
  have A: "carried env ?A" by (intro carried_all)
  have started: "triple ?A (reserve_and_record_tool_started env (tc_id call) (tc_name call) LocalWrite op Audit_RequiredMode)
      (\<lambda>_ s. ?I s \<and> tool_unit c0 s \<and> tool_call_backed env (hs_trace s) call) (\<lambda>_. ?I)" for op
    by (rule triple_conseq [OF tool_started_spec [OF carried_facts(7)]])
       (auto intro: local_write_backed [OF assms])
  show ?thesis
    unfolding invoke_granted_local_write_def
    by (rule triple_then_quiet [OF A quiet_preflight], simp,
        rule triple_and_then [OF started],
        rule triple_on_result [OF tool_port_specs(2)])
       (rule run_inv_quiet [OF quiet_finish_tool_invocation])+
qed

lemma settle_approval_inv:
  assumes "approvable env (tc_name call)"
    and q: "aq_tool_call_id q = tc_id call" "aq_tool_name q = tc_name call" "aq_capability q = LocalWrite"
  shows "triple (\<lambda>s. run_inv env c0 s \<and> Tr_ApprovalAnswered q d \<in> set (hs_trace s))
     (settle_approval env p call q d) (\<lambda>_. run_inv env c0) (\<lambda>_. run_inv env c0)"
proof -
  let ?I = "run_inv env c0"
  let ?P = "\<lambda>s. ?I s \<and> Tr_ApprovalAnswered q d \<in> set (hs_trace s)"
  have P: "carried env ?P" by (intro carried_all)
  have refused: "triple ?P (and_then (record_approval_event env k) (\<lambda>_. err x)) (\<lambda>_. ?I) (\<lambda>_. ?I)" for k x
    by (rule triple_pre [OF run_inv_quiet]) (auto intro!: quiet_rules quiet_record_approval_event)
  have granted: "triple ?P (record_approval_event env (Ev_ApprovalGranted (aq_id q)))
      (\<lambda>_ s. ?I s \<and> approval_recorded env (hs_trace s) call) (\<lambda>_. ?I)"
    if "d = ApprovalRequest_approve q"
    by (rule triple_conseq [OF record_approval_event_spec [OF P, of ?I]])
       (use that q in \<open>auto simp: approval_recorded_def\<close>)
  have d: "d = ApprovalRequest_approve q"
    if "ad_request_id d = aq_id q" "ad_action_digest d = aq_action_digest q" "ad_outcome d = Approval_Granted"
    using that by (simp add: ApprovalRequest_approve_def)
  show ?thesis
    unfolding settle_approval_def
    by (rule triple_then_quiet [OF P quiet_preflight], simp)
       (auto intro!: refused triple_and_then [OF granted] d
          simp: q invoke_granted_local_write_inv [OF assms(1)] split: approval_outcome.split)
qed

lemma await_approval_spec:
  "triple (\<lambda>s. run_inv env c0 s \<and> approval_unit c0 s \<and> approval_announced (hs_trace s) q) (await_approval env q)
     (\<lambda>d s. run_inv env c0 s \<and> Tr_ApprovalAnswered q d \<in> set (hs_trace s)) (\<lambda>_. run_inv env c0)"
proof -
  let ?I = "run_inv env c0"
  let ?P = "\<lambda>s. ?I s \<and> approval_unit c0 s \<and> approval_announced (hs_trace s) q"
  let ?J = "\<lambda>s. ?I s \<and> Tr_ApprovalAsked q \<in> set (hs_trace s)"
  have P: "carried env ?P" and J: "carried env ?J" by (intro carried_all)+
  have answer: "triple ?J (and_then (lift_port HE_ApprovalPort a) (\<lambda>d. and_then (log_entry (Tr_ApprovalAnswered q d)) (\<lambda>_. ok d)))
      (\<lambda>d s. ?I s \<and> Tr_ApprovalAnswered q d \<in> set (hs_trace s)) (\<lambda>_. ?I)" for a
    by (rule triple_then_quiet [OF J quiet_guards(3)], simp, rule triple_and_then [OF log_invocation_specs(4)])
       (simp add: triple_ok)
  show ?thesis
    unfolding await_approval_def
    by (rule triple_then_quiet [OF P quiet_guards(2)], simp,
        rule guarded_call_spec [OF P J carried_facts(1) _ _ log_invocation_specs(3) _ answer])
       (auto intro: quiet_rules)
qed

lemma invoke_approved_local_write_inv:
  assumes "approvable env (va_tool_name a)" "va_capability a = LocalWrite" "tc_name call = va_tool_name a"
  shows "triple (run_inv env c0) (invoke_approved_local_write env p call a) (\<lambda>_. run_inv env c0) (\<lambda>_. run_inv env c0)"
  unfolding invoke_approved_local_write_def
proof (rule triple_and_then [OF run_inv_quiet [OF quiet_ask]], split sum.split, intro conjI allI impI, goal_cases)
  case (1 r x)
  then show ?case by (intro run_inv_quiet quiet_rules quiet_record_denials)
next
  case (2 r preview)
  let ?I = "run_inv env c0"
  let ?P = "\<lambda>s. ?I s \<and> approval_unit c0 s"
  have P: "carried env ?P" by (intro carried_all)
  have reserved: "triple ?I (reserve env reserve_approval_request) (\<lambda>_. ?P) (\<lambda>_. ?I)"
    by (rule triple_conseq [OF reserve_call_specs(3) [where G = "\<lambda>_. True", OF carried_const]]) auto
  have announced: "triple ?P (emit env k) (\<lambda>e s. ?P s \<and> ev_kind e = k) (\<lambda>_. ?I)" for k
    by (rule triple_conseq [OF emit_spec [OF P]]) auto
  have audited: "triple (\<lambda>s. ?P s \<and> ev_kind e = Ev_ApprovalRequested (aq_id q) (aq_action_proposal_id q)
        (aq_tool_call_id q) (aq_tool_name q) (aq_capability q) u l)
      (audit_required env e op ph ef) (\<lambda>_ s. ?I s \<and> approval_unit c0 s \<and> approval_announced (hs_trace s) q) (\<lambda>_. ?I)"
    for e q u l op ph ef
    by (rule triple_conseq [OF audit_required_spec [OF carried_conj [OF P carried_const
           [of env "ev_kind e = Ev_ApprovalRequested (aq_id q) (aq_action_proposal_id q)
              (aq_tool_call_id q) (aq_tool_name q) (aq_capability q) u l"]]]])
       (auto simp: approval_announced_def)
  have dialogue: "triple (\<lambda>s. ?I s \<and> approval_unit c0 s \<and> approval_announced (hs_trace s) q)
      (on_result (await_approval env q) (\<lambda>r. case r of
           Inl x \<Rightarrow> (case x of
               HE_ApprovalPort k \<Rightarrow>
                 and_then (record_approval_event env (Ev_ApprovalFailed (aq_id q) (approval_failure_of k))) (\<lambda>_. err x)
             | _ \<Rightarrow> err x)
         | Inr d \<Rightarrow> settle_approval env p call q d)) (\<lambda>_. ?I) (\<lambda>_. ?I)"
    if "aq_tool_call_id q = tc_id call" "aq_tool_name q = tc_name call" "aq_capability q = LocalWrite" for q
    by (rule triple_on_result [OF await_approval_spec])
       (use that assms in \<open>auto intro!: run_inv_quiet quiet_rules quiet_record_approval_event
          intro: settle_approval_inv split: harness_error.split\<close>)
  show ?case
  proof (rule triple_and_then [OF run_inv_quiet [OF quiet_preflight]],
      rule triple_and_then [OF run_inv_quiet [OF quiet.within_require]],
      rule triple_and_then [OF run_inv_quiet [OF quiet_ask]],
      rule triple_and_then [OF reserved],
      rule triple_then_quiet [OF P quiet.within_get_ctx], simp, goal_cases)
    case (1 _ _ qid _ c)
    let ?q = "\<lparr>aq_id = qid, aq_action_proposal_id = va_proposal_id a, aq_tool_call_id = tc_id call,
        aq_tool_name = va_tool_name a, aq_capability = va_capability a, aq_action_digest = va_digest a,
        aq_preview = preview\<rparr>"
    show ?case
      unfolding Let_def
      by (rule triple_and_then [OF announced], rule triple_and_then [OF audited [of _ ?q, unfolded approval_request.select_convs]],
          rule dialogue [of ?q, unfolded approval_request.select_convs])
         (use assms in simp_all)
  qed
qed

text \<open>The last step of \<^verbatim>\<open>invoke_validated_action\<close>, by capability.\<close>

lemma validated_read_only_inv:
  assumes "he_tools env (va_tool_name a) = Some b" "td_capability (tb_definition b) = ReadOnly"
    "he_policy env ReadOnly = Auth_Allowed"
  shows "triple (run_inv env c0) (invoke_read_only env x (into_tool_call a i) (va_tool_name a) ReadOnly)
     (\<lambda>_. run_inv env c0) (\<lambda>_. run_inv env c0)"
  using invoke_read_only_inv [of env "into_tool_call a i" b c0 x] assms by (simp add: into_tool_call_def)

lemma invoke_validated_action_inv:
  "triple (run_inv env c0) (invoke_validated_action env a) (\<lambda>_. run_inv env c0) (\<lambda>_. run_inv env c0)"
proof -
  let ?I = "run_inv env c0"
  note quiet_all = run_inv_quiet quiet_rules quiet_audit_by_mode quiet_record_denials
  have local_write: "triple ?I (invoke_approved_local_write env p (into_tool_call a i) a) (\<lambda>_. ?I) (\<lambda>_. ?I)"
    if "he_tools env (va_tool_name a) = Some b" "td_capability (tb_definition b) = va_capability a"
      "va_capability a = LocalWrite" "he_policy env LocalWrite = Auth_RequiresApproval"
      "tb_execution b = Exec_Contained p" for b p i
    using that by (intro invoke_approved_local_write_inv) (auto simp: approvable_def into_tool_call_def)
  have guarded_write: "triple ?I (and_then get_ctx (\<lambda>c. if rc_audit_degraded c then err HE_AuditDegraded
      else invoke_approved_local_write env p (into_tool_call a i) a)) (\<lambda>_. ?I) (\<lambda>_. ?I)"
    if "he_tools env (va_tool_name a) = Some b" "td_capability (tb_definition b) = va_capability a"
      "va_capability a = LocalWrite" "he_policy env LocalWrite = Auth_RequiresApproval"
      "tb_execution b = Exec_Contained p" for b p i
    by (rule triple_and_then [OF run_inv_quiet [OF quiet.within_get_ctx]])
       (auto intro!: triple_err intro: local_write [OF that])
  show ?thesis
    unfolding invoke_validated_action_def Let_def
  proof (rule triple_and_then [OF run_inv_quiet [OF quiet_preflight]],
      rule triple_and_then [OF run_inv_quiet [OF quiet_ask]],
      split option.split, intro conjI allI impI triple_if, goal_cases)
    case (3 u i b)
    note bound = triple_and_then [OF run_inv_quiet [OF quiet_emit] triple_and_then [OF run_inv_quiet [OF quiet_audit_by_mode]]]
    note denial = run_inv_quiet [OF quiet.within_and_then [OF quiet_record_denials(1) quiet.within_err]]
      run_inv_quiet [OF quiet.within_and_then [OF quiet_record_denials(2) quiet.within_err]]
    show ?case
    proof (cases "va_capability a")
      case ReadOnly
      with 3 show ?thesis
        by (intro bound; cases "he_policy env ReadOnly") (simp_all add: validated_read_only_inv denial)
    next
      case LocalWrite
      with 3 show ?thesis
        by (intro bound; cases "he_policy env LocalWrite"; cases "tb_execution b")
           (simp_all add: guarded_write denial)
    qed (intro bound; simp add: denial)+
  qed (auto intro!: quiet_all)
qed

section \<open>The other operations\<close>

lemma lifecycle_inv:
  "within (quiet env) (start_run env)" "within (quiet env) (start_run_with_authorization env auth)"
  "within (quiet env) (checkpoint env)" "within (quiet env) (record_loop_progress env progress)"
  "within (quiet env) (start_graph env d n k m)"
  "within (quiet env) (complete_graph_node env attempt n key n' k m)"
  "within (quiet env) (complete_graph env attempt n)" "within (quiet env) (fail_graph env attempt n f)"
  "within (quiet env) (complete_run env)" "within (quiet env) (fail_run env kind)" "within (quiet env) (cancel_run env)"
proof -
  have created: "within (quiet env) (log_entry (Tr_Created r))" for r
    by (rule quiet_log_bookkeeping) simp
  have start: "within (quiet env) (start_run_record env r)" for r
    unfolding start_run_record_def by (intro quiet_rules created)
  show "within (quiet env) (start_run env)" "within (quiet env) (start_run_with_authorization env auth)"
    unfolding start_run_def start_run_with_authorization_def by (intro quiet_rules start)+
  show "within (quiet env) (checkpoint env)" "within (quiet env) (record_loop_progress env progress)"
    "within (quiet env) (start_graph env d n k m)"
    "within (quiet env) (complete_graph_node env attempt n key n' k m)"
    "within (quiet env) (complete_graph env attempt n)" "within (quiet env) (fail_graph env attempt n f)"
    "within (quiet env) (complete_run env)" "within (quiet env) (fail_run env kind)" "within (quiet env) (cancel_run env)"
    unfolding checkpoint_def record_loop_progress_def start_graph_def complete_graph_node_def complete_graph_def
      fail_graph_def complete_run_def fail_run_def cancel_run_def
    by (intro quiet_rules)+
qed

lemma reserving_inv:
  "triple (run_inv env c0) (begin_iteration env) (\<lambda>_. run_inv env c0) (\<lambda>_. run_inv env c0)"
  "triple (run_inv env c0) (enter_graph_node env n k m) (\<lambda>_. run_inv env c0) (\<lambda>_. run_inv env c0)"
  "triple (run_inv env c0) (restart_graph_node env prev n k m) (\<lambda>_. run_inv env c0) (\<lambda>_. run_inv env c0)"
proof -
  note reserved = reserve_call_specs(4,5) [where G = "\<lambda>_. True", OF carried_const]
  show "triple (run_inv env c0) (begin_iteration env) (\<lambda>_. run_inv env c0) (\<lambda>_. run_inv env c0)"
    unfolding begin_iteration_def
    by (rule triple_and_then [OF run_inv_quiet [OF quiet_preflight]], rule triple_and_then [OF reserved(1)])
       (intro run_inv_quiet quiet_rules)
  show "triple (run_inv env c0) (enter_graph_node env n k m) (\<lambda>_. run_inv env c0) (\<lambda>_. run_inv env c0)"
    unfolding enter_graph_node_def
    by (rule triple_and_then [OF run_inv_quiet [OF quiet_preflight]], rule triple_and_then [OF reserved(2)])
       (intro run_inv_quiet quiet_rules)
  show "triple (run_inv env c0) (restart_graph_node env prev n k m) (\<lambda>_. run_inv env c0) (\<lambda>_. run_inv env c0)"
    unfolding restart_graph_node_def
    by (rule triple_and_then [OF run_inv_quiet [OF quiet_preflight]], rule triple_and_then [OF reserved(2)])
       (intro run_inv_quiet quiet_rules)
qed

lemma discard_inv:
  "triple I m (\<lambda>_. I) (\<lambda>_. I) \<Longrightarrow> triple I (discard m) (\<lambda>_. I) (\<lambda>_. I)"
  unfolding discard_def by (rule triple_on_result) (auto intro: triple_ok)

lemma perform_inv:
  assumes "registry_ok (he_tools env)"
  shows "triple (run_inv env c0) (perform env call) (\<lambda>_. run_inv env c0) (\<lambda>_. run_inv env c0)"
  by (cases call)
     (simp_all add: discard_inv run_inv_quiet lifecycle_inv reserving_inv invoke_model_internal_inv
        invoke_tool_inv [OF assms] invoke_validated_action_inv invoke_grounded_model_inv retrieve_knowledge_inv
        quiet_prepare_action)

lemma perform_all_inv:
  assumes "registry_ok (he_tools env)"
  shows "triple (run_inv env c0) (perform_all env calls) (\<lambda>_. run_inv env c0) (\<lambda>_. run_inv env c0)"
proof (induction calls)
  case Nil
  then show ?case by (simp only: perform_all.simps) (rule triple_ok)
next
  case (Cons call calls)
  then show ?case by (simp add: triple_and_then [OF perform_inv [OF assms]])
qed

definition session :: "harness_env \<Rightarrow> run_context \<Rightarrow> sqlite_store \<Rightarrow> run_call list \<Rightarrow> harness_state" where
  "session env c st calls =
     snd (perform_all env calls \<lparr>hs_ctx = c, hs_store = st, hs_tick = 0, hs_trace = []\<rparr>)"

lemma session_inv:
  assumes "registry_ok (he_tools env)" "within_budget c"
  shows "run_inv env c (session env c st calls)"
  unfolding session_def
  by (rule triple_state [OF perform_all_inv [OF assms(1)]])
     (use assms(2) in \<open>simp add: run_inv_def trace_ok_Nil accounted_def counts_def\<close>)

lemma session_entry_ok:
  assumes "registry_ok (he_tools env)" "within_budget c" "hs_trace (session env c st calls) = xs @ x # ys"
  shows "entry_ok env xs x"
  using session_inv [OF assms(1,2), of st calls] assms(3) by (auto simp: run_inv_def dest: trace_ok_at)

end
