(* ===== verification/Store_Laws.thy ===== *)
theory Store_Laws
  imports Sqlite_Store
begin

text \<open>
  Laws of the SQLite store. \<open>holds_run\<close> is the abstraction relation: the rows of one run represent a
  record, a checkpoint and a journal. Creating and appending implement the abstract operations on
  these three values, appends touch no other run, loading returns exactly what is represented when
  the terminal column agrees with the last event, and the store is an instance of the contract
  \<open>append_only_store\<close>. The last section is about the versioned rows of durable approvals.
\<close>

section \<open>The abstraction relation\<close>

text \<open>What is relied on: decoding an encoded value gives the value back.\<close>

definition store_codec_ok :: "store_codec \<Rightarrow> bool" where
  "store_codec_ok sc \<longleftrightarrow>
     (\<forall>x b. to_vec (sc_events sc) x = Some b \<longrightarrow> event_from sc b = Some x)
     \<and> (\<forall>x b. record_to sc x = Some b \<longrightarrow> record_from sc b = Some x)
     \<and> (\<forall>x b. checkpoint_to sc x = Some b \<longrightarrow> checkpoint_from sc b = Some x)
     \<and> (\<forall>x b. approval_to sc x = Some b \<longrightarrow> approval_from sc b = Some x)"

abbreviation rows_of :: "sqlite_store \<Rightarrow> run_id \<Rightarrow> event_row list" where
  "rows_of st r \<equiv> filter (\<lambda>x. evr_run_id x = r) (st_events st)"

definition journal_rows :: "store_codec \<Rightarrow> run_id \<Rightarrow> agent_event list \<Rightarrow> event_row list" where
  "journal_rows sc r es = map (\<lambda>e. event_row_of sc r e (the (to_vec (sc_events sc) e))) es"

definition finished_once :: "agent_event list \<Rightarrow> bool" where
  "finished_once es = list_ex (\<lambda>e. is_run_finished (ev_kind e)) es"

definition run_row_of :: "store_codec \<Rightarrow> run_key \<Rightarrow> byte list \<Rightarrow> agent_event list \<Rightarrow> run_row" where
  "run_row_of sc k b es =
     \<lparr>row_session_id = key_session_id k, row_record = b, row_record_checksum = checksum sc b,
      row_last_sequence = map_option encode_sequence (last_sequence_of es),
      row_terminal = (if finished_once es then 1 else 0)\<rparr>"

definition checkpoint_row_of :: "store_codec \<Rightarrow> durable_checkpoint \<Rightarrow> byte list \<Rightarrow> checkpoint_row" where
  "checkpoint_row_of sc c b =
     \<lparr>cpr_through_sequence = map_option encode_sequence (ds_last_sequence (cp_state c)),
      cpr_schema_version = CURRENT_CHECKPOINT_SCHEMA_VERSION, cpr_payload = b, cpr_checksum = checksum sc b\<rparr>"

definition good_record :: "run_key \<Rightarrow> run_record \<Rightarrow> bool" where
  "good_record k r \<longleftrightarrow> rr_key r = k \<and> rr_store_schema_version r = CURRENT_STORE_SCHEMA_VERSION
     \<and> rr_checkpoint_schema_version r = CURRENT_CHECKPOINT_SCHEMA_VERSION"

definition good_checkpoint :: "run_key \<Rightarrow> durable_checkpoint \<Rightarrow> bool" where
  "good_checkpoint k c \<longleftrightarrow> cp_schema_version c = CURRENT_CHECKPOINT_SCHEMA_VERSION \<and> ds_key (cp_state c) = k"

definition good_journal :: "store_codec \<Rightarrow> run_key \<Rightarrow> agent_event list \<Rightarrow> bool" where
  "good_journal sc k es \<longleftrightarrow> numbered_from 0 k es \<and> length es \<le> 2 ^ 64
     \<and> list_all (\<lambda>e. to_vec (sc_events sc) e \<noteq> None) es"

definition holds_run ::
  "store_codec \<Rightarrow> sqlite_store \<Rightarrow> run_key \<Rightarrow> run_record \<Rightarrow> durable_checkpoint \<Rightarrow> agent_event list \<Rightarrow> bool" where
  "holds_run sc st k r c es \<longleftrightarrow>
     st_user_version st = CURRENT_STORE_SCHEMA_VERSION
     \<and> (\<exists>b. record_to sc r = Some b \<and> st_runs st (key_run_id k) = Some (run_row_of sc k b es))
     \<and> (\<exists>b. checkpoint_to sc c = Some b \<and> st_checkpoints st (key_run_id k) = Some (checkpoint_row_of sc c b))
     \<and> rows_of st (key_run_id k) = journal_rows sc (key_run_id k) es
     \<and> good_record k r \<and> good_checkpoint k c \<and> good_journal sc k es"

text \<open>It only looks at the rows of its run.\<close>

lemma holds_run_cong:
  assumes "st_runs st' (key_run_id k) = st_runs st (key_run_id k)"
    "st_checkpoints st' (key_run_id k) = st_checkpoints st (key_run_id k)"
    "rows_of st' (key_run_id k) = rows_of st (key_run_id k)"
    "st_user_version st' = st_user_version st"
  shows "holds_run sc st' k r c es = holds_run sc st k r c es"
  unfolding holds_run_def assms ..

lemma good_journal_nth:
  assumes "good_journal sc k es" "i < length es"
  shows "unat (ev_sequence (es ! i)) = i"
proof -
  from assms have "ev_sequence (es ! i) = of_nat i" and "i < 2 ^ 64"
    by (simp_all add: good_journal_def numbered_from_def)
  then show ?thesis by (simp add: unat_of_nat_u64)
qed

section \<open>Loading what is represented\<close>

lemma decode_encode [simp]: "decode_optional_sequence (map_option encode_sequence q) = Inr q"
  by (cases q) (simp_all add: decode_optional_sequence_def encode_sequence_def)

lemma load_events_journal:
  assumes "store_codec_ok sc" "numbered_from n k es" "n + length es \<le> 2 ^ 64"
    "list_all (\<lambda>e. to_vec (sc_events sc) e \<noteq> None) es"
  shows "load_events sc k n (journal_rows sc (key_run_id k) es) = Inr es"
  using assms(2-)
proof (induction es arbitrary: n)
  case Nil
  then show ?case by (simp add: journal_rows_def)
next
  case (Cons e es)
  from Cons.prems(3) obtain b where b: "to_vec (sc_events sc) e = Some b" by auto
  then have from_b: "event_from sc b = Some e" using assms(1) by (simp add: store_codec_ok_def)
  have e: "ev_sequence e = of_nat n" "ev_run_id e = key_run_id k"
    "ev_schema_version e = CURRENT_EVENT_SCHEMA_VERSION" "numbered_from (Suc n) k es"
    using Cons.prems(1) by (simp_all add: numbered_from_Cons)
  have "load_events sc k (Suc n) (journal_rows sc (key_run_id k) es) = Inr es"
    using Cons.IH [OF e(4)] Cons.prems(2,3) by simp
  moreover have "unat (of_nat n :: u64) = n" using Cons.prems(2) by (intro unat_of_nat_u64) simp
  ultimately show ?case
    using b from_b e by (simp add: journal_rows_def event_row_of_def)
qed

lemma select_events_journal:
  assumes "rows_of st r = journal_rows sc r es" "good_journal sc k es"
  shows "select_events r st = journal_rows sc r es"
proof -
  have "to_be_bytes (ev_sequence (es ! i)) \<le> to_be_bytes (ev_sequence (es ! j))" if "i \<le> j" "j < length es" for i j
  proof (cases "i = j")
    case False
    with that have "unat (ev_sequence (es ! i)) < unat (ev_sequence (es ! j))"
      using good_journal_nth [OF assms(2)] by simp
    then show ?thesis by (simp add: less_imp_le word_less_nat_alt)
  qed simp
  then have "sorted (map evr_sequence (journal_rows sc r es))"
    by (simp add: sorted_iff_nth_mono journal_rows_def event_row_of_def encode_sequence_def)
  with assms(1) show ?thesis by (simp add: select_events_def sort_key_id_if_sorted)
qed

definition terminal_agrees :: "agent_event list \<Rightarrow> bool" where
  "terminal_agrees es \<longleftrightarrow> finished_once es = (es \<noteq> [] \<and> is_run_finished (ev_kind (last es)))"

lemma load_run_represented:
  assumes "store_codec_ok sc" "holds_run sc st k r c es"
  shows "load_run sc None k st =
           (if terminal_agrees es then Inr \<lparr>lr_record = r, lr_checkpoint = c, lr_events = es\<rparr>
            else Inl PE_Corrupt)"
proof -
  from assms(2) obtain rb cb where rb: "record_to sc r = Some rb" "st_runs st (key_run_id k) = Some (run_row_of sc k rb es)"
    and cb: "checkpoint_to sc c = Some cb" "st_checkpoints st (key_run_id k) = Some (checkpoint_row_of sc c cb)"
    and rows: "rows_of st (key_run_id k) = journal_rows sc (key_run_id k) es"
    and good: "good_record k r" "good_checkpoint k c" "good_journal sc k es"
    and v: "st_user_version st = CURRENT_STORE_SCHEMA_VERSION"
    by (auto simp: holds_run_def)
  have "load_record sc k (run_row_of sc k rb es) = Inr r"
    using assms(1) rb(1) good(1) by (simp add: load_record_def run_row_of_def store_codec_ok_def good_record_def)
  moreover have "load_checkpoint sc k (checkpoint_row_of sc c cb) = Inr c"
    using assms(1) cb(1) good(2)
    by (simp add: load_checkpoint_def checkpoint_row_of_def store_codec_ok_def good_checkpoint_def)
  moreover have "load_events sc k 0 (select_events (key_run_id k) st) = Inr es"
    using select_events_journal [OF rows good(3)] load_events_journal [OF assms(1), of 0 k es] good(3)
    by (simp add: good_journal_def)
  ultimately show ?thesis
    using rb(2) cb(2) v by (simp add: load_run_def run_row_of_def terminal_agrees_def check_def)
qed

section \<open>Creating a run\<close>

lemma transaction_Inr:
  "transaction io body st = (Inr x, st') \<longleftrightarrow> io = None \<and> body st = (Inr x, st')"
  by (auto simp: transaction_def split: option.splits prod.splits sum.splits)

lemma transaction_Inl: "transaction io body st = (Inl e, st') \<Longrightarrow> st' = st"
  by (auto simp: transaction_def split: option.splits prod.splits sum.splits)

lemma lift_res_apply [simp]: "lift_res r st = (r, st)"
  by (simp add: lift_res_def)

lemma and_then_Inr:
  "and_then m k st = (Inr y, st') \<longleftrightarrow> (\<exists>x s. m st = (Inr x, s) \<and> k x s = (Inr y, st'))"
  by (auto simp: and_then_apply split: prod.splits sum.splits)

lemma create_run_ok:
  assumes "create_run sc io r c st = (Inr (), st')"
    and "rows_of st (key_run_id (rr_key r)) = []" "st_user_version st = CURRENT_STORE_SCHEMA_VERSION"
  shows "holds_run sc st' (rr_key r) r c []
         \<and> st_runs st (key_run_id (rr_key r)) = None
         \<and> (\<forall>q. q \<noteq> key_run_id (rr_key r) \<longrightarrow> st_runs st' q = st_runs st q \<and> st_checkpoints st' q = st_checkpoints st q)
         \<and> st_events st' = st_events st \<and> st_approvals st' = st_approvals st
         \<and> st_user_version st' = st_user_version st"
  using assms
  by (auto simp: create_run_def and_then_Inr transaction_Inr insert_run_def insert_checkpoint_def
      validate_record_checkpoint_def holds_run_def run_row_of_def checkpoint_row_of_def last_sequence_of_def
      finished_once_def journal_rows_def good_record_def good_checkpoint_def good_journal_def numbered_from_def
      split: option.splits)

lemma create_run_error: "create_run sc io r c st = (Inl e, st') \<Longrightarrow> st' = st"
  by (auto simp: create_run_def and_then_apply dest: transaction_Inl split: sum.splits prod.splits)

section \<open>Appending\<close>

definition updated_checkpoints :: "store_codec \<Rightarrow> append_transition \<Rightarrow> sqlite_store \<Rightarrow> run_id \<Rightarrow> checkpoint_row option" where
  "updated_checkpoints sc t st =
     (case at_checkpoint t of
        None \<Rightarrow> st_checkpoints st
      | Some c \<Rightarrow> (st_checkpoints st)(key_run_id (at_key t) :=
          map_option (\<lambda>_. \<lparr>cpr_through_sequence = Some (encode_sequence (ev_sequence (at_event t))),
             cpr_schema_version = cp_schema_version c, cpr_payload = the (checkpoint_to sc c),
             cpr_checksum = checksum sc (the (checkpoint_to sc c))\<rparr>) (st_checkpoints st (key_run_id (at_key t)))))"

definition appended :: "store_codec \<Rightarrow> append_transition \<Rightarrow> run_row \<Rightarrow> byte list \<Rightarrow> sqlite_store \<Rightarrow> sqlite_store" where
  "appended sc t row b st =
     st\<lparr>st_events := st_events st @ [event_row_of sc (key_run_id (at_key t)) (at_event t) b],
        st_runs := (st_runs st)(key_run_id (at_key t) := Some
          (row\<lparr>row_last_sequence := Some (encode_sequence (ev_sequence (at_event t))),
               row_terminal := max (row_terminal row) (if is_run_finished (ev_kind (at_event t)) then 1 else 0)\<rparr>)),
        st_checkpoints := updated_checkpoints sc t st\<rparr>"

text \<open>When an append succeeds.\<close>

definition append_enabled :: "store_codec \<Rightarrow> append_transition \<Rightarrow> sqlite_store \<Rightarrow> run_row \<Rightarrow> byte list \<Rightarrow> bool" where
  "append_enabled sc t st row b \<longleftrightarrow>
     transition_consistent t
     \<and> st_runs st (key_run_id (at_key t)) = Some row \<and> row_session_id row = key_session_id (at_key t)
     \<and> decode_optional_sequence (row_last_sequence row) = Inr (at_expected_sequence t)
     \<and> to_vec (sc_events sc) (at_event t) = Some b
     \<and> \<not> list_ex (\<lambda>x. evr_run_id x = key_run_id (at_key t)
            \<and> evr_sequence x = encode_sequence (ev_sequence (at_event t))) (st_events st)
     \<and> (case at_checkpoint t of None \<Rightarrow> True | Some c \<Rightarrow> checkpoint_to sc c \<noteq> None)"

lemma insert_event_Inr:
  "insert_event row st = (Inr u, st') \<longleftrightarrow>
     \<not> list_ex (\<lambda>x. evr_run_id x = evr_run_id row \<and> evr_sequence x = evr_sequence row) (st_events st)
     \<and> st' = st\<lparr>st_events := st_events st @ [row]\<rparr>"
  by (auto simp: insert_event_def)

lemma write_checkpoint_Inr:
  "write_checkpoint sc t st = (Inr u, st') \<longleftrightarrow>
     (case at_checkpoint t of None \<Rightarrow> True | Some c \<Rightarrow> checkpoint_to sc c \<noteq> None)
     \<and> st' = st\<lparr>st_checkpoints := updated_checkpoints sc t st\<rparr>"
  by (auto simp: write_checkpoint_def updated_checkpoints_def update_checkpoint_def and_then_Inr split: option.splits)

lemma append_in_transaction_iff:
  "append_transition_in_transaction sc t st = (Inr (), st') \<longleftrightarrow>
     (\<exists>row b. append_enabled sc t st row b \<and> st' = appended sc t row b st)"
proof (cases "st_runs st (key_run_id (at_key t))")
  case None
  then show ?thesis by (auto simp: append_transition_in_transaction_def and_then_Inr append_enabled_def)
next
  case (Some row)
  then show ?thesis
    by (auto simp: append_transition_in_transaction_def and_then_Inr append_enabled_def insert_event_Inr
        write_checkpoint_Inr appended_def update_run_def event_row_of_def updated_checkpoints_def
        split: if_splits option.splits)
qed

text \<open>The abstract effect on the checkpoint.\<close>

definition next_checkpoint :: "append_transition \<Rightarrow> durable_checkpoint \<Rightarrow> durable_checkpoint" where
  "next_checkpoint t c = (case at_checkpoint t of None \<Rightarrow> c | Some c' \<Rightarrow> c')"

lemma last_sequence_of_snoc [simp]: "last_sequence_of (es @ [e]) = Some (ev_sequence e)"
  by (simp add: last_sequence_of_def)

lemma good_journal_last:
  "good_journal sc k es \<Longrightarrow>
   last_sequence_of es = (if es = [] then None else Some (of_nat (length es - 1)))"
  by (cases es rule: rev_cases)
     (auto simp: last_sequence_of_def good_journal_def numbered_from_def nth_append)

lemma good_journal_snoc:
  assumes "good_journal sc k es" "transition_consistent t" "at_key t = k"
    "at_expected_sequence t = last_sequence_of es" "to_vec (sc_events sc) (at_event t) \<noteq> None"
    and fresh: "ev_sequence (at_event t) \<notin> ev_sequence ` set es"
  shows "good_journal sc k (es @ [at_event t])"
proof -
  have next_seq: "ev_sequence (at_event t) = of_nat (length es) \<and> length es < 2 ^ 64"
  proof (cases "es = []")
    case True
    with assms show ?thesis by (simp add: transition_consistent_def last_sequence_of_def)
  next
    case False
    then have q: "at_expected_sequence t = Some (of_nat (length es - 1))"
      using good_journal_last [OF assms(1)] assms(4) by simp
    have len: "length es \<le> 2 ^ 64" using assms(1) by (simp add: good_journal_def)
    have "ev_sequence (last es) = of_nat (length es - 1)"
      using False assms(4) q by (simp add: last_sequence_of_def)
    then have "(of_nat (length es - 1) :: u64) \<in> ev_sequence ` set es"
      using False by (metis image_eqI last_in_set)
    then have notmax: "(of_nat (length es - 1) :: u64) \<noteq> - 1"
      using fresh q assms(2) by (auto simp: transition_consistent_def checked_next_def checked_inc_def)
    have "length es \<noteq> 2 ^ 64"
    proof
      assume "length es = 2 ^ 64"
      with notmax show False by simp
    qed
    moreover have "ev_sequence (at_event t) = of_nat (length es)"
      using q assms(2) notmax False
      by (cases es) (auto simp: transition_consistent_def checked_next_def checked_inc_def add.commute)
    ultimately show ?thesis using len by simp
  qed
  then show ?thesis
    using assms by (auto simp: good_journal_def numbered_from_def nth_append less_Suc_eq transition_consistent_def)
qed

lemma append_holds:
  assumes "append_transition_in_transaction sc t st = (Inr (), st')" "holds_run sc st (at_key t) r c es"
  shows "holds_run sc st' (at_key t) r (next_checkpoint t c) (es @ [at_event t])
         \<and> at_expected_sequence t = last_sequence_of es"
proof -
  let ?k = "at_key t" and ?e = "at_event t"
  from assms(1) obtain row b where a: "append_enabled sc t st row b" and st': "st' = appended sc t row b st"
    by (auto simp: append_in_transaction_iff)
  note en = a [unfolded append_enabled_def]
  from assms(2) obtain rb cb where rb: "record_to sc r = Some rb" "row = run_row_of sc ?k rb es"
    and cb: "checkpoint_to sc c = Some cb" "st_checkpoints st (key_run_id ?k) = Some (checkpoint_row_of sc c cb)"
    and rows: "rows_of st (key_run_id ?k) = journal_rows sc (key_run_id ?k) es"
    and good: "good_record ?k r" "good_checkpoint ?k c" "good_journal sc ?k es"
    and v: "st_user_version st = CURRENT_STORE_SCHEMA_VERSION"
    using en by (auto simp: holds_run_def)
  have expected: "at_expected_sequence t = last_sequence_of es"
    using en rb(2) by (simp add: run_row_of_def)
  have fresh: "ev_sequence ?e \<notin> ev_sequence ` set es"
  proof
    assume "ev_sequence ?e \<in> ev_sequence ` set es"
    then obtain e where e: "e \<in> set es" "ev_sequence e = ev_sequence ?e" by auto
    let ?x = "event_row_of sc (key_run_id ?k) e (the (to_vec (sc_events sc) e))"
    have "?x \<in> set (rows_of st (key_run_id ?k))" using e(1) by (simp add: rows journal_rows_def)
    then have "?x \<in> set (st_events st)" by simp
    with en e(2) show False by (auto simp: list_ex_iff event_row_of_def)
  qed
  have journal: "good_journal sc ?k (es @ [?e])"
    using good_journal_snoc [OF good(3) _ refl expected _ fresh] en by simp
  have rows': "rows_of st' (key_run_id ?k) = journal_rows sc (key_run_id ?k) (es @ [?e])"
    using rows en by (simp add: st' appended_def journal_rows_def event_row_of_def)
  have row': "st_runs st' (key_run_id ?k) = Some (run_row_of sc ?k rb (es @ [?e]))"
    by (simp add: st' appended_def rb(2) run_row_of_def finished_once_def)
  have good': "good_checkpoint ?k (next_checkpoint t c)"
    using good(2) en by (auto simp: next_checkpoint_def good_checkpoint_def transition_consistent_def split: option.splits)
  have "\<exists>b. checkpoint_to sc (next_checkpoint t c) = Some b
      \<and> st_checkpoints st' (key_run_id ?k) = Some (checkpoint_row_of sc (next_checkpoint t c) b)"
    using cb en
    by (auto simp: st' appended_def next_checkpoint_def updated_checkpoints_def checkpoint_row_of_def transition_consistent_def
        split: option.splits)
  with rb(1) row' rows' journal good' good(1) v expected show ?thesis
    unfolding holds_run_def by (simp add: st' appended_def)
qed

text \<open>No other run is touched.\<close>

lemma append_frame:
  assumes "append_transition_in_transaction sc t st = (Inr (), st')"
  shows "st_approvals st' = st_approvals st" "st_user_version st' = st_user_version st"
    "q \<noteq> key_run_id (at_key t) \<Longrightarrow>
       st_runs st' q = st_runs st q \<and> st_checkpoints st' q = st_checkpoints st q \<and> rows_of st' q = rows_of st q"
proof -
  obtain row b where "st' = appended sc t row b st" using assms by (auto simp: append_in_transaction_iff)
  then show "st_approvals st' = st_approvals st" "st_user_version st' = st_user_version st"
    "q \<noteq> key_run_id (at_key t) \<Longrightarrow>
       st_runs st' q = st_runs st q \<and> st_checkpoints st' q = st_checkpoints st q \<and> rows_of st' q = rows_of st q"
    by (auto simp: appended_def updated_checkpoints_def event_row_of_def split: option.split)
qed

lemma append_transition_Inr:
  "append_transition sc io t st = (Inr (), st') \<longleftrightarrow>
     io = None \<and> append_transition_in_transaction sc t st = (Inr (), st')"
  by (auto simp: append_transition_def and_then_Inr transaction_Inr append_transition_in_transaction_def check_def)

lemma append_transition_Inl: "append_transition sc io t st = (Inl e, st') \<Longrightarrow> st' = st"
  by (auto simp: append_transition_def and_then_apply check_def dest: transaction_Inl split: sum.splits if_splits)

text \<open>An append from a represented state succeeds as soon as the request fits the journal.\<close>

lemma append_from_holds:
  assumes "holds_run sc st (at_key t) r c es" "transition_consistent t"
    "at_expected_sequence t = last_sequence_of es" "to_vec (sc_events sc) (at_event t) = Some b"
    "at_checkpoint t = None" "ev_sequence (at_event t) \<notin> ev_sequence ` set es"
  shows "append_transition sc None t st = (Inr (), snd (append_transition sc None t st))"
proof -
  from assms(1) obtain rb where row: "st_runs st (key_run_id (at_key t)) = Some (run_row_of sc (at_key t) rb es)"
    and rows: "rows_of st (key_run_id (at_key t)) = journal_rows sc (key_run_id (at_key t)) es"
    by (auto simp: holds_run_def)
  have fresh: "encode_sequence (ev_sequence (at_event t)) \<notin> evr_sequence ` set (rows_of st (key_run_id (at_key t)))"
    using assms(6) unfolding rows by (auto simp: journal_rows_def event_row_of_def encode_sequence_def)
  have "\<not> list_ex (\<lambda>x. evr_run_id x = key_run_id (at_key t)
      \<and> evr_sequence x = encode_sequence (ev_sequence (at_event t))) (st_events st)"
    using fresh by (force simp: list_ex_iff)
  then have "append_enabled sc t st (run_row_of sc (at_key t) rb es) b"
    using assms row by (simp add: append_enabled_def run_row_of_def)
  then have "append_transition sc None t st = (Inr (), appended sc t (run_row_of sc (at_key t) rb es) b st)"
    unfolding append_transition_Inr append_in_transaction_iff by blast
  then show ?thesis by simp
qed

lemma append_none_holds:
  assumes "append_transition sc None t st = (Inr (), st')" "holds_run sc st (at_key t) r c es" "at_checkpoint t = None"
  shows "holds_run sc st' (at_key t) r c (es @ [at_event t])"
  using append_holds [of sc t st st' r c es] assms by (simp add: append_transition_Inr next_checkpoint_def)

section \<open>The invariant of the database\<close>

text \<open>The uniqueness constraints of \<^verbatim>\<open>durable_approvals\<close> and its status and version columns.\<close>

definition approvals_ok :: "approval_row list \<Rightarrow> bool" where
  "approvals_ok rows \<longleftrightarrow>
     distinct (map (\<lambda>x. (apr_run_id x, apr_wait_id x)) rows)
     \<and> distinct (map (\<lambda>x. (apr_key_id x, apr_nonce x)) rows)
     \<and> list_all (\<lambda>x. 0 \<le> apr_row_version x \<and> 0 \<le> apr_status x \<and> apr_status x \<le> 5) rows"

definition represented :: "store_codec \<Rightarrow> sqlite_store \<Rightarrow> run_key \<Rightarrow> bool" where
  "represented sc st k \<longleftrightarrow> (\<exists>r c es. holds_run sc st k r c es)"

definition slot_ok :: "store_codec \<Rightarrow> sqlite_store \<Rightarrow> run_id \<Rightarrow> bool" where
  "slot_ok sc st q \<longleftrightarrow>
     (case st_runs st q of
        Some row \<Rightarrow> represented sc st \<lparr>key_run_id = q, key_session_id = row_session_id row\<rparr>
      | None \<Rightarrow> st_checkpoints st q = None \<and> rows_of st q = [])"

definition store_inv :: "store_codec \<Rightarrow> sqlite_store \<Rightarrow> bool" where
  "store_inv sc st \<longleftrightarrow>
     st_user_version st = CURRENT_STORE_SCHEMA_VERSION \<and> (\<forall>q. slot_ok sc st q)
     \<and> approvals_ok (st_approvals st)"

lemma initialize_inv: "store_inv sc initialize"
  by (simp add: store_inv_def slot_ok_def initialize_def approvals_ok_def)

lemma store_inv_slot: "store_inv sc st \<Longrightarrow> slot_ok sc st q"
  by (simp add: store_inv_def)

lemma store_inv_holds:
  assumes "store_inv sc st" "st_runs st (key_run_id k) = Some row" "row_session_id row = key_session_id k"
  shows "represented sc st k"
proof -
  have "\<lparr>key_run_id = key_run_id k, key_session_id = row_session_id row\<rparr> = k" using assms(3) by simp
  with store_inv_slot [OF assms(1), of "key_run_id k"] assms(2) show ?thesis by (simp add: slot_ok_def)
qed

lemma slot_ok_cong:
  assumes "st_runs st' q = st_runs st q" "st_checkpoints st' q = st_checkpoints st q"
    "rows_of st' q = rows_of st q" "st_user_version st' = st_user_version st"
  shows "slot_ok sc st' q = slot_ok sc st q"
proof -
  have "holds_run sc st' \<lparr>key_run_id = q, key_session_id = x\<rparr> =
      holds_run sc st \<lparr>key_run_id = q, key_session_id = x\<rparr>" for x
    using assms by (intro ext holds_run_cong) simp_all
  then have "represented sc st' \<lparr>key_run_id = q, key_session_id = x\<rparr> =
      represented sc st \<lparr>key_run_id = q, key_session_id = x\<rparr>" for x
    by (simp add: represented_def)
  with assms show ?thesis by (simp add: slot_ok_def split: option.split)
qed

lemma holds_slot_ok: "holds_run sc st k r c es \<Longrightarrow> slot_ok sc st (key_run_id k)"
proof -
  assume h: "holds_run sc st k r c es"
  then obtain b where "st_runs st (key_run_id k) = Some (run_row_of sc k b es)"
    by (auto simp: holds_run_def)
  moreover have "\<lparr>key_run_id = key_run_id k, key_session_id = key_session_id k\<rparr> = k" by simp
  then have "represented sc st \<lparr>key_run_id = key_run_id k, key_session_id = key_session_id k\<rparr>"
    using h by (auto simp only: represented_def)
  ultimately show ?thesis by (simp add: slot_ok_def run_row_of_def)
qed

text \<open>A change that concerns one run, keeps its rows represented and touches no other run.\<close>

lemma store_inv_local:
  assumes "store_inv sc st" "holds_run sc st' k r c es"
    and "\<And>q. q \<noteq> key_run_id k \<Longrightarrow>
      st_runs st' q = st_runs st q \<and> st_checkpoints st' q = st_checkpoints st q \<and> rows_of st' q = rows_of st q"
    and "st_user_version st' = st_user_version st" "approvals_ok (st_approvals st')"
  shows "store_inv sc st'"
proof -
  have "slot_ok sc st' q" for q
    using holds_slot_ok [OF assms(2)] slot_ok_cong [of st' q st sc] assms(3,4) store_inv_slot [OF assms(1)]
    by (cases "q = key_run_id k") simp_all
  with assms(1,4,5) show ?thesis by (simp add: store_inv_def)
qed

lemma append_inv:
  assumes "store_inv sc st" "append_transition_in_transaction sc t st = (Inr (), st')"
  shows "store_inv sc st'"
proof -
  from assms(2) obtain row b where "append_enabled sc t st row b" by (auto simp: append_in_transaction_iff)
  then have "represented sc st (at_key t)"
    using store_inv_holds [OF assms(1)] by (simp add: append_enabled_def)
  then obtain r c es where "holds_run sc st (at_key t) r c es" by (auto simp: represented_def)
  with append_holds [OF assms(2)] have "holds_run sc st' (at_key t) r (next_checkpoint t c) (es @ [at_event t])"
    by blast
  moreover have "approvals_ok (st_approvals st')"
    using assms(1) append_frame(1) [OF assms(2)] by (simp add: store_inv_def)
  ultimately show ?thesis
    using append_frame(2,3) [OF assms(2)] by (intro store_inv_local [OF assms(1)])
qed

lemma create_run_inv:
  assumes "store_inv sc st" "create_run sc io r c st = (Inr (), st')"
  shows "store_inv sc st'"
proof -
  let ?q = "key_run_id (rr_key r)"
  have v: "st_user_version st = CURRENT_STORE_SCHEMA_VERSION" using assms(1) by (simp add: store_inv_def)
  have "st_runs st ?q = None"
    using assms(2) by (auto simp: create_run_def and_then_Inr transaction_Inr insert_run_def split: option.splits)
  then have none: "rows_of st ?q = []"
    using store_inv_slot [OF assms(1), of ?q] by (simp add: slot_ok_def)
  from create_run_ok [OF assms(2) none v] assms(1) show ?thesis
    by (intro store_inv_local [of sc st st' "rr_key r" r c "[]"]) (auto simp: store_inv_def)
qed

lemma approvals_only_inv:
  assumes "store_inv sc st" "approvals_ok rows"
  shows "store_inv sc (st\<lparr>st_approvals := rows\<rparr>)"
  using assms slot_ok_cong [of "st\<lparr>st_approvals := rows\<rparr>" _ st sc] by (simp add: store_inv_def)

lemma insert_approval_inv:
  assumes "store_inv sc st" "insert_approval row st = (Inr (), st')" "apr_row_version row = 0" "apr_status row = 0"
  shows "store_inv sc st'"
proof -
  from assms(2) have "st' = st\<lparr>st_approvals := st_approvals st @ [row]\<rparr>"
    and "\<not> list_ex (\<lambda>x. apr_run_id x = apr_run_id row \<and> apr_wait_id x = apr_wait_id row) (st_approvals st)"
      "\<not> list_ex (\<lambda>x. apr_key_id x = apr_key_id row \<and> apr_nonce x = apr_nonce row) (st_approvals st)"
    by (auto simp: insert_approval_def split: if_splits)
  moreover have "approvals_ok (st_approvals st @ [row])"
    using calculation(2,3) assms(1,3,4) by (auto simp: store_inv_def approvals_ok_def list_ex_iff)
  ultimately show ?thesis using approvals_only_inv [OF assms(1)] by simp
qed

lemma status_code_range: "0 \<le> status_code s \<and> status_code s \<le> 5"
  by (cases s) simp_all

definition keeps_identity :: "(approval_row \<Rightarrow> approval_row) \<Rightarrow> bool" where
  "keeps_identity f \<longleftrightarrow>
     (\<forall>x. apr_run_id (f x) = apr_run_id x \<and> apr_wait_id (f x) = apr_wait_id x \<and> apr_key_id (f x) = apr_key_id x
        \<and> apr_nonce (f x) = apr_nonce x \<and> apr_session_id (f x) = apr_session_id x
        \<and> apr_row_version (f x) = apr_row_version x + 1 \<and> 0 \<le> apr_status (f x) \<and> apr_status (f x) \<le> 5)"

lemma update_approvals_inv:
  assumes "store_inv sc st" "update_approvals m f st = (Inr (), st')" "keeps_identity f"
  shows "store_inv sc st'"
proof -
  let ?g = "\<lambda>x. if m x then f x else x"
  from assms(2) have st': "st' = st\<lparr>st_approvals := map ?g (st_approvals st)\<rparr>"
    by (auto simp: update_approvals_def split: if_splits)
  have same: "(\<lambda>x. (apr_run_id (?g x), apr_wait_id (?g x))) = (\<lambda>x. (apr_run_id x, apr_wait_id x))"
    "(\<lambda>x. (apr_key_id (?g x), apr_nonce (?g x))) = (\<lambda>x. (apr_key_id x, apr_nonce x))"
    using assms(3) by (auto simp: keeps_identity_def)
  have "approvals_ok (map ?g (st_approvals st))"
    using assms(1,3) unfolding approvals_ok_def store_inv_def map_map comp_def same
    by (auto simp: list_all_iff keeps_identity_def)
  with assms(1) show ?thesis unfolding st' by (rule approvals_only_inv)
qed

section \<open>All operations\<close>

text \<open>
  One step of the database: an operation with any input and any I/O outcome. The two operations that
  read before their transaction may have read an earlier state \<open>st0\<close>.
\<close>

inductive store_step :: "store_codec \<Rightarrow> sqlite_store \<Rightarrow> sqlite_store \<Rightarrow> bool" for sc where
  created: "create_run sc io r c st = (res, st') \<Longrightarrow> store_step sc st st'"
| appended_event: "append_transition sc io t st = (res, st') \<Longrightarrow> store_step sc st st'"
| wait_created: "create_durable_approval_wait sc io_load (\<lambda>_. st) io q st0 = (Inr (), st') \<Longrightarrow> store_step sc st st'"
| decided: "record_durable_approval_decision sc io_load (\<lambda>_. st) io q st0 = (Inr (), st') \<Longrightarrow> store_step sc st st'"
| status_moved: "transition_durable_approval_status sc io q st = (res, st') \<Longrightarrow> store_step sc st st'"

abbreviation store_reach :: "store_codec \<Rightarrow> sqlite_store \<Rightarrow> sqlite_store \<Rightarrow> bool" where
  "store_reach sc \<equiv> (store_step sc)\<^sup>*\<^sup>*"

text \<open>Every step is made of appends, row insertions and versioned row updates.\<close>

inductive micro_step :: "store_codec \<Rightarrow> sqlite_store \<Rightarrow> sqlite_store \<Rightarrow> bool" for sc where
  m_create: "create_run sc io r c st = (Inr (), st') \<Longrightarrow> micro_step sc st st'"
| m_append: "append_transition_in_transaction sc t st = (Inr (), st') \<Longrightarrow> micro_step sc st st'"
| m_insert: "insert_approval row st = (Inr (), st') \<Longrightarrow> apr_row_version row = 0 \<Longrightarrow> apr_status row = 0 \<Longrightarrow>
    micro_step sc st st'"
| m_update: "update_approvals m f st = (Inr (), st') \<Longrightarrow> keeps_identity f \<Longrightarrow> micro_step sc st st'"

lemma create_wait_parts:
  assumes "create_durable_approval_wait sc io_load (\<lambda>_. st) io q st0 = (Inr (), st')"
  shows "\<exists>s row. append_transition_in_transaction sc (cw_transition q) st = (Inr (), s)
     \<and> insert_approval row s = (Inr (), st') \<and> apr_row_version row = 0 \<and> apr_status row = 0"
  using assms
  by (fastforce simp: create_durable_approval_wait_def Let_def transaction_Inr and_then_Inr
      split: sum.splits if_splits)

lemma decision_parts:
  assumes "record_durable_approval_decision sc io_load (\<lambda>_. st) io q st0 = (Inr (), st')"
  shows "\<exists>s f. append_transition_in_transaction sc (rd_transition q) st = (Inr (), s)
     \<and> update_approvals (row_matches (dc_key (rd_command q)) (dc_wait_id (rd_command q)) DA_Waiting
          (dc_expected_row_version (rd_command q))) f s = (Inr (), st') \<and> keeps_identity f"
  using assms
  by (fastforce simp: record_durable_approval_decision_def Let_def transaction_Inr and_then_Inr
      keeps_identity_def status_code_range split: sum.splits if_splits)

lemma status_parts:
  assumes "transition_durable_approval_status sc io q st = (Inr (), st')"
  shows "\<exists>s f. (s = st \<or> (\<exists>t. append_transition_in_transaction sc t st = (Inr (), s)))
     \<and> update_approvals (row_matches (sr_key q) (sr_wait_id q) (sr_expected_status q)
          (sr_expected_row_version q)) f s = (Inr (), st') \<and> keeps_identity f"
proof -
  let ?f = "\<lambda>x. x\<lparr>apr_status := status_code (sr_next_status q), apr_row_version := apr_row_version x + 1\<rparr>"
  have "keeps_identity ?f" by (simp add: keeps_identity_def status_code_range)
  with assms show ?thesis
    by (cases "sr_transition q")
       (auto simp: transition_durable_approval_status_def transaction_Inr and_then_Inr split: if_splits)
qed

lemma store_step_micro: "store_step sc st st' \<Longrightarrow> (micro_step sc)\<^sup>*\<^sup>* st st'"
proof (induction rule: store_step.induct)
  case (created io r c st res st')
  then show ?case
    by (cases res) (auto dest: create_run_error intro: micro_step.m_create)
next
  case (appended_event io t st res st')
  then show ?case
    by (cases res) (auto dest: append_transition_Inl simp: append_transition_Inr intro: micro_step.m_append)
next
  case (wait_created io_load st io q st0 st')
  from create_wait_parts [OF this] show ?case
    by (auto intro: rtranclp.rtrancl_into_rtrancl [OF r_into_rtranclp] micro_step.m_append micro_step.m_insert)
next
  case (decided io_load st io q st0 st')
  from decision_parts [OF this] show ?case
    by (auto intro: rtranclp.rtrancl_into_rtrancl [OF r_into_rtranclp] micro_step.m_append micro_step.m_update)
next
  case (status_moved io q st res st')
  show ?case
  proof (cases res)
    case (Inl e)
    with status_moved show ?thesis by (auto simp: transition_durable_approval_status_def dest: transaction_Inl)
  next
    case (Inr u)
    with status_moved status_parts [of sc io q st st'] show ?thesis
      by (auto intro: rtranclp.rtrancl_into_rtrancl [OF r_into_rtranclp] micro_step.m_append micro_step.m_update)
  qed
qed

lemma store_reach_micro: "store_reach sc st st' \<Longrightarrow> (micro_step sc)\<^sup>*\<^sup>* st st'"
  by (induction rule: rtranclp_induct) (auto dest: store_step_micro)

lemma micro_step_inv: "micro_step sc st st' \<Longrightarrow> store_inv sc st \<Longrightarrow> store_inv sc st'"
  by (induction rule: micro_step.induct)
     (auto intro: create_run_inv append_inv insert_approval_inv update_approvals_inv)

lemma micro_reach_inv: "(micro_step sc)\<^sup>*\<^sup>* st st' \<Longrightarrow> store_inv sc st \<Longrightarrow> store_inv sc st'"
  by (induction rule: rtranclp_induct) (auto dest: micro_step_inv)

lemma store_reach_inv: "store_reach sc initialize st \<Longrightarrow> store_inv sc st"
  using micro_reach_inv store_reach_micro initialize_inv by blast

section \<open>The store as an append-only store\<close>

definition history :: "store_codec \<Rightarrow> sqlite_store \<Rightarrow> run_key \<Rightarrow> agent_event list option" where
  "history sc st k =
     (case st_runs st (key_run_id k) of
        None \<Rightarrow> None
      | Some row \<Rightarrow> if row_session_id row = key_session_id k
                   then Some (map (\<lambda>x. the (event_from sc (evr_payload x))) (rows_of st (key_run_id k))) else None)"

lemma history_holds:
  assumes "store_codec_ok sc" "holds_run sc st k r c es"
  shows "history sc st k = Some es"
proof -
  have "the (event_from sc (the (to_vec (sc_events sc) e))) = e" if "e \<in> set es" for e
    using that assms by (auto simp: holds_run_def good_journal_def list_all_iff store_codec_ok_def)
  then have "map (\<lambda>x. the (event_from sc (evr_payload x))) (journal_rows sc (key_run_id k) es) = es"
    by (simp add: journal_rows_def event_row_of_def map_idI)
  with assms(2) show ?thesis by (auto simp: history_def holds_run_def run_row_of_def)
qed

lemma history_Some:
  assumes "store_codec_ok sc" "store_inv sc st" "history sc st k = Some es"
  shows "\<exists>r c. holds_run sc st k r c es"
proof -
  from assms(3) obtain row where "st_runs st (key_run_id k) = Some row" "row_session_id row = key_session_id k"
    by (auto simp: history_def split: option.splits if_splits)
  from store_inv_holds [OF assms(2) this] obtain r c es' where h: "holds_run sc st k r c es'"
    by (auto simp: represented_def)
  with history_holds [OF assms(1) h] assms(3) show ?thesis by auto
qed

lemma append_history:
  assumes "store_codec_ok sc" "store_inv sc st" "append_transition_in_transaction sc t st = (Inr (), st')"
  shows "\<exists>h. history sc st (at_key t) = Some h \<and> at_expected_sequence t = last_sequence_of h
           \<and> history sc st' = (history sc st)(at_key t \<mapsto> h @ [at_event t])"
proof -
  from assms(3) obtain row b where en: "append_enabled sc t st row b" and st': "st' = appended sc t row b st"
    by (auto simp: append_in_transaction_iff)
  then have "represented sc st (at_key t)"
    using store_inv_holds [OF assms(2)] by (simp add: append_enabled_def)
  then obtain r c es where h: "holds_run sc st (at_key t) r c es" by (auto simp: represented_def)
  note h' = append_holds [OF assms(3) h]
  have "history sc st' k = history sc st k" if "k \<noteq> at_key t" for k
  proof (cases "key_run_id k = key_run_id (at_key t)")
    case True
    with that have "key_session_id k \<noteq> key_session_id (at_key t)" by (cases k; cases "at_key t") auto
    with True en show ?thesis by (auto simp: history_def st' appended_def append_enabled_def)
  next
    case False
    with append_frame(3) [OF assms(3) False] show ?thesis by (simp add: history_def split: option.split)
  qed
  then have "history sc st' = (history sc st)(at_key t \<mapsto> es @ [at_event t])"
    using history_holds [OF assms(1)] h' by (intro ext) auto
  with history_holds [OF assms(1) h] h' show ?thesis by blast
qed

interpretation sqlite: append_only_store "append_transition sc" "history sc"
  "\<lambda>st. store_codec_ok sc \<and> store_inv sc st"
proof (unfold_locales, goal_cases)
  case (1 st io t st')
  then show ?case using append_history append_inv by (auto simp: append_transition_Inr)
next
  case (2 io t st e st')
  then show ?case by (rule append_transition_Inl)
next
  case (3 st k h i)
  then obtain r c where "holds_run sc st k r c h" using history_Some by blast
  then have "good_journal sc k h" by (simp add: holds_run_def)
  from good_journal_nth [OF this 3(3)] show ?case .
qed

lemma history_approvals [simp]: "history sc (st\<lparr>st_approvals := rows\<rparr>) k = history sc st k"
  by (simp add: history_def split: option.split)

lemma micro_history:
  assumes "micro_step sc st st'" "store_codec_ok sc" "store_inv sc st" "history sc st k = Some h"
  shows "\<exists>h'. history sc st' k = Some h' \<and> prefix h h'"
  using assms
proof (induction rule: micro_step.induct)
  case (m_create io r c st st')
  have v: "st_user_version st = CURRENT_STORE_SCHEMA_VERSION" using m_create by (simp add: store_inv_def)
  have none: "st_runs st (key_run_id (rr_key r)) = None"
    using m_create(1) by (auto simp: create_run_def and_then_Inr transaction_Inr insert_run_def split: option.splits)
  then have "rows_of st (key_run_id (rr_key r)) = []"
    using store_inv_slot [OF m_create(3), of "key_run_id (rr_key r)"] by (simp add: slot_ok_def)
  from create_run_ok [OF m_create(1) this v] none m_create(4) show ?case
    by (cases "key_run_id k = key_run_id (rr_key r)") (auto simp: history_def split: option.splits if_splits)
next
  case (m_append t st st')
  from append_history [OF m_append(2,3,1)] m_append(4) show ?case by auto
next
  case (m_insert row st st')
  then show ?case by (auto simp: insert_approval_def split: if_splits)
next
  case (m_update m f st st')
  then show ?case by (auto simp: update_approvals_def split: if_splits)
qed

lemma store_history_grows:
  assumes "store_reach sc st st'" "store_codec_ok sc" "store_inv sc st" "history sc st k = Some h"
  shows "\<exists>h'. history sc st' k = Some h' \<and> prefix h h'"
  using store_reach_micro [OF assms(1)]
proof (induction rule: rtranclp_induct)
  case base
  with assms(4) show ?case by simp
next
  case (step y z)
  then obtain h1 where "history sc y k = Some h1" "prefix h h1" by blast
  with micro_history [OF step(2) assms(2)] micro_reach_inv [OF step(1) assms(3)] prefix_order.trans
  show ?case by blast
qed

section \<open>Versioned approval rows\<close>

definition approval_version :: "run_id \<Rightarrow> durable_approval_wait_id \<Rightarrow> sqlite_store \<Rightarrow> int option" where
  "approval_version q w st = map_option apr_row_version (find_approval q w st)"

lemma find_map_same: "(\<And>x. P (g x) = P x) \<Longrightarrow> find P (map g xs) = map_option g (find P xs)"
  by (induction xs) simp_all

lemma find_snoc: "find P xs = Some x \<Longrightarrow> find P (xs @ ys) = Some x"
  by (induction xs) auto

lemma find_distinct_key:
  "distinct (map key xs) \<Longrightarrow> x \<in> set xs \<Longrightarrow> find (\<lambda>y. key y = key x) xs = Some x"
  by (induction xs) (auto simp: image_iff)

lemma find_approval_update:
  assumes "keeps_identity f"
  shows "find_approval q w (st\<lparr>st_approvals := map (\<lambda>x. if m x then f x else x) (st_approvals st)\<rparr>) =
           map_option (\<lambda>x. if m x then f x else x) (find_approval q w st)"
proof -
  have "find (\<lambda>x. apr_run_id x = q \<and> apr_wait_id x = w) (map (\<lambda>x. if m x then f x else x) rows) =
      map_option (\<lambda>x. if m x then f x else x) (find (\<lambda>x. apr_run_id x = q \<and> apr_wait_id x = w) rows)" for rows
    by (rule find_map_same) (use assms in \<open>auto simp: keeps_identity_def split: if_splits\<close>)
  then show ?thesis by (simp add: find_approval_def)
qed

lemma micro_version:
  assumes "micro_step sc st st'" "approval_version q w st = Some v"
  shows "\<exists>v'\<ge>v. approval_version q w st' = Some v'"
  using assms
proof (induction rule: micro_step.induct)
  case (m_create io r c st st')
  then have "st_approvals st' = st_approvals st"
    by (auto simp: create_run_def and_then_Inr transaction_Inr insert_run_def insert_checkpoint_def split: option.splits)
  with m_create have "approval_version q w st' = Some v" by (simp add: approval_version_def find_approval_def)
  then show ?case by blast
next
  case (m_append t st st')
  with append_frame(1) [OF m_append(1)] have "approval_version q w st' = Some v"
    by (simp add: approval_version_def find_approval_def)
  then show ?case by blast
next
  case (m_insert row st st')
  then show ?case
    by (auto simp: insert_approval_def approval_version_def find_approval_def find_snoc split: if_splits)
next
  case (m_update m f st st')
  then have "find_approval q w st' = map_option (\<lambda>x. if m x then f x else x) (find_approval q w st)"
    by (auto simp: update_approvals_def find_approval_update split: if_splits)
  moreover obtain z where "find_approval q w st = Some z" "apr_row_version z = v"
    using m_update.prems by (auto simp: approval_version_def)
  ultimately have "approval_version q w st' = Some (if m z then v + 1 else v)"
    using m_update.hyps(2) by (simp add: approval_version_def keeps_identity_def)
  then show ?case by (auto split: if_splits)
qed

lemma store_version_grows:
  assumes "(micro_step sc)\<^sup>*\<^sup>* st st'" "approval_version q w st = Some v"
  shows "\<exists>v'\<ge>v. approval_version q w st' = Some v'"
  using assms(1)
proof (induction rule: rtranclp_induct)
  case base
  with assms(2) show ?case by auto
next
  case (step y z)
  then show ?case using micro_version order_trans by meson
qed

text \<open>A versioned update succeeds only at the expected version and moves the row to the next one.\<close>

lemma update_approvals_version:
  assumes "update_approvals (row_matches k w s v) f st = (Inr (), st')" "approvals_ok (st_approvals st)"
    "keeps_identity f"
  shows "approval_version (key_run_id k) w st = Some (uint v)
         \<and> approval_version (key_run_id k) w st' = Some (uint v + 1)"
proof -
  let ?m = "row_matches k w s v" and ?key = "\<lambda>x. (apr_run_id x, apr_wait_id x)"
  from assms(1) have one: "length (filter ?m (st_approvals st)) = 1"
    and st': "st' = st\<lparr>st_approvals := map (\<lambda>x. if ?m x then f x else x) (st_approvals st)\<rparr>"
    by (auto simp: update_approvals_def split: if_splits)
  then obtain x where x: "x \<in> set (st_approvals st)" "?m x"
    by (metis (no_types, lifting) filter_False length_0_conv zero_neq_one)
  have "find (\<lambda>y. ?key y = ?key x) (st_approvals st) = Some x"
    using assms(2) x(1) by (intro find_distinct_key) (simp_all add: approvals_ok_def)
  then have found: "find_approval (key_run_id k) w st = Some x"
    using x(2) by (simp add: find_approval_def row_matches_def)
  moreover have "find_approval (key_run_id k) w st' = map_option (\<lambda>x. if ?m x then f x else x) (find_approval (key_run_id k) w st)"
    using find_approval_update [OF assms(3)] by (simp add: st')
  ultimately show ?thesis
    using x(2) assms(3) by (simp add: approval_version_def row_matches_def keeps_identity_def)
qed

lemma append_approvals_ok:
  "append_transition_in_transaction sc t st = (Inr (), s) \<Longrightarrow> store_inv sc st \<Longrightarrow> approvals_ok (st_approvals s)"
  by (drule append_inv [rotated]) (simp_all add: store_inv_def)

lemma append_version:
  "append_transition_in_transaction sc t st = (Inr (), s) \<Longrightarrow> approval_version q w s = approval_version q w st"
  using append_frame(1) by (simp add: approval_version_def find_approval_def)

lemma decision_version:
  assumes "record_durable_approval_decision sc io_load (\<lambda>_. st) io q st0 = (Inr (), st')" "store_inv sc st"
  shows "approval_version (key_run_id (dc_key (rd_command q))) (dc_wait_id (rd_command q)) st =
           Some (uint (dc_expected_row_version (rd_command q)))
       \<and> approval_version (key_run_id (dc_key (rd_command q))) (dc_wait_id (rd_command q)) st' =
           Some (uint (dc_expected_row_version (rd_command q)) + 1)"
proof -
  from decision_parts [OF assms(1)] obtain s f where
    s: "append_transition_in_transaction sc (rd_transition q) st = (Inr (), s)"
    and u: "update_approvals (row_matches (dc_key (rd_command q)) (dc_wait_id (rd_command q)) DA_Waiting
          (dc_expected_row_version (rd_command q))) f s = (Inr (), st')" "keeps_identity f"
    by blast
  from update_approvals_version [OF u(1) append_approvals_ok [OF s assms(2)] u(2)] append_version [OF s]
  show ?thesis by simp
qed

lemma status_version:
  assumes "transition_durable_approval_status sc io q st = (Inr (), st')" "store_inv sc st"
  shows "approval_version (key_run_id (sr_key q)) (sr_wait_id q) st = Some (uint (sr_expected_row_version q))
       \<and> approval_version (key_run_id (sr_key q)) (sr_wait_id q) st' = Some (uint (sr_expected_row_version q) + 1)"
proof -
  from status_parts [OF assms(1)] obtain s f where
    s: "s = st \<or> (\<exists>t. append_transition_in_transaction sc t st = (Inr (), s))"
    and u: "update_approvals (row_matches (sr_key q) (sr_wait_id q) (sr_expected_status q)
          (sr_expected_row_version q)) f s = (Inr (), st')" "keeps_identity f"
    by blast
  from s have "approvals_ok (st_approvals s)"
    and "approval_version (key_run_id (sr_key q)) (sr_wait_id q) s = approval_version (key_run_id (sr_key q)) (sr_wait_id q) st"
    using assms(2) append_approvals_ok append_version by (auto simp: store_inv_def)
  with update_approvals_version [OF u(1) _ u(2)] show ?thesis by simp
qed

text \<open>The status column survives encoding.\<close>

lemma decode_status_code [simp]: "decode_status (status_code s) = Inr s"
  by (cases s) (simp_all add: decode_status_def)

end
