(* ===== verification/Harness_Journal.thy ===== *)
theory Harness_Journal
  imports Harness_Safety Store_Laws
begin

text \<open>
  Crash consistency of the harness over the SQLite store. \<open>journal_ok env es0 A s\<close> relates the database of the
  state \<open>s\<close> to its run context: the stored journal is what the run started from (\<open>es0\<close>) followed by the persisted
  events of the trace, and while no event follows the one that finishes the run, it replays, its checkpoint is the state of
  one of its prefixes, and the context is the replay of the stored events and of those that were numbered but not
  stored. \<open>A\<close> says how the status of the context and of the durable state relate. A context whose next event must be
  refused (\<open>dead\<close>) needs no relation: it can add nothing to the journal.
\<close>

section \<open>Journals that end when the run ends\<close>

definition finishing :: "agent_event \<Rightarrow> bool" where
  "finishing e = (case ev_kind e of
       Ev_RunFinished _ \<Rightarrow> True
     | Ev_Graph (GE_GraphCompleted _ _ _) \<Rightarrow> True
     | Ev_Graph (GE_GraphFailed _ _ _ _ _) \<Rightarrow> True
     | _ \<Rightarrow> False)"

definition no_finish :: "agent_event list \<Rightarrow> bool" where
  "no_finish es = (\<not> list_ex finishing es)"

text \<open>No event follows the one that finishes the run.\<close>

definition finish_last :: "agent_event list \<Rightarrow> bool" where
  "finish_last es = no_finish (butlast es)"

lemma no_finish_append [simp]: "no_finish (es @ fs) \<longleftrightarrow> no_finish es \<and> no_finish fs"
  by (auto simp: no_finish_def)

lemma finish_last_snoc [simp]: "finish_last (es @ [e]) \<longleftrightarrow> no_finish es"
  by (simp add: finish_last_def)

lemma no_finish_last: "no_finish es \<Longrightarrow> finish_last es"
  by (cases es rule: rev_cases) (simp_all add: finish_last_def)

lemma finish_last_terminal_agrees: "finish_last es \<Longrightarrow> terminal_agrees es"
proof (cases es rule: rev_cases)
  case (snoc es' e)
  assume "finish_last es"
  with snoc have "\<not> finished_once es'"
    by (auto simp: no_finish_def finished_once_def list_ex_iff finishing_def
          split: agent_event_kind.splits elim!: is_run_finished.elims(2))
  with snoc show ?thesis by (auto simp: terminal_agrees_def finished_once_def)
qed (simp add: terminal_agrees_def finished_once_def)

text \<open>An accepted event that does not finish the run leaves a running run running.\<close>

lemma apply_event_running:
  assumes "apply_event c e s = Inr t" "ds_status s = Status_Running" "\<not> finishing e"
  shows "ds_status t = Status_Running"
proof -
  from assms(1) obtain m bytes where m: "apply_kind (ev_kind e) s = Inr m"
    and t: "t = m\<lparr>ds_event_chain_digest := chain_digest c (ds_event_chain_digest s) bytes,
        ds_last_sequence := Some (ev_sequence e)\<rparr>"
    by (elim apply_event_cases)
  have "ds_status m = Status_Running"
  proof (cases "ev_kind e")
    case (Ev_Loop l)
    with m apply_loop_status [of l s] assms(2) show ?thesis by simp
  next
    case (Ev_Graph g)
    with m assms(2,3) show ?thesis
      by (cases g) (auto simp: finishing_def arm_defs graph_arm_defs split: graph_arm_splits)
  qed (use m assms(2,3) in \<open>auto simp: finishing_def arm_defs split: if_splits option.splits sum.splits\<close>)
  with t show ?thesis by simp
qed

section \<open>Contexts that can add nothing\<close>

definition dead :: "run_context \<Rightarrow> bool" where
  "dead c \<longleftrightarrow> ahead c \<or> checked_next (rc_next_event_sequence c) = None"

text \<open>What the journal depends on in a context.\<close>

definition core_of :: "run_context \<Rightarrow> run_id \<times> session_id \<times> run_budget \<times> recovery_contract \<times> run_status" where
  "core_of c = (rc_run_id c, rc_session_id c, rc_budget c, rc_recovery_contract c, rc_status c)"

lemma next_event_core: "core_of (snd (next_event cd k c)) = core_of c"
  by (auto simp: next_event_def Let_def core_of_def split: option.split sum.split)

lemma dead_next_event:
  assumes "dead c"
  shows "\<exists>x d. next_event cd k c = (Inl x, d) \<and> dead d"
proof (cases "checked_next (rc_next_event_sequence c)")
  case None
  with assms show ?thesis by (simp add: next_event_def)
next
  case Some
  with assms ahead_refuses [of c cd k] show ?thesis by (auto simp: dead_def)
qed

lemma next_event_refused_dead:
  assumes "next_event cd k c = (Inl x, d)" "dead c \<or> in_step c"
  shows "dead d"
proof -
  consider "dead c" | "checked_next (rc_next_event_sequence c) = None"
    | "in_step c" "checked_next (rc_next_event_sequence c) \<noteq> None" using assms(2) by blast
  then show ?thesis
  proof cases
    case 1
    with dead_next_event [OF this, of cd k] assms(1) show ?thesis by auto
  next
    case 2
    with assms(1) show ?thesis by (simp add: next_event_def dead_def)
  next
    case 3
    with assms(1) have "x = CE_DurableTransitionInvalid"
      by (auto simp: next_event_def Let_def split: option.splits sum.splits)
    with assms(1) 3(1) next_event_rejected_ahead show ?thesis by (auto simp: dead_def)
  qed
qed

section \<open>The relation between database and context\<close>

fun persisted_events :: "trace_entry list \<Rightarrow> agent_event list" where
  "persisted_events [] = []"
| "persisted_events (Tr_Persisted e # tr) = e # persisted_events tr"
| "persisted_events (_ # tr) = persisted_events tr"

lemma persisted_events_append [simp]:
  "persisted_events (xs @ ys) = persisted_events xs @ persisted_events ys"
  by (induction xs rule: persisted_events.induct) simp_all

definition sound_journal :: "codec \<Rightarrow> run_record \<Rightarrow> durable_checkpoint \<Rightarrow> agent_event list \<Rightarrow> bool" where
  "sound_journal cd r cp es \<longleftrightarrow>
     (finish_last es \<longrightarrow>
        (\<exists>u. replay cd es (DurableRunState_initial r) = Inr u)
        \<and> (\<exists>n t. n \<le> length es \<and> replay cd (take n es) (DurableRunState_initial r) = Inr t
              \<and> cp = DurableCheckpoint_new t))"

definition stored :: "harness_env \<Rightarrow> agent_event list \<Rightarrow> run_record \<Rightarrow> harness_state \<Rightarrow> bool" where
  "stored env es0 r s \<longleftrightarrow>
     (\<exists>cp. holds_run (he_store_codec env) (hs_store s) (context_key (hs_ctx s)) r cp
              (es0 @ persisted_events (hs_trace s))
         \<and> sound_journal (he_codec env) r cp (es0 @ persisted_events (hs_trace s)))
     \<and> rr_budget r = rc_budget (hs_ctx s) \<and> rr_recovery_contract r = rc_recovery_contract (hs_ctx s)"

type_synonym agreement = "run_status \<Rightarrow> run_status \<Rightarrow> bool"

abbreviation agrees :: "agreement \<Rightarrow> run_context \<Rightarrow> bool" where
  "agrees A c \<equiv> A (rc_status c) (ds_status (rc_durable_state c))"

text \<open>\<open>fs\<close> are the events that were numbered but did not reach the journal.\<close>

definition linked :: "codec \<Rightarrow> run_record \<Rightarrow> agent_event list \<Rightarrow> agreement \<Rightarrow> run_context \<Rightarrow> bool" where
  "linked cd r es A c \<longleftrightarrow>
     in_step c \<and> unat (rc_next_event_sequence c) = length es
     \<and> (no_finish es \<longrightarrow> replay cd es (DurableRunState_initial r) = Inr (rc_durable_state c) \<and> agrees A c)"

definition journal_ok :: "harness_env \<Rightarrow> agent_event list \<Rightarrow> agreement \<Rightarrow> harness_state \<Rightarrow> bool" where
  "journal_ok env es0 A s \<longleftrightarrow>
     (\<exists>r. stored env es0 r s
        \<and> (dead (hs_ctx s)
           \<or> (\<exists>fs. linked (he_codec env) r (es0 @ persisted_events (hs_trace s) @ fs) A (hs_ctx s))))"

text \<open>The state just after the event \<open>e\<close> was numbered.\<close>

definition announced :: "harness_env \<Rightarrow> agent_event list \<Rightarrow> agreement \<Rightarrow> agent_event \<Rightarrow> harness_state \<Rightarrow> bool" where
  "announced env es0 A e s \<longleftrightarrow>
     (\<exists>r fs. stored env es0 r s
        \<and> linked (he_codec env) r (es0 @ persisted_events (hs_trace s) @ fs @ [e]) A (hs_ctx s)
        \<and> unat (ev_sequence e) = length (es0 @ persisted_events (hs_trace s) @ fs)
        \<and> (no_finish (es0 @ persisted_events (hs_trace s) @ fs) \<longrightarrow>
             replay (he_codec env) (es0 @ persisted_events (hs_trace s) @ fs @ [e]) (DurableRunState_initial r)
               = Inr (rc_durable_state (hs_ctx s))))"

definition both_running :: agreement where
  "both_running q d \<longleftrightarrow> q = Status_Running \<and> d = Status_Running"

definition ending :: agreement where
  "ending q d \<longleftrightarrow> d = Status_Running"

definition never :: agreement where
  "never q d \<longleftrightarrow> False"

lemma linked_mono: "linked cd r es A c \<Longrightarrow> (agrees A c \<Longrightarrow> agrees B c) \<Longrightarrow> linked cd r es B c"
  by (auto simp: linked_def)

lemma journal_ok_mono:
  "journal_ok env es0 A s \<Longrightarrow> (agrees A (hs_ctx s) \<Longrightarrow> agrees B (hs_ctx s)) \<Longrightarrow> journal_ok env es0 B s"
  unfolding journal_ok_def using linked_mono by meson

lemma journal_ok_never: "journal_ok env es0 never s \<Longrightarrow> journal_ok env es0 A s"
  by (erule journal_ok_mono) (simp add: never_def)

lemma announced_journal_ok: "announced env es0 A e s \<Longrightarrow> journal_ok env es0 A s"
  by (auto simp: announced_def journal_ok_def)

section \<open>Steps that leave the journal alone\<close>

definition still :: "harness_state \<Rightarrow> harness_state \<Rightarrow> bool" where
  "still s t \<longleftrightarrow>
     hs_store t = hs_store s \<and> persisted_events (hs_trace t) = persisted_events (hs_trace s)
     \<and> core_of (hs_ctx t) = core_of (hs_ctx s)
     \<and> rc_next_event_sequence (hs_ctx t) = rc_next_event_sequence (hs_ctx s)
     \<and> rc_durable_state (hs_ctx t) = rc_durable_state (hs_ctx s)"

interpretation still: harness_frame still
  by unfold_locales (auto simp: still_def)

lemma core_sel:
  "core_of c = core_of d \<Longrightarrow> context_key c = context_key d \<and> rc_run_id c = rc_run_id d \<and> rc_budget c = rc_budget d
     \<and> rc_recovery_contract c = rc_recovery_contract d \<and> rc_status c = rc_status d"
  by (simp add: core_of_def context_key_def)

lemma still_sel:
  assumes "still s t"
  shows "hs_store t = hs_store s" "persisted_events (hs_trace t) = persisted_events (hs_trace s)"
    "context_key (hs_ctx t) = context_key (hs_ctx s)" "rc_run_id (hs_ctx t) = rc_run_id (hs_ctx s)"
    "rc_budget (hs_ctx t) = rc_budget (hs_ctx s)"
    "rc_recovery_contract (hs_ctx t) = rc_recovery_contract (hs_ctx s)" "rc_status (hs_ctx t) = rc_status (hs_ctx s)"
    "rc_next_event_sequence (hs_ctx t) = rc_next_event_sequence (hs_ctx s)"
    "rc_durable_state (hs_ctx t) = rc_durable_state (hs_ctx s)"
  using assms core_sel [of "hs_ctx t" "hs_ctx s"] by (simp_all add: still_def)

lemma still_carries:
  assumes "still s t"
  shows "journal_ok env es0 A s \<Longrightarrow> journal_ok env es0 A t" "announced env es0 A e s \<Longrightarrow> announced env es0 A e t"
    "agrees B (hs_ctx s) \<Longrightarrow> agrees B (hs_ctx t)" "dead (hs_ctx s) \<Longrightarrow> dead (hs_ctx t)"
  using still_sel [OF assms]
  by (simp_all add: journal_ok_def announced_def stored_def linked_def dead_def ahead_def in_step_def)

lemma still_ask: "within still (ask f)"
  by (simp add: within_def ask_def still_def)

lemma still_log: "(\<And>e. x \<noteq> Tr_Persisted e) \<Longrightarrow> within still (log_entry x)"
  by (cases x) (auto simp: within_def log_entry_def still_def)

lemma still_on_ctx:
  assumes "\<And>c. core_of (snd (m c)) = core_of c \<and> rc_next_event_sequence (snd (m c)) = rc_next_event_sequence c
     \<and> rc_durable_state (snd (m c)) = rc_durable_state c"
  shows "within still (on_ctx f m)"
  unfolding within_def
proof
  fix s :: harness_state
  obtain r c where "m (hs_ctx s) = (r, c)" by fastforce
  with assms [of "hs_ctx s"] show "still s (snd (on_ctx f m s))"
    by (cases r) (simp_all add: on_ctx_def still_def)
qed

lemma still_reservations:
  "within still (on_ctx f reserve_model_call)" "within still (on_ctx f reserve_tool_call)"
  "within still (on_ctx f reserve_iteration)" "within still (on_ctx f reserve_approval_request)"
  "within still (on_ctx f reserve_graph_step)" "within still (on_ctx g ctx_request_cancel)"
  by (rule still_on_ctx; auto simp: reserve_defs Let_def core_of_def ctx_request_cancel_def split: option.split)+

lemma still_mark: "within still (upd_ctx mark_persistence_failed)"
  by (simp add: within_def upd_ctx_def still_def mark_persistence_failed_def core_of_def)

lemma still_audit_record: "within still (audit_record env e)"
  by (simp add: within_def audit_record_cases still_def)

lemma still_audit: "within still (audit_with_run_bounds env e)"
proof -
  have "still s (snd (audit_with_run_bounds env e s))" for s
    using audit_with_run_bounds_cases [of env e s] by (auto simp: still_def)
  then show ?thesis by (simp add: within_def)
qed

lemma still_guards: "within still (require_status op q)" "within still runtime_of" "within still (lift_port g h)"
  unfolding require_status_def runtime_of_def lift_port_def by (intro still.within_rules still_ask)+

lemmas still_rules = still.within_rules still_ask still_reservations still_mark still_audit_record still_audit still_guards

lemma triple_still: "within still m \<Longrightarrow> (\<And>s t. still s t \<Longrightarrow> F s \<Longrightarrow> F t) \<Longrightarrow> triple F m (\<lambda>_. F) (\<lambda>_. F)"
  by (rule still.triple_within)

lemma journal_still: "within still m \<Longrightarrow> triple (journal_ok env es0 A) m (\<lambda>_. journal_ok env es0 A) (\<lambda>_. journal_ok env es0 A)"
  by (erule triple_still) (rule still_carries)

section \<open>Numbering and storing an event\<close>

lemma stored_cong:
  "hs_store t = hs_store s \<Longrightarrow> persisted_events (hs_trace t) = persisted_events (hs_trace s) \<Longrightarrow>
   core_of (hs_ctx t) = core_of (hs_ctx s) \<Longrightarrow> stored env es0 r t = stored env es0 r s"
  using core_sel [of "hs_ctx t" "hs_ctx s"] by (simp add: stored_def)

lemma linked_step:
  assumes "linked cd r es A c" "next_event cd k c = (Inr e, d)"
    and step: "\<And>t. agrees A c \<Longrightarrow> \<not> finishing e \<Longrightarrow> apply_event cd e (rc_durable_state c) = Inr t \<Longrightarrow> B (rc_status c) (ds_status t)"
  shows "linked cd r (es @ [e]) B d \<and> unat (ev_sequence e) = length es
     \<and> (no_finish es \<longrightarrow> replay cd (es @ [e]) (DurableRunState_initial r) = Inr (rc_durable_state d))"
proof -
  from assms(2) obtain n t where n: "checked_next (rc_next_event_sequence c) = Some n"
    and e: "e = AgentEvent_new (rc_run_id c) (rc_next_event_sequence c) k"
    and t: "apply_event cd e (rc_durable_state c) = Inr t"
    and d: "d = c\<lparr>rc_next_event_sequence := n, rc_durable_state := t\<rparr>"
    by (auto simp: next_event_ok)
  have in_step: "in_step d" using next_event_in_step [OF assms(2)] assms(1) by (simp add: linked_def)
  have seq: "unat (ev_sequence e) = length es" "unat n = Suc (length es)"
    using assms(1) n e by (simp_all add: linked_def AgentEvent_new_def checked_next_def checked_inc_unat)
  have replay: "replay cd (es @ [e]) (DurableRunState_initial r) = Inr t" if "no_finish es"
    using that assms(1) t by (simp add: linked_def replay_append replay_Cons)
  have "B (rc_status d) (ds_status (rc_durable_state d))" if "no_finish (es @ [e])"
    using that assms(1) step [OF _ _ t] by (auto simp: linked_def d no_finish_def)
  with in_step seq replay show ?thesis by (simp add: linked_def d)
qed

lemma emit_run:
  "emit env k s = (case next_event (he_codec env) k (hs_ctx s) of
     (Inl x, c) \<Rightarrow> (Inl (HE_Context x), s\<lparr>hs_ctx := c\<rparr>) | (Inr e, c) \<Rightarrow> (Inr e, s\<lparr>hs_ctx := c\<rparr>))"
  by (simp add: emit_def on_ctx_def)

lemma emit_spec_journal:
  assumes step: "\<And>c e t. agrees A c \<Longrightarrow> ev_kind e = k \<Longrightarrow> \<not> finishing e \<Longrightarrow>
      apply_event (he_codec env) e (rc_durable_state c) = Inr t \<Longrightarrow> B (rc_status c) (ds_status t)"
  shows "triple (journal_ok env es0 A) (emit env k) (announced env es0 B) (\<lambda>_. journal_ok env es0 never)"
  unfolding triple_def
proof (intro allI impI)
  fix s x t assume s: "journal_ok env es0 A s" and run: "emit env k s = (x, t)"
  let ?cd = "he_codec env" and ?es = "es0 @ persisted_events (hs_trace s)"
  from s obtain r where r: "stored env es0 r s"
    and link: "dead (hs_ctx s) \<or> (\<exists>fs. linked ?cd r (?es @ fs) A (hs_ctx s))"
    by (auto simp: journal_ok_def)
  obtain y c where n: "next_event ?cd k (hs_ctx s) = (y, c)" by fastforce
  have core: "core_of c = core_of (hs_ctx s)" using next_event_core [of ?cd k "hs_ctx s"] n by simp
  show "case x of Inl _ \<Rightarrow> journal_ok env es0 never t | Inr e \<Rightarrow> announced env es0 B e t"
  proof (cases y)
    case (Inl e)
    with n link have "dead c" by (auto intro: next_event_refused_dead simp: linked_def)
    moreover have "t = s\<lparr>hs_ctx := c\<rparr>" "x = Inl (HE_Context e)" using run n Inl by (simp_all add: emit_run)
    ultimately show ?thesis using r core stored_cong [of t s] by (auto simp: journal_ok_def)
  next
    case (Inr e)
    with n link dead_next_event [of "hs_ctx s" ?cd k] obtain fs where l: "linked ?cd r (?es @ fs) A (hs_ctx s)" by auto
    have kind: "ev_kind e = k" using n Inr by (auto simp: next_event_ok AgentEvent_new_def)
    have t: "t = s\<lparr>hs_ctx := c\<rparr>" "x = Inr e" using run n Inr by (simp_all add: emit_run)
    note n' = n [unfolded Inr]
    from linked_step [OF l n', of B] step [OF _ kind] r core t stored_cong [of t s env es0 r] show ?thesis
      by (auto simp: announced_def)
  qed
qed

lemma good_journal_length:
  "good_journal sc k es \<Longrightarrow> ev_sequence e \<noteq> 0 \<longrightarrow> last_sequence_of es = Some (ev_sequence e - 1) \<Longrightarrow>
   ev_sequence e = 0 \<longrightarrow> last_sequence_of es = None \<Longrightarrow> length es < 2 ^ 64 \<Longrightarrow> unat (ev_sequence e) = length es"
proof (cases "es = []")
  case True
  then show "ev_sequence e \<noteq> 0 \<longrightarrow> last_sequence_of es = Some (ev_sequence e - 1) \<Longrightarrow> unat (ev_sequence e) = length es"
    by (cases "ev_sequence e = 0") (simp_all add: last_sequence_of_def)
next
  case False
  assume good: "good_journal sc k es" and a: "ev_sequence e \<noteq> 0 \<longrightarrow> last_sequence_of es = Some (ev_sequence e - 1)"
    "ev_sequence e = 0 \<longrightarrow> last_sequence_of es = None" and len: "length es < 2 ^ 64"
  then have "ev_sequence e - 1 = of_nat (length es - 1)"
    using False good_journal_last [OF good] by (cases "ev_sequence e = 0") auto
  then have "ev_sequence e = of_nat (length es - 1) + 1" by (simp add: algebra_simps)
  also have "\<dots> = of_nat (length es)" using False by (cases es) simp_all
  finally show ?thesis using len by (simp add: unat_of_nat_u64)
qed

lemma sound_journal_snoc:
  assumes "sound_journal cd r cp es"
    and replay: "no_finish es \<Longrightarrow> replay cd (es @ [e]) (DurableRunState_initial r) = Inr u"
    and t: "at_checkpoint t = None \<or> at_checkpoint t = Some (DurableCheckpoint_new u)"
  shows "sound_journal cd r (next_checkpoint t cp) (es @ [e])"
  unfolding sound_journal_def
proof (intro impI conjI)
  assume "finish_last (es @ [e])"
  then have no: "no_finish es" by simp
  from replay [OF this] show "\<exists>u. replay cd (es @ [e]) (DurableRunState_initial r) = Inr u" by blast
  from assms(1) no_finish_last [OF no] obtain n w where
    old: "n \<le> length es" "replay cd (take n es) (DurableRunState_initial r) = Inr w" "cp = DurableCheckpoint_new w"
    by (auto simp: sound_journal_def)
  show "\<exists>n t'. n \<le> length (es @ [e]) \<and> replay cd (take n (es @ [e])) (DurableRunState_initial r) = Inr t'
      \<and> next_checkpoint t cp = DurableCheckpoint_new t'"
  proof (cases "at_checkpoint t")
    case None
    with old show ?thesis by (intro exI [of _ n] exI [of _ w]) (simp add: next_checkpoint_def)
  next
    case (Some c)
    with t replay [OF no] show ?thesis
      by (intro exI [of _ "length (es @ [e])"] exI [of _ u]) (simp add: next_checkpoint_def)
  qed
qed

text \<open>A stored event is the next one: an event that was numbered after an unstored one is refused.\<close>

lemma append_announced:
  assumes a: "announced env es0 A e s"
    and run: "append_transition (he_store_codec env) io
        (transition_for (hs_ctx s) e (is_quiescent (rc_durable_state (hs_ctx s)))) (hs_store s) = (Inr (), st)"
  shows "journal_ok env es0 A (s\<lparr>hs_store := st, hs_tick := n, hs_trace := hs_trace s @ [Tr_Persisted e]\<rparr>)"
proof -
  let ?sc = "he_store_codec env" and ?cd = "he_codec env" and ?c = "hs_ctx s"
  let ?es = "es0 @ persisted_events (hs_trace s)"
  let ?t = "transition_for ?c e (is_quiescent (rc_durable_state ?c))"
  from a obtain r fs cp where holds: "holds_run ?sc (hs_store s) (context_key ?c) r cp ?es"
    and sound: "sound_journal ?cd r cp ?es"
    and frame: "rr_budget r = rc_budget ?c" "rr_recovery_contract r = rc_recovery_contract ?c"
    and link: "linked ?cd r (?es @ fs @ [e]) A ?c"
    and seq: "unat (ev_sequence e) = length (?es @ fs)"
    and replays: "no_finish (?es @ fs) \<Longrightarrow> replay ?cd (?es @ fs @ [e]) (DurableRunState_initial r) = Inr (rc_durable_state ?c)"
    by (auto simp: announced_def stored_def)
  have key: "at_key ?t = context_key ?c" "at_event ?t = e" by (simp_all add: transition_for_def)
  from append_holds [of ?sc ?t "hs_store s" st r cp ?es] run holds key
  have holds': "holds_run ?sc st (context_key ?c) r (next_checkpoint ?t cp) (?es @ [e])"
    and expected: "at_expected_sequence ?t = last_sequence_of ?es"
    by (auto simp: append_transition_Inr)
  have "unat (ev_sequence e) < 2 ^ LENGTH(64)" by (rule unsigned_less)
  with seq have "length ?es < 2 ^ 64" by simp
  moreover have "good_journal ?sc (context_key ?c) ?es" using holds by (simp add: holds_run_def)
  ultimately have "unat (ev_sequence e) = length ?es"
    using expected by (intro good_journal_length) (auto simp: transition_for_def split: if_splits)
  with seq have fs: "fs = []" by simp
  have "sound_journal ?cd r (next_checkpoint ?t cp) (?es @ [e])"
    by (rule sound_journal_snoc [OF sound, of e "rc_durable_state ?c"])
       (use replays fs in \<open>auto simp: transition_for_def\<close>)
  with holds' frame link fs show ?thesis
    by (auto simp: journal_ok_def stored_def intro!: exI [of _ r] exI [of _ "[]"])
qed

lemma persist_spec_journal:
  assumes "he_persistence env"
  shows "triple (announced env es0 A e) (persist_transition env e) (\<lambda>_. journal_ok env es0 A) (\<lambda>_. journal_ok env es0 A)"
  unfolding triple_def
proof (intro allI impI)
  fix s r t assume s: "announced env es0 A e s" and run: "persist_transition env e s = (r, t)"
  let ?c = "hs_ctx s"
  obtain y st where app: "append_transition (he_store_codec env) (he_io env (hs_tick s))
      (transition_for ?c e (is_quiescent (rc_durable_state ?c))) (hs_store s) = (y, st)" by fastforce
  show "case r of Inl _ \<Rightarrow> journal_ok env es0 A t | Inr _ \<Rightarrow> journal_ok env es0 A t"
  proof (cases y)
    case (Inl x)
    with app have st: "st = hs_store s" by (simp add: append_transition_Inl)
    have "still s t"
      using run app Inl st assms
      by (auto simp: persist_transition_def and_then_apply on_result_apply get_ctx_def store_call_def upd_ctx_def
            still_def mark_persistence_failed_def core_of_def)
    with s have "journal_ok env es0 A t" by (blast intro: still_carries announced_journal_ok)
    then show ?thesis by (cases r) simp_all
  next
    case (Inr u)
    have t: "r = Inr ()" "t = s\<lparr>hs_store := st, hs_tick := Suc (hs_tick s), hs_trace := hs_trace s @ [Tr_Persisted e]\<rparr>"
      using run app Inr assms
      by (auto simp: persist_transition_def and_then_apply on_result_apply get_ctx_def store_call_def log_entry_def)
    with append_announced [OF s, of "he_io env (hs_tick s)" st "Suc (hs_tick s)"] app Inr show ?thesis by simp
  qed
qed

section \<open>Audit and terminalization\<close>

text \<open>The invariant of a started run.\<close>

abbreviation live :: "harness_env \<Rightarrow> agent_event list \<Rightarrow> harness_state \<Rightarrow> bool" where
  "live env es0 \<equiv> journal_ok env es0 both_running"

lemma triple_weaken_never:
  "triple P m Q (\<lambda>_. journal_ok env es0 never) \<Longrightarrow> triple P m Q (\<lambda>_. journal_ok env es0 A)"
  by (erule triple_conseq) (auto intro: journal_ok_never)

lemma emit_live:
  "triple (live env es0) (emit env k) (announced env es0 both_running) (\<lambda>_. live env es0)"
  by (rule triple_weaken_never, rule emit_spec_journal) (auto simp: both_running_def intro: apply_event_running)

lemma emit_never: "triple (journal_ok env es0 never) (emit env k) (announced env es0 never) (\<lambda>_. journal_ok env es0 never)"
  by (rule emit_spec_journal) (simp add: never_def)

lemma emit_ending:
  "(\<And>e. ev_kind e = k \<Longrightarrow> finishing e) \<Longrightarrow>
   triple (journal_ok env es0 ending) (emit env k) (announced env es0 never) (\<lambda>_. journal_ok env es0 never)"
  by (rule emit_spec_journal) auto

lemma commit_finished_ends:
  "triple (\<lambda>s. live env es0 s \<and> rc_status (hs_ctx s) = Status_Running) (on_ctx f (commit_finished out))
     (\<lambda>_. journal_ok env es0 ending) Q"
  by (auto simp: triple_def on_ctx_def commit_finished_def journal_ok_def stored_def context_key_def linked_def
        dead_def ahead_def in_step_def both_running_def ending_def)

lemma mark_never:
  "triple (journal_ok env es0 never) (upd_ctx mark_audit_degraded) (\<lambda>_. journal_ok env es0 never)
     (\<lambda>_. journal_ok env es0 never)"
  by (auto simp: triple_def upd_ctx_def mark_audit_degraded_def set_audit_degraded_def upd_context_def journal_ok_def
        stored_def context_key_def linked_def dead_def ahead_def in_step_def never_def expected_sequence_def)

lemma best_effort_never:
  assumes "he_persistence env"
  shows "triple (announced env es0 never e) (audit_terminal_best_effort env e)
     (\<lambda>_. journal_ok env es0 never) (\<lambda>_. journal_ok env es0 never)"
  unfolding audit_terminal_best_effort_def
proof (rule triple_on_result [OF persist_spec_journal [OF assms]])
  show "triple (journal_ok env es0 never) (case Inr u of Inl _ \<Rightarrow> upd_ctx mark_persistence_failed
      | Inr _ \<Rightarrow> and_then (audit_record env e) (\<lambda>a. if a = None then ok () else upd_ctx mark_audit_degraded))
     (\<lambda>_. journal_ok env es0 never) (\<lambda>_. journal_ok env es0 never)" for u :: unit
    by simp (rule triple_and_then [OF journal_still [OF still_audit_record]], auto intro: triple_ok mark_never)
qed (simp add: journal_still [OF still_mark])

lemma terminalize_with_live:
  assumes "he_persistence env"
  shows "triple (live env es0) (terminalize_with env out) (\<lambda>_. live env es0) (\<lambda>_. live env es0)"
proof -
  let ?N = "journal_ok env es0 never"
  have finishing: "finishing e" if "ev_kind e = Ev_RunFinished out" for e using that by (simp add: finishing_def)
  have "triple (\<lambda>s. live env es0 s \<and> rc_status (hs_ctx s) = Status_Running)
     (on_result (on_ctx HE_Context (commit_finished out)) (\<lambda>r.
         case r of
           Inl _ \<Rightarrow> upd_ctx mark_audit_degraded
         | Inr _ \<Rightarrow> on_result (emit env (Ev_RunFinished out)) (\<lambda>r.
             case r of
               Inl _ \<Rightarrow> upd_ctx mark_audit_degraded
             | Inr e \<Rightarrow> audit_terminal_best_effort env e))) (\<lambda>_. ?N) (\<lambda>_. ?N)"
  proof (rule triple_on_result [OF commit_finished_ends [where Q = "\<lambda>_ _. False"]])
    show "triple (journal_ok env es0 ending) (case Inr u of Inl _ \<Rightarrow> upd_ctx mark_audit_degraded
         | Inr _ \<Rightarrow> on_result (emit env (Ev_RunFinished out)) (\<lambda>r.
             case r of
               Inl _ \<Rightarrow> upd_ctx mark_audit_degraded
             | Inr e \<Rightarrow> audit_terminal_best_effort env e)) (\<lambda>_. ?N) (\<lambda>_. ?N)" for u :: unit
      by simp (rule triple_on_result [OF emit_ending], erule finishing, auto intro: best_effort_never [OF assms] mark_never)
  qed (simp add: triple_def)
  then have run: "triple (\<lambda>s. live env es0 s \<and> rc_status (hs_ctx s) = Status_Running)
     (on_result (on_ctx HE_Context (commit_finished out)) (\<lambda>r.
         case r of
           Inl _ \<Rightarrow> upd_ctx mark_audit_degraded
         | Inr _ \<Rightarrow> on_result (emit env (Ev_RunFinished out)) (\<lambda>r.
             case r of
               Inl _ \<Rightarrow> upd_ctx mark_audit_degraded
             | Inr e \<Rightarrow> audit_terminal_best_effort env e))) (\<lambda>_. live env es0) (\<lambda>_. live env es0)"
    by (rule triple_conseq) (auto intro: journal_ok_never)
  show ?thesis
    unfolding terminalize_with_def get_ctx_def
    by (rule triple_gets, rule triple_if, rule triple_ok, simp, rule triple_pre [OF run], auto)
qed

lemma terminalize_live:
  assumes "he_persistence env"
  shows "triple (live env es0) (terminalize_safety env t) (\<lambda>_. live env es0) (\<lambda>_. live env es0)"
    "triple (live env es0) (terminalize_after_start_audit_failure env) (\<lambda>_. live env es0) (\<lambda>_. live env es0)"
  by (simp_all add: terminalize_safety_def terminalize_after_start_audit_failure_def terminalize_with_live [OF assms])

text \<open>The durable state already carries the flag when the event was accepted: setting it again changes nothing.\<close>

lemma emit_degraded_flag:
  "emit env Ev_AuditDegraded s = (Inr e, t) \<Longrightarrow> ds_audit_degraded (rc_durable_state (hs_ctx t))"
  by (auto simp: emit_run next_event_ok apply_event_Inr_iff AgentEvent_new_def set_audit_degraded_def upd_context_def
        split: prod.splits sum.splits)

lemma mark_still:
  "ds_audit_degraded (rc_durable_state (hs_ctx s)) \<Longrightarrow> still s (s\<lparr>hs_ctx := mark_audit_degraded (hs_ctx s)\<rparr>)"
  by (simp add: still_def mark_audit_degraded_def set_audit_degraded_def upd_context_def core_of_def)

lemma record_audit_degraded_live:
  assumes "he_persistence env"
  shows "triple (live env es0) (record_audit_degraded env) (\<lambda>_. live env es0) (\<lambda>_. live env es0)"
  unfolding record_audit_degraded_def
proof (rule triple_and_then)
  show "triple (live env es0) (emit env Ev_AuditDegraded)
      (\<lambda>e s. announced env es0 both_running e s \<and> ds_audit_degraded (rc_durable_state (hs_ctx s))) (\<lambda>_. live env es0)"
    using emit_live [of env es0 Ev_AuditDegraded] emit_degraded_flag
    unfolding triple_def by (fastforce split: sum.splits)
  show "triple (\<lambda>s. announced env es0 both_running e s \<and> ds_audit_degraded (rc_durable_state (hs_ctx s)))
     (and_then (upd_ctx mark_audit_degraded) (\<lambda>_. persist_transition env e)) (\<lambda>_. live env es0) (\<lambda>_. live env es0)" for e
  proof (rule triple_and_then)
    show "triple (\<lambda>s. announced env es0 both_running e s \<and> ds_audit_degraded (rc_durable_state (hs_ctx s)))
      (upd_ctx mark_audit_degraded) (\<lambda>_. announced env es0 both_running e) (\<lambda>_. live env es0)"
      using still_carries(2) [OF mark_still] by (auto simp: triple_def upd_ctx_def)
  qed (rule persist_spec_journal [OF assms])
qed

section \<open>Operations of a started run\<close>

lemma keeps_triple: "keeps P m \<longleftrightarrow> triple P m (\<lambda>_. P) (\<lambda>_. P)"
proof
  assume "keeps P m"
  then show "triple P m (\<lambda>_. P) (\<lambda>_. P)"
    unfolding keeps_def triple_def by (metis (no_types, lifting) snd_conv sum.case_eq_if)
next
  assume "triple P m (\<lambda>_. P) (\<lambda>_. P)"
  then show "keeps P m" by (auto simp: keeps_def intro: triple_state)
qed

lemma live_still: "within still m \<Longrightarrow> keeps (live env es0) m"
  by (simp add: keeps_triple journal_still)

lemma live_emitted:
  "(\<And>e. triple (announced env es0 both_running e) (k e) (\<lambda>_. live env es0) (\<lambda>_. live env es0)) \<Longrightarrow>
   keeps (live env es0) (and_then (emit env kind) k)"
  unfolding keeps_triple by (rule triple_and_then [OF emit_live])

lemma live_terminalize:
  "he_persistence env \<Longrightarrow> keeps (live env es0) (terminalize_safety env t)"
  "he_persistence env \<Longrightarrow> keeps (live env es0) (terminalize_after_start_audit_failure env)"
  "he_persistence env \<Longrightarrow> keeps (live env es0) (record_audit_degraded env)"
  by (simp_all add: keeps_triple terminalize_live record_audit_degraded_live)

lemma live_apply_audit_failure:
  "he_persistence env \<Longrightarrow> keeps (live env es0) (apply_audit_failure env op ph ef k)"
  by (cases "he_audit_policy env") (simp_all add: apply_audit_failure_def keeps_err live_terminalize)

lemma live_settle:
  assumes "he_persistence env" "\<And>k. keeps (live env es0) (on_failure k)"
  shows "keeps (live env es0) (settle_audit env ph on_failure out)"
  using assms
  by (cases out) (auto simp: settle_audit_def intro!: keeps_rules live_terminalize)

lemma announced_audits:
  assumes p: "he_persistence env"
  shows "triple (announced env es0 both_running e) (audit_invocation env e op ph ef) (\<lambda>_. live env es0) (\<lambda>_. live env es0)"
    and "triple (announced env es0 both_running e) (audit_required env e op ph ef) (\<lambda>_. live env es0) (\<lambda>_. live env es0)"
    and "triple (announced env es0 both_running e) (audit_lifecycle env e op) (\<lambda>_. live env es0) (\<lambda>_. live env es0)"
    and "triple (announced env es0 both_running e) (audit_by_mode env mode e op ph ef) (\<lambda>_. live env es0) (\<lambda>_. live env es0)"
proof -
  note stored = triple_and_then [OF persist_spec_journal [OF p]]
  show invocation: "triple (announced env es0 both_running e) (audit_invocation env e op ph ef) (\<lambda>_. live env es0) (\<lambda>_. live env es0)"
    unfolding audit_invocation_def
    by (rule stored) (fold keeps_triple, intro keeps_rules live_settle p live_apply_audit_failure live_still still_audit)
  show required: "triple (announced env es0 both_running e) (audit_required env e op ph ef) (\<lambda>_. live env es0) (\<lambda>_. live env es0)"
    unfolding audit_required_def
    by (rule stored) (fold keeps_triple, intro keeps_rules live_settle p live_terminalize live_still still_audit)
  show "triple (announced env es0 both_running e) (audit_lifecycle env e op) (\<lambda>_. live env es0) (\<lambda>_. live env es0)"
    unfolding audit_lifecycle_def
    by (rule stored) (fold keeps_triple, intro keeps_rules live_apply_audit_failure p live_still still_audit_record)
  show "triple (announced env es0 both_running e) (audit_by_mode env mode e op ph ef) (\<lambda>_. live env es0) (\<lambda>_. live env es0)"
    by (cases mode) (simp_all add: audit_by_mode_def invocation required)
qed

lemma live_reserve:
  assumes "he_persistence env" "within still (on_ctx HE_BudgetExceeded m)"
  shows "keeps (live env es0) (reserve env m)"
  unfolding reserve_def
  by (rule keeps_on_result [OF live_still [OF assms(2)]])
     (auto intro!: keeps_rules live_terminalize assms(1) split: sum.split harness_error.split)

lemma live_guarded_call:
  assumes "he_persistence env" "keeps (live env es0) started" "keeps (live env es0) reap" "keeps (live env es0) answer"
  shows "keeps (live env es0) (guarded_call env started reap answer)"
  unfolding guarded_call_def
  by (rule keeps_and_then [OF live_still [OF still_ask]])
     (auto intro!: keeps_rules live_terminalize assms split: wait_outcome.split)

lemma live_log: "(\<And>e. x \<noteq> Tr_Persisted e) \<Longrightarrow> keeps (live env es0) (log_entry x)"
  by (rule live_still, rule still_log)

lemma live_preflight_tail:
  assumes "he_persistence env"
  shows "keeps (live env es0) (preflight env op)"
  unfolding preflight_def
  by (intro keeps_rules live_terminalize assms; rule live_still; intro still_rules)

lemma live_get_ctx: "keeps (live env es0) get_ctx" "keeps (live env es0) (ask f)" "keeps (live env es0) runtime_of"
  "keeps (live env es0) (lift_port g h)"
  by (rule live_still, intro still_rules)+

lemma announced_then:
  "triple (announced env es0 both_running e) m (\<lambda>_. live env es0) (\<lambda>_. live env es0) \<Longrightarrow>
   (\<And>x. keeps (live env es0) (k x)) \<Longrightarrow>
   triple (announced env es0 both_running e) (and_then m k) (\<lambda>_. live env es0) (\<lambda>_. live env es0)"
  unfolding keeps_triple by (rule triple_and_then)

lemmas live_rules = live_emitted announced_then announced_audits live_terminalize live_apply_audit_failure live_reserve
  live_guarded_call live_preflight_tail live_log live_get_ctx still_reservations keeps_rules

lemma live_loop_ops:
  assumes p: "he_persistence env"
  shows "keeps (live env es0) (begin_iteration env)" "keeps (live env es0) (record_loop_progress env progress)"
    "keeps (live env es0) (checkpoint env)" "keeps (live env es0) (start_graph env d n k m)"
    "keeps (live env es0) (enter_graph_node env n k m)" "keeps (live env es0) (restart_graph_node env prev n k m)"
    "keeps (live env es0) (complete_graph_node env attempt n key n' k m)"
  unfolding begin_iteration_def record_loop_progress_def checkpoint_def start_graph_def enter_graph_node_def
    restart_graph_node_def complete_graph_node_def
  by (intro live_rules p)+

text \<open>Recording the end of a tool call, also after the run was finished by cancellation or the deadline.\<close>

lemma live_not_running: "live env es0 s \<Longrightarrow> rc_status (hs_ctx s) \<noteq> Status_Running \<Longrightarrow> journal_ok env es0 never s"
  by (erule journal_ok_mono) (simp add: both_running_def)

lemma live_record_tool_terminal_event:
  "he_persistence env \<Longrightarrow> keeps (live env es0) (record_tool_terminal_event env k op mode)"
  unfolding record_tool_terminal_event_def by (intro live_rules)

lemma live_record_tool_terminal_after_runtime_error:
  assumes p: "he_persistence env"
  shows "keeps (live env es0) (record_tool_terminal_after_runtime_error env i op mode)"
  unfolding record_tool_terminal_after_runtime_error_def keeps_triple get_ctx_def
proof (rule triple_gets, rule triple_if)
  fix c :: run_context
  show "triple (\<lambda>s. live env es0 s \<and> c = hs_ctx s)
      (record_tool_terminal_event env (Ev_ToolInvocationAdapterFailed i) op mode) (\<lambda>_. live env es0) (\<lambda>_. live env es0)"
    by (rule triple_pre [OF live_record_tool_terminal_event [OF p, unfolded keeps_triple]]) simp
next
  fix c :: run_context
  assume c: "rc_status c \<noteq> Status_Running"
  have "triple (journal_ok env es0 never) (on_result (emit env (Ev_ToolInvocationAdapterFailed i)) (\<lambda>r. case r of
       Inr e \<Rightarrow> audit_terminal_best_effort env e | Inl _ \<Rightarrow> upd_ctx mark_audit_degraded))
     (\<lambda>_. journal_ok env es0 never) (\<lambda>_. journal_ok env es0 never)"
    by (rule triple_on_result [OF emit_never]) (auto intro: best_effort_never [OF p] mark_never)
  then show "triple (\<lambda>s. live env es0 s \<and> c = hs_ctx s) (on_result (emit env (Ev_ToolInvocationAdapterFailed i)) (\<lambda>r. case r of
       Inr e \<Rightarrow> audit_terminal_best_effort env e | Inl _ \<Rightarrow> upd_ctx mark_audit_degraded)) (\<lambda>_. live env es0) (\<lambda>_. live env es0)"
    by (rule triple_conseq) (use c in \<open>auto intro: live_not_running journal_ok_never\<close>)
qed

lemma live_finish_tool_invocation:
  "he_persistence env \<Longrightarrow> keeps (live env es0) (finish_tool_invocation env i op mode r)"
  unfolding finish_tool_invocation_def
  by (auto intro!: keeps_rules live_record_tool_terminal_event live_record_tool_terminal_after_runtime_error
        split: sum.split harness_error.split)

lemma live_model_and_tools:
  assumes p: "he_persistence env"
  shows "keeps (live env es0) (invoke_model_port env q)" "keeps (live env es0) (invoke_tool_port env pt call)"
    "keeps (live env es0) (invoke_contained_tool_port env pt call)"
    "keeps (live env es0) (invoke_managed_tool_port env pt call)" "keeps (live env es0) (await_approval env a)"
    "keeps (live env es0) (reserve_and_record_tool_started env i name cap op mode)"
    "keeps (live env es0) (record_policy_denied env i name cap op)"
    "keeps (live env es0) (record_containment_failed env i name cap kind)"
    "keeps (live env es0) (record_approval_event env k)" "keeps (live env es0) (bind_grounding env mid g)"
  unfolding invoke_model_port_def invoke_tool_port_def invoke_contained_tool_port_def invoke_managed_tool_port_def
    await_approval_def reserve_and_record_tool_started_def record_policy_denied_def record_containment_failed_def
    record_approval_event_def bind_grounding_def
  by (intro live_rules p; simp)+

lemmas tool_rules = live_rules live_model_and_tools live_finish_tool_invocation

lemma live_invoke_model_internal:
  assumes p: "he_persistence env"
  shows "keeps (live env es0) (invoke_model_internal env q g)"
  unfolding invoke_model_internal_def
  by (intro live_rules live_model_and_tools p; split harness_error.split; intro conjI allI impI; intro live_rules p)

text \<open>
  An interrupted retrieval marks the audit as degraded without an event that says so. The checkpoint written next then
  holds a flag that the journal does not explain, so the audit sink has to acknowledge these events.
\<close>

definition interruptions_audited :: "harness_env \<Rightarrow> bool" where
  "interruptions_audited env \<longleftrightarrow> (\<forall>t e rid k. ev_kind e = Ev_KnowledgeRetrievalFailed rid k \<longrightarrow> he_audit env t e = None)"

lemma record_knowledge_interruption_audited:
  assumes "interruptions_audited env"
  shows "record_knowledge_interruption env rid kind =
     and_then (emit env (Ev_KnowledgeRetrievalFailed rid kind)) (\<lambda>e.
     and_then (persist_transition env e) (\<lambda>_. and_then (audit_record env e) (\<lambda>_. ok ())))"
proof
  fix s
  have kind: "ev_kind e = Ev_KnowledgeRetrievalFailed rid kind"
    if "emit env (Ev_KnowledgeRetrievalFailed rid kind) s = (Inr e, t)" for e t
    using triple_returns [OF emit_spec [OF carried_const [of env True]]] that by blast
  have "and_then (audit_record env e) (\<lambda>r. if r = None then ok () else upd_ctx mark_audit_degraded) t
      = and_then (audit_record env e) (\<lambda>_. ok ()) t" if "ev_kind e = Ev_KnowledgeRetrievalFailed rid kind" for e t
    using assms that by (simp add: interruptions_audited_def audit_record_cases and_then_apply)
  then have "and_then (persist_transition env e) (\<lambda>_. and_then (audit_record env e) (\<lambda>r. if r = None then ok ()
        else upd_ctx mark_audit_degraded)) t
      = and_then (persist_transition env e) (\<lambda>_. and_then (audit_record env e) (\<lambda>_. ok ())) t"
    if "ev_kind e = Ev_KnowledgeRetrievalFailed rid kind" for e t
    using that by (auto simp: and_then_apply [of "persist_transition env e"] split: prod.split sum.split)
  with kind show "record_knowledge_interruption env rid kind s =
     and_then (emit env (Ev_KnowledgeRetrievalFailed rid kind)) (\<lambda>e.
     and_then (persist_transition env e) (\<lambda>_. and_then (audit_record env e) (\<lambda>_. ok ()))) s"
    unfolding record_knowledge_interruption_def and_then_apply [of "emit env (Ev_KnowledgeRetrievalFailed rid kind)"]
    by (simp split: prod.split sum.split)
qed

lemma live_retrieve_knowledge:
  assumes p: "he_persistence env" and audited: "interruptions_audited env"
  shows "keeps (live env es0) (retrieve_knowledge env q)"
proof -
  have interruption: "keeps (live env es0) (record_knowledge_interruption env rid kind)" for rid kind
    unfolding record_knowledge_interruption_audited [OF audited]
    by (rule live_emitted, rule triple_and_then [OF persist_spec_journal [OF p]], fold keeps_triple)
       (intro keeps_rules live_still still_audit_record)
  have finish: "keeps (live env es0) (finish_retrieval env rid r)" for rid r
    unfolding finish_retrieval_def record_knowledge_failure_def by (intro live_rules p)
  have wait: "keeps (live env es0) (await_knowledge env port q rid)" for port rid
    unfolding await_knowledge_def
    by (intro live_rules p; split wait_outcome.split; intro conjI allI impI; intro live_rules p interruption finish; simp)
  show ?thesis
    unfolding retrieve_knowledge_def by (intro live_rules p wait)
qed

lemma live_prepare_action:
  assumes p: "he_persistence env"
  shows "keeps (live env es0) (prepare_action env i)"
  unfolding prepare_action_def record_action_rejected_def by (intro live_rules p)

lemma live_invoke_read_only:
  assumes p: "he_persistence env"
  shows "keeps (live env es0) (invoke_read_only env x call name cap)"
  by (cases x)
     (simp_all add: invoke_read_only_def invoke_direct_tool_def invoke_managed_tool_def invoke_contained_read_only_def
        keeps_and_then keeps_on_result live_model_and_tools live_finish_tool_invocation p)

lemma live_invoke_tool:
  assumes p: "he_persistence env"
  shows "keeps (live env es0) (invoke_tool env call)"
  unfolding invoke_tool_def Let_def
  by (rule keeps_and_then [OF live_preflight_tail [OF p]])
     (auto intro!: keeps_rules live_model_and_tools live_invoke_read_only p
        split: option.split authorization_decision.split)

lemma live_settle_approval:
  assumes p: "he_persistence env"
  shows "keeps (live env es0) (settle_approval env pt call q d)"
  unfolding settle_approval_def invoke_granted_local_write_def
  by (rule keeps_and_then [OF live_preflight_tail [OF p]])
     (auto intro!: keeps_rules live_model_and_tools live_preflight_tail live_finish_tool_invocation p
        split: approval_outcome.split)

lemma live_invoke_approved_local_write:
  assumes p: "he_persistence env"
  shows "keeps (live env es0) (invoke_approved_local_write env pt call a)"
  unfolding invoke_approved_local_write_def Let_def
  by (intro live_rules live_model_and_tools live_settle_approval p;
      split harness_error.split; intro conjI allI impI; intro live_rules live_model_and_tools p)

lemma live_invoke_validated_action:
  assumes p: "he_persistence env"
  shows "keeps (live env es0) (invoke_validated_action env a)"
  unfolding invoke_validated_action_def Let_def
  by (intro live_rules p; split capability_kind.split authorization_decision.split execution_binding.split;
      auto intro!: keeps_rules live_model_and_tools live_invoke_read_only live_invoke_approved_local_write live_get_ctx p
        split: authorization_decision.split execution_binding.split)

section \<open>Beginning and ending a run\<close>

lemma announced_never: "announced env es0 never e s \<Longrightarrow> announced env es0 A e s"
  by (auto simp: announced_def linked_def never_def)

lemma finished_live:
  assumes p: "he_persistence env" and k: "\<And>c e. ev_kind e = kind c \<Longrightarrow> finishing e"
  shows "triple (\<lambda>s. live env es0 s \<and> rc_status (hs_ctx s) = Status_Running)
     (and_then (on_ctx HE_Context (commit_finished out)) (\<lambda>_. and_then get_ctx (\<lambda>c. and_then (emit env (kind c)) (\<lambda>e.
        audit_lifecycle env e op)))) (\<lambda>_. live env es0) (\<lambda>_. live env es0)"
proof (rule triple_and_then [OF commit_finished_ends], rule triple_and_then)
  show "triple (journal_ok env es0 ending) get_ctx (\<lambda>_. journal_ok env es0 ending) (\<lambda>_. live env es0)"
    by (simp add: triple_def get_ctx_def)
  show "triple (journal_ok env es0 ending) (and_then (emit env (kind c)) (\<lambda>e. audit_lifecycle env e op))
      (\<lambda>_. live env es0) (\<lambda>_. live env es0)" for c
    by (rule triple_and_then [OF triple_weaken_never [OF emit_ending [OF k]]], assumption,
        rule triple_pre [OF announced_audits(3) [OF p]], rule announced_never)
qed

text \<open>A run that was not created yet, on a database that knows nothing of it.\<close>

definition unborn :: "harness_env \<Rightarrow> harness_state \<Rightarrow> bool" where
  "unborn env s \<longleftrightarrow>
     rc_status (hs_ctx s) = Status_Pending \<and> rc_next_event_sequence (hs_ctx s) = 0
     \<and> rc_durable_state (hs_ctx s) = DurableRunState_initial (ctx_run_record (hs_ctx s))
     \<and> st_user_version (hs_store s) = CURRENT_STORE_SCHEMA_VERSION
     \<and> rows_of (hs_store s) (rc_run_id (hs_ctx s)) = [] \<and> persisted_events (hs_trace s) = []"

definition only_pending :: agreement where
  "only_pending q d \<longleftrightarrow> q = Status_Pending"

definition durable_inv :: "harness_env \<Rightarrow> agent_event list \<Rightarrow> harness_state \<Rightarrow> bool" where
  "durable_inv env es0 s \<longleftrightarrow>
     live env es0 s \<or> es0 = [] \<and> (unborn env s \<or> journal_ok env [] only_pending s)"

lemma durable_inv_still: "still s t \<Longrightarrow> durable_inv env es0 s \<Longrightarrow> durable_inv env es0 t"
  using still_sel [of s t] still_carries(1) [of s t]
  by (auto simp: durable_inv_def unborn_def ctx_run_record_def)

lemma durable_inv_running:
  "durable_inv env es0 s \<Longrightarrow> rc_status (hs_ctx s) = Status_Running \<Longrightarrow> live env es0 s"
  by (auto simp: durable_inv_def unborn_def only_pending_def elim: journal_ok_mono)

lemma live_durable_inv: "live env es0 s \<Longrightarrow> durable_inv env es0 s"
  by (simp add: durable_inv_def)

lemma require_status_spec:
  "triple I (require_status op q) (\<lambda>_ s. I s \<and> status_satisfies q (rc_status (hs_ctx s))) (\<lambda>_. I)"
  by (auto simp: triple_def require_status_def and_then_apply get_ctx_def split: if_splits)

lemma status_satisfies_iff:
  "status_satisfies Require_Running q \<longleftrightarrow> q = Status_Running" "status_satisfies Require_Pending q \<longleftrightarrow> q = Status_Pending"
  by (cases q; simp)+

lemma preflight_running:
  assumes p: "he_persistence env"
  shows "triple (live env es0) (preflight env op)
     (\<lambda>_ s. live env es0 s \<and> rc_status (hs_ctx s) = Status_Running) (\<lambda>_. live env es0)"
proof -
  let ?P = "\<lambda>s. live env es0 s \<and> rc_status (hs_ctx s) = Status_Running"
  have guard: "triple (live env es0) (require_status op Require_Running) (\<lambda>_. ?P) (\<lambda>_. live env es0)"
    by (rule triple_conseq [OF require_status_spec]) (auto simp: status_satisfies_iff)
  have stop: "triple ?P (and_then (terminalize_safety env t) (\<lambda>_. err x)) (\<lambda>_. ?P) (\<lambda>_. live env es0)" for t x
    by (rule triple_and_then [OF triple_pre [OF terminalize_live(1) [OF p]]]) (auto intro: triple_err)
  have runtime: "triple ?P runtime_of (\<lambda>_. ?P) (\<lambda>_. live env es0)"
    and ask: "triple ?P (ask f) (\<lambda>_. ?P) (\<lambda>_. live env es0)" for f :: "nat \<Rightarrow> 'y"
    by (rule triple_conseq [OF triple_still [of _ ?P]], rule still_rules; auto intro: still_carries simp: still_sel)+
  show ?thesis
    unfolding preflight_def
    by (rule triple_and_then [OF guard], rule triple_and_then [OF runtime],
        rule triple_and_then [OF ask], rule triple_if, rule stop,
        rule triple_and_then [OF ask], rule triple_if, rule stop, rule triple_ok)
qed

lemma live_endings:
  assumes p: "he_persistence env"
  shows "keeps (live env es0) (complete_run env)" "keeps (live env es0) (fail_run env kind)"
    "keeps (live env es0) (complete_graph env attempt n)" "keeps (live env es0) (fail_graph env attempt n f)"
    "keeps (live env es0) (cancel_run env)"
proof -
  note pre = triple_and_then [OF preflight_running [OF p]]
  have ctx_free: "and_then (emit env k) h = and_then get_ctx (\<lambda>_. and_then (emit env k) h)" for k and h :: "agent_event \<Rightarrow> unit hm"
    by (simp add: fun_eq_iff and_then_apply get_ctx_def)
  show "keeps (live env es0) (complete_run env)"
    unfolding complete_run_def keeps_triple
    by (rule pre, subst ctx_free, rule finished_live [OF p]) (simp add: finishing_def)
  show "keeps (live env es0) (fail_run env kind)"
    unfolding fail_run_def keeps_triple
    by (rule pre, subst ctx_free, rule finished_live [OF p]) (simp add: finishing_def)
  show "keeps (live env es0) (complete_graph env attempt n)"
    unfolding complete_graph_def keeps_triple
    by (rule pre, rule finished_live [OF p]) (simp add: finishing_def)
  show "keeps (live env es0) (fail_graph env attempt n f)"
    unfolding fail_graph_def keeps_triple
    by (rule pre, rule finished_live [OF p]) (simp add: finishing_def)
  let ?P = "\<lambda>s. live env es0 s \<and> rc_status (hs_ctx s) = Status_Running"
  have guard: "triple (live env es0) (require_status Op_CancelRun Require_Running) (\<lambda>_. ?P) (\<lambda>_. live env es0)"
    by (rule triple_conseq [OF require_status_spec]) (auto simp: status_satisfies_iff)
  have cancel: "triple ?P (on_ctx HE_Context ctx_request_cancel) (\<lambda>_. ?P) (\<lambda>_. live env es0)"
    by (rule triple_conseq [OF triple_still [OF still_reservations(6), of ?P]]) (auto intro: still_carries simp: still_sel)
  have finishing: "finishing e" if "ev_kind e = Ev_RunFinished Outcome_Cancelled" for e using that by (simp add: finishing_def)
  have tail: "triple (journal_ok env es0 ending) (and_then (emit env (Ev_RunFinished Outcome_Cancelled)) (audit_terminal_best_effort env))
      (\<lambda>_. journal_ok env es0 never) (\<lambda>_. journal_ok env es0 never)"
    by (rule triple_and_then [OF emit_ending best_effort_never [OF p]]) (rule finishing)
  show "keeps (live env es0) (cancel_run env)"
    unfolding cancel_run_def keeps_triple
    by (rule triple_and_then [OF guard], rule triple_and_then [OF cancel], rule triple_and_then [OF commit_finished_ends],
        rule triple_conseq [OF tail])
       (auto intro: journal_ok_never)
qed

text \<open>An operation that begins with a check of the status does nothing to a run that was not started.\<close>

lemma not_live_pending:
  "durable_inv env es0 s \<Longrightarrow> \<not> live env es0 s \<Longrightarrow> rc_status (hs_ctx s) = Status_Pending"
  using journal_ok_mono [of env "[]" only_pending s both_running]
  by (auto simp: durable_inv_def unborn_def only_pending_def)

lemma refused_when_pending:
  assumes "rc_status (hs_ctx s) = Status_Pending"
  shows "snd (and_then (require_status op Require_Running) k s) = s" "snd (and_then (preflight env op) k s) = s"
    "snd (preflight env op s) = s"
  using assms by (auto simp: preflight_def require_status_def and_then_apply get_ctx_def)

lemma started_ops:
  assumes "keeps (live env es0) m" "\<And>s. rc_status (hs_ctx s) = Status_Pending \<Longrightarrow> snd (m s) = s"
  shows "keeps (durable_inv env es0) m"
proof (rule keepsI)
  fix s assume s: "durable_inv env es0 s"
  show "durable_inv env es0 (snd (m s))"
  proof (cases "live env es0 s")
    case True
    with assms(1) show ?thesis by (simp add: durable_inv_def keepsD)
  next
    case False
    with s assms(2) not_live_pending show ?thesis by simp
  qed
qed

section \<open>Starting a run\<close>

definition names_run :: "run_record \<Rightarrow> run_context \<Rightarrow> bool" where
  "names_run r c \<longleftrightarrow> rr_key r = context_key c \<and> rr_budget r = rc_budget c \<and> rr_recovery_contract r = rc_recovery_contract c"

text \<open>The run was created; no event was numbered yet. \<open>started\<close> is the start time that was committed, if any.\<close>

definition born :: "harness_env \<Rightarrow> u64 option \<Rightarrow> harness_state \<Rightarrow> bool" where
  "born env started s \<longleftrightarrow>
     (\<exists>r. stored env [] r s \<and> rr_key r = context_key (hs_ctx s) \<and> persisted_events (hs_trace s) = []
        \<and> rc_next_event_sequence (hs_ctx s) = 0
        \<and> rc_status (hs_ctx s) = (if started = None then Status_Pending else Status_Running)
        \<and> rc_durable_state (hs_ctx s) =
            (case started of None \<Rightarrow> DurableRunState_initial r | Some ms \<Rightarrow> set_started_at ms (DurableRunState_initial r)))"

lemma initial_of_names: "names_run r c \<Longrightarrow> DurableRunState_initial r = DurableRunState_initial (ctx_run_record c)"
  by (simp add: names_run_def DurableRunState_initial_def ctx_run_record_def RunRecord_new_def)

lemma born_pending: "born env None s \<Longrightarrow> durable_inv env [] s"
  by (auto simp: born_def durable_inv_def journal_ok_def linked_def in_step_def expected_sequence_def only_pending_def
        context_key_def DurableRunState_initial_def intro!: exI)

lemma born_still: "still s t \<Longrightarrow> born env started s \<Longrightarrow> born env started t"
  using still_sel [of s t] by (auto simp: born_def stored_def)

lemma create_run_refused:
  assumes "journal_ok env es0 A s" "rr_key r = context_key (hs_ctx s)"
  shows "\<exists>x. create_run (he_store_codec env) io r cp (hs_store s) = (Inl x, hs_store s)"
proof -
  obtain row where "st_runs (hs_store s) (key_run_id (rr_key r)) = Some row"
    using assms by (auto simp: journal_ok_def stored_def holds_run_def)
  then show ?thesis
    by (auto simp: create_run_def and_then_apply transaction_def insert_run_def split: sum.split option.split)
qed

lemma create_run_born:
  assumes "unborn env s" "names_run r (hs_ctx s)"
    and "create_run (he_store_codec env) io r (DurableCheckpoint_new (rc_durable_state (hs_ctx s))) (hs_store s) = (Inr (), st)"
  shows "born env None (s\<lparr>hs_store := st, hs_tick := n, hs_trace := hs_trace s @ [Tr_Created r]\<rparr>)"
proof -
  have init: "rc_durable_state (hs_ctx s) = DurableRunState_initial r"
    using assms(1,2) initial_of_names by (simp add: unborn_def)
  have "holds_run (he_store_codec env) st (rr_key r) r (DurableCheckpoint_new (DurableRunState_initial r)) []"
    using create_run_ok [OF assms(3)] assms(1,2) init by (auto simp: unborn_def names_run_def context_key_def)
  moreover have "sound_journal (he_codec env) r (DurableCheckpoint_new (DurableRunState_initial r)) []"
    by (simp add: sound_journal_def)
  ultimately show ?thesis
    using assms(1,2) init
    by (auto simp: born_def stored_def unborn_def names_run_def intro!: exI [of _ r])
qed

lemma create_spec:
  assumes "he_persistence env"
  shows "triple (\<lambda>s. durable_inv env es0 s \<and> rc_status (hs_ctx s) = Status_Pending \<and> names_run r (hs_ctx s))
     (and_then get_ctx (\<lambda>c. and_then (store_call (\<lambda>io. create_run (he_store_codec env) io r
          (DurableCheckpoint_new (rc_durable_state c))) env) (\<lambda>_. log_entry (Tr_Created r))))
     (\<lambda>_ s. es0 = [] \<and> born env None s) (\<lambda>_. durable_inv env es0)"
  unfolding triple_def
proof (intro allI impI)
  fix s x t
  let ?I = "durable_inv env es0"
  assume s: "?I s \<and> rc_status (hs_ctx s) = Status_Pending \<and> names_run r (hs_ctx s)"
    and run: "and_then get_ctx (\<lambda>c. and_then (store_call (\<lambda>io. create_run (he_store_codec env) io r
          (DurableCheckpoint_new (rc_durable_state c))) env) (\<lambda>_. log_entry (Tr_Created r))) s = (x, t)"
  obtain y st where c: "create_run (he_store_codec env) (he_io env (hs_tick s)) r
      (DurableCheckpoint_new (rc_durable_state (hs_ctx s))) (hs_store s) = (y, st)" by fastforce
  show "case x of Inl _ \<Rightarrow> ?I t | Inr _ \<Rightarrow> es0 = [] \<and> born env None t"
  proof (cases y)
    case (Inl e)
    then have "st = hs_store s" using c create_run_error by blast
    with c Inl run have "x = Inl (HE_Persistence e)" "still s t"
      by (auto simp: and_then_apply get_ctx_def store_call_def still_def)
    with s durable_inv_still show ?thesis by auto
  next
    case (Inr u)
    have t: "x = Inr ()" "t = s\<lparr>hs_store := st, hs_tick := Suc (hs_tick s), hs_trace := hs_trace s @ [Tr_Created r]\<rparr>"
      using run c Inr by (auto simp: and_then_apply get_ctx_def store_call_def log_entry_def)
    have "\<not> journal_ok env es A s" for es A
      using s c Inr create_run_refused [of env es A s r "he_io env (hs_tick s)" "DurableCheckpoint_new (rc_durable_state (hs_ctx s))"]
      by (auto simp: names_run_def)
    with s have "unborn env s" "es0 = []" by (auto simp: durable_inv_def)
    with create_run_born [of env s r "he_io env (hs_tick s)" st "Suc (hs_tick s)"] s c Inr t show ?thesis by simp
  qed
qed

lemma commit_running_spec:
  "triple (born env None) (on_ctx HE_Context (commit_running now wall))
     (\<lambda>_ s. \<exists>ms. born env (Some ms) s) (\<lambda>_. born env None)"
  by (auto simp: triple_def on_ctx_def commit_running_def born_def stored_def context_key_def
        split: option.splits sum.splits) blast

lemma start_event_same:
  "apply_event cd (AgentEvent_new i q (Ev_RunStarted ms)) (set_started_at ms (DurableRunState_initial r)) =
   apply_event cd (AgentEvent_new i q (Ev_RunStarted ms)) (DurableRunState_initial r)
   \<or> (\<exists>f t. apply_event cd (AgentEvent_new i q (Ev_RunStarted ms)) (set_started_at ms (DurableRunState_initial r)) = Inl (f, t))"
  by (auto simp: apply_event_def AgentEvent_new_def apply_run_started_def set_started_at_def upd_context_def
        DurableRunState_initial_def expected_sequence_def reject_def split: option.split)

lemma emit_started_spec:
  "triple (born env (Some ms)) (emit env (Ev_RunStarted ms)) (announced env [] both_running)
     (\<lambda>_. journal_ok env [] never)"
  unfolding triple_def
proof (intro allI impI)
  fix s x t assume s: "born env (Some ms) s" and run: "emit env (Ev_RunStarted ms) s = (x, t)"
  let ?cd = "he_codec env" and ?k = "Ev_RunStarted ms"
  from s obtain r where r: "stored env [] r s" "rr_key r = context_key (hs_ctx s)" "persisted_events (hs_trace s) = []"
    "rc_next_event_sequence (hs_ctx s) = 0" "rc_status (hs_ctx s) = Status_Running"
    "rc_durable_state (hs_ctx s) = set_started_at ms (DurableRunState_initial r)"
    by (auto simp: born_def)
  have in_step: "in_step (hs_ctx s)"
    using r by (simp add: in_step_def set_started_at_def upd_context_def DurableRunState_initial_def
        expected_sequence_def context_key_def)
  obtain y c where n: "next_event ?cd ?k (hs_ctx s) = (y, c)" by fastforce
  have core: "core_of c = core_of (hs_ctx s)" using next_event_core [of ?cd ?k "hs_ctx s"] n by simp
  show "case x of Inl _ \<Rightarrow> journal_ok env [] never t | Inr e \<Rightarrow> announced env [] both_running e t"
  proof (cases y)
    case (Inl e)
    with n in_step have "dead c" by (auto intro: next_event_refused_dead)
    moreover have "t = s\<lparr>hs_ctx := c\<rparr>" "x = Inl (HE_Context e)" using run n Inl by (simp_all add: emit_run)
    ultimately show ?thesis using r(1) core stored_cong [of t s] by (auto simp: journal_ok_def)
  next
    case (Inr e)
    have t: "t = s\<lparr>hs_ctx := c\<rparr>" "x = Inr e" using run n Inr by (simp_all add: emit_run)
    note n' = n [unfolded Inr]
    from n' obtain m w where e: "e = AgentEvent_new (rc_run_id (hs_ctx s)) 0 ?k" "checked_next 0 = Some m"
      and w: "apply_event ?cd e (set_started_at ms (DurableRunState_initial r)) = Inr w"
      and c: "c = (hs_ctx s)\<lparr>rc_next_event_sequence := m, rc_durable_state := w\<rparr>"
      using r by (auto simp: next_event_ok)
    have w': "apply_event ?cd e (DurableRunState_initial r) = Inr w"
      using w start_event_same [of ?cd "rc_run_id (hs_ctx s)" 0 ms r] unfolding e(1) by auto
    have "ds_status w = Status_Running"
      using w' e(1) by (auto simp: apply_event_Inr_iff AgentEvent_new_def apply_run_started_def upd_context_def reject_def split: if_splits)
    moreover have "in_step c" using next_event_in_step [OF n' in_step] .
    moreover have "unat m = 1" using e(2) by (simp add: checked_next_def checked_inc_unat)
    ultimately have "linked ?cd r [e] both_running c"
      using w' c r by (simp add: linked_def replay_Cons both_running_def)
    moreover have "replay ?cd [e] (DurableRunState_initial r) = Inr (rc_durable_state c)"
      using w' c by (simp add: replay_Cons)
    moreover have "unat (ev_sequence e) = 0" using e by (simp add: AgentEvent_new_def)
    ultimately show ?thesis
      using r(1,3) core t stored_cong [of t s env "[]" r] by (auto simp: announced_def intro!: exI [of _ r] exI [of _ "[]"])
  qed
qed

lemma start_run_record_spec:
  assumes p: "he_persistence env"
  shows "triple (\<lambda>s. durable_inv env es0 s \<and> names_run r (hs_ctx s)) (start_run_record env r)
     (\<lambda>_. durable_inv env es0) (\<lambda>_. durable_inv env es0)"
proof -
  let ?I = "\<lambda>_::harness_error. durable_inv env es0"
  let ?B = "\<lambda>s. es0 = [] \<and> born env None s"
  have guard: "triple (\<lambda>s. durable_inv env es0 s \<and> names_run r (hs_ctx s)) (require_status Op_StartRun Require_Pending)
      (\<lambda>_ s. durable_inv env es0 s \<and> rc_status (hs_ctx s) = Status_Pending \<and> names_run r (hs_ctx s)) ?I"
    by (rule triple_conseq [OF require_status_spec [of "\<lambda>s. durable_inv env es0 s \<and> names_run r (hs_ctx s)"]])
       (auto simp: status_satisfies_iff)
  have ask: "triple ?B (ask f) (\<lambda>_. ?B) ?I" for f :: "nat \<Rightarrow> 'y"
    by (rule triple_conseq [OF triple_still [OF still_ask, of ?B]]) (auto intro: born_still born_pending)
  have commit: "triple ?B (on_ctx HE_Context (commit_running now wall)) (\<lambda>_ s. es0 = [] \<and> (\<exists>ms. born env (Some ms) s)) ?I" for now wall
    by (rule triple_lift, rule triple_conseq [OF commit_running_spec]) (auto intro: born_pending)
  have tail: "triple (announced env [] both_running e) (on_result (audit_lifecycle env e Op_StartRun) (\<lambda>r.
        case r of Inr _ \<Rightarrow> ok () | Inl x \<Rightarrow> and_then (if he_audit_policy env = FailClosed
            then terminalize_after_start_audit_failure env else ok ()) (\<lambda>_. err x))) (\<lambda>_. live env []) (\<lambda>_. live env [])" for e
    by (rule triple_on_result [OF announced_audits(3) [OF p]])
       (auto simp flip: keeps_triple intro!: keeps_rules live_terminalize p)
  have event: "triple (\<lambda>s. es0 = [] \<and> born env (Some ms) s) (and_then (emit env (Ev_RunStarted ms)) (\<lambda>e.
        on_result (audit_lifecycle env e Op_StartRun) (\<lambda>r.
        case r of Inr _ \<Rightarrow> ok () | Inl x \<Rightarrow> and_then (if he_audit_policy env = FailClosed
            then terminalize_after_start_audit_failure env else ok ()) (\<lambda>_. err x))))
      (\<lambda>_. durable_inv env es0) ?I" for ms
    by (rule triple_lift, rule triple_conseq [OF triple_and_then [OF triple_weaken_never [OF emit_started_spec] tail]])
       (auto intro: live_durable_inv)
  show ?thesis
    unfolding start_run_record_def if_P [OF p]
  proof (rule triple_and_then [OF guard], rule triple_and_then [OF create_spec [OF p]], rule triple_and_then [OF ask],
      rule triple_and_then [OF ask], rule triple_and_then [OF commit], unfold get_ctx_def, rule triple_gets, goal_cases)
    case (1 _ _ now wall _ c)
    show ?case
    proof (cases "ctx_started_at_unix_millis c")
      case (Inl x)
      then show ?thesis
        by (auto simp: triple_def ctx_started_at_unix_millis_def born_def set_started_at_def upd_context_def split: option.splits)
    next
      case (Inr ms)
      then have started: "ms' = ms" if "born env (Some ms') s" "c = hs_ctx s" for s ms'
        using that by (auto simp: ctx_started_at_unix_millis_def born_def set_started_at_def upd_context_def)
      show ?thesis
        unfolding Inr sum.case by (rule triple_pre [OF event]) (use started in blast)
    qed
  qed
qed

section \<open>Sessions\<close>

lemma start_run_inv:
  assumes p: "he_persistence env"
  shows "keeps (durable_inv env es0) (start_run env)"
    "keeps (durable_inv env es0) (start_run_with_authorization env a)"
proof -
  have names: "names_run (ctx_run_record c) c" "names_run (with_authorization a (ctx_run_record c)) c" for c
    by (simp_all add: names_run_def ctx_run_record_def RunRecord_new_def with_authorization_def)
  show "keeps (durable_inv env es0) (start_run env)"
    unfolding start_run_def keeps_triple get_ctx_def
    by (rule triple_gets, rule triple_pre [OF start_run_record_spec [OF p]]) (auto simp: names)
  show "keeps (durable_inv env es0) (start_run_with_authorization env a)"
    unfolding start_run_with_authorization_def keeps_triple get_ctx_def
    by (rule triple_gets, rule triple_pre [OF start_run_record_spec [OF p]]) (auto simp: names)
qed

definition explained :: "harness_env \<Rightarrow> run_call \<Rightarrow> bool" where
  "explained env call \<longleftrightarrow> (\<forall>q. call = Call_RetrieveKnowledge q \<longrightarrow> interruptions_audited env)"

lemma perform_durable:
  assumes p: "he_persistence env" and "explained env call"
  shows "keeps (durable_inv env es0) (perform env call)"
proof -
  have drop: "keeps (durable_inv env es0) (discard m)" if "keeps (durable_inv env es0) m" for m :: "'x hm"
    unfolding discard_def by (rule keeps_on_result [OF that]) (rule keeps_ok)
  show ?thesis
  proof (cases call)
    case Call_Start
    then show ?thesis by (simp add: drop start_run_inv [OF p])
  next
    case (Call_StartAuthorized a)
    then show ?thesis by (simp add: drop start_run_inv [OF p])
  next
    case (Call_RetrieveKnowledge q)
    then have "interruptions_audited env" using assms(2) by (simp add: explained_def)
    then have "keeps (durable_inv env es0) (retrieve_knowledge env q)"
      by (intro started_ops live_retrieve_knowledge [OF p]) (simp_all add: retrieve_knowledge_def refused_when_pending)
    then show ?thesis using Call_RetrieveKnowledge by (simp add: drop)
  next
    case (Call_InvokeGrounded r q)
    have "keeps (durable_inv env es0) (invoke_model_internal env x g)" for x g
      by (rule started_ops [OF live_invoke_model_internal [OF p]]) (simp add: invoke_model_internal_def refused_when_pending)
    then show ?thesis using Call_InvokeGrounded by (simp add: drop invoke_grounded_model_def keeps_err)
  qed (simp_all, (rule drop, rule started_ops,
      (rule live_loop_ops [OF p] live_endings [OF p] live_invoke_model_internal [OF p] live_invoke_tool [OF p]
        live_invoke_validated_action [OF p] live_prepare_action [OF p]),
      simp add: begin_iteration_def record_loop_progress_def checkpoint_def start_graph_def enter_graph_node_def
        restart_graph_node_def complete_graph_node_def complete_graph_def fail_graph_def complete_run_def fail_run_def
        cancel_run_def invoke_model_internal_def invoke_tool_def invoke_validated_action_def
        prepare_action_def refused_when_pending)+)
qed

lemma session_durable:
  assumes "he_persistence env" "list_all (explained env) calls"
    "durable_inv env es0 \<lparr>hs_ctx = c, hs_store = st, hs_tick = 0, hs_trace = []\<rparr>"
  shows "durable_inv env es0 (session env c st calls)"
proof -
  have "keeps (durable_inv env es0) (perform_all env calls)"
    using assms(2)
    by (induction calls) (auto simp: keeps_ok intro!: keeps_and_then perform_durable [OF assms(1)])
  with assms(3) show ?thesis unfolding session_def by (rule keepsD [rotated])
qed

lemma unborn_new:
  "st_user_version st = CURRENT_STORE_SCHEMA_VERSION \<Longrightarrow> rows_of st i = [] \<Longrightarrow>
   unborn env \<lparr>hs_ctx = new_with_recovery_contract i q b k, hs_store = st, hs_tick = 0, hs_trace = []\<rparr>"
  by (simp add: unborn_def new_with_recovery_contract_def ctx_run_record_def context_key_def)

lemma session_journal_ok:
  assumes "he_persistence env" "st_user_version st = CURRENT_STORE_SCHEMA_VERSION" "rows_of st i = []"
    and s: "s = session env (new_with_recovery_contract i q b k) st calls" and "persisted_events (hs_trace s) \<noteq> []"
    and explained: "list_all (explained env) calls"
  shows "\<exists>A. journal_ok env [] A s"
proof -
  have "durable_inv env [] s"
    unfolding s by (rule session_durable [OF assms(1) explained]) (simp add: durable_inv_def unborn_new [OF assms(2,3)])
  with assms(5) show ?thesis by (auto simp: durable_inv_def unborn_def)
qed

text \<open>What the stored journal is worth after a crash.\<close>

lemma journal_ok_recovers:
  assumes ok: "journal_ok env es0 A s" and codec: "store_codec_ok (he_store_codec env)"
    and last: "finish_last (es0 @ persisted_events (hs_trace s))"
    and len: "length (es0 @ persisted_events (hs_trace s)) < 2 ^ 64"
  shows "\<exists>l u. load_run (he_store_codec env) None (context_key (hs_ctx s)) (hs_store s) = Inr l
     \<and> lr_events l = es0 @ persisted_events (hs_trace s)
     \<and> rr_budget (lr_record l) = rc_budget (hs_ctx s)
     \<and> rr_recovery_contract (lr_record l) = rc_recovery_contract (hs_ctx s)
     \<and> replay (he_codec env) (lr_events l) (DurableRunState_initial (lr_record l)) = Inr u
     \<and> (\<forall>ms now. recover_loaded_run (he_codec env) l ms now = classify (rr_recovery_contract (lr_record l)) u ms now)"
proof -
  let ?es = "es0 @ persisted_events (hs_trace s)" and ?sc = "he_store_codec env"
  from ok obtain r cp where holds: "holds_run ?sc (hs_store s) (context_key (hs_ctx s)) r cp ?es"
    and sound: "sound_journal (he_codec env) r cp ?es"
    and frame: "rr_budget r = rc_budget (hs_ctx s)" "rr_recovery_contract r = rc_recovery_contract (hs_ctx s)"
    by (auto simp: journal_ok_def stored_def)
  from sound last obtain u n t where u: "replay (he_codec env) ?es (DurableRunState_initial r) = Inr u"
    and n: "n \<le> length ?es" "replay (he_codec env) (take n ?es) (DurableRunState_initial r) = Inr t" "cp = DurableCheckpoint_new t"
    by (auto simp: sound_journal_def)
  have versions: "rr_store_schema_version r = CURRENT_STORE_SCHEMA_VERSION"
    "rr_checkpoint_schema_version r = CURRENT_CHECKPOINT_SCHEMA_VERSION"
    using holds by (simp_all add: holds_run_def good_record_def)
  have "load_run ?sc None (context_key (hs_ctx s)) (hs_store s) = Inr \<lparr>lr_record = r, lr_checkpoint = cp, lr_events = ?es\<rparr>"
    using load_run_represented [OF codec holds] finish_last_terminal_agrees [OF last] by simp
  moreover have "recover_loaded_run (he_codec env) \<lparr>lr_record = r, lr_checkpoint = cp, lr_events = ?es\<rparr> ms now
      = classify (rr_recovery_contract r) u ms now" for ms now
    unfolding n(3) by (rule recover_honest [OF u n(2,1) len versions])
  ultimately show ?thesis using u frame by auto
qed

end
