(* ===== verification/Demo_Run.thy ===== *)
theory Demo_Run
  imports Recovery
begin

text \<open>
  A concrete run on which properties are instantiated: a codec that encodes an event by its
  sequence number and hashes everything to zero, a budget, a restartable run, its first events and
  the loaded run with a checkpoint after the first event.
\<close>

definition demo_codec :: codec where
  "demo_codec = \<lparr>to_vec = (\<lambda>e. Some [ucast (ev_sequence e)]), sha256 = (\<lambda>_. replicate 32 0)\<rparr>"

definition demo_budget :: run_budget where
  "demo_budget = \<lparr>max_model_calls = 2, max_tool_calls = 2, max_iterations = 3, max_approval_requests = 1,
                  max_graph_steps = 8, max_elapsed = 60000000000\<rparr>"

definition demo_key :: run_key where
  "demo_key = \<lparr>key_run_id = 1, key_session_id = 2\<rparr>"

definition demo_record :: run_record where
  "demo_record = RunRecord_new demo_key demo_budget (Restartable 1)"

definition demo_log :: "agent_event list" where
  "demo_log = [AgentEvent_new 1 0 (Ev_RunStarted 1000), AgentEvent_new 1 1 (Ev_AuditDegraded)]"

definition demo_state :: durable_run_state where
  "demo_state = lb_state (replay demo_codec demo_log (DurableRunState_initial demo_record))"

definition demo_loaded :: loaded_run where
  "demo_loaded = \<lparr>lr_record = demo_record,
     lr_checkpoint = DurableCheckpoint_new
       (lb_state (replay demo_codec (take 1 demo_log) (DurableRunState_initial demo_record))),
     lr_events = demo_log\<rparr>"

lemmas demo_defs = demo_codec_def demo_budget_def demo_key_def demo_record_def demo_log_def
text \<open>The equations by which the simplifier runs the reducer on concrete logs.\<close>

lemmas eval_defs = replay_Cons apply_event_def expected_sequence_def checked_next_def checked_inc_def
  DurableRunState_initial_def RunRecord_new_def arm_defs AgentEvent_new_def

lemma demo_replays: "replay demo_codec demo_log (DurableRunState_initial demo_record) = Inr demo_state"
  by (simp add: demo_state_def demo_defs eval_defs)

lemma demo_prefix_replays:
  "replay demo_codec (take 1 demo_log) (DurableRunState_initial demo_record) =
     Inr (cp_state (lr_checkpoint demo_loaded))"
  by (simp add: demo_loaded_def DurableCheckpoint_new_def demo_defs eval_defs)

lemmas classify_eval_defs = classify_def classify_running_def checked_sub_def duration_from_millis_def
  retrieval_restart_def graph_restart_def from_recovery_def duration_checked_sub_def
  instant_checked_add_def INSTANT_MAX_def

lemma demo_classify:
  "\<exists>ctx. classify (Restartable 1) demo_state 5000 7 = Inr (Disp_Resumable ctx demo_state (Restartable 1))"
  by (simp add: classify_eval_defs demo_state_def demo_defs eval_defs)

lemma demo_recovers:
  "\<exists>ctx. recover_loaded_run demo_codec demo_loaded 5000 7 = Inr (Disp_Resumable ctx demo_state (Restartable 1))"
  using recover_honest[OF demo_replays demo_prefix_replays, of 5000 7] demo_classify
  by (simp add: demo_loaded_def demo_record_def RunRecord_new_def demo_log_def DurableCheckpoint_new_def)

end
