(* ===== verification/Demo_Store.thy ===== *)
theory Demo_Store
  imports Store_Laws Demo_Run
begin

text \<open>
  A concrete database for the witnesses: a codec for a handful of values, and the run of \<open>Demo_Run\<close>
  created and extended by three events, the last of them after the run has finished.
\<close>

definition demo_finish :: agent_event where
  "demo_finish = AgentEvent_new 1 1 (Ev_RunFinished Outcome_Completed)"

definition demo_start :: agent_event where
  "demo_start = AgentEvent_new 1 0 (Ev_RunStarted 1000)"

definition demo_late :: agent_event where
  "demo_late = AgentEvent_new 1 2 Ev_AuditDegraded"

definition demo_binding :: action_seal_binding where
  "demo_binding = ActionSealBinding_new demo_key 1 (replicate 32 0) (lit ''act'') 5 7 8 9 10 (replicate 32 1) 11
     (replicate 32 2)"

definition demo_sealed :: sealed_local_write where
  "demo_sealed = \<lparr>sl_version = LOCAL_WRITE_CAPSULE_VERSION, sl_key_id = lit ''k1'', sl_nonce = [1], sl_ciphertext = [2]\<rparr>"

definition demo_approval :: durable_approval_record where
  "demo_approval = DurableApprovalRecord_new demo_binding demo_sealed"

definition demo_command :: durable_approval_decision_command where
  "demo_command = \<lparr>dc_key = demo_key, dc_wait_id = 7, dc_approval_request_id = 8, dc_action_proposal_id = 9,
     dc_tool_call_id = 10, dc_action_digest = replicate 32 1, dc_expected_row_version = 0, dc_outcome = Approve,
     dc_actor = None, dc_decided_at = None\<rparr>"

definition demo_decided :: durable_approval_record where
  "demo_decided = restore_store_state DA_DecisionRecordedApprove 1 demo_approval"

definition demo_decision :: agent_event where
  "demo_decision = AgentEvent_new 1 1 (Ev_DurableApprovalDecisionRecorded 7 8 Approve 1 None)"

definition demo_store_codec :: store_codec where
  "demo_store_codec =
     \<lparr>sc_events = \<lparr>to_vec = (\<lambda>e. if e = demo_start then Some [0] else if e = demo_finish then Some [1]
                              else if e = demo_late then Some [2] else if e = demo_decision then Some [3] else None),
                   sha256 = (\<lambda>_. replicate 32 0)\<rparr>,
      event_from = (\<lambda>b. if b = [0] then Some demo_start else if b = [1] then Some demo_finish
                         else if b = [2] then Some demo_late else if b = [3] then Some demo_decision else None),
      record_to = (\<lambda>r. if r = demo_record then Some [] else None),
      record_from = (\<lambda>_. Some demo_record),
      checkpoint_to = (\<lambda>c. if c = DurableCheckpoint_initial demo_record then Some [] else None),
      checkpoint_from = (\<lambda>_. Some (DurableCheckpoint_initial demo_record)),
      approval_to = (\<lambda>r. if r = demo_approval then Some [0] else if r = demo_decided then Some [1] else None),
      approval_from = (\<lambda>b. if b = [0] then Some demo_approval else Some demo_decided)\<rparr>"

lemma demo_store_codec_ok: "store_codec_ok demo_store_codec"
  by (auto simp: store_codec_ok_def demo_store_codec_def split: if_splits)

definition demo_transition :: "event_sequence option \<Rightarrow> agent_event \<Rightarrow> append_transition" where
  "demo_transition expected e =
     \<lparr>at_key = demo_key, at_expected_sequence = expected, at_event = e, at_checkpoint = None\<rparr>"

definition demo_store0 :: sqlite_store where
  "demo_store0 = snd (create_run demo_store_codec None demo_record (DurableCheckpoint_initial demo_record) initialize)"

definition demo_store1 :: sqlite_store where
  "demo_store1 = snd (append_transition demo_store_codec None (demo_transition None demo_start) demo_store0)"

definition demo_store2 :: sqlite_store where
  "demo_store2 = snd (append_transition demo_store_codec None (demo_transition (Some 0) demo_finish) demo_store1)"

definition demo_store3 :: sqlite_store where
  "demo_store3 = snd (append_transition demo_store_codec None (demo_transition (Some 1) demo_late) demo_store2)"

lemmas demo_event_defs = demo_start_def demo_finish_def demo_late_def demo_decision_def AgentEvent_new_def

lemma demo_event_sel [simp]:
  "ev_sequence demo_start = 0" "ev_sequence demo_finish = 1" "ev_sequence demo_late = 2"
  "ev_run_id demo_start = 1" "ev_run_id demo_finish = 1" "ev_run_id demo_late = 1"
  "ev_kind demo_start = Ev_RunStarted 1000" "ev_kind demo_finish = Ev_RunFinished Outcome_Completed"
  "ev_kind demo_late = Ev_AuditDegraded"
  "ev_schema_version demo_start = CURRENT_EVENT_SCHEMA_VERSION"
  "ev_schema_version demo_finish = CURRENT_EVENT_SCHEMA_VERSION"
  "ev_schema_version demo_late = CURRENT_EVENT_SCHEMA_VERSION"
  by (simp_all add: demo_event_defs)

lemma demo_event_neq [simp]:
  "demo_start \<noteq> demo_finish" "demo_finish \<noteq> demo_start" "demo_late \<noteq> demo_start" "demo_late \<noteq> demo_finish"
  "demo_start \<noteq> demo_late" "demo_finish \<noteq> demo_late"
  by (simp_all add: demo_event_defs)

lemma demo_codec_sel [simp]:
  "to_vec (sc_events demo_store_codec) demo_start = Some [0]"
  "to_vec (sc_events demo_store_codec) demo_finish = Some [1]"
  "to_vec (sc_events demo_store_codec) demo_late = Some [2]"
  "record_to demo_store_codec demo_record = Some []"
  "checkpoint_to demo_store_codec (DurableCheckpoint_initial demo_record) = Some []"
  by (simp_all add: demo_store_codec_def)

lemma demo_key_sel [simp]: "key_run_id demo_key = 1" "key_session_id demo_key = 2"
  by (simp_all add: demo_key_def)

lemma demo_transition_sel [simp]:
  "at_key (demo_transition q e) = demo_key" "at_expected_sequence (demo_transition q e) = q"
  "at_event (demo_transition q e) = e" "at_checkpoint (demo_transition q e) = None"
  by (simp_all add: demo_transition_def)

lemma demo_create:
  "create_run demo_store_codec None demo_record (DurableCheckpoint_initial demo_record) initialize = (Inr (), demo_store0)"
  by (simp add: demo_store0_def create_run_def and_then_apply transaction_def validate_record_checkpoint_def
      insert_run_def insert_checkpoint_def initialize_def DurableCheckpoint_initial_def DurableCheckpoint_new_def
      DurableRunState_initial_def demo_store_codec_def demo_record_def RunRecord_new_def)

lemma demo_holds0:
  "holds_run demo_store_codec demo_store0 demo_key demo_record (DurableCheckpoint_initial demo_record) []"
proof -
  have "rr_key demo_record = demo_key" by (simp add: demo_record_def RunRecord_new_def)
  with create_run_ok [OF demo_create] show ?thesis by (simp add: initialize_def)
qed

lemma demo_append1:
  "append_transition demo_store_codec None (demo_transition None demo_start) demo_store0 = (Inr (), demo_store1)"
  unfolding demo_store1_def
  by (rule append_from_holds [where es = "[]"])
     (use demo_holds0 in \<open>simp_all add: transition_consistent_def last_sequence_of_def\<close>)

lemma demo_holds1:
  "holds_run demo_store_codec demo_store1 demo_key demo_record (DurableCheckpoint_initial demo_record) [demo_start]"
  using append_none_holds [OF demo_append1] demo_holds0 by fastforce

lemma demo_append2:
  "append_transition demo_store_codec None (demo_transition (Some 0) demo_finish) demo_store1 = (Inr (), demo_store2)"
  unfolding demo_store2_def
  by (rule append_from_holds [where es = "[demo_start]"])
     (use demo_holds1 in \<open>simp_all add: transition_consistent_def last_sequence_of_def checked_next_def checked_inc_def\<close>)

lemma demo_holds2:
  "holds_run demo_store_codec demo_store2 demo_key demo_record (DurableCheckpoint_initial demo_record)
     [demo_start, demo_finish]"
  using append_none_holds [OF demo_append2] demo_holds1 by fastforce

lemma demo_append3:
  "append_transition demo_store_codec None (demo_transition (Some 1) demo_late) demo_store2 = (Inr (), demo_store3)"
  unfolding demo_store3_def
  by (rule append_from_holds [where es = "[demo_start, demo_finish]"])
     (use demo_holds2 in \<open>simp_all add: transition_consistent_def last_sequence_of_def checked_next_def checked_inc_def\<close>)

lemma demo_holds3:
  "holds_run demo_store_codec demo_store3 demo_key demo_record (DurableCheckpoint_initial demo_record)
     [demo_start, demo_finish, demo_late]"
  using append_none_holds [OF demo_append3] demo_holds2 by fastforce

lemma demo_reach:
  "store_reach demo_store_codec initialize demo_store0"
  "store_reach demo_store_codec initialize demo_store1"
  "store_reach demo_store_codec initialize demo_store2"
  "store_reach demo_store_codec initialize demo_store3"
proof -
  show r0: "store_reach demo_store_codec initialize demo_store0"
    using store_step.created [OF demo_create] by (rule r_into_rtranclp)
  show r1: "store_reach demo_store_codec initialize demo_store1"
    using r0 store_step.appended_event [OF demo_append1] by (rule rtranclp.rtrancl_into_rtrancl)
  show r2: "store_reach demo_store_codec initialize demo_store2"
    using r1 store_step.appended_event [OF demo_append2] by (rule rtranclp.rtrancl_into_rtrancl)
  show "store_reach demo_store_codec initialize demo_store3"
    using r2 store_step.appended_event [OF demo_append3] by (rule rtranclp.rtrancl_into_rtrancl)
qed

section \<open>A waiting approval\<close>

definition demo_approval_row :: approval_row where
  "demo_approval_row =
     \<lparr>apr_run_id = 1, apr_session_id = 2, apr_wait_id = 7, apr_record = [0],
      apr_checksum = checksum demo_store_codec [0], apr_key_id = lit ''k1'', apr_nonce = [1], apr_status = 0,
      apr_row_version = 0\<rparr>"

definition demo_waiting_store :: sqlite_store where
  "demo_waiting_store = demo_store1\<lparr>st_approvals := [demo_approval_row]\<rparr>"

definition demo_decision_request :: record_decision_request where
  "demo_decision_request = \<lparr>rd_transition = demo_transition (Some 0) demo_decision, rd_command = demo_command\<rparr>"

lemma demo_waiting_inv: "store_inv demo_store_codec demo_waiting_store"
  unfolding demo_waiting_store_def
  by (rule approvals_only_inv [OF store_reach_inv [OF demo_reach(2)]])
     (simp add: approvals_ok_def demo_approval_row_def)

lemma demo_waiting_holds:
  "holds_run demo_store_codec demo_waiting_store demo_key demo_record (DurableCheckpoint_initial demo_record) [demo_start]"
  using demo_holds1 by (subst holds_run_cong [of _ _ demo_store1]) (simp_all add: demo_waiting_store_def)

lemma demo_loads_wait:
  "load_durable_approval_wait demo_store_codec None demo_key 7 demo_waiting_store = Inr demo_approval"
  by (simp add: load_durable_approval_wait_def find_approval_def demo_waiting_store_def demo_approval_row_def
      demo_store_codec_def SealedLocalWriteAction_validate_def sealed_fields_rejected_def demo_approval_def
      DurableApprovalRecord_new_def demo_sealed_def demo_binding_def ActionSealBinding_new_def sb_key_def
      demo_key_def decode_status_def restore_store_state_def lit_def str_len_def len_utf8_def
      MAX_SEAL_KEY_ID_BYTES_def MAX_SEALED_CAPSULE_BYTES_def is_ascii_alphanumeric_def)

lemma demo_decision_accepted: "\<not> decision_rejected demo_approval demo_decision_request"
  by (simp add: decision_rejected_def demo_decision_request_def demo_command_def demo_approval_def
      DurableApprovalRecord_new_def demo_binding_def ActionSealBinding_new_def demo_decision_def saturating_inc_def)

lemma demo_decision_append:
  obtains s where
    "append_transition_in_transaction demo_store_codec (demo_transition (Some 0) demo_decision) demo_waiting_store = (Inr (), s)"
    "st_approvals s = [demo_approval_row]"
proof -
  have "append_transition demo_store_codec None (demo_transition (Some 0) demo_decision) demo_waiting_store =
      (Inr (), snd (append_transition demo_store_codec None (demo_transition (Some 0) demo_decision) demo_waiting_store))"
    using demo_waiting_holds
    by (intro append_from_holds [where es = "[demo_start]" and b = "[3]" and r = demo_record
          and c = "DurableCheckpoint_initial demo_record"])
       (simp_all add: transition_consistent_def last_sequence_of_def checked_next_def checked_inc_def
          demo_decision_def demo_store_codec_def demo_start_def demo_finish_def demo_late_def AgentEvent_new_def)
  then obtain s where s: "append_transition_in_transaction demo_store_codec (demo_transition (Some 0) demo_decision)
      demo_waiting_store = (Inr (), s)"
    by (auto simp: append_transition_Inr)
  with append_frame(1) [OF s] that show ?thesis by (simp add: demo_waiting_store_def)
qed

lemma demo_decision_recorded:
  "fst (record_durable_approval_decision demo_store_codec None (\<lambda>_. demo_waiting_store) None demo_decision_request
          demo_waiting_store) = Inr ()"
proof -
  obtain s where s: "append_transition_in_transaction demo_store_codec (demo_transition (Some 0) demo_decision)
      demo_waiting_store = (Inr (), s)" "st_approvals s = [demo_approval_row]"
    by (rule demo_decision_append)
  have "restore_decision_identity None None (restore_store_state DA_DecisionRecordedApprove 1 demo_approval) = demo_decided"
    by (simp add: restore_decision_identity_def demo_decided_def restore_store_state_def demo_approval_def
        DurableApprovalRecord_new_def)
  moreover have "approval_to demo_store_codec demo_decided = Some [1]"
    by (simp add: demo_store_codec_def demo_decided_def demo_approval_def restore_store_state_def DurableApprovalRecord_new_def)
  ultimately show ?thesis
    using s demo_loads_wait demo_decision_accepted
    by (simp add: record_durable_approval_decision_def demo_decision_request_def demo_command_def transaction_def
        and_then_apply saturating_inc_def fits_i64_def update_approvals_def row_matches_def demo_approval_row_def)
qed

end
