(* ===== verification/Action_Laws.thy ===== *)
theory Action_Laws
  imports Action_Validation
begin

text \<open>
  Properties of action validation: the reader accepts exactly the JSON values without repeated keys and returns ordered
  objects; the worklist loops compute the structural measures of a value; the encodings behind the digests are
  unambiguous.
\<close>

section \<open>Repeated keys\<close>

fun unambiguous :: "json \<Rightarrow> bool" where
  "unambiguous (JNumber (JFloat bits)) \<longleftrightarrow> finite_f64 bits"
| "unambiguous (JArray vs) \<longleftrightarrow> list_all unambiguous vs"
| "unambiguous (JObject kvs) \<longleftrightarrow> distinct (map fst kvs) \<and> list_all (\<lambda>kv. unambiguous (snd kv)) kvs"
| "unambiguous _ \<longleftrightarrow> True"

fun ordered :: "json \<Rightarrow> bool" where
  "ordered (JArray vs) \<longleftrightarrow> list_all ordered vs"
| "ordered (JObject kvs) \<longleftrightarrow> bt_ok kvs \<and> list_all (\<lambda>kv. ordered (snd kv)) kvs"
| "ordered _ \<longleftrightarrow> True"

lemma bt_insert_values: "snd ` set (snd (bt_insert k v m)) \<subseteq> insert v (snd ` set m)"
proof (induction m)
  case (Cons e m)
  obtain l w where e: "e = (l, w)" by fastforce
  obtain old m' where "bt_insert k v m = (old, m')" by fastforce
  with Cons e show ?case by auto
qed simp

lemma unique_json_iff:
  "unique_json j \<noteq> None \<longleftrightarrow> unambiguous j"
  "visit_seq xs vals \<noteq> None \<longleftrightarrow> list_all unambiguous xs"
  "visit_map kvs keys entries \<noteq> None \<longleftrightarrow>
     distinct (map fst kvs) \<and> fst ` set kvs \<inter> keys = {} \<and> list_all (\<lambda>kv. unambiguous (snd kv)) kvs"
proof (induction j and xs vals and kvs keys entries rule: unique_json_visit_seq_visit_map.induct)
  case (8 k x kvs keys entries)
  then show ?case by (cases "unique_json x") auto
next
  case (6 x xs vals)
  then show ?case by (cases "unique_json x") auto
qed auto

lemma unique_json_ordered:
  "unique_json j = Some v \<Longrightarrow> ordered v"
  "visit_seq xs vals = Some v \<Longrightarrow> list_all ordered vals \<Longrightarrow> ordered v"
  "visit_map kvs keys entries = Some v \<Longrightarrow> bt_ok entries \<Longrightarrow> list_all (\<lambda>kv. ordered (snd kv)) entries \<Longrightarrow> ordered v"
proof (induction j and xs vals and kvs keys entries arbitrary: v and v and v rule: unique_json_visit_seq_visit_map.induct)
  case (8 k x kvs keys entries)
  then obtain w where w: "unique_json x = Some w" and k: "k \<notin> keys"
    and rest: "visit_map kvs (insert k keys) (snd (bt_insert k w entries)) = Some v"
    by (auto split: if_splits option.splits)
  have "list_all (\<lambda>kv. ordered (snd kv)) (snd (bt_insert k w entries))"
    using bt_insert_values [of k w entries] 8(1) [OF k w] 8(5) by (fastforce simp: list_all_iff)
  with 8(2) [OF k w rest] bt_insert_ok [OF 8(4)] show ?case by blast
next
  case (6 x xs vals)
  then show ?case by (auto split: option.splits)
qed (auto simp: list_all_iff split: if_splits)

section \<open>Structural measures\<close>

fun json_nodes :: "json \<Rightarrow> nat" where
  "json_nodes (JArray vs) = Suc (sum_list (map json_nodes vs))"
| "json_nodes (JObject kvs) = Suc (sum_list (map (\<lambda>kv. json_nodes (snd kv)) kvs))"
| "json_nodes _ = 1"

fun json_keys :: "json \<Rightarrow> nat" where
  "json_keys (JArray vs) = sum_list (map json_keys vs)"
| "json_keys (JObject kvs) = length kvs + sum_list (map (\<lambda>kv. json_keys (snd kv)) kvs)"
| "json_keys _ = 0"

fun json_elements :: "json \<Rightarrow> nat" where
  "json_elements (JArray vs) = length vs + sum_list (map json_elements vs)"
| "json_elements (JObject kvs) = sum_list (map (\<lambda>kv. json_elements (snd kv)) kvs)"
| "json_elements _ = 0"

text \<open>No value lies more than \<open>n\<close> levels deep.\<close>

fun json_within :: "nat \<Rightarrow> json \<Rightarrow> bool" where
  "json_within 0 j \<longleftrightarrow> False"
| "json_within (Suc n) (JArray vs) \<longleftrightarrow> list_all (json_within n) vs"
| "json_within (Suc n) (JObject kvs) \<longleftrightarrow> list_all (\<lambda>kv. json_within n (snd kv)) kvs"
| "json_within (Suc n) _ \<longleftrightarrow> True"

definition stack_total :: "(json \<Rightarrow> nat) \<Rightarrow> (json \<times> nat) list \<Rightarrow> nat" where
  "stack_total f st = sum_list (map (\<lambda>x. f (fst x)) st)"

definition stack_within :: "nat \<Rightarrow> (json \<times> nat) list \<Rightarrow> bool" where
  "stack_within limit st \<longleftrightarrow> list_all (\<lambda>x. json_within (Suc limit - snd x) (fst x)) st"

lemma stack_total_simps [simp]:
  "stack_total f [] = 0" "stack_total f (x # st) = f (fst x) + stack_total f st"
  "stack_total f (push_all vs d st) = sum_list (map f vs) + stack_total f st"
  by (simp_all add: stack_total_def push_all_def rev_map [symmetric] comp_def sum_list_rev)

lemma stack_within_simps [simp]:
  "stack_within l []" "stack_within l (x # st) \<longleftrightarrow> json_within (Suc l - snd x) (fst x) \<and> stack_within l st"
  "stack_within l (push_all vs d st) \<longleftrightarrow> list_all (json_within (l - d)) vs \<and> stack_within l st"
  by (simp_all add: stack_within_def push_all_def list.pred_map comp_def)

lemma json_within_children:
  "d \<le> l \<Longrightarrow> json_within (Suc l - d) (JArray vs) \<longleftrightarrow> list_all (json_within (l - d)) vs"
  "d \<le> l \<Longrightarrow> json_within (Suc l - d) (JObject kvs) \<longleftrightarrow> list_all (json_within (l - d)) (map snd kvs)"
  by (simp_all add: Suc_diff_le list.pred_map comp_def)

lemma json_within_leaf:
  "d \<le> l \<Longrightarrow> json_within (Suc l - d) JNull" "d \<le> l \<Longrightarrow> json_within (Suc l - d) (JBool b)"
  "d \<le> l \<Longrightarrow> json_within (Suc l - d) (JNumber n)" "d \<le> l \<Longrightarrow> json_within (Suc l - d) (JString s)"
  by (simp_all add: Suc_diff_le)

lemma json_within_too_deep: "l < d \<Longrightarrow> \<not> json_within (Suc l - d) j"
  by simp

lemma argument_limits_loop_iff:
  assumes "keys \<le> MAX_ACTION_ARGUMENT_KEYS" "elements \<le> MAX_ACTION_ARGUMENT_ARRAY_ELEMENTS" "nodes \<le> MAX_ACTION_ARGUMENT_NODES"
  shows "argument_limits_loop st keys elements nodes = Inr () \<longleftrightarrow>
     nodes + stack_total json_nodes st \<le> MAX_ACTION_ARGUMENT_NODES \<and> stack_within MAX_ACTION_ARGUMENT_DEPTH st
     \<and> keys + stack_total json_keys st \<le> MAX_ACTION_ARGUMENT_KEYS
     \<and> elements + stack_total json_elements st \<le> MAX_ACTION_ARGUMENT_ARRAY_ELEMENTS"
  using assms
proof (induction st keys elements nodes rule: argument_limits_loop.induct)
  case (2 val depth stack keys elements nodes)
  show ?case
  proof (cases "nodes + 1 > MAX_ACTION_ARGUMENT_NODES \<or> depth > MAX_ACTION_ARGUMENT_DEPTH")
    case True
    have "1 \<le> json_nodes val" by (cases val) simp_all
    with True show ?thesis by (auto simp: json_within_too_deep)
  next
    case False
    then have d: "depth \<le> MAX_ACTION_ARGUMENT_DEPTH" and n: "nodes + 1 \<le> MAX_ACTION_ARGUMENT_NODES" by simp_all
    show ?thesis
    proof (cases val)
      case (JArray vs)
      with 2(5) [OF False JArray] 2(7-9) d n False show ?thesis
        by (auto simp: json_within_children [OF d] simp del: json_within.simps)
    next
      case (JObject kvs)
      with 2(6) [OF False JObject] 2(7-9) d n False show ?thesis
        by (auto simp: json_within_children [OF d] comp_def simp del: json_within.simps)
    qed (use 2 False d n in \<open>simp_all add: json_within_leaf del: json_within.simps\<close>)
  qed
qed simp

definition within_limits :: "json_lib \<Rightarrow> json \<Rightarrow> bool" where
  "within_limits jl j \<longleftrightarrow>
     (\<exists>b. jl_to_vec jl j = Some b \<and> length b \<le> MAX_ACTION_ARGUMENT_BYTES)
     \<and> json_nodes j \<le> MAX_ACTION_ARGUMENT_NODES \<and> json_within MAX_ACTION_ARGUMENT_DEPTH j
     \<and> json_keys j \<le> MAX_ACTION_ARGUMENT_KEYS \<and> json_elements j \<le> MAX_ACTION_ARGUMENT_ARRAY_ELEMENTS"

lemma validate_argument_limits_iff: "validate_argument_limits jl j = Inr () \<longleftrightarrow> within_limits jl j"
  using argument_limits_loop_iff [of 0 0 0 "[(j, 1)]"]
  by (auto simp: validate_argument_limits_def within_limits_def split: option.splits)

lemma schema_complexity_loop_iff:
  "keys \<le> MAX_TOOL_SCHEMA_KEYS \<Longrightarrow>
   schema_complexity_loop st keys = Inr () \<longleftrightarrow>
     stack_within MAX_TOOL_SCHEMA_DEPTH st \<and> keys + stack_total json_keys st \<le> MAX_TOOL_SCHEMA_KEYS"
proof (induction st keys rule: schema_complexity_loop.induct)
  case (2 val depth stack keys)
  show ?case
  proof (cases "depth > MAX_TOOL_SCHEMA_DEPTH")
    case True
    then show ?thesis by (simp add: json_within_too_deep)
  next
    case False
    then have d: "depth \<le> MAX_TOOL_SCHEMA_DEPTH" by simp
    show ?thesis
    proof (cases val)
      case (JArray vs)
      with 2(5) [OF False JArray] 2(7) d False show ?thesis
        by (auto simp: json_within_children [OF d] simp del: json_within.simps)
    next
      case (JObject kvs)
      with 2(6) [OF False JObject] 2(7) d False show ?thesis
        by (auto simp: json_within_children [OF d] comp_def simp del: json_within.simps)
    qed (use 2 False d in \<open>simp_all add: json_within_leaf del: json_within.simps\<close>)
  qed
qed simp

section \<open>Unambiguous encodings of JSON\<close>

fun json_ok :: "json \<Rightarrow> bool" where
  "json_ok (JNumber (JInt i)) \<longleftrightarrow> - (2 ^ 63) \<le> i \<and> i < 2 ^ 64"
| "json_ok (JString s) \<longleftrightarrow> text_ok s"
| "json_ok (JArray vs) \<longleftrightarrow> length vs < 2 ^ 64 \<and> list_all json_ok vs"
| "json_ok (JObject kvs) \<longleftrightarrow> length kvs < 2 ^ 64 \<and> sorted (map (\<lambda>kv. as_bytes (fst kv)) kvs)
     \<and> list_all (\<lambda>kv. text_ok (fst kv) \<and> json_ok (snd kv)) kvs"
| "json_ok _ \<longleftrightarrow> True"

text \<open>Every element of the first list is unambiguous against every valid value.\<close>

lemma concat_unique:
  assumes "length xs = length ys" "\<And>y. y \<in> set ys \<Longrightarrow> valid y"
    and "\<And>x y u v. x \<in> set xs \<Longrightarrow> valid y \<Longrightarrow> f x @ u = f y @ v \<Longrightarrow> x = y \<and> u = v"
    and "concat (map f xs) @ u = concat (map f ys) @ v"
  shows "xs = ys \<and> u = v"
  using assms
proof (induction xs ys rule: list_induct2)
  case (Cons x xs y ys)
  have "f x @ concat (map f xs) @ u = f y @ concat (map f ys) @ v" using Cons.prems(3) by simp
  then have "x = y" "concat (map f xs) @ u = concat (map f ys) @ v"
    using Cons.prems(2) [of x y] Cons.prems(1) by auto
  moreover have "xs = ys \<and> u = v"
  proof (rule Cons.IH [OF _ _ calculation(2)])
    show "valid y'" if "y' \<in> set ys" for y' using Cons.prems(1) that by simp
    show "x' = y' \<and> u' = v'" if "x' \<in> set xs" "valid y'" "f x' @ u' = f y' @ v'" for x' y' u' v'
      using Cons.prems(2) [of x' y' u' v'] that by simp
  qed
  ultimately show ?case by simp
qed simp

lemma of_int_u64_inject:
  assumes "(of_int i :: u64) = of_int j" "- (2 ^ 63) \<le> i" "- (2 ^ 63) \<le> j" "i < 2 ^ 63" "j < 2 ^ 63"
  shows "i = j"
proof -
  have "i mod 2 ^ 64 = j mod 2 ^ 64" using assms(1) by (simp add: word_of_int_eq_iff take_bit_eq_mod)
  then have "2 ^ 64 dvd i - j" by (simp only: mod_eq_dvd_iff)
  moreover have "\<bar>i - j\<bar> < 2 ^ 64" using assms(2-5) by simp
  ultimately show ?thesis using dvd_imp_le_int [of "i - j" "2 ^ 64"] by (cases "i = j") simp_all
qed

lemma of_int_u64_inject_nonneg:
  assumes "(of_int i :: u64) = of_int j" "0 \<le> i" "0 \<le> j" "i < 2 ^ 64" "j < 2 ^ 64"
  shows "i = j"
  using assms by (simp add: word_of_int_eq_iff take_bit_eq_mod)

lemma encode_number_unique:
  assumes "json_ok (JNumber m)" "json_ok (JNumber n)" "encode_number m @ u = encode_number n @ v"
  shows "m = n \<and> u = v"
proof (cases m; cases n)
  fix i j assume mn: "m = JInt i" "n = JInt j"
  show ?thesis
  proof (cases "i < 2 ^ 63 \<and> j < 2 ^ 63")
    case True
    with assms mn of_int_u64_inject [of i j] show ?thesis by auto
  next
    case False
    with assms mn of_int_u64_inject_nonneg [of i j] show ?thesis by (auto split: if_splits)
  qed
qed (use assms in \<open>auto split: if_splits\<close>)

lemma encode_json_unique:
  "json_ok x \<Longrightarrow> json_ok y \<Longrightarrow> encode_json x @ u = encode_json y @ v \<Longrightarrow> x = y \<and> u = v"
proof (induction x arbitrary: y u v rule: encode_json.induct)
  case (3 n)
  have head: "\<exists>w. encode_number n = 73 # w \<or> encode_number n = 85 # w \<or> encode_number n = 70 # w"
    using 3(1) by (cases n) auto
  show ?case
  proof (cases y)
    case (JNumber m)
    with 3 encode_number_unique [of n m u v] show ?thesis by simp
  qed (use head 3 in auto)
next
  case (5 vs)
  show ?case
  proof (cases y)
    case (JArray ws)
    have small: "length vs < 2 ^ 64" "length ws < 2 ^ 64" using 5(2,3) JArray by simp_all
    have "encode_len (length vs) @ concat (map encode_json vs) @ u = encode_len (length ws) @ concat (map encode_json ws) @ v"
      using 5(4) JArray by simp
    then have eq: "length vs = length ws" "concat (map encode_json vs) @ u = concat (map encode_json ws) @ v"
      using len_code.unique [OF small] by blast+
    have "vs = ws \<and> u = v"
    proof (rule concat_unique [OF eq(1) _ _ eq(2), where valid = json_ok])
      show "json_ok w" if "w \<in> set ws" for w using 5(3) JArray that by (simp add: list_all_iff)
      fix z w p q assume z: "z \<in> set vs" and w: "json_ok w" and e: "encode_json z @ p = encode_json w @ q"
      have "json_ok z" using 5(2) z by (simp add: list_all_iff)
      from 5(1) [OF z this w e] show "z = w \<and> p = q" .
    qed
    with JArray show ?thesis by simp
  next
    case (JNumber m)
    with 5(3,4) show ?thesis by (cases m) (auto split: if_splits)
  qed (use 5(4) in auto)
next
  case (6 kvs)
  let ?f = "\<lambda>kv. encode_string (fst kv) @ encode_json (snd kv)"
  show ?case
  proof (cases y)
    case (JObject lws)
    have small: "length kvs < 2 ^ 64" "length lws < 2 ^ 64" using 6(2,3) JObject by simp_all
    have "encode_len (length kvs) @ concat (map ?f kvs) @ u = encode_len (length lws) @ concat (map ?f lws) @ v"
      using 6(2-4) JObject by (simp add: sort_key_id_if_sorted)
    then have eq: "length kvs = length lws" "concat (map ?f kvs) @ u = concat (map ?f lws) @ v"
      using len_code.unique [OF small] by blast+
    have "kvs = lws \<and> u = v"
    proof (rule concat_unique [OF eq(1) _ _ eq(2), where valid = "\<lambda>kv. text_ok (fst kv) \<and> json_ok (snd kv)"])
      show "text_ok (fst lw) \<and> json_ok (snd lw)" if "lw \<in> set lws" for lw
        using 6(3) JObject that by (simp add: list_all_iff)
      fix kv lw p q assume kv: "kv \<in> set kvs" and lw: "text_ok (fst lw) \<and> json_ok (snd lw)" and e: "?f kv @ p = ?f lw @ q"
      have ok: "text_ok (fst kv)" "json_ok (snd kv)" using 6(2) kv by (simp_all add: list_all_iff)
      have "fst kv = fst lw" "encode_json (snd kv) @ p = encode_json (snd lw) @ q"
        using string_code.unique [OF ok(1), of "fst lw"] lw e by auto
      with 6(1) [of kv "snd lw" p q] kv ok lw show "kv = lw \<and> p = q" by (simp add: prod_eq_iff)
    qed
    with JObject show ?thesis by simp
  next
    case (JNumber m)
    with 6(3,4) show ?thesis by (cases m) (auto split: if_splits)
  qed (use 6(4) in auto)
next
  case (4 s)
  then show ?case
  proof (cases y)
    case (JString t)
    with 4 string_code.unique [of s t u v] show ?thesis by simp
  next
    case (JNumber m)
    with 4 show ?thesis by (cases m) (auto split: if_splits)
  qed auto
next
  case (2 b)
  then show ?case
  proof (cases y)
    case (JNumber m)
    with 2 show ?thesis by (cases m) (auto split: if_splits)
  qed (auto split: if_splits)
next
  case 1
  then show ?case
  proof (cases y)
    case (JNumber m)
    with 1 show ?thesis by (cases m) (auto split: if_splits)
  qed auto
qed

interpretation json_code: prefix_code encode_json json_ok
  by unfold_locales (rule encode_json_unique)

interpretation capability_code: prefix_code encode_capability "\<lambda>_. True"
proof
  show "x = y \<and> u = v" if "encode_capability x @ u = encode_capability y @ v" for x y u v
    using that by (cases x; cases y) simp_all
qed

lemma action_bytes_commit:
  assumes "text_ok n" "text_ok m" "json_ok a" "json_ok b" "action_bytes n c a = action_bytes m d b"
  shows "n = m \<and> c = d \<and> a = b"
proof -
  from assms(5) have "encode_string n @ encode_capability c @ encode_json a = encode_string m @ encode_capability d @ encode_json b"
    by (simp add: action_bytes_def)
  with string_code.unique [OF assms(1,2)] capability_code.unique json_code.encode_inject [OF assms(3,4)] show ?thesis
    by blast
qed

lemma contract_bytes_commit:
  assumes "text_ok (td_name d)" "text_ok (td_name e)" "text_ok (td_description d)" "text_ok (td_description e)"
    and "json_ok (td_input_schema d)" "json_ok (td_input_schema e)" "contract_bytes d = contract_bytes e"
  shows "d = e"
proof -
  let ?r = "\<lambda>d. encode_string (td_description d) @ encode_json (td_input_schema d)"
  from assms(7) have "encode_string (td_name d) @ encode_capability (td_capability d) @ ?r d
      = encode_string (td_name e) @ encode_capability (td_capability e) @ ?r e"
    by (simp add: contract_bytes_def)
  then have "td_name d = td_name e" "td_capability d = td_capability e" "?r d = ?r e"
    using string_code.unique [OF assms(1,2)] capability_code.unique by blast+
  moreover from this(3) have "td_description d = td_description e" "td_input_schema d = td_input_schema e"
    using string_code.unique [OF assms(3,4)] json_code.encode_inject [OF assms(5,6)] by blast+
  ultimately show ?thesis by (cases d; cases e) simp
qed

section \<open>What is decoded\<close>

text \<open>The only shape of an envelope: \<^verbatim>\<open>{"action": {"arguments": {..}, "tool": ".."}}\<close>.\<close>

definition envelope :: "tool_name \<Rightarrow> (rust_string \<times> json) list \<Rightarrow> json" where
  "envelope name arguments =
     JObject [(lit ''action'', JObject [(lit ''arguments'', JObject arguments), (lit ''tool'', JString name)])]"

definition tool_name_ok :: "tool_name \<Rightarrow> bool" where
  "tool_name_ok n \<longleftrightarrow> n \<noteq> [] \<and> trim n = n \<and> \<not> list_ex is_control n \<and> str_len n \<le> MAX_ACTION_TOOL_NAME_BYTES"

lemma length_two: "length xs = 2 \<longleftrightarrow> (\<exists>x y. xs = [x, y])"
  by (auto simp: numeral_2_eq_2 length_Suc_conv)

lemma decode_action_iff:
  assumes "bt_ok kvs"
  shows "decode_action kvs = Inr (n, a) \<longleftrightarrow>
     (\<exists>args. a = JObject args \<and> kvs = [(lit ''arguments'', JObject args), (lit ''tool'', JString n)] \<and> tool_name_ok n)"
proof (cases "length kvs = 2")
  case True
  then obtain k v l w where kvs: "kvs = [(k, v), (l, w)]" by (auto simp: length_two)
  show ?thesis
    using assms unfolding kvs
    by (cases v; cases w)
       (auto simp: decode_action_def bt_ok_def ToolName_new_def tool_name_ok_def lit_def not_less split: if_splits sum.splits)
qed (auto simp: decode_action_def)

lemma decode_envelope_iff:
  assumes "ordered v"
  shows "decode_envelope v = Inr (n, a) \<longleftrightarrow> (\<exists>args. a = JObject args \<and> v = envelope n args \<and> tool_name_ok n)"
proof (cases "\<exists>k w. v = JObject [(k, w)]")
  case True
  then obtain k w where v: "v = JObject [(k, w)]" by blast
  show ?thesis
  proof (cases "\<exists>kvs. w = JObject kvs")
    case True
    then obtain kvs where w: "w = JObject kvs" by blast
    with assms v have "bt_ok kvs" by simp
    from decode_action_iff [OF this] show ?thesis by (auto simp: v w decode_envelope_def envelope_def)
  next
    case False
    then show ?thesis by (cases w) (auto simp: v decode_envelope_def envelope_def)
  qed
next
  case False
  then have "length kvs \<noteq> 1" if "v = JObject kvs" for kvs using that by (auto simp: length_Suc_conv)
  with False show ?thesis by (cases v) (auto simp: decode_envelope_def envelope_def)
qed

text \<open>The declarative reading of a planning response.\<close>

definition proposes :: "json_lib \<Rightarrow> model_response \<Rightarrow> tool_name \<Rightarrow> (rust_string \<times> json) list \<Rightarrow> bool" where
  "proposes jl response name arguments \<longleftrightarrow>
     (\<exists>text j. mr_output response = [Part_Text text] \<and> trim text \<noteq> [] \<and> str_len text \<le> MAX_PLANNING_RESPONSE_BYTES
        \<and> jl_parse jl text = Some j \<and> unambiguous j \<and> unique_json j = Some (envelope name arguments))
     \<and> tool_name_ok name \<and> within_limits jl (JObject arguments)"

lemma decode_iff:
  "TextActionDecoder_decode jl response p m = Inr pr \<longleftrightarrow>
     (\<exists>args. proposes jl response (pr_tool_name pr) args \<and> pr_arguments pr = JObject args
        \<and> pr_id pr = p \<and> pr_source_model_call_id pr = m)"
proof (cases "\<exists>text. mr_output response = [Part_Text text]")
  case True
  then obtain t where out: "mr_output response = [Part_Text t]" by blast
  show ?thesis
  proof (cases "deserialize_unique_json jl t")
    case None
    then have "unique_json j = None" if "jl_parse jl t = Some j" for j using that by (simp add: deserialize_unique_json_def)
    with None show ?thesis by (auto simp: TextActionDecoder_decode_def Let_def proposes_def out)
  next
    case (Some v)
    then obtain j where j: "jl_parse jl t = Some j" "unique_json j = Some v"
      by (auto simp: deserialize_unique_json_def Option.bind_eq_Some_conv)
    have un: "unambiguous j" using unique_json_iff(1) [of j] j by simp
    have env: "decode_envelope v = Inr (n, a) \<longleftrightarrow> (\<exists>args. a = JObject args \<and> v = envelope n args \<and> tool_name_ok n)" for n a
      by (rule decode_envelope_iff) (rule unique_json_ordered(1) [OF j(2)])
    show ?thesis
    proof (cases "decode_envelope v")
      case (Inl r)
      with env have "\<not> (v = envelope n args \<and> tool_name_ok n)" for n args by auto
      with Inl j Some show ?thesis by (auto simp: TextActionDecoder_decode_def Let_def proposes_def out)
    next
      case (Inr na)
      obtain n a where na: "na = (n, a)" by fastforce
      with Inr env obtain args where e: "a = JObject args" "v = envelope n args" "tool_name_ok n" by blast
      have "validate_argument_limits jl a = Inr () \<longleftrightarrow> within_limits jl (JObject args)"
        by (simp add: validate_argument_limits_iff e)
      with Inr na e j un Some show ?thesis
        by (cases "validate_argument_limits jl a")
           (auto simp: TextActionDecoder_decode_def Let_def proposes_def out envelope_def not_less)
    qed
  qed
next
  case False
  then show ?thesis
    by (auto simp: TextActionDecoder_decode_def Let_def proposes_def split: list.splits model_output_part.splits)
qed

text \<open>What a proposal is checked against.\<close>

lemma validate_iff:
  "ActionValidator_validate jl pr registry = Inr va \<longleftrightarrow>
     str_len (pr_tool_name pr) \<le> MAX_ACTION_TOOL_NAME_BYTES \<and> (\<exists>args. pr_arguments pr = JObject args)
     \<and> within_limits jl (pr_arguments pr)
     \<and> (\<exists>b. registry (pr_tool_name pr) = Some b \<and> jl_is_valid jl (td_input_schema (tb_definition b)) (pr_arguments pr)
        \<and> va = \<lparr>va_proposal_id = pr_id pr, va_tool_name = pr_tool_name pr, va_arguments = pr_arguments pr,
               va_capability = td_capability (tb_definition b),
               va_digest = compute_action_digest (jl_sha256 jl) (pr_tool_name pr) (td_capability (tb_definition b))
                 (pr_arguments pr)\<rparr>)"
proof (cases "validate_argument_limits jl (pr_arguments pr)")
  case (Inl r)
  with validate_argument_limits_iff [of jl "pr_arguments pr"] show ?thesis
    by (auto simp: ActionValidator_validate_def)
next
  case (Inr u)
  with validate_argument_limits_iff [of jl "pr_arguments pr"] show ?thesis
    by (auto simp: ActionValidator_validate_def Let_def split: json.splits option.splits if_splits)
qed

lemma proposes_ordered: "proposes jl response n args \<Longrightarrow> ordered (JObject args)"
  using unique_json_ordered(1) by (fastforce simp: proposes_def envelope_def)

end
