(* ===== verification/Demo_Action.thy ===== *)
theory Demo_Action
  imports Action_Laws
begin

text \<open>A JSON library, a registry with one tool and a planning response for the witnesses.\<close>

definition demo_arguments :: "(rust_string \<times> json) list" where
  "demo_arguments = [(lit ''a'', JArray [JNumber (JInt 1), JString (lit ''x'')]), (lit ''b'', JBool True)]"

text \<open>The parser returns one value whatever the text, with the entries in the order of a text that puts the tool first.\<close>

definition demo_json_lib :: json_lib where
  "demo_json_lib =
     \<lparr>jl_parse = (\<lambda>_. Some (JObject [(lit ''action'',
        JObject [(lit ''tool'', JString (lit ''read'')), (lit ''arguments'', JObject (rev demo_arguments))])])),
      jl_to_vec = (\<lambda>_. Some [0]), jl_builds = (\<lambda>_. True), jl_is_valid = (\<lambda>s v. s = JNull \<and> v \<noteq> JNull),
      jl_sha256 = (\<lambda>b. replicate 32 0)\<rparr>"

definition demo_response :: model_response where
  "demo_response = \<lparr>mr_output = [Part_Text (lit ''{}'')], mr_token_usage = None\<rparr>"

definition demo_tool :: tool_definition where
  "demo_tool = \<lparr>td_name = lit ''read'', td_description = lit ''d'', td_capability = ReadOnly, td_input_schema = JNull\<rparr>"

definition demo_tools :: "execution_binding \<Rightarrow> tool_registry" where
  "demo_tools x = [lit ''read'' \<mapsto> \<lparr>tb_definition = demo_tool, tb_execution = x\<rparr>]"

definition demo_proposal :: action_proposal where
  "demo_proposal = \<lparr>pr_id = 5, pr_source_model_call_id = 6, pr_tool_name = lit ''read'', pr_arguments = JObject demo_arguments\<rparr>"

lemma demo_limits: "validate_argument_limits demo_json_lib (JObject demo_arguments) = Inr ()"
  by (simp add: validate_argument_limits_def demo_json_lib_def demo_arguments_def MAX_ACTION_ARGUMENT_BYTES_def
      MAX_ACTION_ARGUMENT_NODES_def MAX_ACTION_ARGUMENT_DEPTH_def MAX_ACTION_ARGUMENT_KEYS_def
      MAX_ACTION_ARGUMENT_ARRAY_ELEMENTS_def push_all_def)

lemma demo_envelope:
  "deserialize_unique_json demo_json_lib t =
     Some (JObject [(lit ''action'', JObject [(lit ''arguments'', JObject demo_arguments), (lit ''tool'', JString (lit ''read''))])])"
  by (simp add: deserialize_unique_json_def demo_json_lib_def demo_arguments_def lit_def)

lemma demo_decodes: "TextActionDecoder_decode demo_json_lib demo_response 5 6 = Inr demo_proposal"
  by (simp add: TextActionDecoder_decode_def demo_response_def demo_envelope demo_limits demo_proposal_def decode_envelope_def
      decode_action_def ToolName_new_def lit_def trim_def is_whitespace_def is_control_def str_len_def len_utf8_def
      MAX_PLANNING_RESPONSE_BYTES_def MAX_ACTION_TOOL_NAME_BYTES_def)

definition demo_validated :: validated_action where
  "demo_validated =
     \<lparr>va_proposal_id = 5, va_tool_name = lit ''read'', va_arguments = JObject demo_arguments, va_capability = ReadOnly,
      va_digest = replicate 32 0\<rparr>"

lemma demo_validates: "ActionValidator_validate demo_json_lib demo_proposal (demo_tools x) = Inr demo_validated"
  using demo_limits
  by (simp add: ActionValidator_validate_def demo_proposal_def demo_tools_def demo_tool_def demo_validated_def demo_json_lib_def
      compute_action_digest_def str_len_def len_utf8_def lit_def MAX_ACTION_TOOL_NAME_BYTES_def)

lemma demo_json_ok: "json_ok (JObject demo_arguments)" "json_ok (JObject [])" "text_ok (lit ''read'')" "text_ok (lit ''d'')"
  by (simp_all add: demo_arguments_def lit_def text_ok_def scalar_def str_len_def len_utf8_def as_bytes_def utf8_char_def)

end
