(* ===== verification/Demo_Harness.thy ===== *)
theory Demo_Harness
  imports Harness_Journal Demo_Store Demo_Action
begin

text \<open>
  Concrete harness environments for the witnesses: codecs given by finite tables, a registry with a read-only
  tool and a contained local-write tool, and sessions that are run by the simplifier.
\<close>

section \<open>Codecs from tables\<close>

fun position :: "'a list \<Rightarrow> 'a \<Rightarrow> nat option" where
  "position [] x = None"
| "position (y # ys) x = (if x = y then Some 0 else map_option Suc (position ys x))"

definition table_to :: "'a list \<Rightarrow> 'a \<Rightarrow> byte list option" where
  "table_to xs x = map_option (\<lambda>i. [of_nat i]) (position xs x)"

definition table_from :: "'a list \<Rightarrow> byte list \<Rightarrow> 'a option" where
  "table_from xs b = (case b of [n] \<Rightarrow> if unat n < length xs then Some (xs ! unat n) else None | _ \<Rightarrow> None)"

lemma position_Some: "position xs x = Some i \<Longrightarrow> i < length xs \<and> xs ! i = x"
  by (induction xs arbitrary: i) (auto split: if_splits)

lemma table_roundtrip:
  assumes "length xs \<le> 256" "table_to xs x = Some b"
  shows "table_from xs b = Some x"
proof -
  from assms(2) obtain i where i: "position xs x = Some i" "b = [of_nat i]" by (auto simp: table_to_def)
  with position_Some [OF i(1)] assms(1) have "unat (of_nat i :: byte) = i" by (simp add: unat_of_nat)
  with i position_Some [OF i(1)] show ?thesis by (simp add: table_from_def)
qed

definition table_events :: "agent_event list \<Rightarrow> codec" where
  "table_events es = \<lparr>to_vec = table_to es, sha256 = (\<lambda>_. replicate 32 0)\<rparr>"

definition table_codec :: "agent_event list \<Rightarrow> run_record list \<Rightarrow> durable_checkpoint list \<Rightarrow> store_codec" where
  "table_codec es rs cs =
     \<lparr>sc_events = table_events es, event_from = table_from es,
      record_to = table_to rs, record_from = table_from rs, checkpoint_to = table_to cs, checkpoint_from = table_from cs,
      approval_to = (\<lambda>_. None), approval_from = (\<lambda>_. None)\<rparr>"

lemma table_codec_ok:
  "length es \<le> 256 \<Longrightarrow> length rs \<le> 256 \<Longrightarrow> length cs \<le> 256 \<Longrightarrow> store_codec_ok (table_codec es rs cs)"
  by (simp add: store_codec_ok_def table_codec_def table_events_def table_roundtrip)

lemma table_events_sel:
  "to_vec (table_events es) e = table_to es e" "sha256 (table_events es) b = replicate 32 0"
  "chain_digest (table_events es) d b = replicate 32 0"
  by (simp_all add: table_events_def chain_digest_def)

text \<open>A codec that encodes everything, for traces in which nothing is read back.\<close>

definition loose_codec :: store_codec where
  "loose_codec = \<lparr>sc_events = demo_codec, event_from = (\<lambda>_. None), record_to = (\<lambda>_. Some []), record_from = (\<lambda>_. None),
     checkpoint_to = (\<lambda>_. Some []), checkpoint_from = (\<lambda>_. None), approval_to = (\<lambda>_. None), approval_from = (\<lambda>_. None)\<rparr>"

section \<open>Environments\<close>

definition demo_reader :: tool_binding where
  "demo_reader =
     \<lparr>tb_definition = \<lparr>td_name = lit ''read'', td_description = [], td_capability = ReadOnly, td_input_schema = JNull\<rparr>,
      tb_execution = Exec_Direct 0\<rparr>"

definition demo_writer :: tool_binding where
  "demo_writer =
     \<lparr>tb_definition = \<lparr>td_name = lit ''write'', td_description = [], td_capability = LocalWrite, td_input_schema = JNull\<rparr>,
      tb_execution = Exec_Contained 1\<rparr>"

definition demo_registry :: tool_registry where
  "demo_registry = [lit ''read'' \<mapsto> demo_reader, lit ''write'' \<mapsto> demo_writer]"

lemma demo_registry_ok: "registry_ok demo_registry"
  by (simp add: registry_ok_def demo_registry_def demo_reader_def demo_writer_def lit_def)

text \<open>A request, and a port that finds nothing.\<close>

definition demo_request :: knowledge_request where
  "demo_request = \<lparr>kq_query = lit ''q'', kq_route = KR_Single OcppRagKag, kq_limits = RetrievalLimits_default, kq_snapshots = []\<rparr>"

definition demo_backend :: "knowledge_request \<Rightarrow> knowledge_error + backend_evidence_set" where
  "demo_backend q = Inr \<lparr>bs_backend = OcppRagKag, bs_evidence = [], bs_snapshot = None, bs_truncated = False\<rparr>"

definition demo_port :: "nat \<Rightarrow> knowledge_request \<Rightarrow> knowledge_error + evidence_set" where
  "demo_port t = RoutedKnowledgePort_retrieve (jl_sha256 demo_json_lib) [OcppRagKag \<mapsto> demo_backend]"

definition demo_env :: "store_codec \<Rightarrow> bool \<Rightarrow> (nat \<Rightarrow> wait_outcome) \<Rightarrow> harness_env" where
  "demo_env sc durable wait =
     \<lparr>he_store_codec = sc, he_persistence = durable, he_approval_port = True,
      he_policy = M6ApprovalPolicy_authorize, he_tools = demo_registry, he_audit_policy = FailClosed,
      he_io = (\<lambda>_. None), he_now = (\<lambda>_. 0), he_wall = (\<lambda>_. 1000000000),
      he_uuid = of_nat, he_cancelled = (\<lambda>_. False), he_wait = wait, he_audit = (\<lambda>_ _. None),
      he_model = (\<lambda>_ _. Inr \<lparr>mr_output = [], mr_token_usage = None\<rparr>),
      he_tool = (\<lambda>_ _ call. Inr (Tool_Succeeded (tc_id call) JNull)),
      he_managed_start = (\<lambda>_ _ _. Inr ()), he_managed_reap = (\<lambda>_ _. Inr ()),
      he_contained_start = (\<lambda>_ _ _. Inr ()),
      he_contained_wait = (\<lambda>_ _ call. Inr (Tool_Succeeded (tc_id call) JNull)),
      he_contained_reap = (\<lambda>_ _. Inr ()),
      he_preview = (\<lambda>_ _ _. Inr \<lparr>ap_summary = [], ap_target_label = []\<rparr>),
      he_approve = (\<lambda>_ q. Inr (ApprovalRequest_approve q)), he_json = demo_json_lib, he_knowledge = Some demo_port\<rparr>"

lemma demo_env_sel [simp]:
  "he_store_codec (demo_env sc p w) = sc" "he_persistence (demo_env sc p w) = p" "he_approval_port (demo_env sc p w) = True"
  "he_policy (demo_env sc p w) = M6ApprovalPolicy_authorize" "he_tools (demo_env sc p w) = demo_registry"
  "he_audit_policy (demo_env sc p w) = FailClosed" "he_io (demo_env sc p w) = (\<lambda>_. None)"
  "he_now (demo_env sc p w) = (\<lambda>_. 0)" "he_wall (demo_env sc p w) = (\<lambda>_. 1000000000)"
  "he_uuid (demo_env sc p w) = of_nat" "he_cancelled (demo_env sc p w) = (\<lambda>_. False)" "he_wait (demo_env sc p w) = w"
  "he_audit (demo_env sc p w) = (\<lambda>_ _. None)"
  "he_model (demo_env sc p w) = (\<lambda>_ _. Inr \<lparr>mr_output = [], mr_token_usage = None\<rparr>)"
  "he_tool (demo_env sc p w) = (\<lambda>_ _ call. Inr (Tool_Succeeded (tc_id call) JNull))"
  "he_contained_start (demo_env sc p w) = (\<lambda>_ _ _. Inr ())"
  "he_contained_wait (demo_env sc p w) = (\<lambda>_ _ call. Inr (Tool_Succeeded (tc_id call) JNull))"
  "he_preview (demo_env sc p w) = (\<lambda>_ _ _. Inr \<lparr>ap_summary = [], ap_target_label = []\<rparr>)"
  "he_approve (demo_env sc p w) = (\<lambda>_ q. Inr (ApprovalRequest_approve q))" "he_json (demo_env sc p w) = demo_json_lib"
  "he_knowledge (demo_env sc p w) = Some demo_port"
  by (simp_all add: demo_env_def)

definition demo_context :: run_context where
  "demo_context = new_with_recovery_contract 1 2 demo_budget (Restartable 1)"

definition demo_read_call :: tool_call where
  "demo_read_call = \<lparr>tc_id = 77, tc_name = lit ''read'', tc_input = JNull\<rparr>"

definition demo_write_action :: validated_action where
  "demo_write_action = \<lparr>va_proposal_id = 50, va_tool_name = lit ''write'', va_arguments = JNull,
     va_capability = LocalWrite, va_digest = [1]\<rparr>"

section \<open>Running sessions\<close>

lemmas session_eval =
  is_quiescent_def session_def demo_context_def demo_registry_def demo_reader_def demo_writer_def demo_read_call_def
  demo_write_action_def lit_def demo_defs eval_defs saturating_inc_def
  and_then_apply on_result_apply get_ctx_def ask_def log_entry_def on_ctx_def upd_ctx_def emit_def
  store_call_def persist_transition_def transition_for_def audit_record_def audit_with_run_bounds_def
  settle_audit_def audit_invocation_def audit_required_def audit_lifecycle_def require_status_def runtime_of_def
  preflight_def reserve_def guarded_call_def lift_port_def discard_def require_apply
  terminalize_safety_def terminalize_with_def audit_terminal_best_effort_def
  next_event_def commit_running_def commit_finished_def ctx_started_at_unix_millis_def context_key_def Let_def
  new_with_recovery_contract_def reserve_defs usage_defs unix_millis_def instant_checked_add_def INSTANT_MAX_def
  ctx_run_record_def
  start_run_def start_run_record_def invoke_model_internal_def bind_grounding_def invoke_model_port_def
  invoke_tool_def invoke_read_only_def invoke_direct_tool_def reserve_and_record_tool_started_def audit_by_mode_def
  invoke_tool_port_def finish_tool_invocation_def record_tool_terminal_event_def
  record_tool_terminal_after_runtime_error_def invoke_validated_action_def
  invoke_approved_local_write_def into_tool_call_def await_approval_def settle_approval_def record_approval_event_def
  invoke_granted_local_write_def invoke_contained_tool_port_def ApprovalRequest_approve_def complete_run_def

lemmas store_eval =
  create_run_def append_transition_def append_transition_in_transaction_def transaction_def
  validate_record_checkpoint_def insert_run_def insert_checkpoint_def initialize_def transition_consistent_def
  DurableCheckpoint_new_def event_row_of_def insert_event_def write_checkpoint_def update_run_def
  encode_sequence_def lift_res_def check_def checksum_def ok_or_def decode_optional_sequence_def
  update_checkpoint_def map_option_case

section \<open>A cancelled tool call\<close>

text \<open>The tool's wait, at tick 10, is ended by a cancellation; everything else goes well.\<close>

definition cancelled_events :: "agent_event list" where
  "cancelled_events =
     [AgentEvent_new 1 0 (Ev_RunStarted 1000),
      AgentEvent_new 1 1 (Ev_ToolInvocationStarted 77 (lit ''read'') ReadOnly 1 2),
      AgentEvent_new 1 2 (Ev_RunFinished Outcome_Cancelled),
      AgentEvent_new 1 3 (Ev_ToolInvocationAdapterFailed 77)]"

definition cancelled_checkpoint :: "nat \<Rightarrow> durable_checkpoint" where
  "cancelled_checkpoint n = DurableCheckpoint_new
     (lb_state (replay (table_events cancelled_events) (take n cancelled_events) (DurableRunState_initial demo_record)))"

definition cancelled_codec :: store_codec where
  "cancelled_codec = table_codec cancelled_events [demo_record] (map cancelled_checkpoint [0, 1, 4])"

definition cancelled_env :: harness_env where
  "cancelled_env = demo_env cancelled_codec True (\<lambda>t. if t = 10 then Wait_Cancelled True else Wait_Ready)"

lemmas cancelled_eval = cancelled_env_def cancelled_codec_def table_codec_def table_events_sel table_to_def
  cancelled_checkpoint_def session_eval store_eval cancelled_events_def

lemma cancelled_codec_ok: "store_codec_ok cancelled_codec"
  by (simp add: cancelled_codec_def table_codec_ok cancelled_events_def)

lemma cancelled_env_sel:
  "he_store_codec cancelled_env = cancelled_codec" "he_persistence cancelled_env" "registry_ok (he_tools cancelled_env)"
  by (simp_all add: cancelled_env_def demo_registry_ok)

lemma started_trace:
  "hs_trace (session cancelled_env demo_context initialize [Call_Start]) =
     [Tr_Created demo_record, Tr_Persisted (cancelled_events ! 0), Tr_Audited (cancelled_events ! 0)]"
  by (simp add: cancelled_eval)

lemma cancelled_trace:
  "hs_trace (session cancelled_env demo_context initialize [Call_Start, Call_InvokeTool demo_read_call]) =
     [Tr_Created demo_record, Tr_Persisted (cancelled_events ! 0), Tr_Audited (cancelled_events ! 0),
      Tr_Persisted (cancelled_events ! 1), Tr_Audited (cancelled_events ! 1), Tr_ToolInvoked demo_read_call,
      Tr_Persisted (cancelled_events ! 2), Tr_Audited (cancelled_events ! 2),
      Tr_Persisted (cancelled_events ! 3), Tr_Audited (cancelled_events ! 3)]"
  by (simp add: cancelled_eval)

section \<open>A model call and an approved write\<close>

definition plain_env :: "bool \<Rightarrow> harness_env" where
  "plain_env durable = demo_env loose_codec durable (\<lambda>_. Wait_Ready)"

lemma plain_env_sel: "registry_ok (he_tools (plain_env d))" "he_persistence (plain_env d) = d"
  by (simp_all add: plain_env_def demo_registry_ok)

lemma model_trace:
  "hs_trace (session (plain_env True) demo_context initialize [Call_Start, Call_InvokeModel [] None]) =
     [Tr_Created demo_record, Tr_Persisted (cancelled_events ! 0), Tr_Audited (cancelled_events ! 0),
      Tr_Persisted (AgentEvent_new 1 1 (Ev_ModelInvocationStarted 7 1 2)),
      Tr_Audited (AgentEvent_new 1 1 (Ev_ModelInvocationStarted 7 1 2)), Tr_ModelInvoked [],
      Tr_Persisted (AgentEvent_new 1 2 (Ev_ModelInvocationCompleted 7 None)),
      Tr_Audited (AgentEvent_new 1 2 (Ev_ModelInvocationCompleted 7 None))]"
  by (simp add: plain_env_def session_eval store_eval loose_codec_def cancelled_events_def)

definition demo_write_call :: tool_call where
  "demo_write_call = into_tool_call demo_write_action 7"

lemma write_trace:
  "\<exists>xs ys. hs_trace (session (plain_env True) demo_context initialize [Call_Start, Call_InvokeAction demo_write_action]) =
     xs @ Tr_ToolInvoked demo_write_call # ys"
  unfolding in_set_conv_decomp [symmetric]
  by (simp add: plain_env_def session_eval store_eval loose_codec_def demo_write_call_def)

section \<open>A retrieval\<close>

definition demo_pending :: pending_knowledge_retrieval where
  "demo_pending = \<lparr>pk_retrieval_id = 9, pk_route = Route_Single OcppRagKag, pk_query_digest = [], pk_query_bytes = 1\<rparr>"

definition retrieval_calls :: "run_call list" where
  "retrieval_calls =
     [Call_Start, Call_BeginIteration, Call_LoopProgress (LP_PhaseEntered 1 Phase_Observe),
      Call_LoopProgress (LP_PhaseCompleted 1 Phase_Observe), Call_LoopProgress (LP_PhaseEntered 1 Phase_Retrieve),
      Call_RetrieveKnowledge demo_request]"

lemma retrieval_trace:
  "\<exists>xs ys. hs_trace (session (plain_env True) demo_context initialize retrieval_calls) = xs @ Tr_KnowledgeAsked demo_request # ys"
  unfolding in_set_conv_decomp [symmetric]
  by (simp add: plain_env_def session_eval store_eval loose_codec_def retrieval_calls_def begin_iteration_def
      record_loop_progress_def retrieve_knowledge_def retrieval_event_def await_knowledge_def finish_retrieval_def
      demo_request_def demo_port_def demo_backend_def demo_json_lib_def query_digest_def str_len_def len_utf8_def
      loop_arm_defs retrieval_position_ok_def route_is_valid_def no_repeats_def MAX_DURABLE_KNOWLEDGE_BACKENDS_def
      MAX_QUERY_BYTES_def RoutedKnowledgePort_retrieve_def merge_backend_results_def EvidenceSet_build_def MAX_RESULTS_def
      MAX_TOTAL_EVIDENCE_BYTES_def map_filter_simps MAX_DURABLE_EVIDENCE_REFERENCES_def)

lemma demo_context_facts: "within_budget demo_context"
  by (simp add: demo_context_def within_budget_new)

end
