(* ===== verification/Graph_Definition.thy ===== *)
theory Graph_Definition
  imports BTree_Map Byte_Encoding Agent_Core "HOL-Library.Product_Lexorder"
begin

text \<open>
  The validation of graph definitions, \<^verbatim>\<open>crates/agent-graph/src/definition.rs\<close>. Nodes and edges are collected in
  ordered maps; every node must have exactly the transitions of its kind, and a depth-first search rejects cycles and
  finds the unreachable nodes. The search threads both of its sets through the recursion, as the source does; its
  termination proof needs that a successful visit leaves the set of nodes being visited as it was.
  \<open>graph_spec\<close> is the declarative definition of a legal graph.
\<close>

section \<open>Data\<close>

definition MAX_GRAPH_NODES :: nat where "MAX_GRAPH_NODES = 64"
definition MAX_GRAPH_EDGES :: nat where "MAX_GRAPH_EDGES = 128"
definition MAX_DECISION_BRANCHES :: nat where "MAX_DECISION_BRANCHES = 16"

datatype (plugins only: code size) node_kind =
  NK_Retrieve | NK_Model | NK_Action | NK_DurableLocalWriteAction | NK_Verify
| NK_Decision "graph_branch_id list" | NK_Complete | NK_Fail

fun durable_kind :: "node_kind \<Rightarrow> graph_node_kind" where
  "durable_kind NK_Retrieve = Node_Retrieve"
| "durable_kind NK_Model = Node_Model"
| "durable_kind NK_Action = Node_Action"
| "durable_kind NK_DurableLocalWriteAction = Node_Action"
| "durable_kind NK_Verify = Node_Verify"
| "durable_kind (NK_Decision _) = Node_Decision"
| "durable_kind NK_Complete = Node_Complete"
| "durable_kind NK_Fail = Node_Fail"

record node_definition =
  nd_id :: graph_node_id
  nd_kind :: node_kind
  nd_recovery :: graph_recovery_mode

record edge =
  ed_from :: graph_node_id
  ed_transition :: graph_transition_key
  ed_to :: graph_node_id

datatype (plugins only: code size) graph_definition_error =
  GD_SizeLimit | GD_DuplicateNode | GD_UnknownNode | GD_DuplicateTransition | GD_InvalidTransition
| GD_TerminalOutgoingEdge | GD_UnreachableNode | GD_Cycle | GD_NoTerminal | GD_InvalidRecoveryMode
| GD_InvalidDecisionBranches

text \<open>The derived order of \<^verbatim>\<open>GraphTransitionKey\<close>: by variant, then by the branch.\<close>

fun transition_rank :: "graph_transition_key \<Rightarrow> nat \<times> graph_branch_id" where
  "transition_rank Key_Succeeded = (0, [])"
| "transition_rank Key_ApprovalDenied = (1, [])"
| "transition_rank Key_VerificationPassed = (2, [])"
| "transition_rank Key_VerificationFailed = (3, [])"
| "transition_rank (Key_Branch b) = (4, b)"

lemma transition_rank_inject: "transition_rank x = transition_rank y \<Longrightarrow> x = y"
  by (cases x; cases y) simp_all

instantiation graph_transition_key :: linorder
begin

definition less_eq_graph_transition_key :: "graph_transition_key \<Rightarrow> graph_transition_key \<Rightarrow> bool" where
  "less_eq_graph_transition_key x y \<longleftrightarrow> transition_rank x \<le> transition_rank y"

definition less_graph_transition_key :: "graph_transition_key \<Rightarrow> graph_transition_key \<Rightarrow> bool" where
  "less_graph_transition_key x y \<longleftrightarrow> transition_rank x < transition_rank y"

instance
  by standard
     (auto simp: less_eq_graph_transition_key_def less_graph_transition_key_def dest: transition_rank_inject)

end

type_synonym node_map = "(graph_node_id, node_definition) btree_map"
type_synonym edge_map = "(graph_node_id \<times> graph_transition_key, graph_node_id) btree_map"

record graph_definition =
  gd_start :: graph_node_id
  gd_nodes :: node_map
  gd_edges :: edge_map
  gd_digest :: digest

section \<open>Validation\<close>

fun recovery_valid :: "graph_node_kind \<Rightarrow> graph_recovery_mode \<Rightarrow> bool" where
  "recovery_valid Node_Retrieve m \<longleftrightarrow> m = Recover_FreshRetrieval"
| "recovery_valid Node_Decision m \<longleftrightarrow> m = Recover_DeterministicBoundary"
| "recovery_valid _ m \<longleftrightarrow> m = Recover_Never"

definition validate_node :: "node_definition \<Rightarrow> graph_definition_error + unit" where
  "validate_node n =
     (if \<not> recovery_valid (durable_kind (nd_kind n)) (nd_recovery n) then Inl GD_InvalidRecoveryMode
      else (case nd_kind n of
              NK_Decision branches \<Rightarrow>
                if branches = [] \<or> length branches > MAX_DECISION_BRANCHES \<or> card (set branches) \<noteq> length branches
                then Inl GD_InvalidDecisionBranches else Inr ()
            | _ \<Rightarrow> Inr ()))"

fun expected_transitions :: "node_kind \<Rightarrow> graph_transition_key set" where
  "expected_transitions NK_DurableLocalWriteAction = {Key_Succeeded, Key_ApprovalDenied}"
| "expected_transitions NK_Verify = {Key_VerificationPassed, Key_VerificationFailed}"
| "expected_transitions (NK_Decision branches) = Key_Branch ` set branches"
| "expected_transitions NK_Complete = {}"
| "expected_transitions NK_Fail = {}"
| "expected_transitions _ = {Key_Succeeded}"

definition actual_transitions :: "edge_map \<Rightarrow> graph_node_id \<Rightarrow> graph_transition_key set" where
  "actual_transitions em n = set (map snd (filter (\<lambda>k. fst k = n) (map fst em)))"

definition is_terminal :: "node_kind \<Rightarrow> bool" where
  "is_terminal k \<longleftrightarrow> k = NK_Complete \<or> k = NK_Fail"

fun validate_transitions :: "node_definition list \<Rightarrow> edge_map \<Rightarrow> graph_definition_error + unit" where
  "validate_transitions [] em = Inr ()"
| "validate_transitions (n # ns) em =
     (if actual_transitions em (nd_id n) \<noteq> expected_transitions (nd_kind n)
      then Inl (if is_terminal (nd_kind n) \<and> actual_transitions em (nd_id n) \<noteq> {} then GD_TerminalOutgoingEdge
                else GD_InvalidTransition)
      else validate_transitions ns em)"

definition edge_targets :: "edge_map \<Rightarrow> graph_node_id \<Rightarrow> graph_node_id list" where
  "edge_targets em n = map snd (filter (\<lambda>e. fst (fst e) = n) em)"

text \<open>
  \<open>visit_node\<close> is \<^verbatim>\<open>visit\<close> and \<open>visit_each\<close> its loop over the targets: the sets of nodes being visited and of visited
  nodes are passed on as they are left by the previous call.
\<close>

definition sources_left :: "edge_map \<Rightarrow> graph_node_id set \<Rightarrow> nat" where
  "sources_left em visiting = card (fst ` fst ` set em - visiting)"

type_synonym visit_sets = "graph_node_id set \<times> graph_node_id set"

function (sequential) visit_node ::
  "edge_map \<Rightarrow> graph_node_id \<Rightarrow> graph_node_id set \<Rightarrow> graph_node_id set \<Rightarrow> graph_definition_error + visit_sets"
and visit_each ::
  "edge_map \<Rightarrow> graph_node_id list \<Rightarrow> graph_node_id set \<Rightarrow> graph_node_id set \<Rightarrow> graph_definition_error + visit_sets"
where
  "visit_node em n visiting visited =
     (if n \<in> visiting then Inl GD_Cycle
      else if n \<in> visited then Inr (visiting, visited)
      else (case visit_each em (edge_targets em n) (insert n visiting) visited of
              Inl e \<Rightarrow> Inl e
            | Inr (visiting', visited') \<Rightarrow> Inr (visiting' - {n}, insert n visited')))"
| "visit_each em [] visiting visited = Inr (visiting, visited)"
| "visit_each em (t # ts) visiting visited =
     (case visit_node em t visiting visited of
        Inl e \<Rightarrow> Inl e
      | Inr (visiting', visited') \<Rightarrow> visit_each em ts visiting' visited')"
  by pat_completeness auto

termination
proof -
  have restores:
    "visit_node_visit_each_dom (Inl (em, n, vg, vd)) \<Longrightarrow> visit_node em n vg vd = Inr (vg', vd') \<Longrightarrow> vg' = vg"
    "visit_node_visit_each_dom (Inr (em, ts, vg, vd)) \<Longrightarrow> visit_each em ts vg vd = Inr (vg', vd') \<Longrightarrow> vg' = vg"
    for em n ts vg vd vg' vd'
  proof (induction em n vg vd and em ts vg vd arbitrary: vg' vd' and vg' vd' rule: visit_node_visit_each.pinduct)
    case (1 em n vg vd)
    from 1(3) [unfolded visit_node.psimps [OF 1(1)]] 1(2) show ?case
      by (fastforce split: if_splits sum.splits)
  next
    case (2 em vg vd)
    from 2(2) [unfolded visit_each.psimps(1) [OF 2(1)]] show ?case by simp
  next
    case (3 em t ts vg vd)
    obtain vg1 vd1 where "visit_node em t vg vd = Inr (vg1, vd1)" "visit_each em ts vg1 vd1 = Inr (vg', vd')"
      using 3(4) [unfolded visit_each.psimps(2) [OF 3(1)]] by (auto split: sum.splits)
    with 3(2,3) show ?case by metis
  qed
  show ?thesis
  proof (relation "measures [\<lambda>x. case x of Inl (em, n, vg, vd) \<Rightarrow> sources_left em vg | Inr (em, ts, vg, vd) \<Rightarrow> sources_left em vg,
      \<lambda>x. case x of Inl _ \<Rightarrow> 1 | Inr (em, ts, vg, vd) \<Rightarrow> 2 * length ts]", goal_cases)
    case (2 em n vg vd)
    show ?case
    proof (cases "n \<in> fst ` fst ` set em")
      case True
      then have "sources_left em (insert n vg) < sources_left em vg"
        using 2(1) unfolding sources_left_def by (intro psubset_card_mono) auto
      then show ?thesis by simp
    next
      case False
      then have "edge_targets em n = []" by (force simp: edge_targets_def filter_empty_conv)
      moreover have "fst ` fst ` set em - insert n vg = fst ` fst ` set em - vg" using False by blast
      ultimately show ?thesis by (simp add: sources_left_def)
    qed
  qed (auto dest: restores)
qed

definition validate_reachability_and_cycles ::
  "graph_node_id \<Rightarrow> node_map \<Rightarrow> edge_map \<Rightarrow> graph_definition_error + unit" where
  "validate_reachability_and_cycles start nm em =
     (case visit_node em start {} {} of
        Inl e \<Rightarrow> Inl e
      | Inr (_, visited) \<Rightarrow>
          if card visited \<noteq> length nm then Inl GD_UnreachableNode
          else if \<not> list_ex (\<lambda>n. is_terminal (nd_kind n)) (map snd nm) then Inl GD_NoTerminal
          else Inr ())"

section \<open>The digest\<close>

fun node_kind_tag :: "node_kind \<Rightarrow> byte" where
  "node_kind_tag NK_Retrieve = 0"
| "node_kind_tag NK_Model = 1"
| "node_kind_tag NK_Action = 2"
| "node_kind_tag NK_DurableLocalWriteAction = 3"
| "node_kind_tag NK_Verify = 4"
| "node_kind_tag (NK_Decision _) = 5"
| "node_kind_tag NK_Complete = 6"
| "node_kind_tag NK_Fail = 7"

fun recovery_tag :: "graph_recovery_mode \<Rightarrow> byte" where
  "recovery_tag Recover_Never = 0"
| "recovery_tag Recover_FreshRetrieval = 1"
| "recovery_tag Recover_DeterministicBoundary = 2"

definition branch_bytes :: "node_kind \<Rightarrow> byte list" where
  "branch_bytes k = (case k of NK_Decision branches \<Rightarrow> concat (map encode_string (sort branches)) | _ \<Rightarrow> [])"

definition node_bytes :: "node_definition \<Rightarrow> byte list" where
  "node_bytes n = 1 # encode_string (nd_id n) @ [node_kind_tag (nd_kind n), recovery_tag (nd_recovery n)]
     @ branch_bytes (nd_kind n)"

fun transition_bytes :: "graph_transition_key \<Rightarrow> byte list" where
  "transition_bytes Key_Succeeded = [0]"
| "transition_bytes Key_ApprovalDenied = [1]"
| "transition_bytes Key_VerificationPassed = [2]"
| "transition_bytes Key_VerificationFailed = [3]"
| "transition_bytes (Key_Branch b) = 4 # encode_string b"

definition edge_bytes :: "(graph_node_id \<times> graph_transition_key) \<times> graph_node_id \<Rightarrow> byte list" where
  "edge_bytes e = 2 # encode_string (fst (fst e)) @ transition_bytes (snd (fst e)) @ encode_string (snd e)"

text \<open>What \<^verbatim>\<open>definition_digest\<close> feeds to the hash function.\<close>

definition definition_bytes :: "graph_node_id \<Rightarrow> node_map \<Rightarrow> edge_map \<Rightarrow> byte list" where
  "definition_bytes start nm em =
     as_bytes (lit ''enterprise-local-agent:graph:v2'') @ encode_string start
     @ concat (map node_bytes (map snd nm)) @ concat (map edge_bytes em)"

definition definition_digest ::
  "(byte list \<Rightarrow> digest) \<Rightarrow> graph_node_id \<Rightarrow> node_map \<Rightarrow> edge_map \<Rightarrow> digest" where
  "definition_digest sha start nm em = sha (definition_bytes start nm em)"

section \<open>Construction\<close>

text \<open>\<^verbatim>\<open>GraphDefinition::new\<close>; \<open>sha\<close> is SHA-256.\<close>

definition known_endpoints :: "node_map \<Rightarrow> edge \<Rightarrow> graph_definition_error + unit" where
  "known_endpoints nm e = check (map_of nm (ed_from e) \<noteq> None \<and> map_of nm (ed_to e) \<noteq> None) GD_UnknownNode"

definition GraphDefinition_new ::
  "(byte list \<Rightarrow> digest) \<Rightarrow> graph_node_id \<Rightarrow> node_definition list \<Rightarrow> edge list \<Rightarrow>
   graph_definition_error + graph_definition" where
  "GraphDefinition_new sha start nodes edges =
     res_then (check (\<not> (nodes = [] \<or> length nodes > MAX_GRAPH_NODES \<or> length edges > MAX_GRAPH_EDGES)) GD_SizeLimit) (\<lambda>_.
     res_then (insert_each validate_node GD_DuplicateNode nd_id (\<lambda>n. n) nodes []) (\<lambda>nm.
     res_then (check (map_of nm start \<noteq> None) GD_UnknownNode) (\<lambda>_.
     res_then (insert_each (known_endpoints nm) GD_DuplicateTransition (\<lambda>e. (ed_from e, ed_transition e)) ed_to edges []) (\<lambda>em.
     res_then (validate_transitions (map snd nm) em) (\<lambda>_.
     res_then (validate_reachability_and_cycles start nm em) (\<lambda>_.
       Inr \<lparr>gd_start = start, gd_nodes = nm, gd_edges = em, gd_digest = definition_digest sha start nm em\<rparr>))))))"

text \<open>\<^verbatim>\<open>GraphDefinition::node\<close> and \<^verbatim>\<open>GraphDefinition::transition\<close>.\<close>

definition gd_node :: "graph_definition \<Rightarrow> graph_node_id \<Rightarrow> node_definition option" where
  "gd_node g n = map_of (gd_nodes g) n"

definition gd_transition :: "graph_definition \<Rightarrow> graph_node_id \<Rightarrow> graph_transition_key \<Rightarrow> graph_node_id option" where
  "gd_transition g n k = map_of (gd_edges g) (n, k)"

end
