(* ===== verification/Graph_Laws.thy ===== *)
theory Graph_Laws
  imports Graph_Definition
begin

text \<open>
  What the validation of a graph guarantees. The depth-first search accepts exactly when no cycle is reachable from its
  start, and it visits exactly the reachable nodes; so \<open>GraphDefinition_new\<close> accepts exactly the graphs of the declarative
  definition \<open>graph_spec\<close>. In an accepted graph no walk repeats a node. The digest commits to the definition.
\<close>

section \<open>The search\<close>

definition edge_rel :: "edge_map \<Rightarrow> (graph_node_id \<times> graph_node_id) set" where
  "edge_rel em = {(n, t). \<exists>k. ((n, k), t) \<in> set em}"

lemma set_edge_targets: "set (edge_targets em n) = edge_rel em `` {n}"
  by (force simp: edge_targets_def edge_rel_def)

lemma finite_edge_rel: "finite (edge_rel em)"
proof -
  have "edge_rel em = (\<lambda>e. (fst (fst e), snd e)) ` set em" by (force simp: edge_rel_def)
  then show ?thesis by simp
qed

declare visit_node.simps [simp del] visit_each.simps(2) [simp del]

lemma visit_restores:
  "visit_node em n vg vd = Inr (vg', vd') \<Longrightarrow> vg' = vg"
  "visit_each em ts vg vd = Inr (vg', vd') \<Longrightarrow> vg' = vg"
proof (induction em n vg vd and em ts vg vd arbitrary: vg' vd' and vg' vd' rule: visit_node_visit_each.induct)
  case (1 em n vg vd)
  from 1(2) show ?case
  proof (cases "n \<in> vg \<or> n \<in> vd")
    case False
    with 1(2) obtain vg1 vd1 where "visit_each em (edge_targets em n) (insert n vg) vd = Inr (vg1, vd1)" "vg' = vg1 - {n}"
      by (auto simp: visit_node.simps split: sum.splits)
    with 1(1) False show ?thesis by auto
  qed (auto simp: visit_node.simps split: if_splits)
next
  case (2 em vg vd)
  then show ?case by simp
next
  case (3 em t ts vg vd)
  obtain vg1 vd1 where a: "visit_node em t vg vd = Inr (vg1, vd1)" "visit_each em ts vg1 vd1 = Inr (vg', vd')"
    using 3(3) by (auto simp: visit_each.simps split: sum.splits)
  from 3(1) [OF a(1)] 3(2) [OF a(1) refl a(2)] show ?case by simp
qed

text \<open>A set that contains its successors and no cycle.\<close>

definition settled :: "(graph_node_id \<times> graph_node_id) set \<Rightarrow> graph_node_id set \<Rightarrow> bool" where
  "settled r vd \<longleftrightarrow> r `` vd \<subseteq> vd \<and> (\<forall>x\<in>vd. (x, x) \<notin> r\<^sup>+)"

lemma settled_reach: "settled r vd \<Longrightarrow> x \<in> vd \<Longrightarrow> (x, y) \<in> r\<^sup>+ \<Longrightarrow> y \<in> vd"
  by (erule trancl_induct [where P = "\<lambda>y. y \<in> vd"]) (auto simp: settled_def)

lemma settled_insert:
  assumes "settled r vd" "r `` {n} \<subseteq> vd" "n \<notin> vd"
  shows "settled r (insert n vd)"
proof -
  have "(n, n) \<notin> r\<^sup>+"
  proof
    assume "(n, n) \<in> r\<^sup>+"
    then obtain t where "(n, t) \<in> r" "t = n \<or> (t, n) \<in> r\<^sup>+" by (metis converse_tranclE)
    with assms settled_reach [OF assms(1), of t n] show False by auto
  qed
  with assms show ?thesis by (auto simp: settled_def)
qed

definition visit_post ::
  "edge_map \<Rightarrow> graph_node_id set \<Rightarrow> graph_node_id set \<Rightarrow> graph_node_id set \<Rightarrow> graph_node_id set \<Rightarrow> bool" where
  "visit_post em from vg vd vd' \<longleftrightarrow>
     vd \<subseteq> vd' \<and> from \<subseteq> vd' \<and> vd' \<subseteq> vd \<union> (edge_rel em)\<^sup>* `` from \<and> vd' \<inter> vg = vd \<inter> vg
     \<and> (settled (edge_rel em) vd \<longrightarrow> settled (edge_rel em) vd')"

lemma visit_post_trans:
  assumes "visit_post em {t} vg vd vd1" "visit_post em ts vg vd1 vd'"
  shows "visit_post em (insert t ts) vg vd vd'"
proof -
  have reach: "(edge_rel em)\<^sup>* `` insert t ts = (edge_rel em)\<^sup>* `` {t} \<union> (edge_rel em)\<^sup>* `` ts" by auto
  have one: "vd \<subseteq> vd1" "t \<in> vd1" "vd1 \<subseteq> vd \<union> (edge_rel em)\<^sup>* `` {t}" "vd1 \<inter> vg = vd \<inter> vg"
      "settled (edge_rel em) vd \<longrightarrow> settled (edge_rel em) vd1"
    and two: "vd1 \<subseteq> vd'" "ts \<subseteq> vd'" "vd' \<subseteq> vd1 \<union> (edge_rel em)\<^sup>* `` ts" "vd' \<inter> vg = vd1 \<inter> vg"
      "settled (edge_rel em) vd1 \<longrightarrow> settled (edge_rel em) vd'"
    using assms by (simp_all add: visit_post_def)
  have "vd' \<subseteq> vd \<union> ((edge_rel em)\<^sup>* `` {t} \<union> (edge_rel em)\<^sup>* `` ts)" using one(3) two(3) by blast
  with one two show ?thesis unfolding visit_post_def reach by simp blast
qed

lemma visit_sound:
  "visit_node em n vg vd = Inr (vg', vd') \<Longrightarrow> visit_post em {n} vg vd vd'"
  "visit_each em ts vg vd = Inr (vg', vd') \<Longrightarrow> visit_post em (set ts) vg vd vd'"
proof (induction em n vg vd and em ts vg vd arbitrary: vg' vd' and vg' vd' rule: visit_node_visit_each.induct)
  case (1 em n vg vd)
  show ?case
  proof (cases "n \<in> vd")
    case True
    with 1(2) show ?thesis by (auto simp: visit_node.simps visit_post_def split: if_splits)
  next
    case False
    with 1(2) obtain vg1 vd1 where each: "visit_each em (edge_targets em n) (insert n vg) vd = Inr (vg1, vd1)"
      and n: "n \<notin> vg" and r: "vd' = insert n vd1"
      by (auto simp: visit_node.simps split: if_splits sum.splits)
    from 1(1) [OF n False each] have post: "visit_post em (edge_rel em `` {n}) (insert n vg) vd vd1"
      by (simp add: set_edge_targets)
    then have "n \<notin> vd1" using False by (auto simp: visit_post_def)
    have "(edge_rel em)\<^sup>* `` (edge_rel em `` {n}) \<subseteq> (edge_rel em)\<^sup>* `` {n}"
      by (auto intro: converse_rtrancl_into_rtrancl)
    moreover have "settled (edge_rel em) vd \<longrightarrow> settled (edge_rel em) (insert n vd1)"
      using post \<open>n \<notin> vd1\<close> settled_insert by (auto simp: visit_post_def)
    ultimately show ?thesis using post n by (auto simp: visit_post_def r)
  qed
next
  case (2 em vg vd)
  then show ?case by (simp add: visit_post_def)
next
  case (3 em t ts vg vd)
  then obtain vg1 vd1 where a: "visit_node em t vg vd = Inr (vg1, vd1)" and b: "visit_each em ts vg1 vd1 = Inr (vg', vd')"
    by (auto simp: visit_each.simps split: sum.splits)
  have "vg1 = vg" using visit_restores(1) [OF a] .
  with 3(1) [OF a] 3(2) [OF a refl b] visit_post_trans show ?case by simp
qed

text \<open>The search fails only on a cycle that can be reached.\<close>

lemma visit_complete:
  "\<forall>x\<in>(edge_rel em)\<^sup>* `` {n}. (x, x) \<notin> (edge_rel em)\<^sup>+ \<Longrightarrow> \<forall>g\<in>vg. (g, n) \<in> (edge_rel em)\<^sup>+ \<Longrightarrow>
   \<exists>r. visit_node em n vg vd = Inr r"
  "\<forall>x\<in>(edge_rel em)\<^sup>* `` set ts. (x, x) \<notin> (edge_rel em)\<^sup>+ \<Longrightarrow> \<forall>g\<in>vg. \<forall>t\<in>set ts. (g, t) \<in> (edge_rel em)\<^sup>+ \<Longrightarrow>
   \<exists>r. visit_each em ts vg vd = Inr r"
proof (induction em n vg vd and em ts vg vd rule: visit_node_visit_each.induct)
  case (1 em n vg vd)
  have n: "n \<notin> vg" using 1(2,3) by auto
  show ?case
  proof (cases "n \<in> vd")
    case True
    with n show ?thesis by (simp add: visit_node.simps)
  next
    case False
    have "\<exists>r. visit_each em (edge_targets em n) (insert n vg) vd = Inr r"
    proof (rule 1(1) [OF n False])
      show "\<forall>x\<in>(edge_rel em)\<^sup>* `` set (edge_targets em n). (x, x) \<notin> (edge_rel em)\<^sup>+"
        using 1(2) by (auto simp: set_edge_targets intro: converse_rtrancl_into_rtrancl)
      show "\<forall>g\<in>insert n vg. \<forall>t\<in>set (edge_targets em n). (g, t) \<in> (edge_rel em)\<^sup>+"
        using 1(3) by (auto simp: set_edge_targets intro: trancl_into_trancl)
    qed
    with n False show ?thesis by (auto simp: visit_node.simps)
  qed
next
  case (2 em vg vd)
  then show ?case by simp
next
  case (3 em t ts vg vd)
  then obtain vg1 vd1 where a: "visit_node em t vg vd = Inr (vg1, vd1)" by fastforce
  have "vg1 = vg" using visit_restores(1) [OF a] .
  with 3(2) [OF a refl] 3(3,4) a show ?case by (auto simp: visit_each.simps)
qed

lemma visit_start_iff:
  "(\<exists>r. visit_node em n {} {} = Inr r) \<longleftrightarrow> (\<forall>x\<in>(edge_rel em)\<^sup>* `` {n}. (x, x) \<notin> (edge_rel em)\<^sup>+)"
  (is "_ \<longleftrightarrow> ?acyclic")
proof
  assume "\<exists>r. visit_node em n {} {} = Inr r"
  then obtain vg vd where "visit_node em n {} {} = Inr (vg, vd)" by fastforce
  from visit_sound(1) [OF this] have "settled (edge_rel em) vd" "n \<in> vd"
    by (auto simp: visit_post_def settled_def)
  then show ?acyclic
    by (metis ImageE settled_def settled_reach rtranclD singletonD)
next
  assume ?acyclic
  then show "\<exists>r. visit_node em n {} {} = Inr r" by (intro visit_complete(1)) auto
qed

lemma visit_start_reachable:
  assumes "visit_node em n {} {} = Inr (vg, vd)"
  shows "vd = (edge_rel em)\<^sup>* `` {n}"
proof
  from visit_sound(1) [OF assms] have post: "vd \<subseteq> (edge_rel em)\<^sup>* `` {n}" "n \<in> vd" "settled (edge_rel em) vd"
    by (auto simp: visit_post_def settled_def)
  then show "vd \<subseteq> (edge_rel em)\<^sup>* `` {n}" by simp
  show "(edge_rel em)\<^sup>* `` {n} \<subseteq> vd"
    using post(2) settled_reach [OF post(3)] by (auto dest: rtranclD)
qed

section \<open>Legal graphs\<close>

definition node_ok :: "node_definition \<Rightarrow> bool" where
  "node_ok n \<longleftrightarrow> recovery_valid (durable_kind (nd_kind n)) (nd_recovery n)
     \<and> (\<forall>bs. nd_kind n = NK_Decision bs \<longrightarrow> bs \<noteq> [] \<and> length bs \<le> MAX_DECISION_BRANCHES \<and> distinct bs)"

definition links :: "edge list \<Rightarrow> (graph_node_id \<times> graph_node_id) set" where
  "links es = (\<lambda>e. (ed_from e, ed_to e)) ` set es"

definition graph_spec :: "graph_node_id \<Rightarrow> node_definition list \<Rightarrow> edge list \<Rightarrow> bool" where
  "graph_spec start ns es \<longleftrightarrow>
     ns \<noteq> [] \<and> length ns \<le> MAX_GRAPH_NODES \<and> length es \<le> MAX_GRAPH_EDGES
     \<and> (\<forall>n\<in>set ns. node_ok n) \<and> distinct (map nd_id ns) \<and> start \<in> nd_id ` set ns
     \<and> (\<forall>e\<in>set es. ed_from e \<in> nd_id ` set ns \<and> ed_to e \<in> nd_id ` set ns)
     \<and> distinct (map (\<lambda>e. (ed_from e, ed_transition e)) es)
     \<and> (\<forall>n\<in>set ns. ed_transition ` {e \<in> set es. ed_from e = nd_id n} = expected_transitions (nd_kind n))
     \<and> acyclic (links es) \<and> nd_id ` set ns \<subseteq> (links es)\<^sup>* `` {start}
     \<and> (\<exists>n\<in>set ns. is_terminal (nd_kind n))"

lemma validate_node_iff: "validate_node n = Inr () \<longleftrightarrow> node_ok n"
  by (auto simp: validate_node_def node_ok_def card_distinct distinct_card split: node_kind.split)

lemma validate_transitions_iff:
  "validate_transitions ns em = Inr () \<longleftrightarrow>
     (\<forall>n\<in>set ns. actual_transitions em (nd_id n) = expected_transitions (nd_kind n))"
  by (induction ns) auto

lemma reachable_known:
  assumes "r \<subseteq> a \<times> a" "start \<in> a"
  shows "r\<^sup>* `` {start} \<subseteq> a"
proof
  fix x assume "x \<in> r\<^sup>* `` {start}"
  then have "(start, x) \<in> r\<^sup>*" by simp
  then show "x \<in> a" by (induction rule: rtrancl_induct) (use assms in auto)
qed

lemma validate_reachability_iff:
  assumes nm: "bt_ok nm" and known: "edge_rel em \<subseteq> fst ` set nm \<times> fst ` set nm" "start \<in> fst ` set nm"
  shows "validate_reachability_and_cycles start nm em = Inr () \<longleftrightarrow>
     acyclic (edge_rel em) \<and> fst ` set nm \<subseteq> (edge_rel em)\<^sup>* `` {start} \<and> (\<exists>e\<in>set nm. is_terminal (nd_kind (snd e)))"
    (is "?check \<longleftrightarrow> ?acyclic \<and> ?all \<and> ?terminal")
proof -
  let ?r = "(edge_rel em)\<^sup>* `` {start}"
  have sub: "?r \<subseteq> fst ` set nm" by (rule reachable_known [OF known])
  have keys: "card (fst ` set nm) = length nm"
    using distinct_card [OF bt_ok_distinct [OF nm]] by simp
  have all: "card ?r = length nm \<longleftrightarrow> ?all"
    using sub keys card_subset_eq [of "fst ` set nm" ?r] by (metis List.finite_set finite_imageI subset_antisym subset_refl)
  have local: "(\<forall>x\<in>?r. (x, x) \<notin> (edge_rel em)\<^sup>+) \<longleftrightarrow> ?acyclic" if ?all
    using that known(1) trancl_subset_Sigma [OF known(1)] unfolding acyclic_def by blast
  have found: "visit_node em start {} {} = Inr (vg, vd) \<Longrightarrow> vd = ?r" for vg vd
    by (rule visit_start_reachable)
  show ?thesis
  proof (cases "\<exists>r. visit_node em start {} {} = Inr r")
    case True
    then obtain vg vd where v: "visit_node em start {} {} = Inr (vg, vd)" by fastforce
    with True found [OF v] visit_start_iff [of em start] local all show ?thesis
      by (auto simp: validate_reachability_and_cycles_def list_ex_iff)
  next
    case False
    then obtain e where "visit_node em start {} {} = Inl e" by (cases "visit_node em start {} {}") auto
    moreover have "\<not> ?acyclic" using False visit_start_iff [of em start] by (auto simp: acyclic_def)
    ultimately show ?thesis by (simp add: validate_reachability_and_cycles_def)
  qed
qed

definition filled :: "node_definition list \<Rightarrow> edge list \<Rightarrow> node_map \<Rightarrow> edge_map \<Rightarrow> bool" where
  "filled ns es nm em \<longleftrightarrow>
     bt_ok nm \<and> set nm = (\<lambda>n. (nd_id n, n)) ` set ns \<and> length nm = length ns
     \<and> bt_ok em \<and> set em = (\<lambda>e. ((ed_from e, ed_transition e), ed_to e)) ` set es \<and> length em = length es"

lemma filled_facts:
  assumes "filled ns es nm em"
  shows "fst ` set nm = nd_id ` set ns" "snd ` set nm = set ns" "edge_rel em = links es"
    "actual_transitions em n = ed_transition ` {e \<in> set es. ed_from e = n}"
    "map_of nm i \<noteq> None \<longleftrightarrow> i \<in> nd_id ` set ns"
proof -
  from assms have nm: "set nm = (\<lambda>n. (nd_id n, n)) ` set ns"
    and em: "set em = (\<lambda>e. ((ed_from e, ed_transition e), ed_to e)) ` set es" by (simp_all add: filled_def)
  show fst: "fst ` set nm = nd_id ` set ns" and "snd ` set nm = set ns" by (simp_all add: nm image_image)
  show "edge_rel em = links es" by (auto simp: edge_rel_def links_def em)
  show "actual_transitions em n = ed_transition ` {e \<in> set es. ed_from e = n}"
    by (auto simp: actual_transitions_def em image_iff)
  show "map_of nm i \<noteq> None \<longleftrightarrow> i \<in> nd_id ` set ns" unfolding fst [symmetric] by (simp add: map_of_eq_None_iff)
qed

lemma maps_filled:
  assumes "insert_each validate_node GD_DuplicateNode nd_id (\<lambda>n. n) ns [] = Inr nm"
    and "insert_each (known_endpoints nm) GD_DuplicateTransition (\<lambda>e. (ed_from e, ed_transition e)) ed_to es [] = Inr em"
  shows "filled ns es nm em"
  using insert_each_entries [OF _ assms(1)] insert_each_entries [OF _ assms(2)] by (simp add: filled_def)

text \<open>\<open>GraphDefinition_new\<close> accepts exactly the legal graphs.\<close>

lemma graph_new_iff: "(\<exists>g. GraphDefinition_new sha start ns es = Inr g) \<longleftrightarrow> graph_spec start ns es"
proof (cases "\<exists>nm. insert_each validate_node GD_DuplicateNode nd_id (\<lambda>n. n) ns [] = Inr nm")
  case False
  then have "\<not> graph_spec start ns es"
    using insert_each_iff [of "[]" validate_node GD_DuplicateNode nd_id "\<lambda>n. n" ns] by (auto simp: graph_spec_def validate_node_iff)
  with False show ?thesis by (auto simp: GraphDefinition_new_def res_then_Inr_iff)
next
  case True
  then obtain nm where nm: "insert_each validate_node GD_DuplicateNode nd_id (\<lambda>n. n) ns [] = Inr nm" by blast
  have nodes: "(\<forall>n\<in>set ns. node_ok n) \<and> distinct (map nd_id ns)"
    using True insert_each_iff [of "[]" validate_node GD_DuplicateNode nd_id "\<lambda>n. n" ns] by (auto simp: validate_node_iff)
  have nm': "bt_ok nm" "set nm = (\<lambda>n. (nd_id n, n)) ` set ns" using insert_each_entries [OF _ nm] by simp_all
  have ids: "map_of nm i \<noteq> None \<longleftrightarrow> i \<in> nd_id ` set ns" for i
    using nm'(2) by (auto simp: map_of_eq_None_iff image_iff)
  let ?ins = "insert_each (known_endpoints nm) GD_DuplicateTransition (\<lambda>e. (ed_from e, ed_transition e)) ed_to es []"
  have edges: "(\<exists>em. ?ins = Inr em) \<longleftrightarrow> (\<forall>e\<in>set es. ed_from e \<in> nd_id ` set ns \<and> ed_to e \<in> nd_id ` set ns)
      \<and> distinct (map (\<lambda>e. (ed_from e, ed_transition e)) es)"
    unfolding insert_each_iff [OF bt_ok_Nil] by (simp add: known_endpoints_def ids [unfolded not_None_eq])
  show ?thesis
  proof (cases "\<exists>em. ?ins = Inr em")
    case False
    with edges have "\<not> graph_spec start ns es" unfolding graph_spec_def by blast
    with False nm show ?thesis by (auto simp: GraphDefinition_new_def res_then_Inr_iff)
  next
    case True
    then obtain em where em: "?ins = Inr em" by blast
    note f = filled_facts [OF maps_filled [OF nm em]]
    have known: "links es \<subseteq> nd_id ` set ns \<times> nd_id ` set ns" using True edges by (auto simp: links_def)
    have reach: "validate_reachability_and_cycles start nm em = Inr () \<longleftrightarrow> acyclic (links es)
        \<and> nd_id ` set ns \<subseteq> (links es)\<^sup>* `` {start} \<and> (\<exists>n\<in>set ns. is_terminal (nd_kind n))" if "start \<in> nd_id ` set ns"
      using validate_reachability_iff [OF nm'(1), of em start] known that f(1,2,3) by (auto simp: nm'(2))
    have trans: "validate_transitions (map snd nm) em = Inr () \<longleftrightarrow>
        (\<forall>n\<in>set ns. ed_transition ` {e \<in> set es. ed_from e = nd_id n} = expected_transitions (nd_kind n))"
      using f(2,4) by (simp add: validate_transitions_iff)
    have "(\<exists>g. GraphDefinition_new sha start ns es = Inr g) \<longleftrightarrow>
        \<not> (ns = [] \<or> length ns > MAX_GRAPH_NODES \<or> length es > MAX_GRAPH_EDGES) \<and> start \<in> nd_id ` set ns
        \<and> validate_transitions (map snd nm) em = Inr () \<and> validate_reachability_and_cycles start nm em = Inr ()"
      using nm em f(5) [of start] by (auto simp: GraphDefinition_new_def res_then_Inr_iff)
    also have "\<dots> \<longleftrightarrow> graph_spec start ns es"
      using nodes True edges trans reach unfolding graph_spec_def by (auto simp: not_less)
    finally show ?thesis .
  qed
qed

lemma graph_new_filled:
  assumes "GraphDefinition_new sha start ns es = Inr g"
  shows "filled ns es (gd_nodes g) (gd_edges g) \<and> gd_start g = start
    \<and> gd_digest g = definition_digest sha start (gd_nodes g) (gd_edges g)"
proof -
  from assms obtain nm em where
    "insert_each validate_node GD_DuplicateNode nd_id (\<lambda>n. n) ns [] = Inr nm"
    "insert_each (known_endpoints nm) GD_DuplicateTransition (\<lambda>e. (ed_from e, ed_transition e)) ed_to es [] = Inr em"
    "g = \<lparr>gd_start = start, gd_nodes = nm, gd_edges = em, gd_digest = definition_digest sha start nm em\<rparr>"
    by (auto simp: GraphDefinition_new_def res_then_Inr_iff)
  with maps_filled show ?thesis by auto
qed

section \<open>Walks\<close>

text \<open>A sequence of nodes along the transitions of a graph.\<close>

fun graph_walk :: "graph_definition \<Rightarrow> graph_node_id list \<Rightarrow> bool" where
  "graph_walk g [] \<longleftrightarrow> True"
| "graph_walk g [n] \<longleftrightarrow> gd_node g n \<noteq> None"
| "graph_walk g (n # m # ns) \<longleftrightarrow> gd_node g n \<noteq> None \<and> (\<exists>k. gd_transition g n k = Some m) \<and> graph_walk g (m # ns)"

text \<open>What the engine relies on.\<close>

definition graph_ok :: "graph_definition \<Rightarrow> bool" where
  "graph_ok g \<longleftrightarrow>
     bt_ok (gd_nodes g) \<and> bt_ok (gd_edges g) \<and> length (gd_nodes g) \<le> MAX_GRAPH_NODES
     \<and> gd_node g (gd_start g) \<noteq> None \<and> acyclic (edge_rel (gd_edges g))
     \<and> (\<forall>n d. gd_node g n = Some d \<longrightarrow> nd_id d = n \<and> node_ok d
          \<and> (\<forall>k. gd_transition g n k \<noteq> None \<longleftrightarrow> k \<in> expected_transitions (nd_kind d)))
     \<and> (\<forall>n k t. gd_transition g n k = Some t \<longrightarrow> gd_node g t \<noteq> None)"

lemma graph_new_ok:
  assumes new: "GraphDefinition_new sha start ns es = Inr g"
  shows "graph_ok g"
proof -
  have spec: "graph_spec start ns es" using new graph_new_iff by blast
  then have spec_nodes: "\<forall>n\<in>set ns. node_ok n"
    and spec_trans: "\<forall>n\<in>set ns. ed_transition ` {e \<in> set es. ed_from e = nd_id n} = expected_transitions (nd_kind n)"
    unfolding graph_spec_def by blast+
  from graph_new_filled [OF new] have f: "filled ns es (gd_nodes g) (gd_edges g)" and start: "gd_start g = start" by simp_all
  note facts = filled_facts [OF f]
  have ok: "bt_ok (gd_nodes g)" "bt_ok (gd_edges g)" "length (gd_nodes g) = length ns" using f by (simp_all add: filled_def)
  have node: "gd_node g n = Some d \<longleftrightarrow> d \<in> set ns \<and> nd_id d = n" for n d
    using f unfolding gd_node_def bt_ok_map_of [OF ok(1)] by (auto simp: filled_def)
  have trans: "gd_transition g n k = Some t \<longleftrightarrow> (\<exists>e\<in>set es. ed_from e = n \<and> ed_transition e = k \<and> ed_to e = t)" for n k t
    using f unfolding gd_transition_def bt_ok_map_of [OF ok(2)] by (auto simp: filled_def)
  have keys: "gd_transition g n k \<noteq> None \<longleftrightarrow> k \<in> ed_transition ` {e \<in> set es. ed_from e = n}" for n k
    using trans by (auto simp: image_iff)
  have known: "gd_node g n \<noteq> None \<longleftrightarrow> n \<in> nd_id ` set ns" for n
    unfolding gd_node_def by (rule facts(5))
  have "gd_node g (gd_start g) \<noteq> None" "acyclic (edge_rel (gd_edges g))" "length (gd_nodes g) \<le> MAX_GRAPH_NODES"
    using spec start known ok(3) facts(3) by (simp_all add: graph_spec_def)
  moreover have "nd_id d = n \<and> node_ok d \<and> (\<forall>k. gd_transition g n k \<noteq> None \<longleftrightarrow> k \<in> expected_transitions (nd_kind d))"
    if "gd_node g n = Some d" for n d
  proof -
    from that node have d: "d \<in> set ns" "nd_id d = n" by simp_all
    from bspec [OF spec_nodes d(1)] bspec [OF spec_trans d(1)] d(2)
    have "node_ok d" "ed_transition ` {e \<in> set es. ed_from e = n} = expected_transitions (nd_kind d)" by simp_all
    with d(2) keys show ?thesis by simp
  qed
  moreover have "gd_node g t \<noteq> None" if "gd_transition g n k = Some t" for n k t
  proof -
    from that trans obtain e where "e \<in> set es" "ed_to e = t" by blast
    with spec known [of t] show ?thesis by (auto simp: graph_spec_def)
  qed
  ultimately show ?thesis using ok unfolding graph_ok_def by blast
qed

lemma walk_links: "graph_ok g \<Longrightarrow> graph_walk g ns \<Longrightarrow> sorted_wrt (\<lambda>a b. (a, b) \<in> (edge_rel (gd_edges g))\<^sup>+) ns"
proof (induction g ns rule: graph_walk.induct)
  case (3 g n m ns)
  then obtain k where "gd_transition g n k = Some m" by auto
  then have link: "(n, m) \<in> edge_rel (gd_edges g)"
    by (auto simp: gd_transition_def edge_rel_def dest: map_of_SomeD)
  with 3 show ?case by (auto intro: trancl_into_trancl2)
qed simp_all

lemma walk_known: "graph_walk g ns \<Longrightarrow> set ns \<subseteq> fst ` set (gd_nodes g)"
  by (induction g ns rule: graph_walk.induct) (auto simp: gd_node_def map_of_eq_None_iff)

lemma walk_bounded:
  assumes "graph_ok g" "graph_walk g ns"
  shows "distinct ns \<and> length ns \<le> length (gd_nodes g)"
proof
  have "sorted_wrt (\<noteq>) ns"
    using walk_links [OF assms] assms(1) by (elim sorted_wrt_mono_rel [rotated]) (auto simp: graph_ok_def acyclic_def)
  then show d: "distinct ns" by (induction ns) auto
  have "card (set ns) \<le> card (fst ` set (gd_nodes g))"
    using walk_known [OF assms(2)] by (intro card_mono) simp_all
  also have "\<dots> \<le> length (gd_nodes g)" using card_image_le [of "set (gd_nodes g)" fst] card_length [of "gd_nodes g"] by simp
  finally show "length ns \<le> length (gd_nodes g)" using d by (simp add: distinct_card)
qed

section \<open>The digest commits to the definition\<close>

definition id_ok :: "rust_string \<Rightarrow> bool" where
  "id_ok s \<longleftrightarrow> list_all scalar s \<and> str_len s < 2 ^ 56"

lemma id_ok_text: "id_ok s \<Longrightarrow> text_ok s"
  by (simp add: id_ok_def text_ok_def)

lemma encode_string_head: "id_ok s \<Longrightarrow> \<exists>w. encode_string s = 0 # w"
  using encode_len_head [of "str_len s"] by (auto simp: id_ok_def encode_string_def)

fun key_ok :: "graph_transition_key \<Rightarrow> bool" where
  "key_ok (Key_Branch b) \<longleftrightarrow> id_ok b"
| "key_ok _ \<longleftrightarrow> True"

interpretation transition_code: prefix_code transition_bytes key_ok
proof
  fix x y u v
  assume ok: "key_ok x" "key_ok y" and eq: "transition_bytes x @ u = transition_bytes y @ v"
  show "x = y \<and> u = v"
  proof (cases "\<exists>a b. x = Key_Branch a \<and> y = Key_Branch b")
    case True
    then obtain a b where "x = Key_Branch a" "y = Key_Branch b" by blast
    with ok eq string_code.unique [OF id_ok_text id_ok_text, of a b u v] show ?thesis by simp
  next
    case False
    with eq show ?thesis by (cases x; cases y) simp_all
  qed
qed

definition edge_ok :: "(graph_node_id \<times> graph_transition_key) \<times> graph_node_id \<Rightarrow> bool" where
  "edge_ok e \<longleftrightarrow> id_ok (fst (fst e)) \<and> key_ok (snd (fst e)) \<and> id_ok (snd e)"

interpretation edge_code: prefix_code edge_bytes edge_ok
proof
  fix x y u v
  assume ok: "edge_ok x" "edge_ok y" and eq: "edge_bytes x @ u = edge_bytes y @ v"
  let ?rest = "\<lambda>e w. transition_bytes (snd (fst e)) @ encode_string (snd e) @ w"
  from ok have t: "text_ok (fst (fst x))" "text_ok (fst (fst y))" "text_ok (snd x)" "text_ok (snd y)"
    and k: "key_ok (snd (fst x))" "key_ok (snd (fst y))"
    by (simp_all add: edge_ok_def id_ok_text)
  from eq have "encode_string (fst (fst x)) @ ?rest x u = encode_string (fst (fst y)) @ ?rest y v"
    by (simp add: edge_bytes_def)
  with string_code.unique [OF t(1,2)] have "fst (fst x) = fst (fst y)" "?rest x u = ?rest y v" by blast+
  with transition_code.unique [OF k] string_code.unique [OF t(3,4)] show "x = y \<and> u = v"
    by (metis prod.collapse)
qed

text \<open>A node up to the order of its branches.\<close>

definition canon_kind :: "node_kind \<Rightarrow> node_kind" where
  "canon_kind k = (case k of NK_Decision bs \<Rightarrow> NK_Decision (sort bs) | _ \<Rightarrow> k)"

definition canon_node :: "node_definition \<Rightarrow> node_definition" where
  "canon_node n = n\<lparr>nd_kind := canon_kind (nd_kind n)\<rparr>"

definition kind_text_ok :: "node_kind \<Rightarrow> bool" where
  "kind_text_ok k \<longleftrightarrow> (case k of NK_Decision bs \<Rightarrow> list_all id_ok bs | _ \<Rightarrow> True)"

definition node_text_ok :: "node_definition \<Rightarrow> bool" where
  "node_text_ok n \<longleftrightarrow> id_ok (nd_id n) \<and> kind_text_ok (nd_kind n) \<and> canon_node n = n"

definition at_tag :: "byte list \<Rightarrow> bool" where
  "at_tag w \<longleftrightarrow> w = [] \<or> hd w = 1 \<or> hd w = 2"

interpretation id_code: prefix_code encode_string id_ok
  by unfold_locales (use string_code.unique id_ok_text in blast)

lemma string_not_at_tag: "id_ok x \<Longrightarrow> at_tag w \<Longrightarrow> encode_string x @ r \<noteq> w"
  using encode_string_head [of x] by (auto simp: at_tag_def)

lemma branch_bytes_unique:
  assumes "kind_text_ok k" "kind_text_ok l" "at_tag u" "at_tag v" "node_kind_tag k = node_kind_tag l"
    and "branch_bytes k @ u = branch_bytes l @ v"
  shows "canon_kind k = canon_kind l \<and> u = v"
proof (cases "\<exists>bs cs. k = NK_Decision bs \<and> l = NK_Decision cs")
  case True
  then obtain bs cs where kl: "k = NK_Decision bs" "l = NK_Decision cs" by blast
  have "list_all id_ok (sort bs)" "list_all id_ok (sort cs)"
    using assms(1,2) by (simp_all add: kl kind_text_ok_def list_all_iff)
  from id_code.run.unique_run [where stop = at_tag, OF _ _ string_not_at_tag this assms(3,4)] assms(6) show ?thesis
    by (simp add: kl canon_kind_def branch_bytes_def)
next
  case False
  with assms(5,6) show ?thesis by (cases k; cases l) (auto simp: branch_bytes_def)
qed

interpretation node_code: delimited_code node_bytes node_text_ok at_tag
proof
  fix x y u v
  assume ok: "node_text_ok x" "node_text_ok y" and follow: "at_tag u" "at_tag v"
    and eq: "node_bytes x @ u = node_bytes y @ v"
  let ?rest = "\<lambda>n w. node_kind_tag (nd_kind n) # recovery_tag (nd_recovery n) # branch_bytes (nd_kind n) @ w"
  from eq have "encode_string (nd_id x) @ ?rest x u = encode_string (nd_id y) @ ?rest y v"
    by (simp add: node_bytes_def)
  with id_code.unique ok have id: "nd_id x = nd_id y" and rest: "?rest x u = ?rest y v"
    by (auto simp: node_text_ok_def)
  have "nd_recovery x = nd_recovery y" using rest by (cases "nd_recovery x"; cases "nd_recovery y") auto
  moreover have "canon_kind (nd_kind x) = canon_kind (nd_kind y) \<and> u = v"
    using branch_bytes_unique [of "nd_kind x" "nd_kind y" u v] ok follow rest by (simp add: node_text_ok_def)
  moreover have "canon_kind (nd_kind x) = nd_kind x" "canon_kind (nd_kind y) = nd_kind y"
    using ok by (cases x; cases y; simp add: node_text_ok_def canon_node_def)+
  ultimately show "x = y \<and> u = v" using id by (cases x; cases y) simp
qed

lemma sort_idem [simp]: "sort (sort xs) = sort xs" for xs :: "'a::linorder list"
  by (simp add: sorted_sort_id)

lemma node_bytes_canon: "node_bytes (canon_node n) = node_bytes n"
  by (cases "nd_kind n") (simp_all add: node_bytes_def canon_node_def canon_kind_def branch_bytes_def)

lemma canon_node_idem: "canon_node (canon_node n) = canon_node n"
  by (cases n; cases "nd_kind n") (simp_all add: canon_node_def canon_kind_def)

text \<open>The texts of a definition are short enough for their lengths to fit: identifiers have at most 64 bytes.\<close>

definition graph_text_ok :: "graph_node_id \<Rightarrow> node_map \<Rightarrow> edge_map \<Rightarrow> bool" where
  "graph_text_ok start nm em \<longleftrightarrow> id_ok start \<and> list_all (\<lambda>e. id_ok (nd_id (snd e)) \<and> kind_text_ok (nd_kind (snd e))) nm
     \<and> list_all edge_ok em"

lemma definition_bytes_commit:
  assumes ok: "graph_text_ok start nm em" "graph_text_ok start' nm' em'"
    and eq: "definition_bytes start nm em = definition_bytes start' nm' em'"
  shows "start = start' \<and> map (\<lambda>e. canon_node (snd e)) nm = map (\<lambda>e. canon_node (snd e)) nm' \<and> em = em'"
proof -
  let ?ns = "\<lambda>m. map (\<lambda>e. canon_node (snd e)) m"
  have nodes: "concat (map node_bytes (map snd m)) = concat (map node_bytes (?ns m))" for m :: node_map
    by (simp add: node_bytes_canon comp_def)
  have canon_ok: "list_all node_text_ok (?ns m)" if "graph_text_ok s m e" for s m e
    using that by (auto simp: graph_text_ok_def node_text_ok_def list_all_iff canon_node_idem canon_node_def canon_kind_def
        kind_text_ok_def split: node_kind.splits)
  from eq have head: "start = start'"
    and body: "concat (map node_bytes (?ns nm)) @ concat (map edge_bytes em)
      = concat (map node_bytes (?ns nm')) @ concat (map edge_bytes em')"
    using id_code.unique ok unfolding definition_bytes_def nodes by (auto simp: graph_text_ok_def)
  have stop: "concat (map edge_bytes e) = [] \<or> hd (concat (map edge_bytes e)) = 2" for e
    by (cases e) (simp_all add: edge_bytes_def)
  have split: "?ns nm = ?ns nm' \<and> concat (map edge_bytes em) = concat (map edge_bytes em')"
    by (rule node_code.unique_run [where stop = "\<lambda>w. w = [] \<or> hd w = 2", OF _ _ _ canon_ok [OF ok(1)] canon_ok [OF ok(2)] stop stop body])
       (auto simp: at_tag_def node_bytes_def)
  have "em = em'"
    using edge_code.run.unique_run [of "\<lambda>w. w = []" em em' "[]" "[]"] split ok
    by (simp add: graph_text_ok_def edge_bytes_def)
  with head split show ?thesis by simp
qed

end
