(* ===== verification/Demo_Graph.thy ===== *)
theory Demo_Graph
  imports Graph_Laws
begin

text \<open>A small legal graph for the witnesses: a model node followed by a completing node.\<close>

definition demo_sha :: "byte list \<Rightarrow> digest" where
  "demo_sha b = replicate 32 0"

definition demo_nodes :: "node_definition list" where
  "demo_nodes =
     [\<lparr>nd_id = lit ''m'', nd_kind = NK_Model, nd_recovery = Recover_Never\<rparr>,
      \<lparr>nd_id = lit ''c'', nd_kind = NK_Complete, nd_recovery = Recover_Never\<rparr>]"

definition demo_edges :: "edge list" where
  "demo_edges = [\<lparr>ed_from = lit ''m'', ed_transition = Key_Succeeded, ed_to = lit ''c''\<rparr>]"

definition demo_graph :: graph_definition where
  "demo_graph =
     \<lparr>gd_start = lit ''m'', gd_nodes = [(lit ''c'', demo_nodes ! 1), (lit ''m'', demo_nodes ! 0)],
      gd_edges = [((lit ''m'', Key_Succeeded), lit ''c'')], gd_digest = replicate 32 0\<rparr>"

lemma demo_graph_new: "GraphDefinition_new demo_sha (lit ''m'') demo_nodes demo_edges = Inr demo_graph"
  by (simp add: GraphDefinition_new_def demo_nodes_def demo_edges_def demo_graph_def lit_def MAX_GRAPH_NODES_def
      MAX_GRAPH_EDGES_def validate_node_def known_endpoints_def actual_transitions_def validate_reachability_and_cycles_def
      visit_node.simps visit_each.simps edge_targets_def is_terminal_def definition_digest_def demo_sha_def)

lemma demo_graph_text: "graph_text_ok (lit ''m'') (gd_nodes demo_graph) (gd_edges demo_graph)"
  by (simp add: graph_text_ok_def demo_graph_def demo_nodes_def lit_def id_ok_def scalar_def str_len_def len_utf8_def
      kind_text_ok_def edge_ok_def)

lemma demo_graph_text': "graph_text_ok (lit ''c'') (gd_nodes demo_graph) (gd_edges demo_graph)"
  using demo_graph_text by (simp add: graph_text_ok_def lit_def id_ok_def scalar_def str_len_def len_utf8_def)

end
