(* ===== verification/Effects.thy ===== *)
theory Effects
  imports Harness_Safety
begin

text \<open>
  Callbacks of programs. The only effects a callback has on the run are the methods of \<^verbatim>\<open>LoopEffects\<close>
  (\<^verbatim>\<open>agent-loop/src/program.rs\<close>) or of the narrower effect types of \<^verbatim>\<open>agent-graph/src/effects.rs\<close>, which forward to the
  harness. A callback is therefore a tree: it returns, or calls one method and goes on depending on the answer. Every
  program of this kind is some tree; a callback that never returns is not, and would block the engine that awaits it.
\<close>

datatype (plugins only: size) 'a effects =
  Eff_Return 'a
| Eff_InvokeModel model_request "harness_error + model_response \<Rightarrow> 'a effects"
| Eff_InvokeModelTracked model_request "harness_error + completed_model_invocation \<Rightarrow> 'a effects"
| Eff_RetrieveKnowledge knowledge_request "harness_error + completed_knowledge_retrieval \<Rightarrow> 'a effects"
| Eff_InvokeGrounded completed_knowledge_retrieval grounded_model_request
    "harness_error + completed_model_invocation \<Rightarrow> 'a effects"
| Eff_PrepareAction completed_model_invocation
    "harness_error + (action_validation_error + validated_action) \<Rightarrow> 'a effects"
| Eff_InvokeValidatedAction validated_action "harness_error + tool_result \<Rightarrow> 'a effects"
| Eff_InvokeTool tool_call "harness_error + tool_result \<Rightarrow> 'a effects"

primrec run_effects :: "harness_env \<Rightarrow> 'a effects \<Rightarrow> harness_state \<Rightarrow> 'a \<times> harness_state" where
  "run_effects env (Eff_Return x) = (\<lambda>s. (x, s))"
| "run_effects env (Eff_InvokeModel q k) = (\<lambda>s. case invoke_model env q s of (r, t) \<Rightarrow> run_effects env (k r) t)"
| "run_effects env (Eff_InvokeModelTracked q k) = (\<lambda>s. case invoke_model_tracked env q s of (r, t) \<Rightarrow> run_effects env (k r) t)"
| "run_effects env (Eff_RetrieveKnowledge q k) = (\<lambda>s. case retrieve_knowledge env q s of (r, t) \<Rightarrow> run_effects env (k r) t)"
| "run_effects env (Eff_InvokeGrounded c q k) = (\<lambda>s. case invoke_grounded_model env c q s of (r, t) \<Rightarrow> run_effects env (k r) t)"
| "run_effects env (Eff_PrepareAction i k) = (\<lambda>s. case prepare_action env i s of (r, t) \<Rightarrow> run_effects env (k r) t)"
| "run_effects env (Eff_InvokeValidatedAction a k) =
     (\<lambda>s. case invoke_validated_action env a s of (r, t) \<Rightarrow> run_effects env (k r) t)"
| "run_effects env (Eff_InvokeTool c k) = (\<lambda>s. case invoke_tool env c s of (r, t) \<Rightarrow> run_effects env (k r) t)"

section \<open>Engines as sessions\<close>

text \<open>The states that some sequence of operations of the harness leads to.\<close>

definition reaches :: "harness_env \<Rightarrow> harness_state \<Rightarrow> harness_state \<Rightarrow> bool" where
  "reaches env s t \<longleftrightarrow> (\<exists>calls. t = snd (perform_all env calls s))"

lemma discard_snd: "snd (discard m s) = snd (m s)" "fst (discard m s) = Inr ()"
  by (cases "m s"; simp add: discard_def on_result_apply)+

lemma perform_ok: "fst (perform env call s) = Inr ()"
  by (cases call) (simp_all add: discard_snd)

lemma perform_all_snd: "snd (perform_all env (call # calls) s) = snd (perform_all env calls (snd (perform env call s)))"
  using perform_ok [of env call s] by (cases "perform env call s") (simp add: and_then_apply)

lemma perform_all_append: "snd (perform_all env (xs @ ys) s) = snd (perform_all env ys (snd (perform_all env xs s)))"
  by (induction xs arbitrary: s) (simp_all add: perform_all_snd del: perform_all.simps(2))

interpretation reaches: harness_frame "reaches env" for env
proof
  show "reaches env s s" for s by (auto simp: reaches_def intro: exI [of _ "[]"])
  show "reaches env s u" if "reaches env s t" "reaches env t u" for s t u
    using that unfolding reaches_def by (metis perform_all_append)
qed

lemma reaches_perform: "reaches env s (snd (perform env call s))"
  unfolding reaches_def by (rule exI [of _ "[call]"]) (simp add: perform_all_snd del: perform_all.simps(2))

lemma reaches_discard: "perform env call = discard m \<Longrightarrow> within (reaches env) m"
  using reaches_perform [of env _ call] by (simp add: within_def discard_snd)

lemma within_invoke_model: "within R (invoke_model_internal env q None) \<Longrightarrow> within R (invoke_model env q)"
  unfolding within_def
proof
  fix s assume "\<forall>s. R s (snd (invoke_model_internal env q None s))"
  then show "R s (snd (invoke_model env q s))"
    by (cases "invoke_model_internal env q None s"; cases "fst (invoke_model_internal env q None s)")
       (auto simp: invoke_model_def invoke_model_tracked_def and_then_apply dest: spec [of _ s])
qed

lemma reaches_calls:
  "within (reaches env) (invoke_model env q)" "within (reaches env) (invoke_model_tracked env q)"
  "within (reaches env) (retrieve_knowledge env kq)" "within (reaches env) (invoke_grounded_model env c gq)"
  "within (reaches env) (prepare_action env i)" "within (reaches env) (invoke_validated_action env a)"
  "within (reaches env) (invoke_tool env tc)"
  "within (reaches env) (checkpoint env)" "within (reaches env) (begin_iteration env)"
  "within (reaches env) (record_loop_progress env p)" "within (reaches env) (complete_run env)"
  "within (reaches env) (fail_run env f)"
  "within (reaches env) (start_graph env d n k m)" "within (reaches env) (enter_graph_node env n k m)"
  "within (reaches env) (restart_graph_node env prev n k m)" "within (reaches env) (complete_graph_node env at n key n' k m)"
  "within (reaches env) (complete_graph env at n)" "within (reaches env) (fail_graph env at n gf)"
proof -
  show "within (reaches env) (invoke_model env q)"
    by (rule within_invoke_model, rule reaches_discard [of env "Call_InvokeModel q None"]) simp
  show "within (reaches env) (invoke_model_tracked env q)"
    unfolding invoke_model_tracked_def by (rule reaches_discard [of env "Call_InvokeModel q None"]) simp
qed (rule reaches_discard, rule perform.simps)+

text \<open>A relation that the harness operations of callbacks respect is respected by every callback.\<close>

locale effect_frame = harness_frame R for R :: "harness_state \<Rightarrow> harness_state \<Rightarrow> bool" +
  fixes env :: harness_env
  assumes calls:
    "within R (invoke_model env q)" "within R (invoke_model_tracked env q)" "within R (retrieve_knowledge env kq)"
    "within R (invoke_grounded_model env c gq)" "within R (prepare_action env i)" "within R (invoke_validated_action env a)"
    "within R (invoke_tool env tc)"
begin

lemma effects_within: "R s (snd (run_effects env p s))"
proof (induction p arbitrary: s)
  case (Eff_InvokeModel q k)
  then show ?case using within_step [OF calls(1)] trans by (fastforce split: prod.split)
next
  case (Eff_InvokeModelTracked q k)
  then show ?case using within_step [OF calls(2)] trans by (fastforce split: prod.split)
next
  case (Eff_RetrieveKnowledge q k)
  then show ?case using within_step [OF calls(3)] trans by (fastforce split: prod.split)
next
  case (Eff_InvokeGrounded c q k)
  then show ?case using within_step [OF calls(4)] trans by (fastforce split: prod.split)
next
  case (Eff_PrepareAction i k)
  then show ?case using within_step [OF calls(5)] trans by (fastforce split: prod.split)
next
  case (Eff_InvokeValidatedAction a k)
  then show ?case using within_step [OF calls(6)] trans by (fastforce split: prod.split)
next
  case (Eff_InvokeTool c k)
  then show ?case using within_step [OF calls(7)] trans by (fastforce split: prod.split)
qed (simp add: refl)

end

interpretation effect_sessions: effect_frame "reaches env" env for env
  by unfold_locales (rule reaches_calls)+

end
