(* ===== verification/Harness_Steps.thy ===== *)
theory Harness_Steps
  imports Harness_Trace
begin

text \<open>
  Relations between the states before and after a computation of the harness, given by what single steps do: ticks,
  bookkeeping entries of the trace, changes of the context that undo nothing, and appends to the journal. Such a relation
  is respected by all the operations of the harness that only persist, audit, check and end a run (locale \<open>step_frame\<close>).
\<close>

section \<open>Growth of the context\<close>

fun ended :: "run_status \<Rightarrow> bool" where
  "ended (Status_Finished _) = True"
| "ended _ = False"

definition ctx_grows :: "run_context \<Rightarrow> run_context \<Rightarrow> bool" where
  "ctx_grows c d \<longleftrightarrow>
     rc_budget d = rc_budget c \<and> rc_recovery_contract d = rc_recovery_contract c
     \<and> iterations (rc_usage c) \<le> iterations (rc_usage d) \<and> graph_steps (rc_usage c) \<le> graph_steps (rc_usage d)
     \<and> (rc_runtime c \<noteq> None \<longrightarrow> rc_runtime d \<noteq> None)
     \<and> (rc_persistence_failed c \<longrightarrow> rc_persistence_failed d)
     \<and> (ended (rc_status c) \<longrightarrow> rc_status d = rc_status c)
     \<and> (rc_status c \<noteq> Status_Pending \<longrightarrow> rc_status d \<noteq> Status_Pending)"

lemma ctx_grows_methods:
  "ctx_grows c (snd (next_event cd k c))" "ctx_grows c (snd (commit_running i w c))" "ctx_grows c (snd (commit_finished out c))"
  "ctx_grows c (snd (ctx_request_cancel c))" "ctx_grows c (mark_audit_degraded c)" "ctx_grows c (mark_persistence_failed c)"
proof -
  show "ctx_grows c (snd (next_event cd k c))"
    by (simp add: next_event_def Let_def ctx_grows_def split: option.split sum.split prod.split)
  show "ctx_grows c (snd (commit_running i w c))"
    by (cases "rc_status c") (simp_all add: commit_running_def ctx_grows_def RunStatus_start.simps split: option.split)
  show "ctx_grows c (snd (commit_finished out c))"
    by (cases "rc_status c") (simp_all add: commit_finished_def ctx_grows_def RunStatus_finish.simps)
qed (simp_all add: ctx_request_cancel_def ctx_grows_def mark_audit_degraded_def mark_persistence_failed_def split: option.split)

lemma inc_grows: "(x::'a::len word) < y \<Longrightarrow> x < x + 1"
  using unat_inc [of x] word_order.extremum_strict by (metis lessI word_less_nat_alt)

lemma ctx_grows_reserve:
  "ctx_grows c (snd (reserve_model_call c))" "ctx_grows c (snd (reserve_tool_call c))" "ctx_grows c (snd (reserve_iteration c))"
  "ctx_grows c (snd (reserve_approval_request c))" "ctx_grows c (snd (reserve_graph_step c))"
  by (auto simp: ctx_grows_def reserve_defs usage_defs Let_def not_le intro: less_imp_le dest: inc_grows)

section \<open>Relations respected by every step\<close>

locale step_frame = harness_frame R for R :: "harness_state \<Rightarrow> harness_state \<Rightarrow> bool" +
  assumes tick: "R s (s\<lparr>hs_tick := n\<rparr>)"
    and entry: "bookkeeping x \<Longrightarrow> R s (s\<lparr>hs_trace := hs_trace s @ [x]\<rparr>)"
    and ctx_step: "ctx_grows (hs_ctx s) c \<Longrightarrow> R s (s\<lparr>hs_ctx := c\<rparr>)"
    and journal: "R s (s\<lparr>hs_store := snd (append_transition sc io t (hs_store s))\<rparr>)"
begin

lemma steps_plain:
  "within R (ask f)" "bookkeeping x \<Longrightarrow> within R (log_entry x)" "within R (upd_ctx mark_audit_degraded)"
  "within R (upd_ctx mark_persistence_failed)"
  by (simp_all add: within_def ask_def log_entry_def upd_ctx_def tick entry ctx_step ctx_grows_methods)

lemma steps_on_ctx: "(\<And>c. ctx_grows c (snd (m c))) \<Longrightarrow> within R (on_ctx f m)"
  unfolding within_def
proof
  fix s :: harness_state
  assume m: "\<And>c. ctx_grows c (snd (m c))"
  obtain r c where "m (hs_ctx s) = (r, c)" by fastforce
  with m [of "hs_ctx s"] show "R s (snd (on_ctx f m s))" by (cases r) (simp_all add: on_ctx_def ctx_step)
qed

lemma steps_methods:
  "within R (emit env k)" "within R (on_ctx g (commit_running i w))" "within R (on_ctx g (commit_finished out))"
  "within R (on_ctx g ctx_request_cancel)" "within R (on_ctx h reserve_model_call)" "within R (on_ctx h reserve_tool_call)"
  "within R (on_ctx h reserve_iteration)" "within R (on_ctx h reserve_approval_request)"
  "within R (on_ctx h reserve_graph_step)"
  unfolding emit_def by (rule steps_on_ctx, rule ctx_grows_methods ctx_grows_reserve)+

lemmas steps_core = within_rules steps_plain steps_methods

lemma steps_append: "within R (store_call (\<lambda>io. append_transition sc io t) env)"
  unfolding within_def
proof
  fix s :: harness_state
  let ?io = "he_io env (hs_tick s)"
  have "R s (s\<lparr>hs_store := snd (append_transition sc ?io t (hs_store s)), hs_tick := Suc (hs_tick s)\<rparr>)"
    by (rule trans [OF journal [of s sc ?io t] tick])
  then show "R s (snd (store_call (\<lambda>io. append_transition sc io t) env s))"
    by (auto simp: store_call_def split: prod.split sum.split)
qed

lemma steps_persist: "within R (persist_transition env e)"
  unfolding persist_transition_def by (intro steps_core steps_append) simp

lemma steps_audit_record: "within R (audit_record env e)"
  unfolding audit_record_def by (intro steps_core) simp

lemma steps_wait:
  "(\<And>b. within R (f b)) \<Longrightarrow> (\<And>b. within R (g b)) \<Longrightarrow> within R m \<Longrightarrow>
   within R (case w of Wait_Cancelled b \<Rightarrow> f b | Wait_Deadline b \<Rightarrow> g b | Wait_Ready \<Rightarrow> m)"
  by (cases w) simp_all

lemma steps_audits:
  "within R (audit_with_run_bounds env e)" "within R (record_audit_degraded env)"
  "within R (apply_audit_failure env op ph ef k)" "within R (audit_terminal_best_effort env e)"
proof -
  show "within R (audit_with_run_bounds env e)" "within R (audit_terminal_best_effort env e)"
    unfolding audit_with_run_bounds_def audit_terminal_best_effort_def
    by (intro steps_core steps_wait steps_persist steps_audit_record)+
  show degraded: "within R (record_audit_degraded env)"
    unfolding record_audit_degraded_def by (intro steps_core steps_persist)
  show "within R (apply_audit_failure env op ph ef k)"
    by (cases "he_audit_policy env") (simp_all add: apply_audit_failure_def within_err degraded)
qed

lemma steps_terminalize: "within R (terminalize_with env out)" "within R (terminalize_safety env t)"
  "within R (terminalize_after_start_audit_failure env)"
  unfolding terminalize_safety_def terminalize_after_start_audit_failure_def terminalize_with_def
  by (intro steps_core steps_audits)+

lemma steps_settle: "(\<And>k. within R (h k)) \<Longrightarrow> within R (settle_audit env ph h out)"
  by (cases out) (auto simp: settle_audit_def intro!: steps_core steps_terminalize)

lemma steps_audited:
  "within R (audit_invocation env e op ph ef)" "within R (audit_required env e op ph ef)"
  "within R (audit_lifecycle env e op)" "within R (audit_by_mode env mode e op ph ef)"
proof -
  show invocation: "within R (audit_invocation env e op ph ef)"
    unfolding audit_invocation_def by (intro steps_core steps_settle steps_audits steps_persist)
  show required: "within R (audit_required env e op ph ef)"
    unfolding audit_required_def by (intro steps_core steps_settle steps_audits steps_persist)
  show "within R (audit_lifecycle env e op)"
    unfolding audit_lifecycle_def by (intro steps_core steps_audits steps_persist steps_audit_record)
  show "within R (audit_by_mode env mode e op ph ef)"
    by (cases mode) (simp_all add: audit_by_mode_def invocation required)
qed

lemma steps_guards:
  "within R (require_status op r)" "within R runtime_of" "within R (preflight env op)" "within R (lift_port f q)"
  unfolding require_status_def runtime_of_def preflight_def lift_port_def by (intro steps_core steps_terminalize)+

lemma steps_reserve: "within R (on_ctx HE_BudgetExceeded m) \<Longrightarrow> within R (reserve env m)"
  unfolding reserve_def
  by (rule within_on_result) (auto intro!: steps_core steps_terminalize split: sum.split harness_error.split)

lemma steps_guarded_call:
  "within R m \<Longrightarrow> within R n \<Longrightarrow> within R k \<Longrightarrow> within R (guarded_call env m n k)"
  unfolding guarded_call_def by (intro steps_core steps_wait steps_terminalize)

lemmas steps_rules = steps_core steps_persist steps_audit_record steps_wait steps_audits steps_terminalize steps_audited
  steps_guards steps_reserve steps_guarded_call

lemma steps_error_case:
  "(\<And>x. within R (f x)) \<Longrightarrow> within R g \<Longrightarrow> within R (case e of HE_ModelPort x \<Rightarrow> f x | _ \<Rightarrow> g)"
  "(\<And>x. within R (f' x)) \<Longrightarrow> within R g \<Longrightarrow> within R (case e of HE_ApprovalPort x \<Rightarrow> f' x | _ \<Rightarrow> g)"
  "(\<And>x. within R (t x)) \<Longrightarrow> (\<And>x. within R (c x)) \<Longrightarrow> within R g \<Longrightarrow>
   within R (case e of HE_ToolPort x \<Rightarrow> t x | HE_ContainmentPort x \<Rightarrow> c x | _ \<Rightarrow> g)"
  by (cases e; simp)+

lemma steps_finish_tool:
  "within R (record_tool_terminal_event env k op mode)" "within R (record_tool_terminal_after_runtime_error env tid op mode)"
  "within R (finish_tool_invocation env tid op mode r)"
  unfolding record_tool_terminal_event_def record_tool_terminal_after_runtime_error_def finish_tool_invocation_def
  by (intro steps_rules steps_error_case)+

end

end
