(* ===== verification/Harness_Growth.thy ===== *)
theory Harness_Growth
  imports Harness_Steps
begin

text \<open>
  What no operation of the harness ever undoes: the budget and the recovery contract of a run stay the same, used
  iterations and steps stay used, a runtime once created is there, a failed persistence stays failed and an ended run
  stays ended. The engines rely on this for their termination and for what they leave behind.
\<close>

section \<open>Growth\<close>

definition grows :: "harness_state \<Rightarrow> harness_state \<Rightarrow> bool" where
  "grows s t \<longleftrightarrow> ctx_grows (hs_ctx s) (hs_ctx t)"

interpretation grows: step_frame grows
proof
  show "grows s s" for s by (simp add: grows_def ctx_grows_def)
  show "grows s u" if "grows s t" "grows t u" for s t u
    using that unfolding grows_def ctx_grows_def by (intro conjI impI; (elim conjE)?) (auto intro: order_trans)
  show "grows s (s\<lparr>hs_ctx := c\<rparr>)" if "ctx_grows (hs_ctx s) c" for s c
    using that by (simp add: grows_def)
qed (simp_all add: grows_def ctx_grows_def)

lemma grows_same_ctx: "hs_ctx t = hs_ctx s \<Longrightarrow> grows s t"
  by (simp add: grows_def ctx_grows_def)

text \<open>Growth looks at the context only, so that every entry of the trace and every store operation is allowed.\<close>

lemma grows_log_entry: "within grows (log_entry x)"
  by (simp add: within_def log_entry_def grows_same_ctx)

lemma grows_store_call: "within grows (store_call f env)"
  by (auto simp: within_def store_call_def grows_same_ctx split: prod.split sum.split)

lemmas grows_core = grows.within_rules grows_log_entry grows.steps_core grows_store_call

lemmas grows_settle = grows.steps_settle
lemmas grows_guards = grows.steps_guards

lemmas grows_rules = grows.within_rules grows_log_entry grows_store_call grows.steps_rules

lemmas grows_error_case = grows.steps_error_case
lemmas grows_finish_tool = grows.steps_finish_tool(3)

section \<open>Growth under every operation\<close>

lemma grows_model: "within grows (invoke_model_internal env q g)"
  unfolding invoke_model_internal_def invoke_model_port_def bind_grounding_def
  by (intro grows_rules grows_error_case)

lemma grows_knowledge: "within grows (retrieve_knowledge env kq)" "within grows (prepare_action env i)"
  unfolding retrieve_knowledge_def await_knowledge_def finish_retrieval_def record_knowledge_failure_def
    record_knowledge_interruption_def prepare_action_def record_action_rejected_def
  by (intro grows_rules)+

lemma grows_tool_ports:
  "within grows (invoke_tool_port env p call)" "within grows (invoke_contained_tool_port env p call)"
  "within grows (invoke_managed_tool_port env p call)" "within grows (await_approval env a)"
  "within grows (record_tool_terminal_event env k op mode)" "within grows (record_policy_denied env tid name cap op)"
  "within grows (record_containment_failed env tid name cap kind)" "within grows (record_approval_event env k)"
  "within grows (reserve_and_record_tool_started env tid name cap op mode)"
  "within grows (record_tool_terminal_after_runtime_error env tid op mode)"
  unfolding invoke_tool_port_def invoke_contained_tool_port_def invoke_managed_tool_port_def await_approval_def
    record_tool_terminal_event_def record_policy_denied_def record_containment_failed_def record_approval_event_def
    reserve_and_record_tool_started_def record_tool_terminal_after_runtime_error_def
  by (intro grows_rules)+

lemma grows_invoke_read_only: "within grows (invoke_read_only env x call name cap)"
  by (cases x)
     (simp_all add: invoke_read_only_def invoke_direct_tool_def invoke_managed_tool_def invoke_contained_read_only_def
        grows.within_and_then grows.within_on_result grows_tool_ports grows_finish_tool)

lemma grows_invoke_tool: "within grows (invoke_tool env call)"
  unfolding invoke_tool_def Let_def
  by (intro grows_rules; (split authorization_decision.split, intro conjI allI impI)?;
      intro grows_rules grows_tool_ports grows_invoke_read_only)

lemma grows_granted: "within grows (settle_approval env p call q d)"
proof -
  have granted: "within grows (invoke_granted_local_write env p call n c)" for n c
    unfolding invoke_granted_local_write_def by (intro grows_rules grows_tool_ports grows_finish_tool)
  show ?thesis
    unfolding settle_approval_def
    by (cases "ad_outcome d")
       (simp_all add: grows.within_and_then grows.within_err grows_guards grows_tool_ports granted)
qed

lemma grows_approved_write: "within grows (invoke_approved_local_write env p call a)"
  unfolding invoke_approved_local_write_def Let_def
  by (intro grows_rules grows_error_case grows_tool_ports grows_granted)

lemma grows_validated_action: "within grows (invoke_validated_action env a)"
proof -
  have rest: "within grows (case va_capability a of
      ReadOnly \<Rightarrow> (case he_policy env (va_capability a) of
          Auth_Allowed \<Rightarrow> invoke_read_only env x call n c
        | Auth_RequiresApproval \<Rightarrow> and_then denied (\<lambda>_. err e1)
        | Auth_Denied d \<Rightarrow> and_then denied (\<lambda>_. err (HE_PolicyDenied d)))
    | LocalWrite \<Rightarrow> (case he_policy env (va_capability a) of
          Auth_Denied d \<Rightarrow> and_then denied (\<lambda>_. err (HE_PolicyDenied d))
        | Auth_Allowed \<Rightarrow> and_then denied (\<lambda>_. err HE_ApprovalRequired)
        | Auth_RequiresApproval \<Rightarrow> (case x of
              Exec_Contained p \<Rightarrow> and_then get_ctx (\<lambda>ctx. if rc_audit_degraded ctx then err HE_AuditDegraded
                  else invoke_approved_local_write env p call a)
            | _ \<Rightarrow> and_then (record_containment_failed env tid n c CF_Unavailable) (\<lambda>_. err e2)))
    | _ \<Rightarrow> and_then denied (\<lambda>_. err e3))"
    if "within grows denied" for x call n c denied e1 tid e2 e3
    by (cases "va_capability a"; cases "he_policy env (va_capability a)"; cases x)
       (simp_all add: grows.within_and_then grows.within_err grows.within_get_ctx that grows_invoke_read_only
          grows_approved_write grows_tool_ports)
  show ?thesis
    unfolding invoke_validated_action_def Let_def by (intro grows_rules rest grows_tool_ports)
qed

lemma grows_lifecycle:
  "within grows (checkpoint env)" "within grows (begin_iteration env)" "within grows (record_loop_progress env p)"
  "within grows (start_graph env d n k m)" "within grows (enter_graph_node env n k m)"
  "within grows (restart_graph_node env prev n k m)" "within grows (complete_graph_node env at n key n' k m)"
  "within grows (complete_graph env at n)" "within grows (fail_graph env at n gf)" "within grows (complete_run env)"
  "within grows (fail_run env f)" "within grows (cancel_run env)"
  unfolding checkpoint_def begin_iteration_def record_loop_progress_def start_graph_def enter_graph_node_def
    restart_graph_node_def complete_graph_node_def complete_graph_def fail_graph_def complete_run_def fail_run_def cancel_run_def
  by (intro grows_rules)+

lemma grows_grounded: "within grows (invoke_grounded_model env r q)"
  unfolding invoke_grounded_model_def by (intro grows_rules grows_model)

end
