(* ===== verification/Loop_Engine.thy ===== *)
theory Loop_Engine
  imports Effects Harness_Growth
begin

text \<open>
  The loop engine of \<^verbatim>\<open>crates/agent-loop\<close> (\<^verbatim>\<open>state.rs\<close>, \<^verbatim>\<open>program.rs\<close>, \<^verbatim>\<open>engine.rs\<close>): it drives a program through the phases
  observe, retrieve, plan, act, verify and reflect until the program decides to stop, recording every step with the
  harness. The six callbacks of the program are a parameter, each a tree of harness operations.

  The state of the engine is the state of the harness, the working state of the program (with the program's own fields)
  and the \<^verbatim>\<open>LoopState\<close>.
\<close>

section \<open>Loop state\<close>

datatype (plugins only: code size) verification_result = Verify_Passed | Verify_Failed
datatype (plugins only: code size) reflect_decision = Reflect_Complete | Reflect_Continue | Reflect_Fail loop_failure_kind
datatype (plugins only: code size) loop_terminal = Terminal_Complete | Terminal_Fail loop_failure_kind

datatype (plugins only: code size) loop_position =
  At_Ready | At_PhaseReady loop_phase | At_PhaseRunning loop_phase | At_Finished loop_terminal

record loop_state =
  ls_current_iteration :: "u32 option"
  ls_completed_iterations :: u32
  ls_position :: loop_position

datatype (plugins only: code size) loop_transition_error =
  LT_AlreadyTerminal | LT_BeginRequiresReady | LT_IllegalPhaseEntry loop_phase | LT_IllegalPhaseCompletion loop_phase

definition LoopState_new :: loop_state where
  "LoopState_new = \<lparr>ls_current_iteration = None, ls_completed_iterations = 0, ls_position = At_Ready\<rparr>"

definition recovered_ready :: "u32 \<Rightarrow> loop_state" where
  "recovered_ready n = \<lparr>ls_current_iteration = None, ls_completed_iterations = n, ls_position = At_Ready\<rparr>"

definition recovered_retrieve_running :: "u32 \<Rightarrow> u32 \<Rightarrow> loop_state" where
  "recovered_retrieve_running i n =
     \<lparr>ls_current_iteration = Some i, ls_completed_iterations = n, ls_position = At_PhaseRunning Phase_Retrieve\<rparr>"

text \<open>The methods return the new state, or the error with the state unchanged.\<close>

definition ls_begin_iteration :: "u32 \<Rightarrow> loop_state \<Rightarrow> loop_transition_error + loop_state" where
  "ls_begin_iteration i s =
     (case ls_position s of
        At_Ready \<Rightarrow> Inr (s\<lparr>ls_current_iteration := Some i, ls_position := At_PhaseReady Phase_Observe\<rparr>)
      | _ \<Rightarrow> Inl LT_BeginRequiresReady)"

definition ls_enter_phase :: "loop_phase \<Rightarrow> loop_state \<Rightarrow> loop_transition_error + loop_state" where
  "ls_enter_phase p s =
     (case ls_position s of
        At_PhaseReady expected \<Rightarrow>
          if expected = p then Inr (s\<lparr>ls_position := At_PhaseRunning p\<rparr>) else Inl (LT_IllegalPhaseEntry p)
      | At_Finished _ \<Rightarrow> Inl LT_AlreadyTerminal
      | _ \<Rightarrow> Inl (LT_IllegalPhaseEntry p))"

fun next_phase :: "loop_phase \<Rightarrow> loop_phase option" where
  "next_phase Phase_Observe = Some Phase_Retrieve"
| "next_phase Phase_Retrieve = Some Phase_Plan"
| "next_phase Phase_Plan = Some Phase_Act"
| "next_phase Phase_Act = Some Phase_Verify"
| "next_phase Phase_Verify = Some Phase_Reflect"
| "next_phase Phase_Reflect = None"

definition ls_complete_phase :: "loop_phase \<Rightarrow> loop_state \<Rightarrow> loop_transition_error + loop_state" where
  "ls_complete_phase p s =
     (case (ls_position s, next_phase p) of
        (At_PhaseRunning current, Some n) \<Rightarrow>
          if current = p then Inr (s\<lparr>ls_position := At_PhaseReady n\<rparr>) else Inl (LT_IllegalPhaseCompletion p)
      | (At_Finished _, _) \<Rightarrow> Inl LT_AlreadyTerminal
      | _ \<Rightarrow> Inl (LT_IllegalPhaseCompletion p))"

text \<open>The counter goes up once per reserved iteration, and the budget of iterations is a \<^verbatim>\<open>u32\<close> as well.\<close>

definition ls_accept_reflect :: "reflect_decision \<Rightarrow> loop_state \<Rightarrow> loop_transition_error + loop_state" where
  "ls_accept_reflect d s =
     (case ls_position s of
        At_PhaseRunning Phase_Reflect \<Rightarrow>
          let s1 = s\<lparr>ls_completed_iterations := ls_completed_iterations s + 1\<rparr> in
          Inr (case d of
                 Reflect_Continue \<Rightarrow> s1\<lparr>ls_current_iteration := None, ls_position := At_Ready\<rparr>
               | Reflect_Complete \<Rightarrow> s1\<lparr>ls_position := At_Finished Terminal_Complete\<rparr>
               | Reflect_Fail k \<Rightarrow> s1\<lparr>ls_position := At_Finished (Terminal_Fail k)\<rparr>)
      | At_Finished _ \<Rightarrow> Inl LT_AlreadyTerminal
      | _ \<Rightarrow> Inl (LT_IllegalPhaseCompletion Phase_Reflect))"

section \<open>Programs and errors\<close>

datatype (plugins only: code size) loop_step_error = Step_Program | Step_Harness harness_error

datatype (plugins only: code size) loop_error =
  LErr_Harness harness_error | LErr_Transition loop_transition_error | LErr_Program loop_phase
| LErr_RunTerminal run_status | LErr_Finalization harness_error | LErr_RecoveryContractMismatch | LErr_RecoveryStateInvalid

record 'w loop_program =
  lp_observe :: "u32 \<Rightarrow> 'w \<Rightarrow> ((loop_step_error + unit) \<times> 'w) effects"
  lp_retrieve :: "u32 \<Rightarrow> 'w \<Rightarrow> ((loop_step_error + unit) \<times> 'w) effects"
  lp_plan :: "u32 \<Rightarrow> 'w \<Rightarrow> ((loop_step_error + unit) \<times> 'w) effects"
  lp_act :: "u32 \<Rightarrow> 'w \<Rightarrow> ((loop_step_error + unit) \<times> 'w) effects"
  lp_verify :: "u32 \<Rightarrow> 'w \<Rightarrow> ((loop_step_error + verification_result) \<times> 'w) effects"
  lp_reflect :: "u32 \<Rightarrow> 'w \<Rightarrow> verification_result \<Rightarrow> ((loop_step_error + reflect_decision) \<times> 'w) effects"
  lp_recovery_version :: u32
  lp_restart_interrupted_retrieval :: bool
  lp_restore_working_state :: "durable_run_state \<Rightarrow> loop_step_error + 'w"

record 'w loop_run =
  en_harness :: harness_state
  en_work :: 'w
  en_state :: loop_state

type_synonym ('w, 'a) lm = "('w loop_run, loop_error, 'a) sx"

datatype (plugins only: code size) terminal_loop_decision = Loop_Complete | Loop_Fail loop_failure_kind

record loop_run_summary =
  su_reserved_iterations :: u32
  su_completed_iterations :: u32
  su_terminal_decision :: terminal_loop_decision
  su_final_status :: run_status

section \<open>Calling the harness and the program\<close>

text \<open>A harness operation whose result the engine inspects.\<close>

definition attempt :: "'a hm \<Rightarrow> ('w, harness_error + 'a) lm" where
  "attempt m s = (case m (en_harness s) of (r, t) \<Rightarrow> (Inr r, s\<lparr>en_harness := t\<rparr>))"

definition loop_status :: "('w, run_status) lm" where
  "loop_status = gets (\<lambda>s. rc_status (hs_ctx (en_harness s)))"

definition callback :: "harness_env \<Rightarrow> ('w \<Rightarrow> ((loop_step_error + 'a) \<times> 'w) effects) \<Rightarrow> ('w, loop_step_error + 'a) lm" where
  "callback env f s =
     (case run_effects env (f (en_work s)) (en_harness s) of
        ((r, w), t) \<Rightarrow> (Inr r, s\<lparr>en_harness := t, en_work := w\<rparr>))"

definition is_finished :: "run_status \<Rightarrow> bool" where
  "is_finished st = (case st of Status_Finished _ \<Rightarrow> True | _ \<Rightarrow> False)"

definition require_running :: "('w, unit) lm" where
  "require_running =
     and_then loop_status (\<lambda>st. if st = Status_Running then ok () else err (LErr_RunTerminal st))"

fun failure_kind_for_harness_error :: "harness_error \<Rightarrow> run_failure_kind" where
  "failure_kind_for_harness_error (HE_Audit _ _ _ _) = Fail_AuditUnavailable"
| "failure_kind_for_harness_error (HE_ModelPort _) = Fail_Model"
| "failure_kind_for_harness_error (HE_ToolPort _) = Fail_Tool"
| "failure_kind_for_harness_error (HE_ToolNotFound _) = Fail_Tool"
| "failure_kind_for_harness_error (HE_PolicyDenied _) = Fail_Tool"
| "failure_kind_for_harness_error HE_ApprovalRequired = Fail_Approval"
| "failure_kind_for_harness_error HE_ApprovalPortMissing = Fail_Approval"
| "failure_kind_for_harness_error (HE_ApprovalPort _) = Fail_Approval"
| "failure_kind_for_harness_error HE_ApprovalDecisionMismatch = Fail_Approval"
| "failure_kind_for_harness_error HE_ApprovalDenied = Fail_Approval"
| "failure_kind_for_harness_error HE_AuditDegraded = Fail_Containment"
| "failure_kind_for_harness_error (HE_CapabilityNotExecutable _) = Fail_Containment"
| "failure_kind_for_harness_error (HE_ContainmentUnavailable _) = Fail_Containment"
| "failure_kind_for_harness_error (HE_ContainmentPort _) = Fail_Containment"
| "failure_kind_for_harness_error _ = Fail_Internal"

section \<open>Ending the run\<close>

text \<open>What a failed \<^verbatim>\<open>fail_run\<close> is reported as.\<close>

definition finalization_error :: "harness_error \<Rightarrow> ('w, loop_error) lm" where
  "finalization_error x =
     and_then loop_status (\<lambda>st. ok (if is_finished st then LErr_Finalization x else LErr_Harness x))"

definition used_iterations :: "('w, u32) lm" where
  "used_iterations = gets (\<lambda>s. iterations (rc_usage (hs_ctx (en_harness s))))"

definition terminalize_harness_error :: "harness_env \<Rightarrow> harness_error \<Rightarrow> ('w, loop_error) lm" where
  "terminalize_harness_error env x =
     and_then loop_status (\<lambda>st.
       if st \<noteq> Status_Running then ok (LErr_Harness x)
       else
       and_then used_iterations (\<lambda>i.
       and_then (attempt (record_loop_progress env (LP_LoopFailed i (failure_kind_for_harness_error x)))) (\<lambda>r.
       and_then loop_status (\<lambda>st.
         let fail_with = (\<lambda>x.
               and_then (attempt (fail_run env (failure_kind_for_harness_error x))) (\<lambda>r.
                 case r of Inr _ \<Rightarrow> ok (LErr_Harness x) | Inl source \<Rightarrow> finalization_error source))
         in (case r of
               Inr _ \<Rightarrow> fail_with x
             | Inl progress_error \<Rightarrow>
                 if st \<noteq> Status_Running then ok (LErr_Harness progress_error) else fail_with progress_error)))))"

text \<open>\<^verbatim>\<open>Err(self.terminalize_..(..).await)\<close>.\<close>

definition throw :: "('w, loop_error) lm \<Rightarrow> ('w, 'a) lm" where
  "throw m = and_then m err"

definition loop_checkpoint :: "harness_env \<Rightarrow> ('w, unit) lm" where
  "loop_checkpoint env =
     and_then (attempt (checkpoint env)) (\<lambda>r.
       case r of Inr _ \<Rightarrow> require_running | Inl x \<Rightarrow> throw (terminalize_harness_error env x))"

definition record_progress :: "harness_env \<Rightarrow> loop_progress_event \<Rightarrow> ('w, unit) lm" where
  "record_progress env p =
     and_then (attempt (record_loop_progress env p)) (\<lambda>r.
       case r of Inr _ \<Rightarrow> require_running | Inl x \<Rightarrow> throw (terminalize_harness_error env x))"

definition apply_transition ::
  "harness_env \<Rightarrow> u32 \<Rightarrow> (loop_state \<Rightarrow> loop_transition_error + loop_state) \<Rightarrow> ('w, unit) lm" where
  "apply_transition env iteration f =
     and_then (gets en_state) (\<lambda>ls.
       case f ls of
         Inr ls' \<Rightarrow> modify (\<lambda>s. s\<lparr>en_state := ls'\<rparr>)
       | Inl x \<Rightarrow>
           and_then loop_status (\<lambda>st.
           and_then (if st = Status_Running
             then and_then (attempt (record_loop_progress env (LP_LoopFailed iteration (Fail_Loop LoopFail_InvariantViolation)))) (\<lambda>_.
                  and_then loop_status (\<lambda>st.
                    if st = Status_Running
                    then and_then (attempt (fail_run env (Fail_Loop LoopFail_InvariantViolation))) (\<lambda>_. ok ())
                    else ok ()))
             else ok ()) (\<lambda>_. err (LErr_Transition x))))"

definition terminalize_step_error :: "harness_env \<Rightarrow> loop_phase \<Rightarrow> loop_step_error \<Rightarrow> ('w, loop_error) lm" where
  "terminalize_step_error env phase x =
     and_then loop_status (\<lambda>st.
       if st \<noteq> Status_Running then ok (LErr_RunTerminal st)
       else (case x of
         Step_Harness h \<Rightarrow> terminalize_harness_error env h
       | Step_Program \<Rightarrow>
           let failure = Fail_Loop (LoopFail_Program phase) in
           and_then used_iterations (\<lambda>i.
           on_result (record_progress env (LP_LoopFailed i failure)) (\<lambda>r.
             case r of
               Inl e \<Rightarrow> ok e
             | Inr _ \<Rightarrow>
                 and_then (attempt (fail_run env failure)) (\<lambda>r.
                   case r of Inr _ \<Rightarrow> ok (LErr_Program phase) | Inl source \<Rightarrow> finalization_error source)))))"

definition loop_complete_run :: "harness_env \<Rightarrow> ('w, unit) lm" where
  "loop_complete_run env =
     and_then (attempt (complete_run env)) (\<lambda>r.
       case r of
         Inr _ \<Rightarrow> ok ()
       | Inl x \<Rightarrow> and_then loop_status (\<lambda>st.
           if is_finished st then err (LErr_Finalization x) else throw (terminalize_harness_error env x)))"

definition loop_fail_run :: "harness_env \<Rightarrow> run_failure_kind \<Rightarrow> ('w, unit) lm" where
  "loop_fail_run env k =
     and_then (attempt (fail_run env k)) (\<lambda>r.
       case r of
         Inr _ \<Rightarrow> ok ()
       | Inl x \<Rightarrow> and_then loop_status (\<lambda>st.
           if is_finished st then err (LErr_Finalization x) else throw (terminalize_harness_error env x)))"

section \<open>Phases\<close>

definition loop_enter_phase :: "harness_env \<Rightarrow> u32 \<Rightarrow> loop_phase \<Rightarrow> ('w, unit) lm" where
  "loop_enter_phase env i p =
     and_then (loop_checkpoint env) (\<lambda>_.
     and_then (apply_transition env i (ls_enter_phase p)) (\<lambda>_.
     record_progress env (LP_PhaseEntered i p)))"

text \<open>
  The end of a phase: the common part of \<^verbatim>\<open>finish_unit_phase\<close>, \<^verbatim>\<open>run_verify\<close> and \<^verbatim>\<open>run_reflect\<close>, which differ in the
  transition that the phase makes.
\<close>

definition finish_phase ::
  "harness_env \<Rightarrow> u32 \<Rightarrow> loop_phase \<Rightarrow> ('a \<Rightarrow> loop_state \<Rightarrow> loop_transition_error + loop_state) \<Rightarrow> loop_step_error + 'a \<Rightarrow>
   ('w, 'a) lm" where
  "finish_phase env i p move r =
     and_then require_running (\<lambda>_.
       case r of
         Inl x \<Rightarrow> throw (terminalize_step_error env p x)
       | Inr v \<Rightarrow>
           and_then (loop_checkpoint env) (\<lambda>_.
           and_then (apply_transition env i (move v)) (\<lambda>_.
           and_then (record_progress env (LP_PhaseCompleted i p)) (\<lambda>_. ok v))))"

definition finish_unit_phase :: "harness_env \<Rightarrow> u32 \<Rightarrow> loop_phase \<Rightarrow> loop_step_error + unit \<Rightarrow> ('w, unit) lm" where
  "finish_unit_phase env i p = finish_phase env i p (\<lambda>_. ls_complete_phase p)"

definition run_observe :: "harness_env \<Rightarrow> 'w loop_program \<Rightarrow> u32 \<Rightarrow> ('w, unit) lm" where
  "run_observe env prog i =
     and_then (loop_enter_phase env i Phase_Observe) (\<lambda>_.
     and_then (callback env (lp_observe prog i)) (finish_unit_phase env i Phase_Observe))"

definition continue_retrieve :: "harness_env \<Rightarrow> 'w loop_program \<Rightarrow> u32 \<Rightarrow> ('w, unit) lm" where
  "continue_retrieve env prog i =
     and_then (callback env (lp_retrieve prog i)) (finish_unit_phase env i Phase_Retrieve)"

definition run_retrieve :: "harness_env \<Rightarrow> 'w loop_program \<Rightarrow> u32 \<Rightarrow> ('w, unit) lm" where
  "run_retrieve env prog i =
     and_then (loop_enter_phase env i Phase_Retrieve) (\<lambda>_. continue_retrieve env prog i)"

definition run_plan :: "harness_env \<Rightarrow> 'w loop_program \<Rightarrow> u32 \<Rightarrow> ('w, unit) lm" where
  "run_plan env prog i =
     and_then (loop_enter_phase env i Phase_Plan) (\<lambda>_.
     and_then (callback env (lp_plan prog i)) (finish_unit_phase env i Phase_Plan))"

definition run_act :: "harness_env \<Rightarrow> 'w loop_program \<Rightarrow> u32 \<Rightarrow> ('w, unit) lm" where
  "run_act env prog i =
     and_then (loop_enter_phase env i Phase_Act) (\<lambda>_.
     and_then (callback env (lp_act prog i)) (finish_unit_phase env i Phase_Act))"

definition run_verify :: "harness_env \<Rightarrow> 'w loop_program \<Rightarrow> u32 \<Rightarrow> ('w, verification_result) lm" where
  "run_verify env prog i =
     and_then (loop_enter_phase env i Phase_Verify) (\<lambda>_.
     and_then (callback env (lp_verify prog i)) (finish_phase env i Phase_Verify (\<lambda>_. ls_complete_phase Phase_Verify)))"

definition run_reflect :: "harness_env \<Rightarrow> 'w loop_program \<Rightarrow> u32 \<Rightarrow> verification_result \<Rightarrow> ('w, reflect_decision) lm" where
  "run_reflect env prog i v =
     and_then (loop_enter_phase env i Phase_Reflect) (\<lambda>_.
     and_then (callback env (\<lambda>w. lp_reflect prog i w v)) (finish_phase env i Phase_Reflect ls_accept_reflect))"

section \<open>The loop\<close>

fun decision_kind :: "reflect_decision \<Rightarrow> loop_decision_kind" where
  "decision_kind Reflect_Complete = Decide_Complete"
| "decision_kind Reflect_Continue = Decide_Continue"
| "decision_kind (Reflect_Fail _) = Decide_Fail"

definition loop_begin_iteration :: "harness_env \<Rightarrow> ('w, u32) lm" where
  "loop_begin_iteration env =
     and_then (attempt (begin_iteration env)) (\<lambda>r.
       case r of Inr i \<Rightarrow> ok i | Inl x \<Rightarrow> throw (terminalize_harness_error env x))"

text \<open>The first part of the body of the loop: a new iteration, or the retrieval of a recovered one.\<close>

definition loop_head :: "harness_env \<Rightarrow> 'w loop_program \<Rightarrow> ('w, u32) lm" where
  "loop_head env prog =
     and_then (gets en_state) (\<lambda>ls.
       if ls_position ls = At_PhaseRunning Phase_Retrieve
       then (case ls_current_iteration ls of
               None \<Rightarrow> err LErr_RecoveryStateInvalid
             | Some i \<Rightarrow> and_then (continue_retrieve env prog i) (\<lambda>_. ok i))
       else
         and_then (loop_begin_iteration env) (\<lambda>i.
         and_then (apply_transition env i (ls_begin_iteration i)) (\<lambda>_.
         and_then (run_observe env prog i) (\<lambda>_.
         and_then (run_retrieve env prog i) (\<lambda>_. ok i)))))"

definition loop_body :: "harness_env \<Rightarrow> 'w loop_program \<Rightarrow> ('w, u32 \<times> reflect_decision) lm" where
  "loop_body env prog =
     and_then (loop_head env prog) (\<lambda>i.
     and_then (run_plan env prog i) (\<lambda>_.
     and_then (run_act env prog i) (\<lambda>_.
     and_then (run_verify env prog i) (\<lambda>v.
     and_then (run_reflect env prog i v) (\<lambda>d.
     and_then (record_progress env (LP_ReflectDecision i (decision_kind d))) (\<lambda>_.
     and_then (record_progress env (LP_IterationCompleted i)) (\<lambda>_. ok (i, d))))))))"

definition loop_summary :: "terminal_loop_decision \<Rightarrow> ('w, loop_run_summary) lm" where
  "loop_summary d = gets (\<lambda>s.
     \<lparr>su_reserved_iterations = iterations (rc_usage (hs_ctx (en_harness s))),
      su_completed_iterations = ls_completed_iterations (en_state s), su_terminal_decision = d,
      su_final_status = rc_status (hs_ctx (en_harness s))\<rparr>)"

definition loop_complete :: "harness_env \<Rightarrow> ('w, loop_run_summary) lm" where
  "loop_complete env =
     and_then (gets (\<lambda>s. ls_completed_iterations (en_state s))) (\<lambda>n.
     and_then (record_progress env (LP_LoopCompleted n)) (\<lambda>_.
     and_then (loop_complete_run env) (\<lambda>_. loop_summary Loop_Complete)))"

definition loop_fail :: "harness_env \<Rightarrow> u32 \<Rightarrow> loop_failure_kind \<Rightarrow> ('w, loop_run_summary) lm" where
  "loop_fail env i k =
     and_then (record_progress env (LP_LoopFailed i (Fail_Loop k))) (\<lambda>_.
     and_then (loop_fail_run env (Fail_Loop k)) (\<lambda>_. loop_summary (Loop_Fail k)))"

end
