(* ===== verification/Loop_Laws.thy ===== *)
theory Loop_Laws
  imports Loop_Engine
begin

text \<open>
  The loop itself and its properties. Each turn of the loop uses up one iteration of the budget, which is why it ends;
  the transitions of the \<^verbatim>\<open>LoopState\<close> are always legal; whatever goes wrong, the run is not left running unless its
  journal can no longer be written; and the engine does nothing to the run that is not a sequence of harness operations.
\<close>

section \<open>Frames of the engine\<close>

text \<open>A relation between harness states, read on the states of the engine.\<close>

definition lifted :: "(harness_state \<Rightarrow> harness_state \<Rightarrow> bool) \<Rightarrow> 'w loop_run \<Rightarrow> 'w loop_run \<Rightarrow> bool" where
  "lifted R s t \<longleftrightarrow> R (en_harness s) (en_harness t)"

text \<open>The operations the engine uses respect a relation that all harness operations respect.\<close>

locale engine_frame = effect_frame R env for R :: "harness_state \<Rightarrow> harness_state \<Rightarrow> bool" and env +
  assumes engine_calls:
    "within R (checkpoint env)" "within R (begin_iteration env)" "within R (record_loop_progress env p)"
    "within R (complete_run env)" "within R (fail_run env f)"

sublocale engine_frame \<subseteq> lifted: frame_relation "lifted R"
proof
  show "lifted R s s" for s :: "'a loop_run" by (simp add: lifted_def refl)
  show "lifted R s u" if "lifted R s t" "lifted R t u" for s t u :: "'a loop_run"
    using that trans by (auto simp: lifted_def)
qed

context engine_frame
begin

lemma lifted_attempt: "within R m \<Longrightarrow> within (lifted R) (attempt m)"
  by (auto simp: within_def attempt_def lifted_def split: prod.split) (metis snd_conv)

lemma lifted_callback: "within (lifted R) (callback env f)"
  unfolding within_def
proof
  fix s
  show "lifted R s (snd (callback env f s))"
    using effects_within [of "en_harness s" "f (en_work s)"]
    by (auto simp: callback_def lifted_def split: prod.split)
qed

lemma lifted_modify: "within (lifted R) (modify (\<lambda>s. s\<lparr>en_state := x\<rparr>))"
  by (simp add: within_def lifted_def refl)

lemmas lifted_rules = lifted.within_combinators lifted_attempt engine_calls lifted_callback lifted_modify

lemma lifted_status: "within (lifted R) loop_status" "within (lifted R) used_iterations" "within (lifted R) require_running"
  "within (lifted R) (finalization_error x)"
  unfolding loop_status_def used_iterations_def require_running_def finalization_error_def by (intro lifted_rules)+

lemma lifted_terminalize: "within (lifted R) (terminalize_harness_error env x)"
  unfolding terminalize_harness_error_def Let_def by (intro lifted_rules lifted_status)

lemma lifted_throw: "within (lifted R) m \<Longrightarrow> within (lifted R) (throw m)"
  unfolding throw_def by (intro lifted_rules)

lemma lifted_steps:
  "within (lifted R) (loop_checkpoint env)" "within (lifted R) (record_progress env p)"
  "within (lifted R) (apply_transition env i f)" "within (lifted R) (loop_complete_run env)"
  "within (lifted R) (loop_fail_run env k)" "within (lifted R) (loop_begin_iteration env)"
  unfolding loop_checkpoint_def record_progress_def apply_transition_def loop_complete_run_def loop_fail_run_def
    loop_begin_iteration_def
  by (intro lifted_rules lifted_status lifted_throw lifted_terminalize)+

lemma lifted_step_error: "within (lifted R) (terminalize_step_error env p x)"
  unfolding terminalize_step_error_def Let_def
  by (intro lifted_rules lifted_status; split loop_step_error.split; intro conjI allI impI)
     (intro lifted_rules lifted_status lifted_terminalize lifted_steps)+

lemma lifted_phases:
  "within (lifted R) (loop_enter_phase env i p)" "within (lifted R) (finish_phase env i p move r)"
  unfolding loop_enter_phase_def finish_phase_def
  by (intro lifted_rules lifted_status lifted_throw lifted_step_error lifted_steps)+

lemma lifted_runs:
  "within (lifted R) (run_observe env prog i)" "within (lifted R) (continue_retrieve env prog i)"
  "within (lifted R) (run_retrieve env prog i)" "within (lifted R) (run_plan env prog i)"
  "within (lifted R) (run_act env prog i)" "within (lifted R) (run_verify env prog i)"
  "within (lifted R) (run_reflect env prog i v)"
  unfolding run_observe_def run_retrieve_def continue_retrieve_def run_plan_def run_act_def run_verify_def run_reflect_def
    finish_unit_phase_def
  by (intro lifted_rules lifted_phases)+

lemma lifted_body: "within (lifted R) (loop_head env prog)" "within (lifted R) (loop_body env prog)"
proof -
  show head: "within (lifted R) (loop_head env prog)"
    unfolding loop_head_def by (intro lifted_rules lifted_runs lifted_steps)
  show "within (lifted R) (loop_body env prog)"
    unfolding loop_body_def by (intro lifted_rules head lifted_runs lifted_steps)
qed

lemma lifted_ends: "within (lifted R) (loop_complete env)" "within (lifted R) (loop_fail env i k)"
  unfolding loop_complete_def loop_fail_def loop_summary_def by (intro lifted_rules lifted_steps)+

end

interpretation loop_sessions: engine_frame "reaches env" env for env
  by unfold_locales (rule reaches_calls)+

interpretation loop_growth: engine_frame grows env for env
  by unfold_locales
     (simp_all add: grows_lifecycle grows_knowledge grows_validated_action grows_invoke_tool grows_grounded grows_model
        within_invoke_model invoke_model_tracked_def)

section \<open>Transitions\<close>

text \<open>Errors that say that the engine itself went wrong.\<close>

fun fine :: "loop_error \<Rightarrow> bool" where
  "fine (LErr_Transition _) = False"
| "fine LErr_RecoveryStateInvalid = False"
| "fine _ = True"

text \<open>A step that leaves the \<^verbatim>\<open>LoopState\<close> alone and raises no such error, and one that also returns none.\<close>

definition orderly :: "('w, 'a) lm \<Rightarrow> bool" where
  "orderly m \<longleftrightarrow> (\<forall>s. en_state (snd (m s)) = en_state s \<and> (\<forall>e. fst (m s) = Inl e \<longrightarrow> fine e))"

definition orderly_report :: "('w, loop_error) lm \<Rightarrow> bool" where
  "orderly_report m \<longleftrightarrow> orderly m \<and> (\<forall>s e. fst (m s) = Inr e \<longrightarrow> fine e)"

lemma orderly_and_then:
  assumes "orderly m" "\<And>x. orderly (k x)"
  shows "orderly (and_then m k)"
  unfolding orderly_def
proof
  fix s
  obtain r t where m: "m s = (r, t)" by fastforce
  with assms(1) have t: "en_state t = en_state s" "\<forall>e. r = Inl e \<longrightarrow> fine e" unfolding orderly_def by (metis fst_conv snd_conv)+
  show "en_state (snd (and_then m k s)) = en_state s \<and> (\<forall>e. fst (and_then m k s) = Inl e \<longrightarrow> fine e)"
    using assms(2) t m by (cases r) (simp_all add: and_then_apply orderly_def)
qed

lemma report_and_then:
  assumes "orderly m" "\<And>x. orderly_report (k x)"
  shows "orderly_report (and_then m k)"
proof -
  have "fine e" if "fst (and_then m k s) = Inr e" for s e
    using that assms(2) by (cases "m s"; cases "fst (m s)") (auto simp: and_then_apply orderly_report_def)
  moreover have "orderly (and_then m k)" using assms by (intro orderly_and_then) (auto simp: orderly_report_def)
  ultimately show ?thesis by (simp add: orderly_report_def)
qed

lemma orderly_basic:
  "orderly (ok x)" "fine e \<Longrightarrow> orderly (err e)" "orderly (gets f)" "orderly (attempt m)" "orderly (callback env g)"
  "fine e \<Longrightarrow> orderly_report (ok e)"
  by (auto simp: orderly_def orderly_report_def attempt_def callback_def split: prod.split)

lemma orderly_cases:
  "(b \<Longrightarrow> orderly m) \<Longrightarrow> (\<not> b \<Longrightarrow> orderly n) \<Longrightarrow> orderly (if b then m else n)"
  "(\<And>x. orderly (f x)) \<Longrightarrow> (\<And>y. orderly (g y)) \<Longrightarrow> orderly (case r of Inl x \<Rightarrow> f x | Inr y \<Rightarrow> g y)"
  "(b \<Longrightarrow> orderly_report m') \<Longrightarrow> (\<not> b \<Longrightarrow> orderly_report n') \<Longrightarrow> orderly_report (if b then m' else n')"
  "(\<And>x. orderly_report (f' x)) \<Longrightarrow> (\<And>y. orderly_report (g' y)) \<Longrightarrow> orderly_report (case r of Inl x \<Rightarrow> f' x | Inr y \<Rightarrow> g' y)"
  by (cases r; simp)+

lemma orderly_throw: "orderly_report m \<Longrightarrow> orderly (throw m)"
  unfolding orderly_def throw_def
proof
  fix s
  assume m: "orderly_report m"
  obtain r t where "m s = (r, t)" by fastforce
  with m show "en_state (snd (and_then m err s)) = en_state s \<and> (\<forall>e. fst (and_then m err s) = Inl e \<longrightarrow> fine e)"
    by (cases r) (auto simp: orderly_report_def orderly_def and_then_apply dest: spec [of _ s])
qed

lemmas orderly_rules = orderly_basic orderly_cases orderly_throw

lemma orderly_status: "orderly loop_status" "orderly used_iterations" "orderly require_running"
  unfolding loop_status_def used_iterations_def require_running_def
  by (intro orderly_rules orderly_and_then; simp)+

lemma report_finalization: "orderly_report (finalization_error x)"
  unfolding finalization_error_def by (intro report_and_then orderly_status orderly_rules) simp

lemma report_terminalize: "orderly_report (terminalize_harness_error env x)"
  unfolding terminalize_harness_error_def Let_def
  by (intro report_and_then orderly_status orderly_rules report_finalization; simp)

lemma orderly_steps: "orderly (loop_checkpoint env)" "orderly (record_progress env p)" "orderly (loop_begin_iteration env)"
  "orderly (loop_complete_run env)" "orderly (loop_fail_run env k)"
  unfolding loop_checkpoint_def record_progress_def loop_begin_iteration_def loop_complete_run_def loop_fail_run_def
  by (intro orderly_and_then orderly_status orderly_rules report_terminalize; simp)+

lemma report_step_error: "orderly_report (terminalize_step_error env p x)"
proof -
  have progress: "orderly_report (on_result (record_progress env q) (\<lambda>r. case r of Inl e \<Rightarrow> ok e | Inr y \<Rightarrow> k y))"
    if k: "\<And>y. orderly_report (k y)" for q and k :: "unit \<Rightarrow> ('w, loop_error) lm"
    unfolding orderly_report_def orderly_def on_result_apply
  proof (intro conjI allI impI)
    fix s :: "'w loop_run"
    obtain r t where rp: "record_progress env q s = (r, t)" by fastforce
    with orderly_steps(2) [of env q] have t: "en_state t = en_state s" "\<forall>e. r = Inl e \<longrightarrow> fine e"
      unfolding orderly_def by (metis fst_conv snd_conv)+
    let ?out = "case record_progress env q s of (r, t) \<Rightarrow> (case r of Inl e \<Rightarrow> ok e | Inr y \<Rightarrow> k y) t"
    show "en_state (snd ?out) = en_state s" using rp t k by (cases r) (auto simp: orderly_report_def orderly_def)
    show "fine e" if "fst ?out = Inl e" for e using that rp t k by (cases r) (auto simp: orderly_report_def orderly_def)
    show "fine e" if "fst ?out = Inr e" for e using that rp t k by (cases r) (auto simp: orderly_report_def orderly_def)
  qed
  show ?thesis
    unfolding terminalize_step_error_def Let_def
    by (intro report_and_then orderly_status orderly_rules; (split loop_step_error.split, intro conjI allI impI)?;
        (intro progress report_and_then orderly_status orderly_rules report_finalization report_terminalize)?; simp)
qed

text \<open>The position before and after each part of the body.\<close>

definition at_pos :: "loop_position \<Rightarrow> 'w loop_run \<Rightarrow> bool" where
  "at_pos p s \<longleftrightarrow> ls_position (en_state s) = p"

definition restartable :: "loop_state \<Rightarrow> bool" where
  "restartable ls \<longleftrightarrow> ls_position ls = At_Ready \<or> ls_position ls = At_PhaseRunning Phase_Retrieve \<and> ls_current_iteration ls \<noteq> None"

abbreviation is_fine :: "loop_error \<Rightarrow> 'w loop_run \<Rightarrow> bool" where
  "is_fine e s \<equiv> fine e"

lemma orderly_triple: "orderly m \<Longrightarrow> triple (at_pos p) m (\<lambda>_. at_pos p) is_fine"
  unfolding orderly_def triple_def at_pos_def by (auto split: sum.split) (metis fst_conv snd_conv)+

lemma transition_triple:
  assumes "\<And>ls. ls_position ls = p \<Longrightarrow> \<exists>ls'. f ls = Inr ls' \<and> ls_position ls' = q"
  shows "triple (at_pos p) (apply_transition env i f) (\<lambda>_. at_pos q) is_fine"
  unfolding triple_def
proof (intro allI impI)
  fix s r t assume "at_pos p s" and run: "apply_transition env i f s = (r, t)"
  then obtain ls' where "f (en_state s) = Inr ls'" "ls_position ls' = q" using assms by (auto simp: at_pos_def)
  with run show "case r of Inl e \<Rightarrow> is_fine e t | Inr _ \<Rightarrow> at_pos q t"
    by (auto simp: apply_transition_def and_then_apply modify_def at_pos_def)
qed

lemma throw_triple:
  fixes Q :: "'a \<Rightarrow> 'w loop_run \<Rightarrow> bool"
  assumes m: "orderly_report m"
  shows "triple P (throw m) Q is_fine"
  unfolding triple_def
proof (intro allI impI)
  fix s and r :: "loop_error + 'a" and t assume run: "throw m s = (r, t)"
  obtain r' t' where "m s = (r', t')" by fastforce
  with m run show "case r of Inl e \<Rightarrow> is_fine e t | Inr x \<Rightarrow> Q x t"
    by (cases r') (auto simp: throw_def and_then_apply orderly_report_def orderly_def dest: spec [of _ s])
qed

lemma enter_triple: "triple (at_pos (At_PhaseReady p)) (loop_enter_phase env i p) (\<lambda>_. at_pos (At_PhaseRunning p)) is_fine"
  unfolding loop_enter_phase_def
  by (rule triple_and_then [OF orderly_triple [OF orderly_steps(1)]],
      rule triple_and_then [OF transition_triple], simp add: ls_enter_phase_def,
      rule orderly_triple [OF orderly_steps(2)])

lemma finish_triple:
  assumes "\<And>v ls. ls_position ls = At_PhaseRunning p \<Longrightarrow> \<exists>ls'. move v ls = Inr ls' \<and> ls_position ls' = q v"
  shows "triple (at_pos (At_PhaseRunning p)) (and_then (callback env g) (finish_phase env i p move)) (\<lambda>v. at_pos (q v)) is_fine"
proof (rule triple_and_then [OF orderly_triple [OF orderly_basic(5)]])
  fix r
  have success: "triple (at_pos (At_PhaseRunning p)) (and_then (loop_checkpoint env) (\<lambda>_. and_then (apply_transition env i (move v)) (\<lambda>_.
      and_then (record_progress env (LP_PhaseCompleted i p)) (\<lambda>_. ok v)))) (\<lambda>v. at_pos (q v)) is_fine" for v
    by (rule triple_and_then [OF orderly_triple [OF orderly_steps(1)]], rule triple_and_then [OF transition_triple [OF assms]], simp,
        rule triple_and_then [OF orderly_triple [OF orderly_steps(2)]], rule triple_ok) simp
  have failure: "triple (at_pos (At_PhaseRunning p)) (throw (terminalize_step_error env p x)) (\<lambda>v. at_pos (q v)) is_fine" for x
    by (rule throw_triple [OF report_step_error])
  show "triple (at_pos (At_PhaseRunning p)) (finish_phase env i p move r) (\<lambda>v. at_pos (q v)) is_fine"
    unfolding finish_phase_def
    by (rule triple_and_then [OF orderly_triple [OF orderly_status(3)]]) (cases r; simp add: success failure)
qed

lemma unit_phase_triple:
  assumes "next_phase p = Some n"
  shows "triple (at_pos (At_PhaseRunning p)) (and_then (callback env g) (finish_phase env i p (\<lambda>_. ls_complete_phase p)))
     (\<lambda>_. at_pos (At_PhaseReady n)) is_fine"
  by (rule finish_triple) (use assms in \<open>simp add: ls_complete_phase_def\<close>)

lemma run_triples:
  "triple (at_pos (At_PhaseReady Phase_Observe)) (run_observe env prog i) (\<lambda>_. at_pos (At_PhaseReady Phase_Retrieve)) is_fine"
  "triple (at_pos (At_PhaseRunning Phase_Retrieve)) (continue_retrieve env prog i) (\<lambda>_. at_pos (At_PhaseReady Phase_Plan)) is_fine"
  "triple (at_pos (At_PhaseReady Phase_Retrieve)) (run_retrieve env prog i) (\<lambda>_. at_pos (At_PhaseReady Phase_Plan)) is_fine"
  "triple (at_pos (At_PhaseReady Phase_Plan)) (run_plan env prog i) (\<lambda>_. at_pos (At_PhaseReady Phase_Act)) is_fine"
  "triple (at_pos (At_PhaseReady Phase_Act)) (run_act env prog i) (\<lambda>_. at_pos (At_PhaseReady Phase_Verify)) is_fine"
  "triple (at_pos (At_PhaseReady Phase_Verify)) (run_verify env prog i) (\<lambda>_. at_pos (At_PhaseReady Phase_Reflect)) is_fine"
  unfolding run_observe_def run_retrieve_def continue_retrieve_def run_plan_def run_act_def run_verify_def finish_unit_phase_def
  by ((rule triple_and_then [OF enter_triple])?, rule unit_phase_triple, simp)+

fun position_after :: "reflect_decision \<Rightarrow> loop_position" where
  "position_after Reflect_Continue = At_Ready"
| "position_after Reflect_Complete = At_Finished Terminal_Complete"
| "position_after (Reflect_Fail k) = At_Finished (Terminal_Fail k)"

lemma reflect_triple:
  "triple (at_pos (At_PhaseReady Phase_Reflect)) (run_reflect env prog i v) (\<lambda>d. at_pos (position_after d)) is_fine"
  unfolding run_reflect_def
  by (rule triple_and_then [OF enter_triple], rule finish_triple)
     (auto simp: ls_accept_reflect_def Let_def split: reflect_decision.split)

lemma head_triple: "triple (\<lambda>s. restartable (en_state s)) (loop_head env prog) (\<lambda>_. at_pos (At_PhaseReady Phase_Plan)) is_fine"
  unfolding loop_head_def
proof (rule triple_gets)
  fix ls
  have fresh: "triple (at_pos At_Ready) (and_then (loop_begin_iteration env) (\<lambda>i. and_then (apply_transition env i (ls_begin_iteration i))
      (\<lambda>_. and_then (run_observe env prog i) (\<lambda>_. and_then (run_retrieve env prog i) (\<lambda>_. ok i)))))
      (\<lambda>_. at_pos (At_PhaseReady Phase_Plan)) is_fine"
    by (rule triple_and_then [OF orderly_triple [OF orderly_steps(3)]],
        rule triple_and_then [OF transition_triple], simp add: ls_begin_iteration_def,
        rule triple_and_then [OF run_triples(1)], rule triple_and_then [OF run_triples(3)], rule triple_ok)
  have recovered: "triple (at_pos (At_PhaseRunning Phase_Retrieve)) (and_then (continue_retrieve env prog i) (\<lambda>_. ok i))
      (\<lambda>_. at_pos (At_PhaseReady Phase_Plan)) is_fine" for i
    by (rule triple_and_then [OF run_triples(2)], rule triple_ok)
  show "triple (\<lambda>s. restartable (en_state s) \<and> ls = en_state s)
     (if ls_position ls = At_PhaseRunning Phase_Retrieve
      then (case ls_current_iteration ls of None \<Rightarrow> err LErr_RecoveryStateInvalid
            | Some i \<Rightarrow> and_then (continue_retrieve env prog i) (\<lambda>_. ok i))
      else and_then (loop_begin_iteration env) (\<lambda>i. and_then (apply_transition env i (ls_begin_iteration i))
        (\<lambda>_. and_then (run_observe env prog i) (\<lambda>_. and_then (run_retrieve env prog i) (\<lambda>_. ok i)))))
     (\<lambda>_. at_pos (At_PhaseReady Phase_Plan)) is_fine"
    by (cases "ls_current_iteration ls")
       (auto intro!: triple_if triple_pre [OF fresh] triple_pre [OF recovered] triple_err simp: restartable_def at_pos_def)
qed

lemma body_triple:
  "triple (\<lambda>s. restartable (en_state s)) (loop_body env prog) (\<lambda>r. at_pos (position_after (snd r))) is_fine"
  unfolding loop_body_def
  by (rule triple_and_then [OF head_triple], rule triple_and_then [OF run_triples(4)], rule triple_and_then [OF run_triples(5)],
      rule triple_and_then [OF run_triples(6)], rule triple_and_then [OF reflect_triple],
      (rule triple_and_then [OF orderly_triple [OF orderly_steps(2)]])+, rule triple_ok) simp

section \<open>Every turn uses up an iteration\<close>

lemma and_then_returns: "and_then m k s = (Inr x, u) \<Longrightarrow> \<exists>y t. m s = (Inr y, t) \<and> k y t = (Inr x, u)"
  by (auto simp: and_then_apply split: prod.splits sum.splits)

lemma reserve_iteration_counts:
  assumes "reserve env reserve_iteration s = (Inr n, t)"
  shows "iterations (rc_usage (hs_ctx s)) < iterations (rc_usage (hs_ctx t))
     \<and> iterations (rc_usage (hs_ctx s)) < max_iterations (rc_budget (hs_ctx s))"
  using assms inc_grows [of "iterations (rc_usage (hs_ctx s))" "max_iterations (rc_budget (hs_ctx s))"]
  by (auto simp: reserve_def on_result_apply on_ctx_def reserve_iteration_def Let_def usage_defs and_then_apply
      split: if_splits prod.splits sum.splits harness_error.splits)

lemma begin_iteration_counts:
  assumes "begin_iteration env s = (Inr n, t)"
  shows "iterations (rc_usage (hs_ctx s)) < iterations (rc_usage (hs_ctx t))
     \<and> iterations (rc_usage (hs_ctx s)) < max_iterations (rc_budget (hs_ctx s))"
proof -
  obtain s1 s2 where s1: "preflight env Op_BeginIteration s = (Inr (), s1)"
    and s2: "reserve env reserve_iteration s1 = (Inr n, s2)"
    using assms unfolding begin_iteration_def by (auto dest!: and_then_returns)
  let ?rest = "and_then get_ctx (\<lambda>c. and_then (emit env (Ev_Loop (LE_IterationStarted n (iterations (rc_usage c))
     (max_iterations (rc_budget c))))) (\<lambda>e. and_then (audit_invocation env e Op_BeginIteration Phase_Lifecycle Effect_StateCommitted) (\<lambda>_. ok n)))"
  have "within grows ?rest" by (intro grows_rules)
  moreover have "?rest s2 = (Inr n, t)" using assms s1 s2 by (simp add: begin_iteration_def and_then_apply)
  ultimately have "grows s2 t" by (rule within_step)
  moreover have "grows s s1" by (rule within_step [OF grows_guards(3) s1])
  ultimately show ?thesis
    using reserve_iteration_counts [OF s2] by (auto simp: grows_def ctx_grows_def)
qed

lemma loop_begin_iteration_counts:
  assumes "loop_begin_iteration env s = (Inr i, t)"
  shows "\<exists>h. begin_iteration env (en_harness s) = (Inr i, h) \<and> t = s\<lparr>en_harness := h\<rparr>"
proof -
  obtain r t1 where a: "attempt (begin_iteration env) s = (Inr r, t1)"
    and rest: "(case r of Inr i \<Rightarrow> ok i | Inl x \<Rightarrow> throw (terminalize_harness_error env x)) t1 = (Inr i, t)"
    using assms unfolding loop_begin_iteration_def by (auto dest!: and_then_returns)
  show ?thesis
  proof (cases r)
    case (Inl x)
    with rest throw_triple [OF report_terminalize, of "\<lambda>_. True" env x "\<lambda>_ _. False"] show ?thesis
      by (fastforce simp: triple_def)
  next
    case (Inr j)
    with rest a show ?thesis by (auto simp: attempt_def split: prod.splits)
  qed
qed

definition loop_measure :: "'w loop_run \<Rightarrow> nat" where
  "loop_measure s =
     2 * (unat (max_iterations (rc_budget (hs_ctx (en_harness s)))) - unat (iterations (rc_usage (hs_ctx (en_harness s)))))
     + (if ls_position (en_state s) = At_PhaseRunning Phase_Retrieve then 1 else 0)"

lemma grows_engine: "lifted grows s t \<Longrightarrow>
   rc_budget (hs_ctx (en_harness t)) = rc_budget (hs_ctx (en_harness s))
   \<and> iterations (rc_usage (hs_ctx (en_harness s))) \<le> iterations (rc_usage (hs_ctx (en_harness t)))"
  by (simp add: lifted_def grows_def ctx_grows_def)

lemma head_uses_iteration:
  assumes "loop_head env prog s = (Inr i, t)"
  shows "ls_position (en_state s) = At_PhaseRunning Phase_Retrieve
     \<or> iterations (rc_usage (hs_ctx (en_harness s))) < iterations (rc_usage (hs_ctx (en_harness t)))
       \<and> iterations (rc_usage (hs_ctx (en_harness s))) < max_iterations (rc_budget (hs_ctx (en_harness s)))"
proof (cases "ls_position (en_state s) = At_PhaseRunning Phase_Retrieve")
  case False
  let ?rest = "\<lambda>i. and_then (apply_transition env i (ls_begin_iteration i)) (\<lambda>_. and_then (run_observe env prog i) (\<lambda>_.
      and_then (run_retrieve env prog i) (\<lambda>_. ok i)))"
  obtain j s1 where s1: "loop_begin_iteration env s = (Inr j, s1)" and rest: "?rest j s1 = (Inr i, t)"
  proof -
    have "and_then (loop_begin_iteration env) ?rest s = (Inr i, t)"
      using assms False by (simp add: loop_head_def and_then_apply [of "gets en_state"])
    from and_then_returns [OF this] show ?thesis using that by blast
  qed
  obtain h where h: "begin_iteration env (en_harness s) = (Inr j, h)" "s1 = s\<lparr>en_harness := h\<rparr>"
    using loop_begin_iteration_counts [OF s1] by blast
  have "within (lifted grows) (?rest j)"
    by (intro loop_growth.lifted_rules loop_growth.lifted_steps loop_growth.lifted_runs)
  from within_step [OF this rest] have "lifted grows s1 t" .
  with begin_iteration_counts [OF h(1)] h(2) show ?thesis by (auto dest: grows_engine)
qed simp

lemma turn_decreases:
  assumes "restartable (en_state s)" "loop_body env prog s = (Inr (i, Reflect_Continue), t)"
  shows "loop_measure t < loop_measure s \<and> restartable (en_state t)"
proof -
  have pos: "ls_position (en_state t) = At_Ready"
    using triple_returns [OF body_triple, of s env prog "(i, Reflect_Continue)" t] assms by (simp add: at_pos_def)
  let ?rest = "\<lambda>i. and_then (run_plan env prog i) (\<lambda>_. and_then (run_act env prog i) (\<lambda>_. and_then (run_verify env prog i) (\<lambda>v.
     and_then (run_reflect env prog i v) (\<lambda>d. and_then (record_progress env (LP_ReflectDecision i (decision_kind d))) (\<lambda>_.
     and_then (record_progress env (LP_IterationCompleted i)) (\<lambda>_. ok (i, d)))))))"
  obtain j s1 where s1: "loop_head env prog s = (Inr j, s1)" and rest: "?rest j s1 = (Inr (i, Reflect_Continue), t)"
    using and_then_returns [OF assms(2) [unfolded loop_body_def]] by blast
  have "within (lifted grows) (?rest j)"
    by (intro loop_growth.lifted_rules loop_growth.lifted_steps loop_growth.lifted_runs)
  from within_step [OF this rest] have g1: "lifted grows s1 t" .
  have g0: "lifted grows s s1" by (rule within_step [OF loop_growth.lifted_body(1) s1])
  from head_uses_iteration [OF s1] show ?thesis
  proof
    assume "ls_position (en_state s) = At_PhaseRunning Phase_Retrieve"
    with pos grows_engine [OF g0] grows_engine [OF g1] show ?thesis
      by (auto simp: loop_measure_def restartable_def word_le_nat_alt)
  next
    assume "iterations (rc_usage (hs_ctx (en_harness s))) < iterations (rc_usage (hs_ctx (en_harness s1)))
       \<and> iterations (rc_usage (hs_ctx (en_harness s))) < max_iterations (rc_budget (hs_ctx (en_harness s)))"
    with pos grows_engine [OF g0] grows_engine [OF g1] show ?thesis
      by (auto simp: loop_measure_def restartable_def word_le_nat_alt word_less_nat_alt)
  qed
qed

end
