(* ===== verification/Loop_Run.thy ===== *)
theory Loop_Run
  imports Loop_Laws
begin

text \<open>
  Whole runs of the loop engine: \<^verbatim>\<open>LoopEngine::run_with_state\<close>, \<^verbatim>\<open>run\<close> and \<^verbatim>\<open>resume\<close> (\<^verbatim>\<open>agent-loop/src/engine.rs\<close>). The
  \<^verbatim>\<open>loop\<close> is a recursive function; it terminates because every turn that continues uses up an iteration of the budget,
  except one turn that takes up a recovered retrieval. The engine leaves a settled run behind: the run has ended, or its
  persistence has failed and no further operation is accepted.
\<close>

section \<open>The loop\<close>

text \<open>A turn from any other position stops with an error, so that only restartable positions matter.\<close>

lemma turn_requires_restartable:
  assumes "loop_body env prog s = (Inr x, t)"
  shows "restartable (en_state s)"
proof (rule ccontr)
  assume no: "\<not> restartable (en_state s)"
  obtain j s1 where head: "loop_head env prog s = (Inr j, s1)"
    using and_then_returns [OF assms [unfolded loop_body_def]] by blast
  show False
  proof (cases "ls_position (en_state s) = At_PhaseRunning Phase_Retrieve")
    case True
    with no head show ?thesis by (simp add: loop_head_def and_then_apply [of "gets en_state"] restartable_def)
  next
    case False
    with head obtain i s2 where fresh: "loop_begin_iteration env s = (Inr i, s2)"
      and rest: "and_then (apply_transition env i (ls_begin_iteration i))
        (\<lambda>_. and_then (run_observe env prog i) (\<lambda>_. and_then (run_retrieve env prog i) (\<lambda>_. ok i))) s2 = (Inr j, s1)"
      using and_then_returns [of "loop_begin_iteration env" _ s j s1]
      by (simp add: loop_head_def and_then_apply [of "gets en_state"]) blast
    obtain s3 where move: "apply_transition env i (ls_begin_iteration i) s2 = (Inr (), s3)"
      using and_then_returns [OF rest] by auto
    have "en_state s2 = en_state s" using loop_begin_iteration_counts [OF fresh] by auto
    with no have "ls_begin_iteration i (en_state s2) = Inl LT_BeginRequiresReady"
      by (auto simp: ls_begin_iteration_def restartable_def split: loop_position.split)
    with move show ?thesis
      by (auto simp: apply_transition_def and_then_apply [of "gets en_state"] dest!: and_then_returns)
  qed
qed

lemma turn_uses_measure: "loop_body env prog s = (Inr (i, Reflect_Continue), t) \<Longrightarrow> loop_measure t < loop_measure s"
  using turn_decreases [OF turn_requires_restartable] by blast

function run_loop :: "harness_env \<Rightarrow> 'w loop_program \<Rightarrow> ('w, loop_run_summary) lm" where
  "run_loop env prog s =
     (case loop_body env prog s of
        (Inl e, t) \<Rightarrow> (Inl e, t)
      | (Inr (i, d), t) \<Rightarrow>
          (case d of
             Reflect_Continue \<Rightarrow> run_loop env prog t
           | Reflect_Complete \<Rightarrow> loop_complete env t
           | Reflect_Fail k \<Rightarrow> loop_fail env i k t))"
  by pat_completeness auto
termination
  by (relation "measure (\<lambda>(env, prog, s). loop_measure s)")
     (simp, auto intro: turn_uses_measure [OF sym])

declare run_loop.simps [simp del]

lemma run_loop_step:
  "loop_body env prog s = (Inl e, t) \<Longrightarrow> run_loop env prog s = (Inl e, t)"
  "loop_body env prog s = (Inr (i, d), t) \<Longrightarrow> run_loop env prog s =
     (case d of Reflect_Continue \<Rightarrow> run_loop env prog t
      | Reflect_Complete \<Rightarrow> loop_complete env t | Reflect_Fail k \<Rightarrow> loop_fail env i k t)"
  by (subst run_loop.simps, simp)+

definition run_with_state :: "harness_env \<Rightarrow> 'w loop_program \<Rightarrow> ('w, loop_run_summary) lm" where
  "run_with_state env prog = and_then (loop_checkpoint env) (\<lambda>_. run_loop env prog)"

definition LoopEngine_run ::
  "harness_env \<Rightarrow> 'w loop_program \<Rightarrow> 'w \<Rightarrow> harness_state \<Rightarrow> (loop_error + loop_run_summary) \<times> 'w loop_run" where
  "LoopEngine_run env prog w h = run_with_state env prog \<lparr>en_harness = h, en_work = w, en_state = LoopState_new\<rparr>"

section \<open>Resuming a recovered run\<close>

definition contract_matches :: "'w loop_program \<Rightarrow> recovery_contract \<Rightarrow> bool" where
  "contract_matches prog contract =
     (case contract of
        Restartable v \<Rightarrow> v = lp_recovery_version prog
      | RestartableRetrieval v \<Rightarrow> v = lp_recovery_version prog \<and> lp_restart_interrupted_retrieval prog
      | _ \<Rightarrow> False)"

definition recovered_loop_state :: "'w loop_program \<Rightarrow> durable_run_state \<Rightarrow> loop_state option" where
  "recovered_loop_state prog d =
     (case ds_loop_position d of
        Loop_NotStarted \<Rightarrow> Some LoopState_new
      | Loop_Ready \<Rightarrow> Some (recovered_ready (ds_completed_iterations d))
      | Loop_PhaseRunning Phase_Retrieve \<Rightarrow>
          if lp_restart_interrupted_retrieval prog \<and> ds_restartable_knowledge_retrieval d \<noteq> None
          then map_option (\<lambda>i. recovered_retrieve_running i (ds_completed_iterations d)) (ds_current_iteration d)
          else None
      | _ \<Rightarrow> None)"

text \<open>The recovered context takes the place of the context in the state of the harness.\<close>

definition LoopEngine_resume ::
  "harness_env \<Rightarrow> 'w loop_program \<Rightarrow> run_context \<Rightarrow> durable_run_state \<Rightarrow> recovery_contract \<Rightarrow> harness_state \<Rightarrow>
   (loop_error + loop_run_summary \<times> 'w) \<times> harness_state" where
  "LoopEngine_resume env prog ctx durable contract h =
     (if \<not> contract_matches prog contract then (Inl LErr_RecoveryContractMismatch, h)
      else (case recovered_loop_state prog durable of
        None \<Rightarrow> (Inl LErr_RecoveryStateInvalid, h)
      | Some ls \<Rightarrow>
          (case lp_restore_working_state prog durable of
             Inl _ \<Rightarrow> (Inl LErr_RecoveryStateInvalid, h)
           | Inr w \<Rightarrow>
               (case run_with_state env prog \<lparr>en_harness = h\<lparr>hs_ctx := ctx\<rparr>, en_work = w, en_state = ls\<rparr> of
                  (Inl e, t) \<Rightarrow> (Inl e, en_harness t)
                | (Inr summary, t) \<Rightarrow> (Inr (summary, en_work t), en_harness t)))))"

lemma recovered_restartable: "recovered_loop_state prog d = Some ls \<Longrightarrow> restartable ls"
  by (auto simp: recovered_loop_state_def restartable_def LoopState_new_def recovered_ready_def recovered_retrieve_running_def
      split: durable_loop_position.splits loop_phase.splits if_splits)

section \<open>A whole run is a session of harness operations\<close>

context engine_frame
begin

lemma lifted_loop: "within (lifted R) (run_loop env prog)"
proof -
  have "lifted R s (snd (run_loop env prog s))" for s
  proof (induction s rule: measure_induct_rule [of loop_measure])
    case (less s)
    obtain r t where body: "loop_body env prog s = (r, t)" by fastforce
    then have first: "lifted R s t" by (rule within_step [OF lifted_body(2)])
    show ?case
    proof (cases r)
      case (Inl e)
      with body first show ?thesis by (simp add: run_loop_step)
    next
      case (Inr x)
      obtain i d where x: "x = (i, d)" by fastforce
      have "lifted R t (snd (run_loop env prog t))" if "d = Reflect_Continue"
        using less turn_uses_measure body Inr x that by blast
      moreover have "lifted R t (snd (loop_complete env t))" "lifted R t (snd (loop_fail env i k t))" for k
        using lifted_ends unfolding within_def by blast+
      ultimately show ?thesis using body Inr x first
        by (cases d) (auto simp: run_loop_step intro: lifted.trans)
    qed
  qed
  then show ?thesis by (simp add: within_def)
qed

lemma lifted_run: "within (lifted R) (run_with_state env prog)"
  unfolding run_with_state_def by (intro lifted_rules lifted_steps lifted_loop)

end

section \<open>Runs that are settled\<close>

definition alive :: "harness_state \<Rightarrow> bool" where
  "alive s \<longleftrightarrow> rc_runtime (hs_ctx s) \<noteq> None \<and> rc_status (hs_ctx s) \<noteq> Status_Pending"

definition settled :: "harness_state \<Rightarrow> bool" where
  "settled s \<longleftrightarrow> rc_persistence_failed (hs_ctx s) \<or> ended (rc_status (hs_ctx s))"

lemma grows_alive: "grows s t \<Longrightarrow> alive s \<Longrightarrow> alive t"
  by (auto simp: grows_def ctx_grows_def alive_def)

lemma grows_settled: "grows s t \<Longrightarrow> settled s \<Longrightarrow> settled t"
  by (auto simp: grows_def ctx_grows_def settled_def)

lemma alive_settled: "alive s \<Longrightarrow> rc_status (hs_ctx s) \<noteq> Status_Running \<Longrightarrow> settled s"
  by (cases "rc_status (hs_ctx s)") (simp_all add: alive_def settled_def)

lemma settled_within: "within grows m \<Longrightarrow> triple settled m (\<lambda>_. settled) (\<lambda>_. settled)"
  by (rule grows.triple_within [OF _ grows_settled])

lemma commit_finished_settles: "triple alive (on_ctx f (commit_finished out)) (\<lambda>_. settled) (\<lambda>_. settled)"
proof -
  have "settled t" if "alive s" "on_ctx f (commit_finished out) s = (r, t)" for s r t
    using that by (cases "rc_status (hs_ctx s)") (auto simp: on_ctx_def commit_finished_def settled_def alive_def)
  then show ?thesis by (auto simp: triple_def split: sum.split)
qed

lemma terminalize_settles: "triple alive (terminalize_with env out) (\<lambda>_. settled) (\<lambda>_. settled)"
  unfolding terminalize_with_def get_ctx_def
proof (rule triple_gets, rule triple_if)
  fix c show "triple (\<lambda>s. alive s \<and> c = hs_ctx s) (ok ()) (\<lambda>_. settled) (\<lambda>_. settled)" if "rc_status c \<noteq> Status_Running"
    using that by (auto intro!: triple_ok alive_settled)
  have "triple alive (on_result (on_ctx HE_Context (commit_finished out)) h) (\<lambda>_. settled) (\<lambda>_. settled)"
    if "\<And>r. within grows (h r)" for h :: "_ \<Rightarrow> unit hm"
    by (rule triple_on_result [OF commit_finished_settles]; rule settled_within [OF that])
  then show "triple (\<lambda>s. alive s \<and> c = hs_ctx s) (on_result (on_ctx HE_Context (commit_finished out)) (\<lambda>r.
         case r of
           Inl _ \<Rightarrow> upd_ctx mark_audit_degraded
         | Inr _ \<Rightarrow> on_result (emit env (Ev_RunFinished out)) (\<lambda>r.
             case r of
               Inl _ \<Rightarrow> upd_ctx mark_audit_degraded
             | Inr e \<Rightarrow> audit_terminal_best_effort env e))) (\<lambda>_. settled) (\<lambda>_. settled)"
    by (rule triple_pre) (intro grows_rules, simp)
qed

lemma preflight_settles: "triple alive (preflight env op) (\<lambda>_. alive) (\<lambda>_. settled)"
proof -
  have stop: "triple alive (and_then (terminalize_safety env w) (\<lambda>_. err e)) (\<lambda>_. alive) (\<lambda>_. settled)" for w e
    unfolding terminalize_safety_def by (rule triple_and_then [OF terminalize_settles], rule triple_err)
  have ask: "triple alive (ask f) (\<lambda>_. alive) (\<lambda>_. settled)" for f :: "nat \<Rightarrow> 'a"
    by (simp add: triple_def ask_def alive_def)
  have running: "status_satisfies Require_Running st \<longleftrightarrow> st = Status_Running" for st by (cases st) simp_all
  have status: "triple alive (require_status op Require_Running) (\<lambda>_. alive) (\<lambda>_. settled)"
    unfolding require_status_def get_ctx_def
    by (rule triple_gets, intro triple_if triple_ok triple_err) (auto simp: running settled_def [symmetric] alive_settled, simp add: settled_def)
  have runtime: "triple alive runtime_of (\<lambda>_. alive) (\<lambda>_. settled)"
    unfolding runtime_of_def get_ctx_def
    by (rule triple_gets) (auto simp: triple_def alive_def split: option.split)
  show ?thesis
    unfolding preflight_def
    by (rule triple_and_then [OF status], rule triple_and_then [OF runtime], rule triple_and_then [OF ask], rule triple_if,
        rule stop, rule triple_and_then [OF ask], rule triple_if, rule stop, rule triple_ok)
qed

lemma finish_settles:
  "triple alive (complete_run env) (\<lambda>_. settled) (\<lambda>_. settled)" "triple alive (fail_run env k) (\<lambda>_. settled) (\<lambda>_. settled)"
  unfolding complete_run_def fail_run_def
  by (rule triple_and_then [OF preflight_settles], rule triple_and_then [OF commit_finished_settles], rule settled_within,
      intro grows_rules)+

section \<open>The engine settles the run\<close>

text \<open>
  A step of the engine is \<open>careful\<close> when it fails only with a settled run; a \<open>closing\<close> step leaves a settled run in
  any case.
\<close>

abbreviation en_alive :: "'w loop_run \<Rightarrow> bool" where "en_alive s \<equiv> alive (en_harness s)"
abbreviation en_settled :: "'w loop_run \<Rightarrow> bool" where "en_settled s \<equiv> settled (en_harness s)"

definition careful :: "('w, 'a) lm \<Rightarrow> bool" where
  "careful m \<longleftrightarrow> triple en_alive m (\<lambda>_. en_alive) (\<lambda>_. en_settled)"

definition closing :: "('w, 'a) lm \<Rightarrow> bool" where
  "closing m \<longleftrightarrow> triple en_alive m (\<lambda>_. en_settled) (\<lambda>_. en_settled)"

lemma careful_and_then: "careful m \<Longrightarrow> (\<And>x. careful (k x)) \<Longrightarrow> careful (and_then m k)"
  unfolding careful_def by (rule triple_and_then)

lemma careful_then_closing: "careful m \<Longrightarrow> (\<And>x. closing (k x)) \<Longrightarrow> closing (and_then m k)"
  unfolding careful_def closing_def by (rule triple_and_then)

lemma closing_then: "closing m \<Longrightarrow> (\<And>x. within (lifted grows) (k x)) \<Longrightarrow> closing (and_then m k)"
  unfolding closing_def
  by (erule triple_and_then, rule loop_growth.lifted.triple_within) (auto simp: lifted_def intro: grows_settled)

lemma careful_throw: "closing m \<Longrightarrow> careful (throw m)"
  unfolding closing_def careful_def throw_def by (erule triple_and_then) (rule triple_err)

lemma closing_throw: "closing m \<Longrightarrow> closing (throw m)"
  unfolding closing_def throw_def by (erule triple_and_then) (rule triple_err)

lemma careful_basic: "careful (ok x)" "careful (gets f)"
  by (simp_all add: careful_def triple_def)

lemma careful_within: "within (lifted grows) m \<Longrightarrow> (\<And>s e. fst (m s) \<noteq> Inl e) \<Longrightarrow> careful m"
  unfolding careful_def triple_def
proof (intro allI impI)
  fix s r t assume m: "within (lifted grows) m" "\<And>s e. fst (m s) \<noteq> Inl e" and s: "en_alive s" "m s = (r, t)"
  have "lifted grows s t" using within_step [OF m(1) s(2)] .
  moreover obtain x where "r = Inr x" using m(2) [of s] s(2) by (cases r) auto
  ultimately show "case r of Inl e \<Rightarrow> en_settled t | Inr x \<Rightarrow> en_alive t"
    using s(1) grows_alive by (auto simp: lifted_def)
qed

lemma careful_attempt: "within grows m \<Longrightarrow> careful (attempt m)"
  by (rule careful_within [OF loop_growth.lifted_attempt]) (auto simp: attempt_def split: prod.split)

lemma careful_callback: "careful (callback env f)"
  by (rule careful_within [OF loop_growth.lifted_callback]) (auto simp: callback_def split: prod.split)

lemma closing_attempt: "triple alive m (\<lambda>_. settled) (\<lambda>_. settled) \<Longrightarrow> closing (attempt m)"
  by (fastforce simp: closing_def triple_def attempt_def split: prod.splits sum.splits)

lemma careful_cases:
  "(b \<Longrightarrow> careful m) \<Longrightarrow> (\<not> b \<Longrightarrow> careful n) \<Longrightarrow> careful (if b then m else n)"
  "careful n \<Longrightarrow> (\<And>x. careful (f x)) \<Longrightarrow> careful (case v of None \<Rightarrow> n | Some x \<Rightarrow> f x)"
  "(\<And>x. careful (f' x)) \<Longrightarrow> (\<And>x. careful (g x)) \<Longrightarrow> careful (case w of Inl x \<Rightarrow> f' x | Inr x \<Rightarrow> g x)"
  by (simp_all split: option.split sum.split)

text \<open>What the engine does according to the status of the run.\<close>

lemma by_status:
  assumes "\<And>st. st \<noteq> Status_Running \<Longrightarrow> triple en_settled (k st) Q (\<lambda>_. en_settled)"
    "triple en_alive (k Status_Running) Q (\<lambda>_. en_settled)"
  shows "triple en_alive (and_then loop_status k) Q (\<lambda>_. en_settled)"
  unfolding loop_status_def
proof (rule triple_gets)
  fix st
  show "triple (\<lambda>s. en_alive s \<and> st = rc_status (hs_ctx (en_harness s))) (k st) Q (\<lambda>_. en_settled)"
  proof (cases "st = Status_Running")
    case True
    show ?thesis unfolding True by (rule triple_pre [OF assms(2)]) simp
  next
    case False
    then show ?thesis by (auto intro!: triple_pre [OF assms(1) [OF False]] alive_settled)
  qed
qed

lemma settled_triples:
  "triple en_settled (ok x) (\<lambda>_. en_settled) (\<lambda>_. en_settled)" "triple en_settled (err e) Q (\<lambda>_. en_settled)"
  by (simp_all add: triple_def)

lemma careful_require_running: "careful require_running"
  unfolding require_running_def careful_def by (rule by_status) (simp_all add: settled_triples triple_ok)

lemma closing_fail:
  "closing (and_then (attempt (fail_run env k)) (\<lambda>r. case r of Inr _ \<Rightarrow> ok y | Inl source \<Rightarrow> finalization_error source))"
  by (rule closing_then [OF closing_attempt [OF finish_settles(2)]]) (intro loop_growth.lifted_rules loop_growth.lifted_status)

lemma closing_terminalize: "closing (terminalize_harness_error env x)"
proof -
  have report: "closing (and_then loop_status (\<lambda>st. case r of
       Inr _ \<Rightarrow> and_then (attempt (fail_run env (failure_kind_for_harness_error x)))
           (\<lambda>r. case r of Inr _ \<Rightarrow> ok (LErr_Harness x) | Inl source \<Rightarrow> finalization_error source)
     | Inl p \<Rightarrow> if st \<noteq> Status_Running then ok (LErr_Harness p)
         else and_then (attempt (fail_run env (failure_kind_for_harness_error p)))
           (\<lambda>r. case r of Inr _ \<Rightarrow> ok (LErr_Harness p) | Inl source \<Rightarrow> finalization_error source)))" for r :: "harness_error + unit"
  proof (cases r)
    case (Inl p)
    show ?thesis unfolding Inl sum.case closing_def
      by (rule by_status) (simp_all add: settled_triples closing_fail [unfolded closing_def])
  next
    case (Inr u)
    show ?thesis unfolding Inr sum.case
      by (rule careful_then_closing [OF _ closing_fail]) (simp add: loop_status_def careful_basic)
  qed
  have running: "closing (and_then used_iterations (\<lambda>i. and_then (attempt (record_loop_progress env
       (LP_LoopFailed i (failure_kind_for_harness_error x)))) (\<lambda>r. and_then loop_status (\<lambda>st. case r of
       Inr _ \<Rightarrow> and_then (attempt (fail_run env (failure_kind_for_harness_error x)))
           (\<lambda>r. case r of Inr _ \<Rightarrow> ok (LErr_Harness x) | Inl source \<Rightarrow> finalization_error source)
     | Inl p \<Rightarrow> if st \<noteq> Status_Running then ok (LErr_Harness p)
         else and_then (attempt (fail_run env (failure_kind_for_harness_error p)))
           (\<lambda>r. case r of Inr _ \<Rightarrow> ok (LErr_Harness p) | Inl source \<Rightarrow> finalization_error source)))))"
    by (rule careful_then_closing, simp add: used_iterations_def careful_basic,
        rule careful_then_closing [OF careful_attempt report], rule grows_lifecycle)
  show ?thesis
    unfolding terminalize_harness_error_def closing_def Let_def
    by (rule by_status) (simp_all add: settled_triples running [unfolded closing_def])
qed

lemma careful_handled: "within grows m \<Longrightarrow> (\<And>x. careful (k x)) \<Longrightarrow>
  careful (and_then (attempt m) (\<lambda>r. case r of Inr x \<Rightarrow> k x | Inl x \<Rightarrow> throw (terminalize_harness_error env x)))"
  by (intro careful_and_then careful_attempt careful_cases careful_throw closing_terminalize)

lemma careful_steps:
  "careful (loop_checkpoint env)" "careful (record_progress env p)" "careful (loop_begin_iteration env)"
  unfolding loop_checkpoint_def record_progress_def loop_begin_iteration_def
  by (intro careful_handled grows_lifecycle careful_require_running careful_basic)+

lemma careful_transition: "careful (apply_transition env i f)"
proof -
  have failing: "triple en_alive (and_then loop_status (\<lambda>st. and_then (if st = Status_Running
             then and_then (attempt (record_loop_progress env p)) (\<lambda>_. and_then loop_status (\<lambda>st.
                    if st = Status_Running then and_then (attempt (fail_run env k)) (\<lambda>_. ok ()) else ok ()))
             else ok ()) (\<lambda>_. err x))) (\<lambda>_. en_alive) (\<lambda>_. en_settled)" for p k x
  proof (rule by_status)
    have "closing (and_then (attempt (record_loop_progress env p)) (\<lambda>_. and_then loop_status (\<lambda>st.
                    if st = Status_Running then and_then (attempt (fail_run env k)) (\<lambda>_. ok ()) else ok ())))"
      by (rule careful_then_closing [OF careful_attempt], rule grows_lifecycle, unfold closing_def, rule by_status)
         (simp_all add: settled_triples closing_then [OF closing_attempt [OF finish_settles(2)], unfolded closing_def]
            loop_growth.lifted.within_ok)
    from triple_and_then [OF this [unfolded closing_def] settled_triples(2)]
    show "triple en_alive (and_then (if Status_Running = Status_Running
             then and_then (attempt (record_loop_progress env p)) (\<lambda>_. and_then loop_status (\<lambda>st.
                    if st = Status_Running then and_then (attempt (fail_run env k)) (\<lambda>_. ok ()) else ok ()))
             else ok ()) (\<lambda>_. err x)) (\<lambda>_. en_alive) (\<lambda>_. en_settled)"
      by simp
  qed (simp add: triple_and_then [OF settled_triples(1) settled_triples(2)])
  show ?thesis
    unfolding apply_transition_def
    by (rule careful_and_then [OF careful_basic(2)], rule careful_cases(3))
       (simp_all add: careful_def triple_def [of _ "modify _"] failing)
qed

lemma closing_step_error: "closing (terminalize_step_error env p x)"
proof -
  let ?fail = "\<lambda>k y. and_then (attempt (fail_run env k)) (\<lambda>r. case r of Inr _ \<Rightarrow> ok y | Inl source \<Rightarrow> finalization_error source)"
  have report: "closing (on_result (record_progress env q) (\<lambda>r. case r of Inl e \<Rightarrow> ok e | Inr _ \<Rightarrow> ?fail k y))" for q k y
    unfolding closing_def
    by (rule triple_on_result [OF careful_steps(2) [unfolded careful_def]])
       (simp_all add: settled_triples closing_fail [unfolded closing_def])
  have program: "closing (and_then used_iterations (\<lambda>i. on_result (record_progress env (q i))
      (\<lambda>r. case r of Inl e \<Rightarrow> ok e | Inr _ \<Rightarrow> ?fail k y)))" for q k y
    by (rule careful_then_closing [OF _ report]) (simp add: used_iterations_def careful_basic)
  show ?thesis
    unfolding terminalize_step_error_def closing_def Let_def
    by (rule by_status)
       (simp_all add: settled_triples program [unfolded closing_def] closing_terminalize [unfolded closing_def]
          split: loop_step_error.split)
qed

lemma careful_phases:
  "careful (loop_enter_phase env i p)" "careful (finish_phase env i p move r)"
  unfolding loop_enter_phase_def finish_phase_def
  by (intro careful_and_then careful_steps careful_transition careful_require_running careful_cases careful_throw
      closing_step_error careful_basic)+

lemma careful_runs:
  "careful (run_observe env prog i)" "careful (continue_retrieve env prog i)" "careful (run_retrieve env prog i)"
  "careful (run_plan env prog i)" "careful (run_act env prog i)" "careful (run_verify env prog i)"
  "careful (run_reflect env prog i v)"
  unfolding run_observe_def run_retrieve_def continue_retrieve_def run_plan_def run_act_def run_verify_def run_reflect_def
    finish_unit_phase_def
  by (intro careful_and_then careful_phases careful_callback)+

lemma closing_finish:
  assumes "triple alive m (\<lambda>_. settled) (\<lambda>_. settled)"
  shows "closing (and_then (attempt m) (\<lambda>r. case r of Inr _ \<Rightarrow> ok () | Inl x \<Rightarrow> and_then loop_status (\<lambda>st.
       if is_finished st then err (LErr_Finalization x) else throw (terminalize_harness_error env x))))"
  by (rule closing_then [OF closing_attempt [OF assms]])
     (intro loop_growth.lifted_rules loop_growth.lifted_status loop_growth.lifted_throw loop_growth.lifted_terminalize)

lemma closing_ends: "closing (loop_complete env)" "closing (loop_fail env i k)"
  unfolding loop_complete_def loop_fail_def loop_complete_run_def loop_fail_run_def loop_summary_def
  by (intro careful_then_closing careful_basic careful_steps closing_then closing_finish finish_settles
      loop_growth.lifted_rules)+

lemma careful_head: "triple (\<lambda>s. restartable (en_state s) \<and> en_alive s) (loop_head env prog) (\<lambda>_. en_alive) (\<lambda>_. en_settled)"
  unfolding loop_head_def
proof (rule triple_gets)
  fix ls
  have recovered: "careful (and_then (continue_retrieve env prog i) (\<lambda>_. ok i))" for i
    by (intro careful_and_then careful_runs careful_basic)
  have fresh: "careful (and_then (loop_begin_iteration env) (\<lambda>i. and_then (apply_transition env i (ls_begin_iteration i))
      (\<lambda>_. and_then (run_observe env prog i) (\<lambda>_. and_then (run_retrieve env prog i) (\<lambda>_. ok i)))))"
    by (intro careful_and_then careful_steps careful_transition careful_runs careful_basic)
  show "triple (\<lambda>s. (restartable (en_state s) \<and> en_alive s) \<and> ls = en_state s)
     (if ls_position ls = At_PhaseRunning Phase_Retrieve
      then (case ls_current_iteration ls of None \<Rightarrow> err LErr_RecoveryStateInvalid
            | Some i \<Rightarrow> and_then (continue_retrieve env prog i) (\<lambda>_. ok i))
      else and_then (loop_begin_iteration env) (\<lambda>i. and_then (apply_transition env i (ls_begin_iteration i))
        (\<lambda>_. and_then (run_observe env prog i) (\<lambda>_. and_then (run_retrieve env prog i) (\<lambda>_. ok i)))))
     (\<lambda>_. en_alive) (\<lambda>_. en_settled)"
    by (cases "ls_current_iteration ls")
       (auto intro!: triple_if triple_pre [OF fresh [unfolded careful_def]] triple_pre [OF recovered [unfolded careful_def]]
          triple_err simp: restartable_def)
qed

lemma careful_body: "triple (\<lambda>s. restartable (en_state s) \<and> en_alive s) (loop_body env prog) (\<lambda>_. en_alive) (\<lambda>_. en_settled)"
proof -
  have "careful (and_then (run_plan env prog i) (\<lambda>_. and_then (run_act env prog i) (\<lambda>_. and_then (run_verify env prog i) (\<lambda>v.
     and_then (run_reflect env prog i v) (\<lambda>d. and_then (record_progress env (LP_ReflectDecision i (decision_kind d))) (\<lambda>_.
     and_then (record_progress env (LP_IterationCompleted i)) (\<lambda>_. ok (i, d))))))))" for i
    by (intro careful_and_then careful_runs careful_steps careful_basic)
  then show ?thesis
    unfolding loop_body_def careful_def by (rule triple_and_then [OF careful_head])
qed

section \<open>Whole runs\<close>

text \<open>
  What a run of the engine ends with: an error of the harness or the program with a settled run, or a summary whose status
  is that of the run and says what the program decided.
\<close>

definition decided :: "terminal_loop_decision \<Rightarrow> run_status" where
  "decided d = Status_Finished (case d of Loop_Complete \<Rightarrow> Outcome_Completed | Loop_Fail k \<Rightarrow> Outcome_Failed (Fail_Loop k))"

definition concluded :: "loop_run_summary \<Rightarrow> 'w loop_run \<Rightarrow> bool" where
  "concluded su t \<longleftrightarrow>
     rc_status (hs_ctx (en_harness t)) = decided (su_terminal_decision su)
     \<and> su_final_status su = decided (su_terminal_decision su)
     \<and> su_completed_iterations su = ls_completed_iterations (en_state t)
     \<and> su_reserved_iterations su = iterations (rc_usage (hs_ctx (en_harness t)))"

lemma finish_status:
  "triple (\<lambda>_. True) (complete_run env) (\<lambda>_ t. rc_status (hs_ctx t) = Status_Finished Outcome_Completed) (\<lambda>_ _. True)"
  "triple (\<lambda>_. True) (fail_run env k) (\<lambda>_ t. rc_status (hs_ctx t) = Status_Finished (Outcome_Failed k)) (\<lambda>_ _. True)"
proof -
  have commit: "triple (\<lambda>_. True) (on_ctx HE_Context (commit_finished out))
      (\<lambda>_ t. rc_status (hs_ctx t) = Status_Finished out) (\<lambda>_ _. True)" for out
    by (auto simp: triple_def on_ctx_def commit_finished_def split: sum.splits prod.splits elim: RunStatus_finish.elims)
  have rest: "triple (\<lambda>t. rc_status (hs_ctx t) = Status_Finished out) m (\<lambda>_ t. rc_status (hs_ctx t) = Status_Finished out)
      (\<lambda>_ _. True)" if "within grows m" for out and m :: "unit hm"
    by (rule triple_conseq [OF grows.triple_within [OF that, of "\<lambda>t. rc_status (hs_ctx t) = Status_Finished out"]])
       (auto simp: grows_def ctx_grows_def)
  show "triple (\<lambda>_. True) (complete_run env) (\<lambda>_ t. rc_status (hs_ctx t) = Status_Finished Outcome_Completed) (\<lambda>_ _. True)"
    unfolding complete_run_def
    by (rule triple_and_then [OF triple_trivial], rule triple_and_then [OF commit], rule rest) (intro grows_rules)
  show "triple (\<lambda>_. True) (fail_run env k) (\<lambda>_ t. rc_status (hs_ctx t) = Status_Finished (Outcome_Failed k)) (\<lambda>_ _. True)"
    unfolding fail_run_def
    by (rule triple_and_then [OF triple_trivial], rule triple_and_then [OF commit], rule rest) (intro grows_rules)
qed

lemma finish_concluded:
  assumes "triple (\<lambda>_. True) m (\<lambda>_ t. rc_status (hs_ctx t) = decided d) (\<lambda>_ _. True)"
    "\<And>x s u t. h x s \<noteq> (Inr u, t)"
  shows "triple (\<lambda>_. True) (and_then (and_then (attempt m) (\<lambda>r. case r of Inr _ \<Rightarrow> ok () | Inl x \<Rightarrow> h x)) (\<lambda>_. loop_summary d))
     concluded (\<lambda>_ _. True)"
  unfolding triple_def
proof (intro allI impI)
  fix s r t
  assume "and_then (and_then (attempt m) (\<lambda>r. case r of Inr _ \<Rightarrow> ok () | Inl x \<Rightarrow> h x)) (\<lambda>_. loop_summary d) s = (r, t)"
  then show "case r of Inl e \<Rightarrow> True | Inr su \<Rightarrow> concluded su t"
    using assms(2)
    by (auto simp: and_then_apply attempt_def loop_summary_def concluded_def split: prod.splits sum.splits
        dest: triple_returns [OF assms(1) TrueI])
qed

lemma throw_returns_nothing: "throw m s \<noteq> (Inr u, t)"
  by (auto simp: throw_def and_then_apply split: prod.splits sum.splits)

lemma ends_concluded:
  "triple (\<lambda>_. True) (loop_complete env) concluded (\<lambda>_ _. True)" "triple (\<lambda>_. True) (loop_fail env i k) concluded (\<lambda>_ _. True)"
proof -
  have handler: "and_then loop_status (\<lambda>st. if is_finished st then err (LErr_Finalization x) else throw m) s \<noteq> (Inr u, t)"
    for x m s u t
    by (auto simp: and_then_apply loop_status_def throw_returns_nothing)
  have decided: "decided Loop_Complete = Status_Finished Outcome_Completed"
    "decided (Loop_Fail k) = Status_Finished (Outcome_Failed (Fail_Loop k))"
    by (simp_all add: decided_def)
  show "triple (\<lambda>_. True) (loop_complete env) concluded (\<lambda>_ _. True)"
    unfolding loop_complete_def loop_complete_run_def
    by (rule triple_and_then [OF triple_trivial], rule triple_and_then [OF triple_trivial], rule finish_concluded)
       (simp_all add: decided finish_status handler)
  show "triple (\<lambda>_. True) (loop_fail env i k) concluded (\<lambda>_ _. True)"
    unfolding loop_fail_def loop_fail_run_def
    by (rule triple_and_then [OF triple_trivial], rule finish_concluded) (simp_all add: decided finish_status handler)
qed

lemma orderly_ends: "orderly (loop_complete env)" "orderly (loop_fail env i k)"
  unfolding loop_complete_def loop_fail_def loop_summary_def by (intro orderly_and_then orderly_steps orderly_basic)+

lemma orderly_keeps:
  assumes "orderly m"
  shows "triple (\<lambda>s. F (en_state s)) m (\<lambda>_ s. F (en_state s)) is_fine"
  unfolding triple_def
proof (intro allI impI)
  fix s r t assume s: "F (en_state s)" "m s = (r, t)"
  have "en_state (snd (m s)) = en_state s" "\<forall>e. fst (m s) = Inl e \<longrightarrow> fine e"
    using assms unfolding orderly_def by blast+
  with s show "case r of Inl e \<Rightarrow> fine e | Inr x \<Rightarrow> F (en_state t)" by (cases r) simp_all
qed

lemma ends_triple:
  "triple en_alive (loop_complete env) (\<lambda>su t. en_settled t \<and> concluded su t) (\<lambda>e t. en_settled t \<and> fine e)"
  "triple en_alive (loop_fail env i k) (\<lambda>su t. en_settled t \<and> concluded su t) (\<lambda>e t. en_settled t \<and> fine e)"
proof -
  note orderly = orderly_keeps [where F = "\<lambda>_. True"]
  show "triple en_alive (loop_complete env) (\<lambda>su t. en_settled t \<and> concluded su t) (\<lambda>e t. en_settled t \<and> fine e)"
    by (rule triple_conseq [OF triple_both [OF closing_ends(1) [unfolded closing_def]
          triple_both [OF ends_concluded(1) orderly [OF orderly_ends(1)]]]]) auto
  show "triple en_alive (loop_fail env i k) (\<lambda>su t. en_settled t \<and> concluded su t) (\<lambda>e t. en_settled t \<and> fine e)"
    by (rule triple_conseq [OF triple_both [OF closing_ends(2) [unfolded closing_def]
          triple_both [OF ends_concluded(2) orderly [OF orderly_ends(2)]]]]) auto
qed

text \<open>The loop, by induction on the measure.\<close>

lemma loop_triple:
  "triple (\<lambda>s. restartable (en_state s) \<and> en_alive s) (run_loop env prog)
     (\<lambda>su t. en_settled t \<and> concluded su t) (\<lambda>e t. en_settled t \<and> fine e)"
proof -
  have "case fst (run_loop env prog s) of
       Inl e \<Rightarrow> en_settled (snd (run_loop env prog s)) \<and> fine e
     | Inr su \<Rightarrow> en_settled (snd (run_loop env prog s)) \<and> concluded su (snd (run_loop env prog s))"
    if "restartable (en_state s)" "en_alive s" for s
    using that
  proof (induction s rule: measure_induct_rule [of loop_measure])
    case (less s)
    obtain r t where body: "loop_body env prog s = (r, t)" by fastforce
    have turn: "case r of Inl e \<Rightarrow> en_settled t \<and> fine e | Inr x \<Rightarrow> en_alive t"
      using triple_case [OF triple_both [OF careful_body body_triple] _ body] less.prems
      by (auto split: sum.splits)
    show ?case
    proof (cases r)
      case (Inl e)
      with body turn show ?thesis by (simp add: run_loop_step)
    next
      case (Inr x)
      obtain i d where x: "x = (i, d)" by fastforce
      have alive: "en_alive t" using turn Inr by simp
      have step: "loop_body env prog s = (Inr (i, d), t)" using body Inr x by simp
      show ?thesis
      proof (cases d)
        case Reflect_Continue
        then have "loop_measure t < loop_measure s \<and> restartable (en_state t)"
          using turn_decreases [OF less.prems(1), of env prog i t] step by simp
        note ih = less.IH [of t, OF conjunct1 [OF this] conjunct2 [OF this] alive]
        have "run_loop env prog s = run_loop env prog t" using run_loop_step(2) [OF step] Reflect_Continue by simp
        then show ?thesis by (simp only: ih)
      qed (simp_all only: run_loop_step(2) [OF step] reflect_decision.case triple_result [OF ends_triple(1) alive]
          triple_result [OF ends_triple(2) alive])
    qed
  qed
  then show ?thesis unfolding triple_def by (metis fst_conv snd_conv)
qed

lemma run_triple:
  "triple (\<lambda>s. restartable (en_state s) \<and> en_alive s) (run_with_state env prog)
     (\<lambda>su t. en_settled t \<and> concluded su t) (\<lambda>e t. en_settled t \<and> fine e)"
proof -
  have "triple (\<lambda>s. restartable (en_state s) \<and> en_alive s) (loop_checkpoint env)
      (\<lambda>_ s. restartable (en_state s) \<and> en_alive s) (\<lambda>e t. en_settled t \<and> fine e)"
    by (rule triple_conseq [OF triple_both [OF orderly_keeps [OF orderly_steps(1)] careful_steps(1) [unfolded careful_def]]]) auto
  then show ?thesis unfolding run_with_state_def by (rule triple_and_then) (rule loop_triple)
qed

section \<open>A failure that the journal does not show\<close>

text \<open>
  Between iterations the reducer has no current iteration and rejects \<^verbatim>\<open>LoopFailed\<close>; the rejected event has used up its
  sequence number, so the event that ends the run is rejected as well.
\<close>

lemma event_refused:
  assumes "apply_event cd (AgentEvent_new (rc_run_id c) (rc_next_event_sequence c) k) (rc_durable_state c) = Inl (e, rc_durable_state c)"
    "checked_next (rc_next_event_sequence c) = Some n"
  shows "next_event cd k c = (Inl CE_DurableTransitionInvalid, c\<lparr>rc_next_event_sequence := n\<rparr>)"
  using assms by (simp add: next_event_def Let_def)

lemma loop_failed_rejected:
  "ds_current_iteration d = None \<Longrightarrow> \<exists>e. apply_event cd (AgentEvent_new r q (Ev_Loop (LE_LoopFailed i f))) d = Inl (e, d)"
  by (simp add: apply_event_def AgentEvent_new_def reject_def lb_then_def)

lemma late_event_rejected:
  "q \<noteq> expected_sequence d \<Longrightarrow> \<exists>e. apply_event cd (AgentEvent_new r q k) d = Inl (e, d)"
  by (simp add: apply_event_def AgentEvent_new_def reject_def)

text \<open>A run that goes on: it is running, not cancelled, and its deadline has not passed.\<close>

definition undisturbed :: "harness_env \<Rightarrow> harness_state \<Rightarrow> bool" where
  "undisturbed env h \<longleftrightarrow>
     rc_status (hs_ctx h) = Status_Running \<and> \<not> rc_persistence_failed (hs_ctx h)
     \<and> (\<forall>t. \<not> he_cancelled env t)
     \<and> (\<exists>rt. rc_runtime (hs_ctx h) = Some rt \<and> \<not> rt_cancelled rt \<and> (\<forall>t. he_now env t < rt_deadline_at rt))"

lemma preflight_passes: "undisturbed env h \<Longrightarrow> preflight env op h = (Inr (), h\<lparr>hs_tick := Suc (Suc (hs_tick h))\<rparr>)"
  by (auto simp: undisturbed_def preflight_def require_status_def runtime_of_def get_ctx_def ask_def and_then_apply
      split: option.split) (use leD in blast)

lemma progress_rejected:
  assumes "undisturbed env h" "ds_current_iteration (rc_durable_state (hs_ctx h)) = None"
    "checked_next (rc_next_event_sequence (hs_ctx h)) = Some n"
  shows "record_loop_progress env (LP_LoopFailed i f) h =
    (Inl (HE_Context CE_DurableTransitionInvalid),
     h\<lparr>hs_ctx := (hs_ctx h)\<lparr>rc_next_event_sequence := n\<rparr>, hs_tick := Suc (Suc (hs_tick h))\<rparr>)"
proof -
  obtain e where "apply_event (he_codec env) (AgentEvent_new (rc_run_id (hs_ctx h)) (rc_next_event_sequence (hs_ctx h))
      (Ev_Loop (LE_LoopFailed i f))) (rc_durable_state (hs_ctx h)) = Inl (e, rc_durable_state (hs_ctx h))"
    using loop_failed_rejected [OF assms(2)] by blast
  from event_refused [OF this assms(3)] show ?thesis
    by (simp add: record_loop_progress_def and_then_apply preflight_passes [OF assms(1)] emit_def on_ctx_def)
qed

lemma ending_rejected:
  assumes "undisturbed env h" "rc_next_event_sequence (hs_ctx h) \<noteq> expected_sequence (rc_durable_state (hs_ctx h))"
    "checked_next (rc_next_event_sequence (hs_ctx h)) = Some n"
  shows "fail_run env k h =
    (Inl (HE_Context CE_DurableTransitionInvalid),
     h\<lparr>hs_ctx := (hs_ctx h)\<lparr>rc_status := Status_Finished (Outcome_Failed k), rc_next_event_sequence := n\<rparr>,
       hs_tick := Suc (Suc (hs_tick h))\<rparr>)"
proof -
  let ?c = "(hs_ctx h)\<lparr>rc_status := Status_Finished (Outcome_Failed k)\<rparr>"
  obtain e where "apply_event (he_codec env) (AgentEvent_new (rc_run_id ?c) (rc_next_event_sequence ?c)
      (Ev_RunFinished (Outcome_Failed k))) (rc_durable_state ?c) = Inl (e, rc_durable_state ?c)"
    using late_event_rejected [of "rc_next_event_sequence ?c" "rc_durable_state ?c"] assms(2) by simp blast
  from event_refused [OF this] assms(1,3) show ?thesis
    by (simp add: fail_run_def and_then_apply preflight_passes [OF assms(1)] emit_def on_ctx_def commit_finished_def
        undisturbed_def)
qed

lemma sequence_room:
  assumes "unat (q :: event_sequence) + 2 < 2 ^ 64"
  shows "q \<noteq> - 1" "q + 1 \<noteq> - 1"
proof -
  show "q \<noteq> - 1" using assms by (auto simp: unsigned_minus_1_eq_mask mask_eq_exp_minus_1)
  show "q + 1 \<noteq> - 1"
  proof
    assume "q + 1 = - 1"
    then have "q = - 1 - 1" by (metis add_diff_cancel_right')
    with assms show False by simp
  qed
qed

lemma failure_not_recorded:
  assumes "undisturbed env (en_harness s)" "ds_current_iteration (rc_durable_state (hs_ctx (en_harness s))) = None"
    "rc_next_event_sequence (hs_ctx (en_harness s)) = expected_sequence (rc_durable_state (hs_ctx (en_harness s)))"
    "unat (rc_next_event_sequence (hs_ctx (en_harness s))) + 2 < 2 ^ 64"
  obtains t where "terminalize_harness_error env x s = (Inr (LErr_Finalization (HE_Context CE_DurableTransitionInvalid)), t)"
    "rc_status (hs_ctx (en_harness t)) = Status_Finished (Outcome_Failed Fail_Internal)"
    "rc_durable_state (hs_ctx (en_harness t)) = rc_durable_state (hs_ctx (en_harness s))"
    "hs_store (en_harness t) = hs_store (en_harness s)"
proof -
  let ?h = "en_harness s" and ?q = "rc_next_event_sequence (hs_ctx (en_harness s))"
  have q: "checked_next ?q = Some (?q + 1)" "checked_next (?q + 1) = Some (?q + 1 + 1)" "?q + 1 \<noteq> ?q"
    using sequence_room [OF assms(4)] by (simp_all add: checked_next_def checked_inc_def)
  let ?h1 = "?h\<lparr>hs_ctx := (hs_ctx ?h)\<lparr>rc_next_event_sequence := ?q + 1\<rparr>, hs_tick := Suc (Suc (hs_tick ?h))\<rparr>"
  have h1: "undisturbed env ?h1" using assms(1) by (simp add: undisturbed_def)
  have running: "rc_status (hs_ctx ?h) = Status_Running" using assms(1) by (simp add: undisturbed_def)
  let ?h2 = "?h1\<lparr>hs_ctx := (hs_ctx ?h1)\<lparr>rc_status := Status_Finished (Outcome_Failed Fail_Internal),
      rc_next_event_sequence := ?q + 1 + 1\<rparr>, hs_tick := Suc (Suc (hs_tick ?h1))\<rparr>"
  have fail: "fail_run env Fail_Internal ?h1 = (Inl (HE_Context CE_DurableTransitionInvalid), ?h2)"
    by (rule ending_rejected [OF h1]) (use assms(3) q in simp_all)
  have "terminalize_harness_error env x s =
      (Inr (LErr_Finalization (HE_Context CE_DurableTransitionInvalid)), s\<lparr>en_harness := ?h2\<rparr>)"
    by (simp add: terminalize_harness_error_def and_then_apply loop_status_def used_iterations_def attempt_def running
        progress_rejected [OF assms(1,2) q(1)] fail finalization_error_def is_finished_def Let_def del: add.assoc)
  then show ?thesis by (rule that) simp_all
qed

end
