(* ===== verification/Demo_Loop.thy ===== *)
theory Demo_Loop
  imports Loop_Run Demo_Harness Demo_Run
begin

text \<open>A loop program that is done after one iteration, and a started run for it.\<close>

definition demo_program :: "nat loop_program" where
  "demo_program =
     \<lparr>lp_observe = (\<lambda>_ w. Eff_Return (Inr (), w)), lp_retrieve = (\<lambda>_ w. Eff_Return (Inr (), w)),
      lp_plan = (\<lambda>_ w. Eff_InvokeModel [] (\<lambda>r. Eff_Return (case r of Inl e \<Rightarrow> (Inl (Step_Harness e), w) | Inr _ \<Rightarrow> (Inr (), Suc w)))),
      lp_act = (\<lambda>_ w. Eff_Return (Inr (), w)), lp_verify = (\<lambda>_ w. Eff_Return (Inr Verify_Passed, w)),
      lp_reflect = (\<lambda>_ w _. Eff_Return (Inr Reflect_Complete, w)),
      lp_recovery_version = 1, lp_restart_interrupted_retrieval = False, lp_restore_working_state = (\<lambda>_. Inr 0)\<rparr>"

definition demo_started :: harness_state where
  "demo_started = session (plain_env True) demo_context initialize [Call_Start]"

lemma demo_started_facts:
  "rc_status (hs_ctx demo_started) = Status_Running" "rc_runtime (hs_ctx demo_started) \<noteq> None"
  "undisturbed (plain_env True) demo_started" "ds_current_iteration (rc_durable_state (hs_ctx demo_started)) = None"
  "rc_next_event_sequence (hs_ctx demo_started) = expected_sequence (rc_durable_state (hs_ctx demo_started))"
  "rc_next_event_sequence (hs_ctx demo_started) = 1"
  by (simp_all add: demo_started_def plain_env_def session_eval store_eval loose_codec_def undisturbed_def)

end
