(* ===== verification/Durable_Suspend.thy ===== *)
theory Durable_Suspend
  imports Harness_Growth Durable_Approval
begin

text \<open>
  The suspension of a run at a local write that waits for a durable approval: \<^verbatim>\<open>suspend_durable_local_write\<close> of
  \<^verbatim>\<open>agent-harness/src/execution.rs\<close>. The action is bound to the run, the graph node and the tool contract, sealed, and
  stored in one transaction with the event that suspends the graph.
\<close>

section \<open>Data\<close>

text \<open>
  The parts of the harness that only durable approvals use: the seal port (asked by tick) and the identity of the workspace.
  \<open>se_others\<close> is what other connections write between the two accesses of the store to the database.
\<close>

record action_seal_port =
  sp_seal_local_write :: "nat \<Rightarrow> action_seal_binding \<Rightarrow> local_write_capsule \<Rightarrow> action_seal_error + sealed_local_write"
  sp_open_local_write :: "nat \<Rightarrow> action_seal_binding \<Rightarrow> sealed_local_write \<Rightarrow> action_seal_error + local_write_capsule"

record seal_env =
  se_action_seal :: "action_seal_port option"
  se_workspace_binding_id :: "workspace_binding_id option"
  se_others :: "nat \<Rightarrow> sqlite_store \<Rightarrow> sqlite_store"

record durable_action_context =
  dx_program_version :: u32
  dx_graph_digest :: digest
  dx_node_id :: graph_node_id
  dx_attempt_id :: graph_node_attempt_id

record durable_approval_wait =
  dw_wait_id :: durable_approval_wait_id
  dw_approval_request_id :: approval_request_id
  dw_action_proposal_id :: action_proposal_id
  dw_tool_call_id :: tool_call_id
  dw_action_digest :: digest

definition DurableApprovalWait_new :: "action_seal_binding \<Rightarrow> durable_approval_wait" where
  "DurableApprovalWait_new b =
     \<lparr>dw_wait_id = sb_wait_id b, dw_approval_request_id = sb_approval_request_id b,
      dw_action_proposal_id = sb_action_proposal_id b, dw_tool_call_id = sb_tool_call_id b,
      dw_action_digest = sb_action_digest b\<rparr>"

definition DURABLE_LOCAL_WRITE_TOOL_NAME :: rust_string where
  "DURABLE_LOCAL_WRITE_TOOL_NAME = lit ''workspace_write_file''"

section \<open>Helpers\<close>

fun as_str :: "json option \<Rightarrow> rust_string option" where
  "as_str (Some (JString x)) = Some x"
| "as_str _ = None"

definition local_write_capsule_of :: "json \<Rightarrow> harness_error + local_write_capsule" where
  "local_write_capsule_of v =
     (case v of
        JObject kvs \<Rightarrow>
          if length kvs \<noteq> 2 then Inl HE_DurableApprovalMismatch
          else (case as_str (map_of kvs (lit ''relative_path'')) of
                  None \<Rightarrow> Inl HE_DurableApprovalMismatch
                | Some path \<Rightarrow>
                    (case as_str (map_of kvs (lit ''content'')) of
                       None \<Rightarrow> Inl HE_DurableApprovalMismatch
                     | Some content \<Rightarrow> map_sum HE_ActionSeal id (LocalWriteActionCapsuleV1_new path content)))
      | _ \<Rightarrow> Inl HE_DurableApprovalMismatch)"

definition fail_or :: "harness_error + 'a \<Rightarrow> 'a hm" where
  "fail_or r = (case r of Inl e \<Rightarrow> err e | Inr x \<Rightarrow> ok x)"

definition some_or :: "harness_error \<Rightarrow> 'a option \<Rightarrow> 'a hm" where
  "some_or e v = (case v of None \<Rightarrow> err e | Some x \<Rightarrow> ok x)"

definition trusted_unix_millis :: "harness_env \<Rightarrow> u64 hm" where
  "trusted_unix_millis env =
     and_then (ask (he_wall env)) (\<lambda>w. some_or (HE_Recovery RE_ClockAmbiguous) (unix_millis w))"

text \<open>\<^verbatim>\<open>persistence.load_run(..)\<close> and \<^verbatim>\<open>persistence.create_durable_approval_wait(..)\<close>.\<close>

definition load_own_run :: "harness_env \<Rightarrow> loaded_run hm" where
  "load_own_run env s =
     (map_sum HE_Persistence id (load_run (he_store_codec env) (he_io env (hs_tick s)) (context_key (hs_ctx s)) (hs_store s)),
      s\<lparr>hs_tick := Suc (hs_tick s)\<rparr>)"

definition create_wait :: "seal_env \<Rightarrow> harness_env \<Rightarrow> create_durable_approval_wait_request \<Rightarrow> unit hm" where
  "create_wait se env q =
     and_then (ask (\<lambda>t. (he_io env t, se_others se t))) (\<lambda>(io_load, others).
     store_call (\<lambda>io. create_durable_approval_wait (he_store_codec env) io_load others io q) env)"

definition audit_already_persisted ::
  "harness_env \<Rightarrow> agent_event \<Rightarrow> harness_operation \<Rightarrow> audit_phase \<Rightarrow> operation_effect \<Rightarrow> bool \<Rightarrow> unit hm" where
  "audit_already_persisted env e op phase effect required =
     and_then (audit_with_run_bounds env e) (\<lambda>out.
     settle_audit env phase
       (\<lambda>k. if required then and_then (record_audit_degraded env) (\<lambda>_. err (HE_Audit phase op effect k))
            else apply_audit_failure env op phase effect k) out)"

definition runs_durable_node :: "run_context \<Rightarrow> durable_action_context \<Rightarrow> bool" where
  "runs_durable_node c dx \<longleftrightarrow>
     rc_recovery_contract c = GraphContract (dx_program_version dx) (dx_graph_digest dx)
     \<and> map_option gs_position (ds_graph (rc_durable_state c)) =
         Some (Pos_Running (dx_attempt_id dx) (dx_node_id dx) Node_Action Recover_Never)"

section \<open>Suspension\<close>

text \<open>From the checks to the preview and the capsule: the tool's contract digest and the capsule.\<close>

definition admit_durable_write :: "harness_env \<Rightarrow> validated_action \<Rightarrow> (digest \<times> local_write_capsule) hm" where
  "admit_durable_write env a =
     and_then (require (va_tool_name a = DURABLE_LOCAL_WRITE_TOOL_NAME \<and> va_capability a = LocalWrite
                  \<and> he_policy env (va_capability a) = Auth_RequiresApproval) HE_DurableApprovalMismatch) (\<lambda>_.
     and_then (some_or (HE_ToolNotFound (va_tool_name a)) (he_tools env (va_tool_name a))) (\<lambda>b.
       case tb_execution b of
         Exec_Contained p \<Rightarrow>
           and_then get_ctx (\<lambda>c.
           and_then (require (\<not> rc_audit_degraded c) HE_AuditDegraded) (\<lambda>_.
           and_then (ask (\<lambda>t. he_preview env t p (va_arguments a))) (\<lambda>preview.
           and_then (fail_or (map_sum HE_ContainmentPort id preview)) (\<lambda>_.
           and_then (fail_or (local_write_capsule_of (va_arguments a))) (\<lambda>capsule.
           ok (compute_tool_contract_digest (jl_sha256 (he_json env)) (tb_definition b), capsule))))))
       | _ \<Rightarrow> err (HE_ContainmentUnavailable (va_tool_name a))))"

text \<open>The announcement of the wait: two audited events, the reservation, and the requester from the stored record.\<close>

definition announce_wait ::
  "harness_env \<Rightarrow> validated_action \<Rightarrow> durable_action_context \<Rightarrow> workspace_binding_id \<Rightarrow> digest \<Rightarrow> action_seal_binding hm" where
  "announce_wait env a dx ws contract =
     and_then (ask (he_uuid env)) (\<lambda>tid.
     and_then (ask (he_uuid env)) (\<lambda>aid.
     and_then (ask (he_uuid env)) (\<lambda>wid.
     and_then (emit env (Ev_ActionExecutionBound (va_proposal_id a) tid)) (\<lambda>e.
     and_then (audit_required env e Op_InvokeValidatedAction Phase_BeforeInvocation Effect_NotInvoked) (\<lambda>_.
     and_then (reserve env reserve_approval_request) (\<lambda>_.
     and_then get_ctx (\<lambda>c.
     and_then (load_own_run env) (\<lambda>loaded.
       let b0 = ActionSealBinding_new (context_key c) (dx_program_version dx) (dx_graph_digest dx) (dx_node_id dx)
                  (dx_attempt_id dx) wid aid (va_proposal_id a) tid (va_digest a) ws contract;
           b = (case rr_authorization (lr_record loaded) of None \<Rightarrow> b0 | Some auth \<Rightarrow> with_requester (auth_requester auth) b0)
       in and_then (emit env (Ev_DurableApprovalPrepared wid aid (va_proposal_id a) tid (va_digest a) ws contract
                      (approval_requests (rc_usage c)) (max_approval_requests (rc_budget c)))) (\<lambda>e.
          and_then (audit_required env e Op_RequestApproval Phase_BeforeInvocation Effect_NotInvoked) (\<lambda>_.
          ok b))))))))))"

definition commit_wait ::
  "seal_env \<Rightarrow> harness_env \<Rightarrow> durable_action_context \<Rightarrow> action_seal_binding \<Rightarrow> sealed_local_write \<Rightarrow> unit hm" where
  "commit_wait se env dx b sealed =
     and_then (trusted_unix_millis env) (\<lambda>suspended_at.
     and_then get_ctx (\<lambda>c.
     and_then (fail_or (map_sum HE_Context id (ctx_started_at_unix_millis c))) (\<lambda>started.
     and_then (some_or (HE_Recovery RE_ClockAmbiguous) (checked_sub suspended_at started)) (\<lambda>active.
     and_then (emit env (Ev_Graph (GE_GraphSuspended (dx_attempt_id dx) (dx_node_id dx) (sb_wait_id b)
                 (sb_approval_request_id b) (sb_action_proposal_id b) (sb_tool_call_id b) (sb_action_digest b) active))) (\<lambda>e.
     and_then get_ctx (\<lambda>c.
     on_result (create_wait se env \<lparr>cw_transition = transition_for c e True, cw_record = DurableApprovalRecord_new b sealed\<rparr>)
       (\<lambda>r. case r of
              Inl x \<Rightarrow> and_then (upd_ctx mark_persistence_failed) (\<lambda>_. err x)
            | Inr _ \<Rightarrow> and_then (log_entry (Tr_Persisted e)) (\<lambda>_.
                audit_already_persisted env e Op_RequestApproval Phase_Lifecycle Effect_StateCommitted False))))))))"

definition suspend_durable_local_write ::
  "seal_env \<Rightarrow> harness_env \<Rightarrow> validated_action \<Rightarrow> durable_action_context \<Rightarrow> durable_approval_wait hm" where
  "suspend_durable_local_write se env a dx =
     and_then (preflight env Op_RequestApproval) (\<lambda>_.
     and_then (require (he_persistence env) (HE_Persistence PE_Unavailable)) (\<lambda>_.
     and_then (some_or (HE_ActionSeal Seal_KeyUnavailable) (se_action_seal se)) (\<lambda>seal.
     and_then (some_or HE_DurableApprovalMismatch (se_workspace_binding_id se)) (\<lambda>ws.
     and_then get_ctx (\<lambda>c.
     and_then (require (runs_durable_node c dx) HE_DurableApprovalMismatch) (\<lambda>_.
     and_then (admit_durable_write env a) (\<lambda>(contract, capsule).
     and_then (announce_wait env a dx ws contract) (\<lambda>b.
     and_then (ask (\<lambda>t. sp_seal_local_write seal t b capsule)) (\<lambda>sealed.
     and_then (fail_or (map_sum HE_ActionSeal id sealed)) (\<lambda>sealed.
     and_then (commit_wait se env dx b sealed) (\<lambda>_. ok (DurableApprovalWait_new b))))))))))))"

section \<open>Growth\<close>

lemma grows_fail_or: "within grows (fail_or r)" "within grows (some_or e v)"
  unfolding fail_or_def some_or_def by (intro grows_core)+

lemma grows_trusted: "within grows (trusted_unix_millis env)" "within grows (load_own_run env)"
  "within grows (audit_already_persisted env e op ph ef b)"
  unfolding trusted_unix_millis_def audit_already_persisted_def
  by (intro grows_rules grows_fail_or grows_settle | simp add: within_def load_own_run_def grows_same_ctx)+

lemma grows_create: "within grows (create_wait se env q)"
  unfolding create_wait_def by (intro grows_rules; split prod.split; intro allI impI grows_rules)

lemma grows_admit: "within grows (admit_durable_write env a)"
  unfolding admit_durable_write_def
  by (intro grows_rules grows_fail_or; split execution_binding.split; intro conjI allI impI grows_rules grows_fail_or)

lemma grows_suspend: "within grows (suspend_durable_local_write se env a dx)"
proof -
  have announce: "within grows (announce_wait env a dx ws c)" for ws c
    unfolding announce_wait_def Let_def by (intro grows_rules grows_fail_or grows_trusted)
  have commit: "within grows (commit_wait se env dx b x)" for b x
    unfolding commit_wait_def by (intro grows_rules grows_fail_or grows_trusted grows_create)
  show ?thesis
    unfolding suspend_durable_local_write_def
    by (intro grows_rules grows_fail_or grows_admit; split prod.split; intro allI impI grows_rules grows_fail_or announce commit)
qed

end
