(* ===== verification/Durable_Resume.thy ===== *)
theory Durable_Resume
  imports Durable_Suspend
begin

text \<open>
  Durable approvals after the suspension (\<^verbatim>\<open>agent-harness/src/execution.rs\<close>): the view for the approver, the recording of a
  decision, the abortion of a wait and the resumption of the run, which restores the sealed action, marks it as executing
  before it runs and as consumed afterwards. Each operation recovers the run first; the context of the recovered run takes
  the place of the context in the state of the harness.
\<close>

section \<open>Helpers\<close>

definition waiting_position ::
  "durable_run_state \<Rightarrow> durable_approval_wait_id \<Rightarrow>
   harness_error + graph_node_attempt_id \<times> approval_request_id \<times> action_proposal_id \<times> tool_call_id \<times> digest" where
  "waiting_position s w =
     (case map_option gs_position (ds_graph s) of
        Some (Pos_Waiting att node wait aid pid tid dig active) \<Rightarrow>
          if wait = w then Inr (att, aid, pid, tid, dig) else Inl HE_DurableApprovalMismatch
      | _ \<Rightarrow> Inl HE_DurableApprovalMismatch)"

definition waiting_node :: "durable_run_state \<Rightarrow> graph_node_id option" where
  "waiting_node s =
     (case map_option gs_position (ds_graph s) of
        Some (Pos_Waiting att node wait aid pid tid dig active) \<Rightarrow> Some node
      | _ \<Rightarrow> None)"

text \<open>\<^verbatim>\<open>recover_run\<close> as a step, and its use here: only a waiting run goes on.\<close>

definition recover_waiting :: "harness_env \<Rightarrow> run_key \<Rightarrow> (run_context \<times> durable_run_state) hm" where
  "recover_waiting env k s =
     (let t = hs_tick s; s1 = s\<lparr>hs_tick := Suc t\<rparr> in
      (case recover_run env (he_io env t) (he_wall env t) (he_now env t) k (hs_store s) of
         Inl e \<Rightarrow> (Inl e, s1)
       | Inr (Disp_Waiting ctx state contract) \<Rightarrow> (Inr (ctx, state), s1)
       | Inr _ \<Rightarrow> (Inl HE_DurableApprovalMismatch, s1)))"

definition load_wait :: "harness_env \<Rightarrow> run_key \<Rightarrow> durable_approval_wait_id \<Rightarrow> durable_approval_record hm" where
  "load_wait env k w s =
     (map_sum HE_Persistence id (load_durable_approval_wait (he_store_codec env) (he_io env (hs_tick s)) k w (hs_store s)),
      s\<lparr>hs_tick := Suc (hs_tick s)\<rparr>)"

text \<open>A change of the status of the wait, in one transaction with an event if there is one.\<close>

definition change_status ::
  "harness_env \<Rightarrow> (agent_event \<times> bool) option \<Rightarrow> run_key \<Rightarrow> durable_approval_wait_id \<Rightarrow> u64 \<Rightarrow>
   durable_approval_status \<Rightarrow> durable_approval_status \<Rightarrow> unit hm" where
  "change_status env ev k w version from to =
     and_then get_ctx (\<lambda>c.
     and_then (store_call (\<lambda>io. transition_durable_approval_status (he_store_codec env) io
         \<lparr>sr_transition = map_option (\<lambda>(e, cp). transition_for c e cp) ev, sr_key = k, sr_wait_id = w,
          sr_expected_row_version = version, sr_expected_status = from, sr_next_status = to\<rparr>) env) (\<lambda>_.
     case ev of None \<Rightarrow> ok () | Some (e, cp) \<Rightarrow> log_entry (Tr_Persisted e)))"

definition change_status_or_fail ::
  "harness_env \<Rightarrow> (agent_event \<times> bool) option \<Rightarrow> run_key \<Rightarrow> durable_approval_wait_id \<Rightarrow> u64 \<Rightarrow>
   durable_approval_status \<Rightarrow> durable_approval_status \<Rightarrow> unit hm" where
  "change_status_or_fail env ev k w version from to =
     on_result (change_status env ev k w version from to) (\<lambda>r.
       case r of
         Inl x \<Rightarrow> and_then (upd_ctx mark_persistence_failed) (\<lambda>_. err x)
       | Inr _ \<Rightarrow> ok ())"

section \<open>Restoring the action\<close>

definition binding_in_state :: "action_seal_binding \<Rightarrow> durable_run_state \<Rightarrow> bool" where
  "binding_in_state b s \<longleftrightarrow>
     (case map_option gs_position (ds_graph s) of
        Some (Pos_Waiting att node wait aid pid tid dig active) \<Rightarrow>
          att = sb_attempt_id b \<and> node = sb_node_id b \<and> wait = sb_wait_id b \<and> aid = sb_approval_request_id b
          \<and> pid = sb_action_proposal_id b \<and> tid = sb_tool_call_id b \<and> dig = sb_action_digest b
      | _ \<Rightarrow> False)
     \<and> ds_recovery_contract s = GraphContract (sb_program_version b) (sb_graph_digest b)"

text \<open>\<^verbatim>\<open>json!({..})\<close>: an object with its keys in order.\<close>

definition capsule_arguments :: "local_write_capsule \<Rightarrow> json" where
  "capsule_arguments cap =
     JObject [(lit ''content'', JString (lw_content cap)), (lit ''relative_path'', JString (lw_relative_path cap))]"

definition restore_local_write ::
  "seal_env \<Rightarrow> harness_env \<Rightarrow> durable_approval_record \<Rightarrow> durable_run_state \<Rightarrow> (validated_action \<times> port \<times> approval_preview) hm" where
  "restore_local_write se env record state =
     and_then (some_or (HE_ActionSeal Seal_KeyUnavailable) (se_action_seal se)) (\<lambda>seal.
     and_then (some_or HE_DurableApprovalMismatch (se_workspace_binding_id se)) (\<lambda>ws.
       let b = da_binding record; name = DURABLE_LOCAL_WRITE_TOOL_NAME in
       and_then (require (sb_workspace_binding_id b = ws \<and> sb_capsule_version b = LOCAL_WRITE_CAPSULE_VERSION
                    \<and> binding_in_state b state) HE_DurableApprovalMismatch) (\<lambda>_.
       and_then (some_or (HE_ToolNotFound name) (he_tools env name)) (\<lambda>tool.
       and_then (require (td_capability (tb_definition tool) = LocalWrite
                    \<and> compute_tool_contract_digest (jl_sha256 (he_json env)) (tb_definition tool) = sb_tool_contract_digest b
                    \<and> he_policy env LocalWrite = Auth_RequiresApproval \<and> \<not> ds_audit_degraded state)
                    HE_DurableApprovalMismatch) (\<lambda>_.
         case tb_execution tool of
           Exec_Contained p \<Rightarrow>
             and_then (ask (\<lambda>t. sp_open_local_write seal t b (da_sealed_action record))) (\<lambda>opened.
             and_then (fail_or (map_sum HE_ActionSeal id opened)) (\<lambda>capsule.
               let arguments = capsule_arguments capsule;
                   digest = compute_action_digest (jl_sha256 (he_json env)) name LocalWrite arguments in
               and_then (require (validate_argument_limits (he_json env) arguments = Inr ()) HE_DurableApprovalMismatch) (\<lambda>_.
               and_then (require (jl_is_valid (he_json env) (td_input_schema (tb_definition tool)) arguments)
                           HE_DurableApprovalMismatch) (\<lambda>_.
               and_then (require (digest = sb_action_digest b) HE_DurableApprovalMismatch) (\<lambda>_.
               and_then (ask (\<lambda>t. he_preview env t p arguments)) (\<lambda>preview.
               and_then (fail_or (map_sum HE_ContainmentPort id preview)) (\<lambda>preview.
               ok (\<lparr>va_proposal_id = sb_action_proposal_id b, va_tool_name = name, va_arguments = arguments,
                    va_capability = LocalWrite, va_digest = digest\<rparr>, p, preview))))))))
         | _ \<Rightarrow> err (HE_ContainmentUnavailable name))))))"

section \<open>Viewing and deciding\<close>

record durable_approval_view =
  vw_wait_id :: durable_approval_wait_id
  vw_request_id :: approval_request_id
  vw_row_version :: u64
  vw_preview :: approval_preview

definition durable_approval_view_of ::
  "seal_env \<Rightarrow> harness_env \<Rightarrow> run_key \<Rightarrow> durable_approval_wait_id \<Rightarrow> durable_approval_view hm" where
  "durable_approval_view_of se env k w =
     and_then (recover_waiting env k) (\<lambda>(ctx, state).
     and_then (load_wait env k w) (\<lambda>record.
     and_then (restore_local_write se env record state) (\<lambda>(action, port, preview).
     ok \<lparr>vw_wait_id = w, vw_request_id = sb_approval_request_id (da_binding record),
         vw_row_version = da_row_version record, vw_preview = preview\<rparr>)))"

definition enter_context :: "run_context \<Rightarrow> unit hm" where
  "enter_context ctx = modify (\<lambda>s. s\<lparr>hs_ctx := ctx\<rparr>)"

definition decision_call :: "seal_env \<Rightarrow> harness_env \<Rightarrow> record_decision_request \<Rightarrow> unit hm" where
  "decision_call se env q =
     and_then (ask (\<lambda>t. (he_io env t, se_others se t))) (\<lambda>(io_load, others).
     store_call (\<lambda>io. Sqlite_Store.record_durable_approval_decision (he_store_codec env) io_load others io q) env)"

definition decide_durable_approval :: "seal_env \<Rightarrow> harness_env \<Rightarrow> durable_approval_decision_command \<Rightarrow> unit hm" where
  "decide_durable_approval se env c =
     and_then (recover_waiting env (dc_key c)) (\<lambda>(ctx, state).
     and_then (fail_or (waiting_position state (dc_wait_id c))) (\<lambda>(att, aid, pid, tid, dig).
     and_then (require (aid = dc_approval_request_id c \<and> pid = dc_action_proposal_id c \<and> tid = dc_tool_call_id c
                 \<and> dig = dc_action_digest c) HE_DurableApprovalMismatch) (\<lambda>_.
     and_then (some_or HE_DurableApprovalMismatch (checked_inc (dc_expected_row_version c))) (\<lambda>next_version.
     and_then (enter_context ctx) (\<lambda>_.
     and_then (emit env (Ev_DurableApprovalDecisionRecorded (dc_wait_id c) (dc_approval_request_id c) (dc_outcome c)
                 next_version (dc_actor c))) (\<lambda>e.
     and_then get_ctx (\<lambda>ctx.
     on_result (decision_call se env \<lparr>rd_transition = transition_for ctx e True, rd_command = c\<rparr>) (\<lambda>r.
       case r of
         Inl x \<Rightarrow> and_then (upd_ctx mark_persistence_failed) (\<lambda>_. err x)
       | Inr _ \<Rightarrow> and_then (log_entry (Tr_Persisted e)) (\<lambda>_.
           audit_already_persisted env e Op_RequestApproval Phase_AfterInvocation Effect_NotInvoked False)))))))))"

text \<open>\<^verbatim>\<open>record_durable_approval_outcome\<close> and \<^verbatim>\<open>record_durable_approval_outcome_as\<close> differ in the actor and the time.\<close>

definition decide_outcome ::
  "seal_env \<Rightarrow> harness_env \<Rightarrow> run_key \<Rightarrow> durable_approval_wait_id \<Rightarrow> u64 \<Rightarrow> durable_approval_outcome \<Rightarrow>
   principal_id option \<Rightarrow> u64 option \<Rightarrow> unit hm" where
  "decide_outcome se env k w version outcome actor decided_at =
     and_then (recover_waiting env k) (\<lambda>(ctx, state).
     and_then (fail_or (waiting_position state w)) (\<lambda>(att, aid, pid, tid, dig).
     decide_durable_approval se env
       \<lparr>dc_key = k, dc_wait_id = w, dc_approval_request_id = aid, dc_action_proposal_id = pid, dc_tool_call_id = tid,
        dc_action_digest = dig, dc_expected_row_version = version, dc_outcome = outcome, dc_actor = actor,
        dc_decided_at = decided_at\<rparr>))"

definition abort_durable_waiting :: "harness_env \<Rightarrow> run_key \<Rightarrow> durable_approval_wait_id \<Rightarrow> u64 \<Rightarrow> unit hm" where
  "abort_durable_waiting env k w version =
     and_then (recover_waiting env k) (\<lambda>(ctx, state).
     and_then (fail_or (waiting_position state w)) (\<lambda>_.
     and_then (load_wait env k w) (\<lambda>record.
     and_then (require (da_status record = DA_Waiting \<and> da_row_version record = version) HE_DurableApprovalMismatch) (\<lambda>_.
     and_then (enter_context ctx) (\<lambda>_.
     and_then (on_ctx HE_Context (commit_finished Outcome_Cancelled)) (\<lambda>_.
     and_then (emit env (Ev_RunFinished Outcome_Cancelled)) (\<lambda>e.
     and_then (change_status env (Some (e, True)) k w version DA_Waiting DA_Consumed) (\<lambda>_.
     audit_already_persisted env e Op_CancelRun Phase_Lifecycle Effect_StateCommitted False))))))))"

section \<open>Resuming\<close>

datatype (plugins only: code size) durable_local_write_resume =
  Resume_Executed graph_node_attempt_id graph_node_id tool_result
| Resume_Denied graph_node_attempt_id graph_node_id

text \<open>The event that resumes the graph, persisted together with a change of the status of the wait.\<close>

definition resume_graph ::
  "harness_env \<Rightarrow> graph_node_attempt_id \<Rightarrow> graph_node_id \<Rightarrow> durable_approval_wait_id \<Rightarrow> durable_approval_record \<Rightarrow>
   durable_approval_status \<Rightarrow> durable_approval_status \<Rightarrow> unit hm" where
  "resume_graph env att node w record from to =
     and_then (trusted_unix_millis env) (\<lambda>now.
     and_then (emit env (Ev_Graph (GE_GraphResumed att node w now))) (\<lambda>e.
     and_then (change_status_or_fail env (Some (e, False)) (sb_key (da_binding record)) w (da_row_version record) from to) (\<lambda>_.
     audit_already_persisted env e Op_RequestApproval Phase_Lifecycle Effect_StateCommitted False)))"

definition resume_denied ::
  "harness_env \<Rightarrow> durable_approval_wait_id \<Rightarrow> graph_node_attempt_id \<Rightarrow> graph_node_id \<Rightarrow> approval_request_id \<Rightarrow>
   durable_approval_record \<Rightarrow> durable_local_write_resume hm" where
  "resume_denied env w att node aid record =
     and_then (emit env (Ev_DurableApprovalDenied w aid)) (\<lambda>e.
     and_then (audit_required env e Op_RequestApproval Phase_AfterInvocation Effect_NotInvoked) (\<lambda>_.
     and_then (load_wait env (sb_key (da_binding record)) w) (\<lambda>record.
     and_then (resume_graph env att node w record DA_DecisionRecordedDeny DA_Consumed) (\<lambda>_.
     ok (Resume_Denied att node)))))"

text \<open>A recorded approval becomes ready: the grant is audited first.\<close>

definition make_ready ::
  "harness_env \<Rightarrow> durable_approval_wait_id \<Rightarrow> approval_request_id \<Rightarrow> durable_approval_record \<Rightarrow> durable_approval_record hm" where
  "make_ready env w aid record =
     (if da_status record = DA_DecisionRecordedApprove
      then
        and_then (emit env (Ev_DurableApprovalGranted w aid)) (\<lambda>e.
        and_then (audit_required env e Op_RequestApproval Phase_AfterInvocation Effect_NotInvoked) (\<lambda>_.
        and_then (change_status_or_fail env None (sb_key (da_binding record)) w (da_row_version record)
                    DA_DecisionRecordedApprove DA_ApprovedReady) (\<lambda>_.
        load_wait env (sb_key (da_binding record)) w)))
      else ok record)"

text \<open>The wait is marked as executing in the transaction that persists the start of the tool call.\<close>

definition begin_execution ::
  "harness_env \<Rightarrow> durable_approval_wait_id \<Rightarrow> durable_approval_record \<Rightarrow> validated_action \<Rightarrow> unit hm" where
  "begin_execution env w record action =
     and_then (preflight env Op_InvokeTool) (\<lambda>_.
     and_then (reserve env reserve_tool_call) (\<lambda>_.
     and_then get_ctx (\<lambda>c.
     and_then (emit env (Ev_ToolInvocationStarted (sb_tool_call_id (da_binding record)) (va_tool_name action)
                 (va_capability action) (tool_calls (rc_usage c)) (max_tool_calls (rc_budget c)))) (\<lambda>e.
     and_then (change_status_or_fail env (Some (e, False)) (sb_key (da_binding record)) w (da_row_version record)
                 DA_ApprovedReady DA_Executing) (\<lambda>_.
     audit_already_persisted env e Op_InvokeTool Phase_BeforeInvocation Effect_NotInvoked True)))))"

definition finish_execution ::
  "harness_env \<Rightarrow> durable_approval_wait_id \<Rightarrow> durable_approval_record \<Rightarrow> validated_action \<Rightarrow> port \<Rightarrow> tool_result hm" where
  "finish_execution env w record action p =
     (let tid = sb_tool_call_id (da_binding record) in
      on_result (invoke_contained_tool_port env p (into_tool_call action tid)) (\<lambda>result.
      and_then (finish_tool_invocation env tid Op_InvokeTool Audit_RequiredMode result) (\<lambda>result.
      and_then (load_wait env (sb_key (da_binding record)) w) (\<lambda>record.
      and_then (change_status_or_fail env None (sb_key (da_binding record)) w (da_row_version record)
                  DA_Executing DA_Consumed) (\<lambda>_. ok result)))))"

definition resume_approved ::
  "seal_env \<Rightarrow> harness_env \<Rightarrow> durable_run_state \<Rightarrow> durable_approval_wait_id \<Rightarrow> graph_node_attempt_id \<Rightarrow> graph_node_id \<Rightarrow>
   approval_request_id \<Rightarrow> durable_approval_record \<Rightarrow> durable_local_write_resume hm" where
  "resume_approved se env state w att node aid record =
     and_then (restore_local_write se env record state) (\<lambda>(action, p, preview).
     and_then (make_ready env w aid record) (\<lambda>record.
     and_then (resume_graph env att node w record DA_ApprovedReady DA_ApprovedReady) (\<lambda>_.
     and_then (load_wait env (sb_key (da_binding record)) w) (\<lambda>record.
     and_then (begin_execution env w record action) (\<lambda>_.
     and_then (finish_execution env w record action p) (\<lambda>result.
     ok (Resume_Executed att node result)))))))"

definition resume_durable_local_write ::
  "seal_env \<Rightarrow> harness_env \<Rightarrow> run_context \<Rightarrow> durable_run_state \<Rightarrow> durable_approval_wait_id \<Rightarrow> durable_local_write_resume hm" where
  "resume_durable_local_write se env ctx state w =
     and_then (enter_context ctx) (\<lambda>_.
     and_then (fail_or (waiting_position state w)) (\<lambda>(att, aid, pid, tid, dig).
     and_then (some_or HE_DurableApprovalMismatch (waiting_node state)) (\<lambda>node.
     and_then (require (he_persistence env) (HE_Persistence PE_Unavailable)) (\<lambda>_.
     and_then (load_wait env (context_key ctx) w) (\<lambda>record.
       if da_status record = DA_DecisionRecordedDeny then resume_denied env w att node aid record
       else if da_status record \<noteq> DA_DecisionRecordedApprove \<and> da_status record \<noteq> DA_ApprovedReady
       then err HE_DurableApprovalMismatch
       else resume_approved se env state w att node aid record)))))"

end
