(* ===== verification/Durable_Laws.thy ===== *)
theory Durable_Laws
  imports Durable_Resume Store_Laws
begin

text \<open>
  What durable approvals guarantee: the tool call that a resumption makes is the sealed action that was approved, it is
  made only while the wait is approved and not yet executing, and the wait is spent before the call, so that no later
  resumption makes it again.
\<close>

section \<open>Tool calls and approval rows\<close>

definition tools_called :: "trace_entry list \<Rightarrow> tool_call list" where
  "tools_called tr = List.map_filter (\<lambda>x. case x of Tr_ToolInvoked c \<Rightarrow> Some c | _ \<Rightarrow> None) tr"

lemma tools_called_snoc [simp]:
  "tools_called (tr @ [x]) = tools_called tr @ (case x of Tr_ToolInvoked c \<Rightarrow> [c] | _ \<Rightarrow> [])"
  by (cases x) (simp_all add: tools_called_def map_filter_def)

text \<open>The status of a wait in the database.\<close>

definition wait_status :: "run_key \<Rightarrow> durable_approval_wait_id \<Rightarrow> sqlite_store \<Rightarrow> int option" where
  "wait_status k w st = map_option apr_status (find_approval (key_run_id k) w st)"

definition wait_record :: "run_key \<Rightarrow> durable_approval_wait_id \<Rightarrow> sqlite_store \<Rightarrow> byte list option" where
  "wait_record k w st = map_option apr_record (find_approval (key_run_id k) w st)"

definition spent :: "run_key \<Rightarrow> durable_approval_wait_id \<Rightarrow> sqlite_store \<Rightarrow> bool" where
  "spent k w st \<longleftrightarrow> wait_status k w st \<in> {Some (status_code DA_Executing), Some (status_code DA_Consumed)}"

text \<open>Steps that call no tool, and steps that moreover leave the approvals alone.\<close>

definition silent :: "harness_state \<Rightarrow> harness_state \<Rightarrow> bool" where
  "silent s t \<longleftrightarrow> tools_called (hs_trace t) = tools_called (hs_trace s)"

definition aloof :: "harness_state \<Rightarrow> harness_state \<Rightarrow> bool" where
  "aloof s t \<longleftrightarrow> silent s t \<and> st_approvals (hs_store t) = st_approvals (hs_store s)"

lemma append_rows: "st_approvals (snd (append_transition sc io t st)) = st_approvals st"
proof (cases "append_transition sc io t st")
  case (Pair r st')
  then show ?thesis
    using append_frame(1) [of sc t st st']
    by (auto simp: append_transition_def and_then_apply lift_res_def transaction_def split: option.splits prod.splits sum.splits)
qed

interpretation silent: step_frame silent
proof
  show "silent s (s\<lparr>hs_trace := hs_trace s @ [x]\<rparr>)" if "bookkeeping x" for s x
    using that by (cases x) (simp_all add: silent_def)
qed (simp_all add: silent_def)

interpretation aloof: step_frame aloof
proof
  show "aloof s (s\<lparr>hs_trace := hs_trace s @ [x]\<rparr>)" if "bookkeeping x" for s x
    using silent.entry [OF that] by (simp add: aloof_def)
qed (simp_all add: aloof_def silent_def append_rows)

section \<open>Changes of the status\<close>

lemma status_change_ok:
  assumes "transition_durable_approval_status sc io q st = (Inr (), st')" "approvals_ok (st_approvals st)"
  shows "approvals_ok (st_approvals st')" "wait_status (sr_key q) (sr_wait_id q) st' = Some (status_code (sr_next_status q))"
    "wait_status (sr_key q) (sr_wait_id q) st = Some (status_code (sr_expected_status q))"
    "wait_record k w st' = wait_record k w st"
proof -
  let ?m = "row_matches (sr_key q) (sr_wait_id q) (sr_expected_status q) (sr_expected_row_version q)"
    and ?f = "\<lambda>x. x\<lparr>apr_status := status_code (sr_next_status q), apr_row_version := apr_row_version x + 1\<rparr>"
    and ?key = "\<lambda>x. (apr_run_id x, apr_wait_id x)"
  have f: "keeps_identity ?f" by (simp add: keeps_identity_def status_code_range)
  obtain s where s: "st_approvals s = st_approvals st" and u: "update_approvals ?m ?f s = (Inr (), st')"
    using assms(1)
    by (cases "sr_transition q")
       (auto simp: transition_durable_approval_status_def transaction_Inr and_then_Inr dest: append_frame(1) split: if_splits)
  from u have one: "length (filter ?m (st_approvals s)) = 1"
    and st': "st' = s\<lparr>st_approvals := map (\<lambda>x. if ?m x then ?f x else x) (st_approvals s)\<rparr>"
    by (auto simp: update_approvals_def split: if_splits)
  then obtain x where x: "x \<in> set (st_approvals s)" "?m x"
    by (metis (no_types, lifting) filter_False length_0_conv zero_neq_one)
  have "find (\<lambda>y. ?key y = ?key x) (st_approvals s) = Some x"
    using assms(2) x(1) s by (intro find_distinct_key) (simp_all add: approvals_ok_def)
  then have found: "find_approval (key_run_id (sr_key q)) (sr_wait_id q) s = Some x"
    using x(2) by (simp add: find_approval_def row_matches_def)
  then show "wait_status (sr_key q) (sr_wait_id q) st = Some (status_code (sr_expected_status q))"
    using x(2) s by (simp add: wait_status_def find_approval_def row_matches_def)
  from found x(2) show "wait_status (sr_key q) (sr_wait_id q) st' = Some (status_code (sr_next_status q))"
    unfolding st' wait_status_def by (simp add: find_approval_update [OF f])
  have "apr_record (if ?m x then ?f x else x) = apr_record x" for x by simp
  then show "wait_record k w st' = wait_record k w st"
    using s unfolding st' wait_record_def find_approval_update [OF f]
    by (simp add: option.map_comp comp_def find_approval_def)
  have "(\<lambda>x. ?key (if ?m x then ?f x else x)) = ?key"
    "(\<lambda>x. (apr_key_id (if ?m x then ?f x else x), apr_nonce (if ?m x then ?f x else x))) = (\<lambda>x. (apr_key_id x, apr_nonce x))"
    by auto
  then show "approvals_ok (st_approvals st')"
    using assms(2) s unfolding st' approvals_ok_def
    by (auto simp: comp_def list_all_iff status_code_range cong: map_cong)
qed

lemma status_change_err: "transition_durable_approval_status sc io q st = (Inl e, st') \<Longrightarrow> st' = st"
  unfolding transition_durable_approval_status_def by (rule transaction_Inl)

text \<open>The binding that a stored record holds.\<close>

definition bound :: "store_codec \<Rightarrow> byte list option \<Rightarrow> action_seal_binding \<Rightarrow> bool" where
  "bound sc X b \<longleftrightarrow> (\<exists>bytes r. X = Some bytes \<and> approval_from sc bytes = Some r \<and> da_binding r = b)"

lemma bound_unique: "bound sc X b \<Longrightarrow> bound sc X b' \<Longrightarrow> b = b'"
  by (auto simp: bound_def)

text \<open>A loaded record belongs to the wait and has the status of its row.\<close>

lemma load_wait_facts:
  assumes "load_durable_approval_wait sc io k w st = Inr r"
  shows "sb_key (da_binding r) = k" "wait_status k w st = Some (status_code (da_status r))"
    "bound sc (wait_record k w st) (da_binding r)"
proof -
  obtain row status where row: "find_approval (key_run_id k) w st = Some row" "decode_status (apr_status row) = Inr status"
    and r: "da_status r = status" "sb_key (da_binding r) = k"
      "\<exists>r0. approval_from sc (apr_record row) = Some r0 \<and> da_binding r0 = da_binding r"
    using assms
    by (auto simp: load_durable_approval_wait_def res_then_def ok_or_def check_def restore_store_state_def
        split: option.splits sum.splits if_splits)
  from row(2) have "apr_status row = status_code status" by (auto simp: decode_status_def split: if_splits)
  with row(1) r show "sb_key (da_binding r) = k" "wait_status k w st = Some (status_code (da_status r))"
    "bound sc (wait_record k w st) (da_binding r)"
    by (simp_all add: wait_status_def wait_record_def bound_def)
qed

section \<open>States of a resumption\<close>

abbreviation rows_ok :: "harness_state \<Rightarrow> bool" where
  "rows_ok s \<equiv> approvals_ok (st_approvals (hs_store s))"

text \<open>Before the call: no tool was called yet. From the start of the call on: the wait is spent.\<close>

definition calm :: "run_key \<Rightarrow> durable_approval_wait_id \<Rightarrow> byte list option \<Rightarrow> tool_call list \<Rightarrow> harness_state \<Rightarrow> bool" where
  "calm k w X T s \<longleftrightarrow> rows_ok s \<and> wait_record k w (hs_store s) = X \<and> tools_called (hs_trace s) = T"

definition busy :: "run_key \<Rightarrow> durable_approval_wait_id \<Rightarrow> tool_call list set \<Rightarrow> harness_state \<Rightarrow> bool" where
  "busy k w Ts s \<longleftrightarrow> rows_ok s \<and> spent k w (hs_store s) \<and> tools_called (hs_trace s) \<in> Ts"

lemma aloof_carries: "aloof s t \<Longrightarrow> calm k w X T s \<Longrightarrow> calm k w X T t" "aloof s t \<Longrightarrow> busy k w Ts s \<Longrightarrow> busy k w Ts t"
  by (auto simp: aloof_def silent_def calm_def busy_def spent_def wait_status_def wait_record_def find_approval_def)

lemma calm_within: "within aloof m \<Longrightarrow> triple (calm k w X T) m (\<lambda>_. calm k w X T) (\<lambda>_. calm k w X T)"
  by (rule aloof.triple_within [OF _ aloof_carries(1)])

lemma busy_within: "within aloof m \<Longrightarrow> triple (busy k w Ts) m (\<lambda>_. busy k w Ts) (\<lambda>_. busy k w Ts)"
  by (rule aloof.triple_within [OF _ aloof_carries(2)])

lemma change_status_effect:
  assumes "change_status env ev k w v from to s = (r, t)" "rows_ok s"
  shows "rows_ok t" "silent s t" "r = Inl e \<Longrightarrow> aloof s t" "r = Inr u \<Longrightarrow> wait_status k w (hs_store t) = Some (status_code to)"
    "wait_record k' w' (hs_store t) = wait_record k' w' (hs_store s)"
proof -
  let ?q = "\<lparr>sr_transition = map_option (\<lambda>(e, cp). transition_for (hs_ctx s) e cp) ev, sr_key = k, sr_wait_id = w,
      sr_expected_row_version = v, sr_expected_status = from, sr_next_status = to\<rparr>"
  obtain r1 st where q: "transition_durable_approval_status (he_store_codec env) (he_io env (hs_tick s)) ?q (hs_store s) = (r1, st)"
    by fastforce
  have "rows_ok t \<and> silent s t \<and> (\<forall>e. r = Inl e \<longrightarrow> aloof s t)
      \<and> (\<forall>u. r = Inr u \<longrightarrow> wait_status k w (hs_store t) = Some (status_code to))
      \<and> wait_record k' w' (hs_store t) = wait_record k' w' (hs_store s)"
  proof (cases r1)
    case (Inl e)
    with q status_change_err have "st = hs_store s" by blast
    with assms q Inl show ?thesis
      by (auto simp: change_status_def get_ctx_def and_then_apply store_call_def silent_def aloof_def)
  next
    case (Inr u)
    from status_change_ok [of "he_store_codec env" "he_io env (hs_tick s)" ?q "hs_store s" st] q Inr assms(2)
    have "approvals_ok (st_approvals st)" "wait_status k w st = Some (status_code to)"
      "wait_record k' w' st = wait_record k' w' (hs_store s)" by simp_all
    with assms(1) q Inr show ?thesis
      by (auto simp: change_status_def get_ctx_def and_then_apply store_call_def silent_def log_entry_def split: option.splits)
  qed
  then show "rows_ok t" "silent s t" "r = Inl e \<Longrightarrow> aloof s t"
    "r = Inr u \<Longrightarrow> wait_status k w (hs_store t) = Some (status_code to)"
    "wait_record k' w' (hs_store t) = wait_record k' w' (hs_store s)" by blast+
qed

lemma change_status_calm:
  "triple (calm k w X T) (change_status_or_fail env ev k w v from to)
     (\<lambda>_ s. calm k w X T s \<and> wait_status k w (hs_store s) = Some (status_code to)) (\<lambda>_. calm k w X T)"
proof -
  have change: "triple (calm k w X T) (change_status env ev k w v from to)
      (\<lambda>_ s. calm k w X T s \<and> wait_status k w (hs_store s) = Some (status_code to)) (\<lambda>_. calm k w X T)"
    unfolding triple_def
  proof (intro allI impI)
    fix s r t assume "calm k w X T s" "change_status env ev k w v from to s = (r, t)"
    with change_status_effect [of env ev k w v "from" to s r t]
    show "case r of Inl e \<Rightarrow> calm k w X T t | Inr x \<Rightarrow> calm k w X T t \<and> wait_status k w (hs_store t) = Some (status_code to)"
      by (cases r) (auto simp: calm_def silent_def)
  qed
  show ?thesis
    unfolding change_status_or_fail_def
    by (rule triple_on_result [OF change])
       (simp_all add: triple_ok triple_and_then [OF calm_within [OF aloof.steps_plain(4)] triple_err])
qed

lemma change_status_busy:
  assumes "to \<in> {DA_Executing, DA_Consumed}"
  shows "triple (busy k w Ts) (change_status_or_fail env ev k w v from to) (\<lambda>_. busy k w Ts) (\<lambda>_. busy k w Ts)"
proof -
  have change: "triple (busy k w Ts) (change_status env ev k w v from to) (\<lambda>_. busy k w Ts) (\<lambda>_. busy k w Ts)"
    unfolding triple_def
  proof (intro allI impI)
    fix s r t assume s: "busy k w Ts s" "change_status env ev k w v from to s = (r, t)"
    then have "rows_ok s" by (simp add: busy_def)
    note eff = change_status_effect [OF s(2) this]
    show "case r of Inl e \<Rightarrow> busy k w Ts t | Inr x \<Rightarrow> busy k w Ts t"
    proof (cases r)
      case (Inl e)
      with aloof_carries(2) [OF eff(3) s(1)] show ?thesis by simp
    next
      case (Inr u)
      with eff(1,2) eff(4) [OF Inr] s(1) assms show ?thesis by (auto simp: busy_def spent_def silent_def)
    qed
  qed
  show ?thesis
    unfolding change_status_or_fail_def
    by (rule triple_on_result [OF change])
       (simp_all add: triple_ok triple_and_then [OF busy_within [OF aloof.steps_plain(4)] triple_err])
qed

section \<open>Steps of a resumption\<close>

lemma aloof_plain:
  "within aloof (fail_or r)" "within aloof (some_or e v)" "within aloof (trusted_unix_millis env)"
  "within aloof (load_wait env k w)" "within aloof (audit_already_persisted env ev op ph ef b)" "within aloof (enter_context ctx)"
  unfolding fail_or_def some_or_def trusted_unix_millis_def audit_already_persisted_def
  by (intro aloof.steps_rules aloof.steps_settle
      | simp add: within_def load_wait_def enter_context_def aloof_def silent_def split: sum.split option.split)+

lemmas aloof_rules = aloof.steps_rules aloof_plain

lemma aloof_restore: "within aloof (restore_local_write se env record state)"
  unfolding restore_local_write_def Let_def
  by (intro aloof_rules; split execution_binding.split; intro conjI allI impI aloof_rules)

lemma load_wait_calm:
  "triple (calm k w X T) (load_wait env k w)
     (\<lambda>r s. sb_key (da_binding r) = k \<and> bound (he_store_codec env) X (da_binding r) \<and> wait_status k w (hs_store s) = Some (status_code (da_status r)) \<and> calm k w X T s) (\<lambda>_. calm k w X T)"
  unfolding triple_def
proof (intro allI impI)
  fix s r t assume s: "calm k w X T s" "load_wait env k w s = (r, t)"
  then have "calm k w X T t" using aloof_carries(1) within_step [OF aloof_plain(4)] by blast
  with s(2) load_wait_facts [of "he_store_codec env" "he_io env (hs_tick s)" k w "hs_store s"]
  show "case r of Inl e \<Rightarrow> calm k w X T t
      | Inr r \<Rightarrow> sb_key (da_binding r) = k \<and> bound (he_store_codec env) X (da_binding r) \<and> wait_status k w (hs_store t) = Some (status_code (da_status r)) \<and> calm k w X T t"
    by (cases "load_durable_approval_wait (he_store_codec env) (he_io env (hs_tick s)) k w (hs_store s)")
       (auto simp: load_wait_def calm_def)
qed

text \<open>A restored action is the write tool with arguments whose digest is the approved one, for a binding of this wait.\<close>

definition restored :: "harness_env \<Rightarrow> action_seal_binding \<Rightarrow> durable_run_state \<Rightarrow> validated_action \<Rightarrow> bool" where
  "restored env b state a \<longleftrightarrow>
     binding_in_state b state \<and> va_tool_name a = DURABLE_LOCAL_WRITE_TOOL_NAME \<and> va_capability a = LocalWrite
     \<and> compute_action_digest (jl_sha256 (he_json env)) (va_tool_name a) (va_capability a) (va_arguments a) = sb_action_digest b"

lemma restore_facts:
  assumes "restore_local_write se env record state s = (Inr (a, p, preview), t)"
  shows "restored env (da_binding record) state a"
  using assms
  by (auto simp: restore_local_write_def Let_def and_then_apply require_apply restored_def
      split: prod.splits sum.splits option.splits if_splits execution_binding.splits)

lemma restore_calm:
  "triple (calm k w X T) (restore_local_write se env record state)
     (\<lambda>x s. restored env (da_binding record) state (fst x) \<and> calm k w X T s) (\<lambda>_. calm k w X T)"
  unfolding triple_def
proof (intro allI impI)
  fix s r t assume s: "calm k w X T s" "restore_local_write se env record state s = (r, t)"
  then have "calm k w X T t" using aloof_carries(1) within_step [OF aloof_restore] by blast
  with s(2) show "case r of Inl e \<Rightarrow> calm k w X T t | Inr x \<Rightarrow> restored env (da_binding record) state (fst x) \<and> calm k w X T t"
    by (cases r) (auto dest: restore_facts)
qed

lemma calm_then: "triple (calm k w X T) m (\<lambda>_. calm k w X T) (\<lambda>_. calm k w X T) \<Longrightarrow>
   (\<And>x. triple (calm k w X T) (f x) Q (\<lambda>_. calm k w X T)) \<Longrightarrow> triple (calm k w X T) (and_then m f) Q (\<lambda>_. calm k w X T)"
  by (rule triple_and_then)

lemma resume_graph_calm:
  assumes "sb_key (da_binding record) = k"
  shows "triple (calm k w X T) (resume_graph env att node w record from to) (\<lambda>_. calm k w X T) (\<lambda>_. calm k w X T)"
  unfolding resume_graph_def assms
  by (rule calm_then, rule calm_within, intro aloof_rules, rule calm_then, rule calm_within, intro aloof_rules, rule calm_then,
      rule triple_conseq [OF change_status_calm], simp_all, rule calm_within, intro aloof_rules)

lemma make_ready_calm:
  assumes "sb_key (da_binding record) = k" "bound (he_store_codec env) X (da_binding record)"
  shows "triple (calm k w X T) (make_ready env w aid record)
     (\<lambda>r s. sb_key (da_binding r) = k \<and> bound (he_store_codec env) X (da_binding r) \<and> calm k w X T s) (\<lambda>_. calm k w X T)"
proof -
  have ready: "triple (calm k w X T) (and_then (emit env (Ev_DurableApprovalGranted w aid)) (\<lambda>e.
      and_then (audit_required env e Op_RequestApproval Phase_AfterInvocation Effect_NotInvoked) (\<lambda>_.
      and_then (change_status_or_fail env None k w (da_row_version record) DA_DecisionRecordedApprove DA_ApprovedReady) (\<lambda>_.
      load_wait env k w))))
     (\<lambda>r s. sb_key (da_binding r) = k \<and> bound (he_store_codec env) X (da_binding r) \<and> calm k w X T s) (\<lambda>_. calm k w X T)"
    by (rule calm_then, rule calm_within, intro aloof_rules, rule calm_then, rule calm_within, intro aloof_rules, rule calm_then,
        rule triple_conseq [OF change_status_calm], simp_all, rule triple_conseq [OF load_wait_calm], simp_all)
  show ?thesis
    unfolding make_ready_def assms(1) using assms by (intro triple_if ready triple_ok) simp
qed

lemma begin_execution_spends:
  assumes "sb_key (da_binding record) = k"
  shows "triple (calm k w X T) (begin_execution env w record action) (\<lambda>_. busy k w {T}) (\<lambda>_ s. calm k w X T s \<or> busy k w {T} s)"
proof -
  let ?E = "\<lambda>_ s. calm k w X T s \<or> busy k w {T} s"
  have calm: "triple (calm k w X T) m (\<lambda>_. calm k w X T) ?E" if "within aloof m" for m :: "'a hm"
    by (rule triple_conseq [OF calm_within [OF that, of k w X T]]) simp_all
  have spend: "triple (calm k w X T) (change_status_or_fail env ev k w v DA_ApprovedReady DA_Executing) (\<lambda>_. busy k w {T}) ?E"
    for ev v
    by (rule triple_conseq [OF change_status_calm [of k w X T]]) (auto simp: calm_def busy_def spent_def)
  have audit: "triple (busy k w {T}) (audit_already_persisted env e op ph ef b) (\<lambda>_. busy k w {T}) ?E" for e op ph ef b
    by (rule triple_conseq [OF busy_within [OF aloof_plain(5), of k w "{T}"]]) simp_all
  show ?thesis
    unfolding begin_execution_def assms
    by (rule triple_and_then [OF calm], intro aloof_rules, rule triple_and_then [OF calm], intro aloof_rules,
        rule triple_and_then [OF calm], intro aloof_rules, rule triple_and_then [OF calm], intro aloof_rules,
        rule triple_and_then [OF spend], rule audit)
qed

lemma finish_execution_spent:
  assumes "sb_key (da_binding record) = k"
  shows "triple (busy k w {T}) (finish_execution env w record action p)
     (\<lambda>_. busy k w {T, T @ [into_tool_call action (sb_tool_call_id (da_binding record))]})
     (\<lambda>_. busy k w {T, T @ [into_tool_call action (sb_tool_call_id (da_binding record))]})"
proof -
  let ?call = "into_tool_call action (sb_tool_call_id (da_binding record))"
  let ?B = "busy k w {T, T @ [?call]}"
  have start: "triple (busy k w {T}) runtime_of (\<lambda>_. busy k w {T}) (\<lambda>_. ?B)"
    by (rule triple_conseq [OF busy_within [OF aloof.steps_guards(2), of k w "{T}"]]) (auto simp: busy_def)
  have log: "triple (busy k w {T}) (log_entry (Tr_ToolInvoked ?call)) (\<lambda>_. ?B) (\<lambda>_. ?B)"
    by (simp add: triple_def log_entry_def busy_def)
  have calm: "triple ?B m (\<lambda>_. ?B) (\<lambda>_. ?B)" if "within aloof m" for m :: "'a hm"
    by (rule busy_within [OF that])
  have invoke: "triple (busy k w {T}) (invoke_contained_tool_port env p ?call) (\<lambda>_. ?B) (\<lambda>_. ?B)"
    unfolding invoke_contained_tool_port_def
    by (rule triple_and_then [OF start], rule triple_and_then [OF log], rule busy_within, intro aloof_rules)
  have load: "triple ?B (load_wait env k w) (\<lambda>r s. sb_key (da_binding r) = k \<and> ?B s) (\<lambda>_. ?B)"
    unfolding triple_def
  proof (intro allI impI)
    fix s r t assume s: "?B s" "load_wait env k w s = (r, t)"
    then have "?B t" using aloof_carries(2) within_step [OF aloof_plain(4)] by blast
    with s(2) load_wait_facts(1) [of "he_store_codec env" "he_io env (hs_tick s)" k w "hs_store s"]
    show "case r of Inl e \<Rightarrow> ?B t | Inr r \<Rightarrow> sb_key (da_binding r) = k \<and> ?B t"
      by (cases "load_durable_approval_wait (he_store_codec env) (he_io env (hs_tick s)) k w (hs_store s)")
         (auto simp: load_wait_def)
  qed
  have consume: "triple (\<lambda>s. sb_key (da_binding r) = k \<and> ?B s) (and_then (change_status_or_fail env None (sb_key (da_binding r)) w
      (da_row_version r) DA_Executing DA_Consumed) (\<lambda>_. ok x)) (\<lambda>_. ?B) (\<lambda>_. ?B)" for r x
    by (rule triple_lift) (simp add: triple_and_then [OF change_status_busy triple_ok])
  show ?thesis
    unfolding finish_execution_def Let_def assms
    by (rule triple_on_result [OF invoke];
        rule triple_and_then [OF busy_within [OF aloof.steps_finish_tool(3)]], rule triple_and_then [OF load consume])
qed

text \<open>What a resumption leaves: nothing called, or exactly the restored action, with the wait spent.\<close>

definition resumed :: "run_key \<Rightarrow> durable_approval_wait_id \<Rightarrow> (tool_call \<Rightarrow> bool) \<Rightarrow> tool_call list \<Rightarrow> harness_state \<Rightarrow> bool" where
  "resumed k w good T s \<longleftrightarrow> rows_ok s
     \<and> (tools_called (hs_trace s) = T \<or> (\<exists>call. good call \<and> tools_called (hs_trace s) = T @ [call] \<and> spent k w (hs_store s)))"

definition approved_call :: "harness_env \<Rightarrow> action_seal_binding \<Rightarrow> durable_run_state \<Rightarrow> tool_call \<Rightarrow> bool" where
  "approved_call env b state call \<longleftrightarrow>
     binding_in_state b state \<and> tc_id call = sb_tool_call_id b \<and> tc_name call = DURABLE_LOCAL_WRITE_TOOL_NAME
     \<and> compute_action_digest (jl_sha256 (he_json env)) (tc_name call) LocalWrite (tc_input call) = sb_action_digest b"

lemma calm_resumed: "calm k w X T s \<Longrightarrow> resumed k w good T s" "busy k w {T} s \<Longrightarrow> resumed k w good T s"
  "good call \<Longrightarrow> busy k w {T, T @ [call]} s \<Longrightarrow> resumed k w good T s"
  by (auto simp: calm_def busy_def resumed_def)

lemma execute_triple:
  assumes "sb_key (da_binding r) = k" "da_binding r = b" "restored env b state a" "\<And>x. within aloof (f x)"
  shows "triple (calm k w X T) (and_then (begin_execution env w r a) (\<lambda>_. and_then (finish_execution env w r a p) f))
     (\<lambda>_. resumed k w (approved_call env b state) T) (\<lambda>_. resumed k w (approved_call env b state) T)"
proof -
  let ?R = "resumed k w (approved_call env b state) T"
  let ?call = "into_tool_call a (sb_tool_call_id (da_binding r))"
  have "approved_call env b state ?call"
    using assms(2,3) by (auto simp: approved_call_def restored_def into_tool_call_def)
  then have good: "busy k w {T, T @ [?call]} s \<Longrightarrow> ?R s" for s
    by (rule calm_resumed(3) [where good = "approved_call env b state"])
  have finish: "triple (busy k w {T}) (and_then (finish_execution env w r a p) f) (\<lambda>_. ?R) (\<lambda>_. ?R)"
    by (rule triple_conseq [OF triple_and_then [OF finish_execution_spent [OF assms(1), of w T env a p] busy_within [OF assms(4)]]])
       (auto intro: good)
  show ?thesis
    by (rule triple_and_then [OF _ finish], rule triple_conseq [OF begin_execution_spends [OF assms(1), of w X T env a]])
       (auto intro: calm_resumed)
qed

lemma resume_approved_triple:
  assumes "sb_key (da_binding record) = k" "bound (he_store_codec env) X (da_binding record)"
  shows "triple (calm k w X T) (resume_approved se env state w att node aid record)
     (\<lambda>_. resumed k w (approved_call env (da_binding record) state) T)
     (\<lambda>_. resumed k w (approved_call env (da_binding record) state) T)"
proof -
  let ?b = "da_binding record"
  let ?R = "resumed k w (approved_call env ?b state) T"
  let ?exec = "\<lambda>r a p. and_then (begin_execution env w r a) (\<lambda>_. and_then (finish_execution env w r a p)
      (\<lambda>result. ok (Resume_Executed att node result)))"
  have exec: "triple (calm k w X T) (?exec r a p) (\<lambda>_. ?R) (\<lambda>_. ?R)"
    if "sb_key (da_binding r) = k" "bound (he_store_codec env) X (da_binding r)" "restored env ?b state a" for r a p
    using bound_unique [OF that(2) assms(2)] that(1,3) by (intro execute_triple) (simp_all add: aloof.within_ok)
  have load: "triple (calm k w X T) (and_then (load_wait env k w) (\<lambda>r. ?exec r a p)) (\<lambda>_. ?R) (\<lambda>_. ?R)"
    if "restored env ?b state a" for a p
  proof (rule triple_and_then)
    show "triple (calm k w X T) (load_wait env k w)
        (\<lambda>r s. (sb_key (da_binding r) = k \<and> bound (he_store_codec env) X (da_binding r)) \<and> calm k w X T s) (\<lambda>_. ?R)"
      by (rule triple_conseq [OF load_wait_calm [of k w X T]]) (simp_all add: calm_resumed)
  qed (rule triple_lift, use exec that in blast)
  have graph: "triple (calm k w X T) (and_then (resume_graph env att node w r DA_ApprovedReady DA_ApprovedReady)
      (\<lambda>_. and_then (load_wait env (sb_key (da_binding r)) w) (\<lambda>r. ?exec r a p))) (\<lambda>_. ?R) (\<lambda>_. ?R)"
    if "restored env ?b state a" "sb_key (da_binding r) = k" for a p r
    unfolding that(2)
    by (rule triple_and_then [OF _ load [OF that(1)]], rule triple_conseq [OF resume_graph_calm [OF that(2), of w X T]])
       (auto intro: calm_resumed)
  have ready: "triple (calm k w X T) (and_then (make_ready env w aid record)
      (\<lambda>r. and_then (resume_graph env att node w r DA_ApprovedReady DA_ApprovedReady)
      (\<lambda>_. and_then (load_wait env (sb_key (da_binding r)) w) (\<lambda>r. ?exec r a p)))) (\<lambda>_. ?R) (\<lambda>_. ?R)"
    if "restored env ?b state a" for a p
  proof (rule triple_and_then)
    show "triple (calm k w X T) (make_ready env w aid record) (\<lambda>r s. sb_key (da_binding r) = k \<and> calm k w X T s) (\<lambda>_. ?R)"
      by (rule triple_conseq [OF make_ready_calm [OF assms, of w T]]) (simp_all add: calm_resumed)
  qed (rule triple_lift, use graph that in blast)
  show ?thesis
    unfolding resume_approved_def
  proof (rule triple_and_then)
    show "triple (calm k w X T) (restore_local_write se env record state)
        (\<lambda>x s. restored env ?b state (fst x) \<and> calm k w X T s) (\<lambda>_. ?R)"
      by (rule triple_conseq [OF restore_calm [of k w X T]]) (simp_all add: calm_resumed)
  qed (rule triple_lift, auto simp: ready split: prod.split)
qed

section \<open>Whole resumptions\<close>

lemma resume_denied_calm:
  "triple (\<lambda>s. sb_key (da_binding record) = k \<and> calm k w X T s) (resume_denied env w att node aid record)
     (\<lambda>_. calm k w X T) (\<lambda>_. calm k w X T)"
proof (rule triple_lift)
  assume k: "sb_key (da_binding record) = k"
  have graph: "triple (\<lambda>s. sb_key (da_binding r) = k \<and> calm k w X T s)
      (and_then (resume_graph env att node w r DA_DecisionRecordedDeny DA_Consumed) (\<lambda>_. ok x)) (\<lambda>_. calm k w X T) (\<lambda>_. calm k w X T)"
    for r x
    by (rule triple_lift, rule triple_and_then [OF resume_graph_calm triple_ok])
  have load: "triple (calm k w X T) (load_wait env k w) (\<lambda>r s. sb_key (da_binding r) = k \<and> calm k w X T s) (\<lambda>_. calm k w X T)"
    by (rule triple_conseq [OF load_wait_calm [of k w X T]]) simp_all
  show "triple (calm k w X T) (resume_denied env w att node aid record) (\<lambda>_. calm k w X T) (\<lambda>_. calm k w X T)"
    unfolding resume_denied_def k
    by (rule calm_then, rule calm_within, intro aloof_rules, rule calm_then, rule calm_within, intro aloof_rules,
        rule triple_and_then [OF load graph])
qed

text \<open>A tool call is due only for a wait whose approval is recorded or ready.\<close>

definition due :: "int option \<Rightarrow> bool" where
  "due S \<longleftrightarrow> S \<in> {Some (status_code DA_DecisionRecordedApprove), Some (status_code DA_ApprovedReady)}"

definition due_call :: "harness_env \<Rightarrow> byte list option \<Rightarrow> int option \<Rightarrow> durable_run_state \<Rightarrow> tool_call \<Rightarrow> bool" where
  "due_call env X S state call \<longleftrightarrow> due S \<and> (\<exists>b. bound (he_store_codec env) X b \<and> approved_call env b state call)"

lemma resumed_mono: "resumed k w good T s \<Longrightarrow> (\<And>c. good c \<Longrightarrow> good' c) \<Longrightarrow> resumed k w good' T s"
  by (auto simp: resumed_def)

text \<open>The state in which a resumption finds the wait, and the part of a resumption before the status is inspected.\<close>

definition found ::
  "run_key \<Rightarrow> durable_approval_wait_id \<Rightarrow> byte list option \<Rightarrow> tool_call list \<Rightarrow> int option \<Rightarrow> harness_state \<Rightarrow> bool" where
  "found k w X T S s \<longleftrightarrow> calm k w X T s \<and> wait_status k w (hs_store s) = S"

lemma aloof_found: "aloof s t \<Longrightarrow> found k w X T S s \<Longrightarrow> found k w X T S t"
  unfolding found_def using aloof_carries(1) [of s t k w X T] by (simp add: aloof_def wait_status_def find_approval_def)

lemma resume_prefix:
  assumes fin: "\<And>s. found (context_key ctx) w X T S s \<Longrightarrow> R s"
    and rest: "\<And>r att node aid. sb_key (da_binding r) = context_key ctx \<Longrightarrow> bound (he_store_codec env) X (da_binding r) \<Longrightarrow>
      S = Some (status_code (da_status r)) \<Longrightarrow>
      triple (found (context_key ctx) w X T S)
        (if da_status r = DA_DecisionRecordedDeny then resume_denied env w att node aid r
         else if da_status r \<noteq> DA_DecisionRecordedApprove \<and> da_status r \<noteq> DA_ApprovedReady then err HE_DurableApprovalMismatch
         else resume_approved se env state w att node aid r) (\<lambda>_. R) (\<lambda>_. R)"
  shows "triple (found (context_key ctx) w X T S) (resume_durable_local_write se env ctx state w) (\<lambda>_. R) (\<lambda>_. R)"
proof -
  let ?k = "context_key ctx"
  let ?F = "found ?k w X T S"
  have plain: "triple ?F m (\<lambda>_. ?F) (\<lambda>_. R)" if "within aloof m" for m :: "'a hm"
    by (rule triple_conseq [OF aloof.triple_within [OF that aloof_found]]) (assumption | erule fin)+
  have "triple (\<lambda>s. ?F s \<and> calm ?k w X T s) (load_wait env ?k w)
      (\<lambda>r s. ?F s \<and> sb_key (da_binding r) = ?k \<and> bound (he_store_codec env) X (da_binding r)
         \<and> wait_status ?k w (hs_store s) = Some (status_code (da_status r)) \<and> calm ?k w X T s) (\<lambda>_ s. R s \<and> calm ?k w X T s)"
    by (rule triple_both [OF plain [OF aloof_plain(4)] load_wait_calm [of ?k w X T]])
  then have load: "triple ?F (load_wait env ?k w)
      (\<lambda>r s. (sb_key (da_binding r) = ?k \<and> bound (he_store_codec env) X (da_binding r) \<and> S = Some (status_code (da_status r)))
         \<and> ?F s) (\<lambda>_. R)"
    by (rule triple_conseq) (auto simp: found_def)
  have last: "triple ?F (and_then (load_wait env ?k w) (\<lambda>r.
        if da_status r = DA_DecisionRecordedDeny then resume_denied env w att node aid r
        else if da_status r \<noteq> DA_DecisionRecordedApprove \<and> da_status r \<noteq> DA_ApprovedReady then err HE_DurableApprovalMismatch
        else resume_approved se env state w att node aid r)) (\<lambda>_. R) (\<lambda>_. R)" for att node aid
    by (rule triple_and_then [OF load], rule triple_lift, rule rest) simp_all
  have checks: "triple ?F (and_then (some_or e x) (\<lambda>node. and_then (require b e') (\<lambda>_. f node))) (\<lambda>_. R) (\<lambda>_. R)"
    if "\<And>node. triple ?F (f node) (\<lambda>_. R) (\<lambda>_. R)" for e e' b f and x :: "graph_node_id option"
    by (rule triple_and_then [OF plain], intro aloof_rules, rule triple_and_then [OF plain that], intro aloof_rules)
  show ?thesis
    unfolding resume_durable_local_write_def
    by (rule triple_and_then [OF plain], intro aloof_rules, rule triple_and_then [OF plain], intro aloof_rules)
       ((split prod.split, intro allI impI)+, intro checks last)
qed

lemma resume_triple:
  "triple (found (context_key ctx) w X T S) (resume_durable_local_write se env ctx state w)
     (\<lambda>_. resumed (context_key ctx) w (due_call env X S state) T) (\<lambda>_. resumed (context_key ctx) w (due_call env X S state) T)"
proof (rule resume_prefix)
  let ?k = "context_key ctx"
  let ?R = "resumed ?k w (due_call env X S state) T"
  show calm: "found ?k w X T S s \<Longrightarrow> ?R s" for s unfolding found_def by (blast intro: calm_resumed)
  fix r :: durable_approval_record and att node aid
  assume r: "sb_key (da_binding r) = ?k" "bound (he_store_codec env) X (da_binding r)" "S = Some (status_code (da_status r))"
  have denied: "triple (found ?k w X T S) (resume_denied env w att node aid r) (\<lambda>_. ?R) (\<lambda>_. ?R)"
    by (rule triple_conseq [OF resume_denied_calm [of r ?k w X T]]) (auto simp: r found_def intro: calm_resumed)
  have approved: "triple (found ?k w X T S) (resume_approved se env state w att node aid r) (\<lambda>_. ?R) (\<lambda>_. ?R)" if "due S"
  proof (rule triple_conseq [OF resume_approved_triple [OF r(1,2), of w T]])
    have "approved_call env (da_binding r) state c \<Longrightarrow> due_call env X S state c" for c
      using r(2) that unfolding due_call_def by blast
    then show "resumed ?k w (approved_call env (da_binding r) state) T s \<Longrightarrow> ?R s"
      "resumed ?k w (approved_call env (da_binding r) state) T s \<Longrightarrow> ?R s" for s
      by (blast intro: resumed_mono)+
  qed (simp add: found_def)
  show "triple (found ?k w X T S)
      (if da_status r = DA_DecisionRecordedDeny then resume_denied env w att node aid r
       else if da_status r \<noteq> DA_DecisionRecordedApprove \<and> da_status r \<noteq> DA_ApprovedReady then err HE_DurableApprovalMismatch
       else resume_approved se env state w att node aid r) (\<lambda>_. ?R) (\<lambda>_. ?R)"
    using r(3) by (intro triple_if denied approved triple_err calm) (auto simp: due_def)
qed

text \<open>A wait that is spent stays as it is.\<close>

lemma spent_codes: "status_code st \<in> {status_code DA_Executing, status_code DA_Consumed} \<Longrightarrow> st \<in> {DA_Executing, DA_Consumed}"
  by (cases st) simp_all

lemma resume_spent_triple:
  assumes "S \<in> {Some (status_code DA_Executing), Some (status_code DA_Consumed)}"
  shows "triple (found (context_key ctx) w X T S) (resume_durable_local_write se env ctx state w)
     (\<lambda>_. found (context_key ctx) w X T S) (\<lambda>_. found (context_key ctx) w X T S)"
proof (rule resume_prefix)
  fix r :: durable_approval_record and att node aid assume "S = Some (status_code (da_status r))"
  with assms have "da_status r \<in> {DA_Executing, DA_Consumed}" by (intro spent_codes) auto
  then show "triple (found (context_key ctx) w X T S)
      (if da_status r = DA_DecisionRecordedDeny then resume_denied env w att node aid r
       else if da_status r \<noteq> DA_DecisionRecordedApprove \<and> da_status r \<noteq> DA_ApprovedReady then err HE_DurableApprovalMismatch
       else resume_approved se env state w att node aid r)
      (\<lambda>_. found (context_key ctx) w X T S) (\<lambda>_. found (context_key ctx) w X T S)"
    by (auto intro: triple_err)
qed

lemma resume_outcome:
  assumes "resume_durable_local_write se env ctx state w s = (r, t)" "rows_ok s" "k = context_key ctx"
  shows "resumed k w (due_call env (wait_record k w (hs_store s)) (wait_status k w (hs_store s)) state)
     (tools_called (hs_trace s)) t"
  using triple_case [OF resume_triple [where X = "wait_record k w (hs_store s)" and T = "tools_called (hs_trace s)"
      and S = "wait_status k w (hs_store s)"] _ assms(1)] assms
  by (simp add: found_def calm_def split: sum.splits)

lemma resume_spent:
  assumes "resume_durable_local_write se env ctx state w s = (r, t)" "rows_ok s" "spent (context_key ctx) w (hs_store s)"
  shows "rows_ok t" "spent (context_key ctx) w (hs_store t)" "tools_called (hs_trace t) = tools_called (hs_trace s)"
  using triple_case [OF resume_spent_triple [where X = "wait_record (context_key ctx) w (hs_store s)"
      and T = "tools_called (hs_trace s)" and S = "wait_status (context_key ctx) w (hs_store s)"] _ assms(1)] assms
  by (auto simp: found_def calm_def spent_def split: sum.splits)

section \<open>Histories\<close>

text \<open>
  What may happen to a run after the suspension, as far as one wait is concerned: resumptions of the wait, each by any
  process with any environment, and in between steps that neither call a tool nor touch the table of approvals.
\<close>

inductive wait_history :: "run_key \<Rightarrow> durable_approval_wait_id \<Rightarrow> harness_state \<Rightarrow> harness_state \<Rightarrow> bool" for k w where
  start: "wait_history k w s s"
| other: "wait_history k w s t \<Longrightarrow> aloof t u \<Longrightarrow> wait_history k w s u"
| resume: "wait_history k w s t \<Longrightarrow> context_key ctx = k \<Longrightarrow> resume_durable_local_write se env ctx state w t = (r, u) \<Longrightarrow>
    wait_history k w s u"

lemma history_calls:
  assumes "wait_history k w s t" "rows_ok s"
  shows "rows_ok t \<and> (tools_called (hs_trace t) = tools_called (hs_trace s)
    \<or> (\<exists>call. tools_called (hs_trace t) = tools_called (hs_trace s) @ [call] \<and> spent k w (hs_store t)))"
  using assms
proof (induction rule: wait_history.induct)
  case (other s t u)
  then show ?case by (auto simp: aloof_def silent_def spent_def wait_status_def find_approval_def)
next
  case (resume s t ctx se env state r u)
  then have t: "rows_ok t" by blast
  show ?case
  proof (cases "tools_called (hs_trace t) = tools_called (hs_trace s)")
    case True
    with resume_outcome [OF resume.hyps(3) t] resume.hyps(2) show ?thesis by (auto simp: resumed_def)
  next
    case False
    with resume.IH [OF resume.prems] obtain call
      where "tools_called (hs_trace t) = tools_called (hs_trace s) @ [call]" "spent k w (hs_store t)" by blast
    with resume_spent [OF resume.hyps(3) t] resume.hyps(2) show ?thesis by simp
  qed
qed simp

lemma history_spent:
  assumes "wait_history k w s t" "rows_ok s" "spent k w (hs_store s)"
  shows "rows_ok t \<and> spent k w (hs_store t) \<and> tools_called (hs_trace t) = tools_called (hs_trace s)"
  using assms
proof (induction rule: wait_history.induct)
  case (other s t u)
  then show ?case by (auto simp: aloof_def silent_def spent_def wait_status_def find_approval_def)
next
  case (resume s t ctx se env state r u)
  then show ?case using resume_spent [OF resume.hyps(3)] by simp
qed simp

end
