(* ===== verification/Demo_Durable.thy ===== *)
theory Demo_Durable
  imports Durable_Laws Demo_Harness
begin

text \<open>
  A run that waits for the approval of a local write, with its journal and its approval in the database, the decision
  recorded; and its resumption, run by the simplifier.
\<close>

definition durable_writer :: tool_binding where
  "durable_writer =
     \<lparr>tb_definition = \<lparr>td_name = DURABLE_LOCAL_WRITE_TOOL_NAME, td_description = [], td_capability = LocalWrite,
        td_input_schema = JNull\<rparr>, tb_execution = Exec_Contained 1\<rparr>"

definition durable_binding :: action_seal_binding where
  "durable_binding = ActionSealBinding_new demo_key 1 (replicate 32 0) (lit ''act'') 5 7 8 9 10 (replicate 32 0) 11
     (replicate 32 0)"

definition durable_capsule :: local_write_capsule where
  "durable_capsule = \<lparr>lw_relative_path = lit ''a'', lw_content = lit ''b''\<rparr>"

definition durable_record :: run_record where
  "durable_record = RunRecord_new demo_key demo_budget (GraphContract 1 (replicate 32 0))"

definition durable_events :: "agent_event list" where
  "durable_events =
     [AgentEvent_new 1 0 (Ev_RunStarted 1000),
      AgentEvent_new 1 1 (Ev_Graph (GE_GraphStarted (replicate 32 0) (lit ''act'') Node_Action Recover_Never)),
      AgentEvent_new 1 2 (Ev_Graph (GE_GraphNodeEntered 5 (lit ''act'') Node_Action Recover_Never 1 8)),
      AgentEvent_new 1 3 (Ev_DurableApprovalPrepared 7 8 9 10 (replicate 32 0) 11 (replicate 32 0) 1 1),
      AgentEvent_new 1 4 (Ev_Graph (GE_GraphSuspended 5 (lit ''act'') 7 8 9 10 (replicate 32 0) 500)),
      AgentEvent_new 1 5 (Ev_DurableApprovalDecisionRecorded 7 8 Approve 1 None),
      AgentEvent_new 1 6 (Ev_DurableApprovalGranted 7 8)]"

definition durable_state :: durable_run_state where
  "durable_state =
     \<lparr>ds_context =
        \<lparr>cs_key = demo_key, cs_budget = demo_budget,
         cs_usage = \<lparr>model_calls = 0, tool_calls = 0, iterations = 0, approval_requests = 1, graph_steps = 1\<rparr>,
         cs_status = Status_Running, cs_audit_degraded = False, cs_started_at = Some 1000\<rparr>,
      ds_recovery_contract = GraphContract 1 (replicate 32 0), ds_last_sequence = Some 6,
      ds_event_chain_digest = replicate 32 0, ds_current_iteration = None, ds_completed_iterations = 0,
      ds_loop_position = Loop_NotStarted, ds_continuation = RestartableBoundary, ds_pending_effects = [],
      ds_pending_knowledge_retrieval = None, ds_restartable_knowledge_retrieval = None, ds_latest_knowledge_manifest = None,
      ds_graph = Some \<lparr>gs_definition_digest = replicate 32 0,
        gs_position = Pos_Waiting 5 (lit ''act'') 7 8 9 10 (replicate 32 0) 500, gs_steps = 1, gs_restart_anchor = None\<rparr>\<rparr>"

definition waiting_context :: run_context where
  "waiting_context = projr (from_recovery durable_state 0 0 (GraphContract 1 (replicate 32 0)))"

definition durable_codec :: store_codec where
  "durable_codec = loose_codec\<lparr>approval_to := (\<lambda>_. Some [0]),
     approval_from := (\<lambda>_. Some (DurableApprovalRecord_new durable_binding demo_sealed))\<rparr>"

definition durable_row :: approval_row where
  "durable_row =
     \<lparr>apr_run_id = 1, apr_session_id = 2, apr_wait_id = 7, apr_record = [0], apr_checksum = checksum durable_codec [0],
      apr_key_id = lit ''k1'', apr_nonce = [1], apr_status = status_code DA_ApprovedReady, apr_row_version = 2\<rparr>"

definition durable_store :: sqlite_store where
  "durable_store =
     initialize\<lparr>st_runs := [1 \<mapsto> \<lparr>row_session_id = 2, row_record = [], row_record_checksum = replicate 32 0,
                    row_last_sequence = Some (to_be_bytes 6), row_terminal = 0\<rparr>],
       st_events := map (\<lambda>e. event_row_of durable_codec 1 e [ucast (ev_sequence e)]) durable_events,
       st_approvals := [durable_row]\<rparr>"

definition durable_start :: harness_state where
  "durable_start = \<lparr>hs_ctx = waiting_context, hs_store = durable_store, hs_tick = 0, hs_trace = []\<rparr>"

definition durable_seal :: seal_env where
  "durable_seal =
     \<lparr>se_action_seal = Some \<lparr>sp_seal_local_write = (\<lambda>_ _ _. Inr demo_sealed), sp_open_local_write = (\<lambda>_ _ _. Inr durable_capsule)\<rparr>,
      se_workspace_binding_id = Some 11, se_others = (\<lambda>_ st. st)\<rparr>"

definition durable_env :: harness_env where
  "durable_env = (demo_env durable_codec True (\<lambda>_. Wait_Ready))\<lparr>he_tools := [DURABLE_LOCAL_WRITE_TOOL_NAME \<mapsto> durable_writer]\<rparr>"

lemma durable_env_sel [simp]:
  "he_store_codec durable_env = durable_codec" "he_persistence durable_env" "he_policy durable_env = M6ApprovalPolicy_authorize"
  "he_tools durable_env = [DURABLE_LOCAL_WRITE_TOOL_NAME \<mapsto> durable_writer]"
  "he_audit_policy durable_env = FailClosed" "he_io durable_env = (\<lambda>_. None)"
  "he_now durable_env = (\<lambda>_. 0)" "he_wall durable_env = (\<lambda>_. 1000000000)"
  "he_cancelled durable_env = (\<lambda>_. False)" "he_wait durable_env = (\<lambda>_. Wait_Ready)" "he_audit durable_env = (\<lambda>_ _. None)"
  "he_contained_start durable_env = (\<lambda>_ _ _. Inr ())"
  "he_contained_wait durable_env = (\<lambda>_ _ call. Inr (Tool_Succeeded (tc_id call) JNull))"
  "he_preview durable_env = (\<lambda>_ _ _. Inr \<lparr>ap_summary = [], ap_target_label = []\<rparr>)" "he_json durable_env = demo_json_lib"
  by (simp_all add: durable_env_def demo_env_def)

lemmas durable_graph_eval = graph_arm_defs durable_record_def durable_events_def demo_defs eval_defs duration_from_millis_def
  checked_sub_def usage_defs lit_def graph_step_rejected_def
  MAX_GRAPH_STEPS_def saturating_inc_def

lemma durable_state_replayed:
  "replay demo_codec durable_events (DurableRunState_initial durable_record) = Inr durable_state"
proof -
  have "chain_digest demo_codec d b = replicate 32 0" for d b by (simp add: chain_digest_def demo_codec_def)
  then show ?thesis by (simp add: durable_state_def durable_graph_eval demo_codec_def)
qed

lemma durable_state_sel:
  "ds_context durable_state =
     \<lparr>cs_key = demo_key, cs_budget = demo_budget,
      cs_usage = \<lparr>model_calls = 0, tool_calls = 0, iterations = 0, approval_requests = 1, graph_steps = 1\<rparr>,
      cs_status = Status_Running, cs_audit_degraded = False, cs_started_at = Some 1000\<rparr>"
  "ds_recovery_contract durable_state = GraphContract 1 (replicate 32 0)" "ds_last_sequence durable_state = Some 6"
  "ds_event_chain_digest durable_state = replicate 32 0" "ds_pending_effects durable_state = []"
  "ds_current_iteration durable_state = None" "ds_loop_position durable_state = Loop_NotStarted"
  "ds_pending_knowledge_retrieval durable_state = None"
  "ds_graph durable_state = Some \<lparr>gs_definition_digest = replicate 32 0,
     gs_position = Pos_Waiting 5 (lit ''act'') 7 8 9 10 (replicate 32 0) 500, gs_steps = 1, gs_restart_anchor = None\<rparr>"
  by (simp_all add: durable_state_def)

lemma waiting_context_eval:
  "waiting_context =
     \<lparr>rc_run_id = 1, rc_session_id = 2, rc_budget = demo_budget,
      rc_usage = \<lparr>model_calls = 0, tool_calls = 0, iterations = 0, approval_requests = 1, graph_steps = 1\<rparr>,
      rc_status = Status_Running, rc_next_event_sequence = 7,
      rc_runtime = Some \<lparr>rt_started_at = 0, rt_deadline_at = 60000000000, rt_cancelled = False\<rparr>,
      rc_audit_degraded = False, rc_recovery_contract = GraphContract 1 (replicate 32 0), rc_durable_state = durable_state,
      rc_persistence_failed = False\<rparr>"
  by (simp add: waiting_context_def from_recovery_def duration_checked_sub_def instant_checked_add_def INSTANT_MAX_def
      durable_state_sel demo_key_def demo_budget_def checked_next_def checked_inc_def)

lemmas durable_store_eval = durable_store_def durable_codec_def loose_codec_def store_eval durable_row_def durable_events_def

lemma durable_digests:
  "compute_action_digest (jl_sha256 demo_json_lib) n c v = replicate 32 0"
  "compute_tool_contract_digest (jl_sha256 demo_json_lib) d = replicate 32 0"
  by (simp_all add: compute_action_digest_def compute_tool_contract_digest_def demo_json_lib_def)

lemma durable_arguments: "validate_argument_limits demo_json_lib (capsule_arguments durable_capsule) = Inr ()"
  by (simp add: validate_argument_limits_def demo_json_lib_def capsule_arguments_def durable_capsule_def MAX_ACTION_ARGUMENT_BYTES_def
      MAX_ACTION_ARGUMENT_NODES_def MAX_ACTION_ARGUMENT_DEPTH_def MAX_ACTION_ARGUMENT_KEYS_def
      MAX_ACTION_ARGUMENT_ARRAY_ELEMENTS_def push_all_def lit_def)

definition durable_action :: validated_action where
  "durable_action = \<lparr>va_proposal_id = 9, va_tool_name = DURABLE_LOCAL_WRITE_TOOL_NAME, va_arguments = capsule_arguments durable_capsule,
     va_capability = LocalWrite, va_digest = replicate 32 0\<rparr>"

lemma durable_restored:
  assumes "da_binding record = durable_binding"
  shows "restore_local_write durable_seal durable_env record durable_state s =
     (Inr (durable_action, 1, \<lparr>ap_summary = [], ap_target_label = []\<rparr>), s\<lparr>hs_tick := Suc (Suc (hs_tick s))\<rparr>)"
proof -
  have "jl_is_valid demo_json_lib JNull (capsule_arguments durable_capsule)"
    by (simp add: demo_json_lib_def capsule_arguments_def)
  moreover have "binding_in_state durable_binding durable_state"
    using durable_state_sel by (simp add: binding_in_state_def durable_binding_def ActionSealBinding_new_def)
  moreover have "sb_workspace_binding_id durable_binding = 11" "sb_capsule_version durable_binding = LOCAL_WRITE_CAPSULE_VERSION"
    "sb_tool_contract_digest durable_binding = replicate 32 0" "sb_action_digest durable_binding = replicate 32 0"
    "sb_action_proposal_id durable_binding = 9"
    by (simp_all add: durable_binding_def ActionSealBinding_new_def)
  ultimately show ?thesis
    using durable_digests durable_arguments durable_state_sel(1) assms
    by (simp add: restore_local_write_def Let_def and_then_apply require_apply durable_seal_def some_or_def fail_or_def ask_def
        durable_writer_def durable_action_def)
qed


lemma durable_binding_sel:
  "sb_key durable_binding = demo_key" "sb_wait_id durable_binding = 7" "sb_tool_call_id durable_binding = 10"
  "sb_run_id durable_binding = 1" "sb_session_id durable_binding = 2"
  by (simp_all add: durable_binding_def ActionSealBinding_new_def sb_key_def demo_key_def)

lemma durable_loads:
  assumes "st_approvals st = [durable_row\<lparr>apr_status := n, apr_row_version := v\<rparr>]" "0 \<le> v" "decode_status n = Inr x"
  shows "load_durable_approval_wait durable_codec None demo_key 7 st =
     Inr (restore_store_state x (of_int v) (DurableApprovalRecord_new durable_binding demo_sealed))"
proof -
  have "SealedLocalWriteAction_validate demo_sealed = Inr ()"
    by (simp add: SealedLocalWriteAction_validate_def sealed_fields_rejected_def demo_sealed_def str_len_def len_utf8_def
        MAX_SEAL_KEY_ID_BYTES_def MAX_SEALED_CAPSULE_BYTES_def is_ascii_alphanumeric_def lit_def)
  with assms show ?thesis
    by (simp add: load_durable_approval_wait_def find_approval_def demo_key_def durable_row_def durable_codec_def loose_codec_def
        checksum_def DurableApprovalRecord_new_def demo_sealed_def durable_binding_sel [unfolded demo_key_def])
qed

lemma durable_rows: "st_approvals durable_store = [durable_row]"
  by (simp add: durable_store_def)

lemma waiting_context_key: "context_key waiting_context = demo_key"
  by (simp add: context_key_def waiting_context_eval demo_key_def)

lemma durable_starts:
  "resume_durable_local_write durable_seal durable_env waiting_context durable_state 7 durable_start =
   resume_approved durable_seal durable_env durable_state 7 5 (lit ''act'') 8
     (restore_store_state DA_ApprovedReady 2 (DurableApprovalRecord_new durable_binding demo_sealed))
     (durable_start\<lparr>hs_tick := 1\<rparr>)"
proof -
  have "load_durable_approval_wait durable_codec None demo_key 7 durable_store =
      Inr (restore_store_state DA_ApprovedReady (of_int 2) (DurableApprovalRecord_new durable_binding demo_sealed))"
    by (rule durable_loads [where n = 3]) (simp_all add: durable_rows durable_row_def decode_status_def)
  then show ?thesis
  by (simp add: resume_durable_local_write_def durable_start_def enter_context_def and_then_apply fail_or_def some_or_def waiting_position_def waiting_node_def
      durable_state_sel require_apply load_wait_def waiting_context_key restore_store_state_def)
qed


lemmas resume_eval = resume_graph_def fail_or_def some_or_def
  begin_execution_def finish_execution_def change_status_or_fail_def change_status_def
  transition_durable_approval_status_def update_approvals_def row_matches_def audit_already_persisted_def trusted_unix_millis_def
  fits_i64_def

definition durable_granted :: "durable_approval_status \<Rightarrow> u64 \<Rightarrow> durable_approval_record" where
  "durable_granted x v = restore_store_state x v (DurableApprovalRecord_new durable_binding demo_sealed)"

lemma durable_granted_sel:
  "da_binding (durable_granted x v) = durable_binding" "da_status (durable_granted x v) = x" "da_row_version (durable_granted x v) = v"
  by (simp_all add: durable_granted_def restore_store_state_def DurableApprovalRecord_new_def)

lemma durable_chain: "chain_digest demo_codec d b = replicate 32 0"
  by (simp add: chain_digest_def demo_codec_def)

lemmas durable_eval = durable_start_def waiting_context_eval durable_state_sel durable_codec_def loose_codec_def durable_chain
  emit_def on_ctx_def next_event_def eval_defs graph_arm_defs checked_sub_def saturating_inc_def demo_key_def demo_budget_def
  durable_granted_sel durable_binding_sel(2-5) durable_binding_sel(1) [unfolded demo_key_def]
  and_then_apply on_result_apply get_ctx_def ask_def log_entry_def upd_ctx_def
  store_call_def transition_for_def audit_record_def audit_with_run_bounds_def settle_audit_def Let_def
  unix_millis_def context_key_def durable_store_def durable_row_def durable_events_def

lemma durable_codec_events: "sc_events durable_codec = demo_codec" "to_vec demo_codec e = Some [ucast (ev_sequence e)]"
  by (simp_all add: durable_codec_def loose_codec_def demo_codec_def)

lemma durable_sealed: "SealedLocalWriteAction_validate demo_sealed = Inr ()" "sl_key_id demo_sealed = lit ''k1''" "sl_nonce demo_sealed = [1]"
  by (simp_all add: SealedLocalWriteAction_validate_def sealed_fields_rejected_def demo_sealed_def str_len_def len_utf8_def
        MAX_SEAL_KEY_ID_BYTES_def MAX_SEALED_CAPSULE_BYTES_def is_ascii_alphanumeric_def lit_def)

lemmas load_eval = load_wait_def load_durable_approval_wait_def find_approval_def decode_status_def DurableApprovalRecord_new_def
  durable_sealed restore_store_state_def

lemmas execution_eval = preflight_def reserve_def require_status_def reserve_defs require_apply runtime_of_def usage_defs
  invoke_contained_tool_port_def guarded_call_def lift_port_def finish_tool_invocation_def record_tool_terminal_event_def
  audit_by_mode_def persist_transition_def audit_required_def audit_invocation_def audit_lifecycle_def discard_def

definition durable_call :: tool_call where
  "durable_call = into_tool_call durable_action 10"

definition durable_end :: harness_state where
  "durable_end = snd (resume_durable_local_write durable_seal durable_env waiting_context durable_state 7 durable_start)"

lemma durable_approved:
  "(case resume_approved durable_seal durable_env durable_state 7 5 (lit ''act'') 8 (durable_granted DA_ApprovedReady 2)
      (durable_start\<lparr>hs_tick := 1\<rparr>) of (r, s) \<Rightarrow> (r, map apr_status (st_approvals (hs_store s)), tools_called (hs_trace s))) =
    (Inr (Resume_Executed 5 (lit ''act'') (Tool_Succeeded 10 JNull)), [5], [durable_call])"
proof -
  have "tc_id (into_tool_call durable_action 10) = 10" by (simp add: into_tool_call_def)
  then show ?thesis
    by (simp add: resume_approved_def make_ready_def durable_restored resume_eval durable_eval store_eval durable_codec_events
        load_eval execution_eval tools_called_def map_filter_simps durable_call_def)
qed

lemma durable_resumes:
  "resume_durable_local_write durable_seal durable_env waiting_context durable_state 7 durable_start =
     (Inr (Resume_Executed 5 (lit ''act'') (Tool_Succeeded 10 JNull)), durable_end)"
  "tools_called (hs_trace durable_end) = [durable_call]"
  using durable_approved unfolding durable_starts [folded durable_granted_def] durable_end_def
  by (auto split: prod.splits)

lemma durable_start_silent: "tools_called (hs_trace durable_start) = []"
  by (simp add: durable_start_def tools_called_def map_filter_simps)

lemma durable_start_ok: "rows_ok durable_start" "context_key waiting_context = demo_key"
  by (simp_all add: durable_start_def durable_rows approvals_ok_def durable_row_def waiting_context_key)

end
