(* ===== verification/Identity.thy ===== *)
theory Identity
  imports Durable_State
begin

text \<open>
  Authenticated principals and the authorization policy of the service, \<^verbatim>\<open>agent-identity/src/lib.rs\<close>: roles, actions and
  resources, the policy that denies by default, the authorization stored with a run, and the ownership of sessions. The
  locale \<open>owner_isolation\<close> states what the service relies on of any \<^verbatim>\<open>ServiceAuthorizationPolicy\<close>.
\<close>

section \<open>Principals\<close>

definition MAX_PRINCIPAL_ROLES :: nat where "MAX_PRINCIPAL_ROLES = 3"
definition MAX_WORKFLOW_ID_BYTES :: nat where "MAX_WORKFLOW_ID_BYTES = 96"
definition MAX_SESSION_PAGE_ITEMS :: u16 where "MAX_SESSION_PAGE_ITEMS = 256"
definition MAX_CONVERSATION_TITLE_BYTES :: nat where "MAX_CONVERSATION_TITLE_BYTES = 80"

datatype (plugins only: code size) principal_kind = Kind_Human | Kind_Service | Kind_LocalProcess

datatype (plugins only: code size) principal_role = Role_User | Role_Approver | Role_Operator

datatype (plugins only: code size) authentication_class = Class_UnixPeer | Class_LoopbackBearer

datatype (plugins only: code size) identity_error = Identity_InvalidPrincipal | Identity_InvalidPolicy

record verified_principal =
  vp_id :: principal_id
  vp_kind :: principal_kind
  vp_roles :: "principal_role set"
  vp_authentication_class :: authentication_class

definition VerifiedPrincipal_new ::
  "principal_id \<Rightarrow> principal_kind \<Rightarrow> principal_role list \<Rightarrow> authentication_class \<Rightarrow> identity_error + verified_principal" where
  "VerifiedPrincipal_new i kind roles cls =
     (if set roles = {} \<or> card (set roles) > MAX_PRINCIPAL_ROLES then Inl Identity_InvalidPrincipal
      else Inr \<lparr>vp_id = i, vp_kind = kind, vp_roles = set roles, vp_authentication_class = cls\<rparr>)"

definition has_role :: "verified_principal \<Rightarrow> principal_role \<Rightarrow> bool" where
  "has_role p role \<longleftrightarrow> role \<in> vp_roles p"

section \<open>Actions and resources\<close>

datatype (plugins only: code size) approval_separation = RequesterMayApprove | RequesterMustDiffer

datatype (plugins only: code size) authorization_action =
  Do_CreateSession | Do_ListSessions | Do_ArchiveSession | Do_ReadSessionHistory | Do_StartWorkflow | Do_ReadRun
| Do_ReadEvents | Do_CancelRun | Do_ListWaiting | Do_ReadApprovalPreview | Do_DecideApproval | Do_ResumeRun
| Do_AbortWaiting | Do_ReadRuntimeStatus | Do_ReadOperations | Do_InspectReconciliation

datatype (plugins only: code size) authorization_resource =
  On_Global
| On_OwnedSession principal_id
| On_Workflow rust_string
| On_OwnedRun rust_string principal_id                      \<comment> \<open>workflow, owner\<close>
| On_Approval rust_string principal_id principal_id         \<comment> \<open>workflow, owner, requester\<close>
| On_LegacyUnowned

datatype (plugins only: code size) service_decision = Decision_Granted | Decision_Denied

section \<open>The policy\<close>

definition valid_workflow_id :: "rust_string \<Rightarrow> bool" where
  "valid_workflow_id v \<longleftrightarrow>
     v \<noteq> [] \<and> str_len v \<le> MAX_WORKFLOW_ID_BYTES \<and> list_all (\<lambda>c. is_ascii_alphanumeric c \<or> c \<in> set (lit ''-_.'')) v"

record default_deny_policy =
  pol_version :: u32
  pol_fingerprint :: digest
  pol_workflows :: "rust_string set"
  pol_approval_separation :: approval_separation

definition DefaultDenyServiceAuthorizationPolicy_new ::
  "u32 \<Rightarrow> digest \<Rightarrow> rust_string list \<Rightarrow> approval_separation \<Rightarrow> identity_error + default_deny_policy" where
  "DefaultDenyServiceAuthorizationPolicy_new version fp workflows separation =
     (if version = 0 then Inl Identity_InvalidPolicy
      else if set workflows = {} \<or> card (set workflows) > 32 \<or> list_ex (\<lambda>w. \<not> valid_workflow_id w) workflows
      then Inl Identity_InvalidPolicy
      else Inr \<lparr>pol_version = version, pol_fingerprint = fp, pol_workflows = set workflows,
                pol_approval_separation = separation\<rparr>)"

definition workflow_allowed :: "default_deny_policy \<Rightarrow> rust_string \<Rightarrow> bool" where
  "workflow_allowed pol w \<longleftrightarrow> w \<in> pol_workflows pol"

definition authorize_request ::
  "default_deny_policy \<Rightarrow> verified_principal \<Rightarrow> authorization_action \<Rightarrow> authorization_resource \<Rightarrow> service_decision" where
  "authorize_request pol p action resource =
     (let granted =
        (case resource of
           On_Global \<Rightarrow>
             (case action of
                Do_CreateSession \<Rightarrow> has_role p Role_User
              | Do_ListSessions \<Rightarrow> has_role p Role_User
              | Do_ListWaiting \<Rightarrow> has_role p Role_Approver
              | Do_ReadRuntimeStatus \<Rightarrow> has_role p Role_User \<or> has_role p Role_Approver \<or> has_role p Role_Operator
              | Do_ReadOperations \<Rightarrow> has_role p Role_Operator
              | Do_InspectReconciliation \<Rightarrow> has_role p Role_Operator
              | _ \<Rightarrow> False)
         | On_OwnedSession owner \<Rightarrow>
             (case action of
                Do_ArchiveSession \<Rightarrow> has_role p Role_User \<and> vp_id p = owner
              | Do_ReadSessionHistory \<Rightarrow> has_role p Role_User \<and> vp_id p = owner
              | _ \<Rightarrow> False)
         | On_Workflow w \<Rightarrow>
             (case action of
                Do_StartWorkflow \<Rightarrow> has_role p Role_User \<and> workflow_allowed pol w
              | _ \<Rightarrow> False)
         | On_OwnedRun w owner \<Rightarrow>
             action \<in> {Do_ReadRun, Do_ReadEvents, Do_CancelRun, Do_ResumeRun, Do_AbortWaiting}
             \<and> has_role p Role_User \<and> vp_id p = owner \<and> workflow_allowed pol w
         | On_Approval w owner requester \<Rightarrow>
             action \<in> {Do_ReadApprovalPreview, Do_DecideApproval}
             \<and> has_role p Role_Approver \<and> workflow_allowed pol w
             \<and> (pol_approval_separation pol = RequesterMayApprove \<or> vp_id p \<noteq> requester)
         | On_LegacyUnowned \<Rightarrow> False)
      in if granted then Decision_Granted else Decision_Denied)"

section \<open>The authorization of a run and the ownership of a session\<close>

definition DurableRunAuthorization_new ::
  "principal_id \<Rightarrow> principal_id \<Rightarrow> rust_string \<Rightarrow> u32 \<Rightarrow> digest \<Rightarrow> identity_error + durable_run_authorization" where
  "DurableRunAuthorization_new owner requester workflow version fp =
     (if version = 0 \<or> \<not> valid_workflow_id workflow then Inl Identity_InvalidPolicy
      else Inr \<lparr>auth_owner = owner, auth_requester = requester, auth_workflow_id = workflow, auth_policy_version = version,
                auth_policy_fingerprint = fp\<rparr>)"

record session_ownership_record =
  so_session_id :: session_id
  so_owner :: principal_id
  so_title :: "rust_string option"
  so_archived :: bool

definition SessionOwnershipRecord_new :: "session_id \<Rightarrow> principal_id \<Rightarrow> session_ownership_record" where
  "SessionOwnershipRecord_new s owner = \<lparr>so_session_id = s, so_owner = owner, so_title = None, so_archived = False\<rparr>"

definition set_metadata :: "rust_string option \<Rightarrow> bool \<Rightarrow> session_ownership_record \<Rightarrow> session_ownership_record" where
  "set_metadata title archived r = r\<lparr>so_title := title, so_archived := archived\<rparr>"

record session_ownership_page =
  sp_items :: "session_ownership_record list"
  sp_next :: "session_id option"

datatype (plugins only: code size) identity_store_error = IS_Unavailable | IS_Conflict | IS_Corrupt

datatype (plugins only: code size) security_audit_phase =
  Sec_AuthorizationGranted | Sec_MutationRequested | Sec_MutationCommitted | Sec_MutationFailed

record security_audit_event =
  sa_phase :: security_audit_phase
  sa_actor :: principal_id
  sa_action :: authorization_action
  sa_session_id :: "session_id option"
  sa_run_id :: "run_id option"
  sa_wait_id :: "durable_approval_wait_id option"

section \<open>What the service relies on\<close>

locale owner_isolation =
  fixes authorize :: "verified_principal \<Rightarrow> authorization_action \<Rightarrow> authorization_resource \<Rightarrow> service_decision"
  assumes own_run: "authorize p a (On_OwnedRun w owner) = Decision_Granted \<Longrightarrow> vp_id p = owner"
    and own_session: "authorize p a (On_OwnedSession owner) = Decision_Granted \<Longrightarrow> vp_id p = owner"
    and legacy: "authorize p a On_LegacyUnowned = Decision_Denied"

interpretation default_deny: owner_isolation "authorize_request pol" for pol
  by unfold_locales
     (auto simp: authorize_request_def Let_def split: if_splits authorization_action.splits)

text \<open>The policy as a table: the role that an action on a resource needs, and the conditions beside the role.\<close>

fun needed_roles :: "authorization_action \<Rightarrow> principal_role set" where
  "needed_roles Do_ListWaiting = {Role_Approver}"
| "needed_roles Do_ReadApprovalPreview = {Role_Approver}"
| "needed_roles Do_DecideApproval = {Role_Approver}"
| "needed_roles Do_ReadOperations = {Role_Operator}"
| "needed_roles Do_InspectReconciliation = {Role_Operator}"
| "needed_roles Do_ReadRuntimeStatus = {Role_User, Role_Approver, Role_Operator}"
| "needed_roles _ = {Role_User}"

fun resource_fits :: "authorization_action \<Rightarrow> authorization_resource \<Rightarrow> bool" where
  "resource_fits a On_Global \<longleftrightarrow>
     a \<in> {Do_CreateSession, Do_ListSessions, Do_ListWaiting, Do_ReadRuntimeStatus, Do_ReadOperations, Do_InspectReconciliation}"
| "resource_fits a (On_OwnedSession _) \<longleftrightarrow> a \<in> {Do_ArchiveSession, Do_ReadSessionHistory}"
| "resource_fits a (On_Workflow _) \<longleftrightarrow> a = Do_StartWorkflow"
| "resource_fits a (On_OwnedRun _ _) \<longleftrightarrow> a \<in> {Do_ReadRun, Do_ReadEvents, Do_CancelRun, Do_ResumeRun, Do_AbortWaiting}"
| "resource_fits a (On_Approval _ _ _) \<longleftrightarrow> a \<in> {Do_ReadApprovalPreview, Do_DecideApproval}"
| "resource_fits a On_LegacyUnowned \<longleftrightarrow> False"

fun resource_owner :: "authorization_resource \<Rightarrow> principal_id option" where
  "resource_owner (On_OwnedSession owner) = Some owner"
| "resource_owner (On_OwnedRun _ owner) = Some owner"
| "resource_owner _ = None"

fun resource_workflow :: "authorization_resource \<Rightarrow> rust_string option" where
  "resource_workflow (On_Workflow w) = Some w"
| "resource_workflow (On_OwnedRun w _) = Some w"
| "resource_workflow (On_Approval w _ _) = Some w"
| "resource_workflow _ = None"

fun resource_requester :: "authorization_resource \<Rightarrow> principal_id option" where
  "resource_requester (On_Approval _ _ requester) = Some requester"
| "resource_requester _ = None"

definition policy_table ::
  "default_deny_policy \<Rightarrow> verified_principal \<Rightarrow> authorization_action \<Rightarrow> authorization_resource \<Rightarrow> bool" where
  "policy_table pol p a r \<longleftrightarrow>
     resource_fits a r \<and> needed_roles a \<inter> vp_roles p \<noteq> {}
     \<and> (\<forall>owner. resource_owner r = Some owner \<longrightarrow> vp_id p = owner)
     \<and> (\<forall>w. resource_workflow r = Some w \<longrightarrow> w \<in> pol_workflows pol)
     \<and> (\<forall>q. resource_requester r = Some q \<longrightarrow> pol_approval_separation pol = RequesterMayApprove \<or> vp_id p \<noteq> q)"

lemma authorize_request_table:
  "authorize_request pol p a r = Decision_Granted \<longleftrightarrow> policy_table pol p a r"
  by (cases r; cases a)
     (auto simp: authorize_request_def policy_table_def has_role_def workflow_allowed_def)

end
