(* ===== verification/Session_Store.thy ===== *)
theory Session_Store
  imports Identity Sqlite_Store "HOL-Library.Product_Lexorder"
begin

text \<open>
  The session tables and the read port of the SQLite store (\<^verbatim>\<open>agent-persistence-sqlite/src/lib.rs\<close>): ownership of sessions
  with titles and archiving, the summary of a run, pages of events and of waiting approvals. Sessions are kept in
  insertion order, the order of their row ids (rows are never deleted). \<open>io\<close> is the error of the SQLite library for a
  call, if any (for sessions this includes a database of another version). Identifiers are compared as values: the text form of a UUID has fixed length, so both orders agree.
  Listing the runs of a session by the row order of the runs table is not part of the model, whose runs table is a map.
\<close>

text \<open>\<^verbatim>\<open>slice::last\<close>.\<close>

definition last_option :: "'a list \<Rightarrow> 'a option" where
  "last_option xs = (if xs = [] then None else Some (last xs))"

section \<open>Session tables\<close>

record session_row =
  ssr_session_id :: session_id
  ssr_record :: "byte list"
  ssr_checksum :: "byte list"

record metadata_row =
  md_title :: "rust_string option"
  md_archived :: int

record session_tables =
  tb_sessions :: "session_row list"
  tb_metadata :: "session_id \<Rightarrow> metadata_row option"

text \<open>\<^verbatim>\<open>serde_json\<close> on ownership records, which skips title and archived, and SHA-256.\<close>

record session_codec =
  ses_to :: "session_ownership_record \<Rightarrow> byte list option"
  ses_from :: "byte list \<Rightarrow> session_ownership_record option"
  ses_sha256 :: "byte list \<Rightarrow> byte list"

definition session_codec_ok :: "session_codec \<Rightarrow> bool" where
  "session_codec_ok cd \<longleftrightarrow> (\<forall>r b. ses_to cd r = Some b \<longrightarrow> ses_from cd b = Some (set_metadata None False r))"

type_synonym session_io = "identity_store_error option"
type_synonym 'a stx = "(session_tables, identity_store_error, 'a) sx"

definition no_sessions :: session_tables where
  "no_sessions = \<lparr>tb_sessions = [], tb_metadata = (\<lambda>_. None)\<rparr>"

section \<open>Operations on sessions\<close>

definition find_session :: "session_id \<Rightarrow> session_tables \<Rightarrow> session_row option" where
  "find_session s tb = find (\<lambda>x. ssr_session_id x = s) (tb_sessions tb)"

definition create_session_ownership :: "session_codec \<Rightarrow> session_io \<Rightarrow> session_ownership_record \<Rightarrow> unit stx" where
  "create_session_ownership cd io r tb =
     (case io of
        Some e \<Rightarrow> (Inl e, tb)
      | None \<Rightarrow>
          (case ses_to cd r of
             None \<Rightarrow> (Inl IS_Corrupt, tb)
           | Some b \<Rightarrow>
               if find_session (so_session_id r) tb \<noteq> None then (Inl IS_Conflict, tb)
               else (Inr (), tb\<lparr>tb_sessions := tb_sessions tb @
                       [\<lparr>ssr_session_id = so_session_id r, ssr_record = b, ssr_checksum = ses_sha256 cd b\<rparr>]\<rparr>)))"

definition title_rejected :: "rust_string \<Rightarrow> bool" where
  "title_rejected t \<longleftrightarrow> t = [] \<or> str_len t > MAX_CONVERSATION_TITLE_BYTES \<or> list_ex is_control t"

definition load_session_metadata ::
  "session_id \<Rightarrow> session_tables \<Rightarrow> identity_store_error + rust_string option \<times> bool" where
  "load_session_metadata s tb =
     (let (title, archived) = (case tb_metadata tb s of None \<Rightarrow> (None, 0) | Some m \<Rightarrow> (md_title m, md_archived m)) in
      if archived \<notin> {0, 1} \<or> (case title of None \<Rightarrow> False | Some t \<Rightarrow> title_rejected t) then Inl IS_Corrupt
      else Inr (title, archived = 1))"

text \<open>A row as an ownership record with its metadata; the two loaders differ in the check of the session id.\<close>

definition read_session_row :: "session_codec \<Rightarrow> session_tables \<Rightarrow> session_row \<Rightarrow> identity_store_error + session_ownership_record" where
  "read_session_row cd tb row =
     res_then (check (ses_sha256 cd (ssr_record row) = ssr_checksum row) IS_Corrupt) (\<lambda>_.
     res_then (ok_or IS_Corrupt (ses_from cd (ssr_record row))) (\<lambda>r.
     res_then (check (so_session_id r = ssr_session_id row) IS_Corrupt) (\<lambda>_.
     res_then (load_session_metadata (so_session_id r) tb) (\<lambda>(title, archived).
     Inr (set_metadata title archived r)))))"

definition load_session_ownership ::
  "session_codec \<Rightarrow> session_io \<Rightarrow> session_id \<Rightarrow> session_tables \<Rightarrow> identity_store_error + session_ownership_record option" where
  "load_session_ownership cd io s tb =
     (case io of
        Some e \<Rightarrow> Inl e
      | None \<Rightarrow>
          (case find_session s tb of
             None \<Rightarrow> Inr None
           | Some row \<Rightarrow> res_then (read_session_row cd tb row) (\<lambda>r. Inr (Some r))))"

definition load_session_ownership_from_connection ::
  "session_codec \<Rightarrow> session_id \<Rightarrow> session_tables \<Rightarrow> identity_store_error + session_ownership_record option" where
  "load_session_ownership_from_connection cd s tb =
     (case find_session s tb of
        None \<Rightarrow> Inr None
      | Some row \<Rightarrow>
          res_then (check (ses_sha256 cd (ssr_record row) = ssr_checksum row) IS_Corrupt) (\<lambda>_.
          res_then (ok_or IS_Corrupt (ses_from cd (ssr_record row))) (\<lambda>r.
          res_then (load_session_metadata s tb) (\<lambda>(title, archived).
          Inr (Some (set_metadata title archived r))))))"

definition require_session_owner ::
  "session_codec \<Rightarrow> session_id \<Rightarrow> principal_id \<Rightarrow> session_tables \<Rightarrow> identity_store_error + unit" where
  "require_session_owner cd s owner tb =
     res_then (load_session_ownership_from_connection cd s tb) (\<lambda>found.
     res_then (ok_or IS_Conflict found) (\<lambda>r.
     check (so_owner r = owner \<and> \<not> so_archived r) IS_Conflict))"

text \<open>\<^verbatim>\<open>INSERT \<dots> ON CONFLICT DO UPDATE\<close> on the metadata; the transaction commits or leaves the tables as they are.\<close>

definition upsert_metadata ::
  "session_codec \<Rightarrow> session_io \<Rightarrow> session_id \<Rightarrow> principal_id \<Rightarrow> metadata_row \<Rightarrow> (metadata_row \<Rightarrow> metadata_row) \<Rightarrow> unit stx" where
  "upsert_metadata cd io s owner fresh f tb =
     (case io of
        Some e \<Rightarrow> (Inl e, tb)
      | None \<Rightarrow>
          (case require_session_owner cd s owner tb of
             Inl e \<Rightarrow> (Inl e, tb)
           | Inr _ \<Rightarrow>
               (Inr (), tb\<lparr>tb_metadata := (tb_metadata tb)
                  (s := Some (case tb_metadata tb s of None \<Rightarrow> fresh | Some m \<Rightarrow> f m))\<rparr>)))"

definition set_session_title_if_absent ::
  "session_codec \<Rightarrow> session_io \<Rightarrow> session_id \<Rightarrow> principal_id \<Rightarrow> rust_string \<Rightarrow> unit stx" where
  "set_session_title_if_absent cd io s owner title tb =
     (if title_rejected title then (Inl IS_Conflict, tb)
      else upsert_metadata cd io s owner \<lparr>md_title = Some title, md_archived = 0\<rparr>
             (\<lambda>m. m\<lparr>md_title := (case md_title m of None \<Rightarrow> Some title | Some t \<Rightarrow> Some t)\<rparr>) tb)"

definition archive_session_ownership :: "session_codec \<Rightarrow> session_io \<Rightarrow> session_id \<Rightarrow> principal_id \<Rightarrow> unit stx" where
  "archive_session_ownership cd io s owner tb =
     upsert_metadata cd io s owner \<lparr>md_title = None, md_archived = 1\<rparr> (\<lambda>m. m\<lparr>md_archived := 1\<rparr>) tb"

text \<open>The rows after a cursor, newest first, and the loop that collects one more than the limit.\<close>

definition rows_before :: "session_id option \<Rightarrow> session_row list \<Rightarrow> session_row list option" where
  "rows_before after rows =
     (case after of
        None \<Rightarrow> Some (rev rows)
      | Some s \<Rightarrow> if list_ex (\<lambda>x. ssr_session_id x = s) rows
                  then Some (rev (takeWhile (\<lambda>x. ssr_session_id x \<noteq> s) rows)) else None)"

fun collect_sessions ::
  "session_codec \<Rightarrow> session_tables \<Rightarrow> principal_id \<Rightarrow> nat \<Rightarrow> session_row list \<Rightarrow> session_ownership_record list \<Rightarrow>
   identity_store_error + session_ownership_record list" where
  "collect_sessions cd tb owner limit [] matching = Inr matching"
| "collect_sessions cd tb owner limit (row # rows) matching =
     res_then (read_session_row cd tb row) (\<lambda>r.
       if so_owner r = owner \<and> \<not> so_archived r
       then if length matching + 1 > limit then Inr (matching @ [r])
            else collect_sessions cd tb owner limit rows (matching @ [r])
       else collect_sessions cd tb owner limit rows matching)"

definition list_session_ownership ::
  "session_codec \<Rightarrow> session_io \<Rightarrow> principal_id \<Rightarrow> session_id option \<Rightarrow> u16 \<Rightarrow> session_tables \<Rightarrow>
   identity_store_error + session_ownership_page" where
  "list_session_ownership cd io owner after limit tb =
     res_then (check (limit \<noteq> 0 \<and> limit \<le> MAX_SESSION_PAGE_ITEMS) IS_Conflict) (\<lambda>_.
     (case io of
        Some e \<Rightarrow> Inl e
      | None \<Rightarrow>
          res_then (ok_or IS_Conflict (rows_before after (tb_sessions tb))) (\<lambda>rows.
          res_then (collect_sessions cd tb owner (unat limit) rows []) (\<lambda>matching.
            let items = take (unat limit) matching in
            Inr \<lparr>sp_items = items,
                 sp_next = (if length matching > unat limit then map_option so_session_id (last_option items) else None)\<rparr>))))"

section \<open>The read port\<close>

definition MAX_READ_PAGE_ITEMS :: u16 where "MAX_READ_PAGE_ITEMS = 256"

record durable_run_summary =
  rs_key :: run_key
  rs_recovery_contract :: recovery_contract
  rs_last_sequence :: "event_sequence option"
  rs_started_at :: "u64 option"
  rs_terminal :: bool
  rs_authorization :: "durable_run_authorization option"

record durable_run_page =
  rp_items :: "durable_run_summary list"
  rp_next :: "run_id option"

record durable_waiting_summary =
  ws_key :: run_key
  ws_wait_id :: durable_approval_wait_id
  ws_row_version :: u64
  ws_status :: durable_approval_status

record durable_waiting_page =
  wp_items :: "durable_waiting_summary list"
  wp_next :: "(run_id \<times> durable_approval_wait_id) option"

record durable_event_page =
  ep_events :: "agent_event list"
  ep_next :: "event_sequence option"

definition validate_page_limit :: "u16 \<Rightarrow> persistence_port_error + unit" where
  "validate_page_limit limit = check (limit \<noteq> 0 \<and> limit \<le> MAX_READ_PAGE_ITEMS) PE_Conflict"

text \<open>The version of the store; a foreign application id is an error of the library call.\<close>

definition validate_store_identity :: "sqlite_store \<Rightarrow> persistence_port_error + unit" where
  "validate_store_identity st = check (st_user_version st = CURRENT_STORE_SCHEMA_VERSION) PE_UnsupportedVersion"

definition run_started_at :: "store_codec \<Rightarrow> run_key \<Rightarrow> sqlite_store \<Rightarrow> persistence_port_error + u64 option" where
  "run_started_at sc k st =
     (case select_events (key_run_id k) st of
        [] \<Rightarrow> Inr None
      | row # _ \<Rightarrow>
          res_then (check (evr_schema_version row = CURRENT_EVENT_SCHEMA_VERSION
                           \<and> checksum sc (evr_payload row) = evr_checksum row) PE_Corrupt) (\<lambda>_.
          res_then (ok_or PE_Corrupt (event_from sc (evr_payload row))) (\<lambda>e.
          res_then (check (ev_run_id e = key_run_id k \<and> ev_sequence e = 0
                           \<and> evr_sequence row = encode_sequence (ev_sequence e)) PE_Corrupt) (\<lambda>_.
          case ev_kind e of Ev_RunStarted ts \<Rightarrow> Inr (Some ts) | _ \<Rightarrow> Inl PE_Corrupt))))"

definition find_run ::
  "store_codec \<Rightarrow> io \<Rightarrow> run_key \<Rightarrow> sqlite_store \<Rightarrow> persistence_port_error + durable_run_summary option" where
  "find_run sc io k st =
     (case io of
        Some e \<Rightarrow> Inl e
      | None \<Rightarrow>
          res_then (validate_store_identity st) (\<lambda>_.
          (case st_runs st (key_run_id k) of
             None \<Rightarrow> Inr None
           | Some row \<Rightarrow>
               res_then (check (row_session_id row = key_session_id k
                                \<and> checksum sc (row_record row) = row_record_checksum row
                                \<and> row_terminal row \<in> {0, 1}) PE_Corrupt) (\<lambda>_.
               res_then (ok_or PE_Corrupt (record_from sc (row_record row))) (\<lambda>r.
               res_then (check (rr_store_schema_version r = CURRENT_STORE_SCHEMA_VERSION
                                \<and> rr_checkpoint_schema_version r = CURRENT_CHECKPOINT_SCHEMA_VERSION)
                          PE_UnsupportedVersion) (\<lambda>_.
               res_then (check (rr_key r = k) PE_Corrupt) (\<lambda>_.
               res_then (decode_optional_sequence (row_last_sequence row)) (\<lambda>q.
               res_then (run_started_at sc k st) (\<lambda>started.
               Inr (Some \<lparr>rs_key = k, rs_recovery_contract = rr_recovery_contract r, rs_last_sequence = q,
                          rs_started_at = started, rs_terminal = (row_terminal row = 1),
                          rs_authorization = rr_authorization r\<rparr>))))))))))"

text \<open>The runs in the order of their identifiers, from a cursor on.\<close>

definition runs_after :: "run_id option \<Rightarrow> sqlite_store \<Rightarrow> run_id list" where
  "runs_after after st =
     sorted_list_of_set {r \<in> dom (st_runs st). case after of None \<Rightarrow> True | Some a \<Rightarrow> a < r}"

definition summarize_run :: "store_codec \<Rightarrow> sqlite_store \<Rightarrow> run_id \<Rightarrow> persistence_port_error + durable_run_summary" where
  "summarize_run sc st rid =
     (let row = the (st_runs st rid) in
      res_then (check (checksum sc (row_record row) = row_record_checksum row \<and> row_terminal row \<in> {0, 1}) PE_Corrupt) (\<lambda>_.
      res_then (ok_or PE_Corrupt (record_from sc (row_record row))) (\<lambda>r.
      res_then (check (key_run_id (rr_key r) = rid \<and> key_session_id (rr_key r) = row_session_id row) PE_Corrupt) (\<lambda>_.
      res_then (check (rr_store_schema_version r = CURRENT_STORE_SCHEMA_VERSION
                       \<and> rr_checkpoint_schema_version r = CURRENT_CHECKPOINT_SCHEMA_VERSION) PE_UnsupportedVersion) (\<lambda>_.
      res_then (decode_optional_sequence (row_last_sequence row)) (\<lambda>q.
      res_then (run_started_at sc (rr_key r) st) (\<lambda>started.
      Inr \<lparr>rs_key = rr_key r, rs_recovery_contract = rr_recovery_contract r, rs_last_sequence = q, rs_started_at = started,
           rs_terminal = (row_terminal row = 1), rs_authorization = rr_authorization r\<rparr>)))))))"

fun summarize_runs :: "store_codec \<Rightarrow> sqlite_store \<Rightarrow> run_id list \<Rightarrow> persistence_port_error + durable_run_summary list" where
  "summarize_runs sc st [] = Inr []"
| "summarize_runs sc st (r # rs) =
     res_then (summarize_run sc st r) (\<lambda>x. res_then (summarize_runs sc st rs) (\<lambda>xs. Inr (x # xs)))"

definition list_runs ::
  "store_codec \<Rightarrow> io \<Rightarrow> run_id option \<Rightarrow> u16 \<Rightarrow> sqlite_store \<Rightarrow> persistence_port_error + durable_run_page" where
  "list_runs sc io after limit st =
     res_then (validate_page_limit limit) (\<lambda>_.
     (case io of
        Some e \<Rightarrow> Inl e
      | None \<Rightarrow>
          res_then (validate_store_identity st) (\<lambda>_.
          let rows = take (unat limit + 1) (runs_after after st) in
          res_then (summarize_runs sc st (take (unat limit) rows)) (\<lambda>items.
          Inr \<lparr>rp_items = items,
               rp_next = (if length rows > unat limit then map_option (key_run_id \<circ> rs_key) (last_option items) else None)\<rparr>))))"

definition event_page :: "event_sequence option \<Rightarrow> nat \<Rightarrow> agent_event list \<Rightarrow> durable_event_page" where
  "event_page after limit es =
     (let matching = filter (\<lambda>e. case after of None \<Rightarrow> True | Some q \<Rightarrow> ev_sequence e > q) es;
          events = take limit matching
      in \<lparr>ep_events = events,
          ep_next = (if length matching > limit then map_option ev_sequence (last_option events) else None)\<rparr>)"

definition read_events ::
  "store_codec \<Rightarrow> io \<Rightarrow> run_key \<Rightarrow> event_sequence option \<Rightarrow> u16 \<Rightarrow> sqlite_store \<Rightarrow> persistence_port_error + durable_event_page" where
  "read_events sc io k after limit st =
     res_then (validate_page_limit limit) (\<lambda>_.
     res_then (load_run sc io k st) (\<lambda>loaded.
       let es = lr_events loaded in
       res_then (check (\<not> (case after of None \<Rightarrow> False | Some q \<Rightarrow> es = [] \<or> q > ev_sequence (last es))) PE_Conflict) (\<lambda>_.
       Inr (event_page after (unat limit) es))))"

fun load_waiting ::
  "store_codec \<Rightarrow> io \<Rightarrow> approval_row list \<Rightarrow> sqlite_store \<Rightarrow> persistence_port_error + durable_waiting_summary list" where
  "load_waiting sc io [] st = Inr []"
| "load_waiting sc io (row # rows) st =
     (let k = \<lparr>key_run_id = apr_run_id row, key_session_id = apr_session_id row\<rparr> in
      res_then (load_durable_approval_wait sc io k (apr_wait_id row) st) (\<lambda>r.
      res_then (load_waiting sc io rows st) (\<lambda>ws.
      Inr (\<lparr>ws_key = k, ws_wait_id = apr_wait_id row, ws_row_version = da_row_version r, ws_status = da_status r\<rparr> # ws))))"

definition waiting_after :: "(run_id \<times> durable_approval_wait_id) option \<Rightarrow> approval_row list \<Rightarrow> approval_row list" where
  "waiting_after after rows =
     sort_key (\<lambda>x. (apr_run_id x, apr_wait_id x))
       (filter (\<lambda>x. apr_status x \<noteq> status_code DA_Consumed
                  \<and> (case after of None \<Rightarrow> True | Some (r, w) \<Rightarrow> (r, w) < (apr_run_id x, apr_wait_id x))) rows)"

definition list_waiting ::
  "store_codec \<Rightarrow> io \<Rightarrow> (run_id \<times> durable_approval_wait_id) option \<Rightarrow> u16 \<Rightarrow> sqlite_store \<Rightarrow>
   persistence_port_error + durable_waiting_page" where
  "list_waiting sc io after limit st =
     res_then (validate_page_limit limit) (\<lambda>_.
     (case io of
        Some e \<Rightarrow> Inl e
      | None \<Rightarrow>
          res_then (validate_store_identity st) (\<lambda>_.
          let rows = take (unat limit + 1) (waiting_after after (st_approvals st)) in
          res_then (load_waiting sc io (take (unat limit) rows) st) (\<lambda>items.
          Inr \<lparr>wp_items = items,
               wp_next = (if length rows > unat limit
                 then map_option (\<lambda>w. (key_run_id (ws_key w), ws_wait_id w)) (last_option items) else None)\<rparr>))))"

end
