(* ===== verification/Service_Types.thy ===== *)
theory Service_Types
  imports Session_Store Durable_Resume
begin

text \<open>
  The data and the pure functions of the service, \<^verbatim>\<open>agent-service/src/lib.rs\<close>: checked identifiers and inputs, views of
  runs, titles of conversations, the identifier derived from a start request, and the projection of journal events. The
  text form of identifiers is left out: a correlation id is the identifier itself.
\<close>

unbundle bit_operations_syntax

definition MAX_RUN_INPUT_BYTES :: nat where "MAX_RUN_INPUT_BYTES = 8 * 1024"
definition MAX_ACTIVE_RUNS :: nat where "MAX_ACTIVE_RUNS = 32"
definition MAX_SESSIONS :: nat where "MAX_SESSIONS = 256"
definition MAX_APPLICATION_RESULTS :: nat where "MAX_APPLICATION_RESULTS = 256"
definition MAX_FINAL_ANSWER_BYTES :: nat where "MAX_FINAL_ANSWER_BYTES = 8 * 1024"
definition MAX_RESULT_CITATIONS :: nat where "MAX_RESULT_CITATIONS = 8"
definition MAX_CITATION_FIELD_BYTES :: nat where "MAX_CITATION_FIELD_BYTES = 512"
definition SERVICE_EVENT_VERSION :: u16 where "SERVICE_EVENT_VERSION = 2"

datatype (plugins only: code size) service_error =
  Svc_InvalidRequest | Svc_Unauthorized | Svc_NotFound | Svc_Conflict | Svc_Capacity | Svc_Draining | Svc_WorkflowUnavailable
| Svc_Configuration | Svc_LegacyUnowned | Svc_SecurityAudit | Svc_IdentityStore identity_store_error
| Svc_Harness harness_error | Svc_Persistence persistence_port_error | Svc_Context run_context_error

section \<open>Identifiers and inputs\<close>

type_synonym workflow_id = rust_string
type_synonym run_input = "byte list"

definition WorkflowId_new :: "rust_string \<Rightarrow> service_error + workflow_id" where
  "WorkflowId_new v =
     (if v = [] \<or> str_len v > 64 \<or> \<not> list_all (\<lambda>c. is_ascii_alphanumeric c \<or> c \<in> set (lit ''-_'')) v
      then Inl Svc_InvalidRequest else Inr v)"

definition WorkflowId_validate :: "workflow_id \<Rightarrow> service_error + unit" where
  "WorkflowId_validate v = map_sum id (\<lambda>_. ()) (WorkflowId_new v)"

definition RunInput_new :: "byte list \<Rightarrow> service_error + run_input" where
  "RunInput_new b = (if b = [] \<or> length b > MAX_RUN_INPUT_BYTES then Inl Svc_InvalidRequest else Inr b)"

definition validate_read_limit :: "u16 \<Rightarrow> service_error + unit" where
  "validate_read_limit limit = check (\<not> (limit = 0 \<or> limit > MAX_READ_PAGE_ITEMS)) Svc_InvalidRequest"

text \<open>\<^verbatim>\<open>Uuid::as_bytes\<close> and \<^verbatim>\<open>Uuid::from_bytes\<close>.\<close>

definition uuid_bytes :: "uuid \<Rightarrow> byte list" where
  "uuid_bytes u = map (\<lambda>i. ucast (drop_bit (8 * (15 - i)) u)) [0..<16]"

definition uuid_from_bytes :: "byte list \<Rightarrow> uuid" where
  "uuid_from_bytes bs = foldl (\<lambda>u b. push_bit 8 u OR ucast b) 0 bs"

definition derive_run_id :: "(byte list \<Rightarrow> digest) \<Rightarrow> session_id \<Rightarrow> uuid \<Rightarrow> run_id" where
  "derive_run_id sha session request =
     (let digest = sha (as_bytes (lit ''enterprise-local-agent/service-start/v1'') @ uuid_bytes session @ uuid_bytes request);
          bytes = take 16 digest;
          bytes = bytes[6 := (bytes ! 6 AND 0x0f) OR 0x50];
          bytes = bytes[8 := (bytes ! 8 AND 0x3f) OR 0x80]
      in uuid_from_bytes bytes)"

section \<open>Titles\<close>

text \<open>\<^verbatim>\<open>String::from_utf8_lossy\<close>: an ill-formed sequence is replaced by U+FFFD, as far as it could still become a scalar.\<close>

definition cont :: "byte \<Rightarrow> bool" where
  "cont b \<longleftrightarrow> 0x80 \<le> b \<and> b \<le> 0xBF"

definition second_ok :: "byte \<Rightarrow> byte \<Rightarrow> bool" where
  "second_ok a b \<longleftrightarrow>
     (if a = 0xE0 then 0xA0 \<le> b \<and> b \<le> 0xBF
      else if a = 0xED then 0x80 \<le> b \<and> b \<le> 0x9F
      else if a = 0xF0 then 0x90 \<le> b \<and> b \<le> 0xBF
      else if a = 0xF4 then 0x80 \<le> b \<and> b \<le> 0x8F
      else cont b)"

definition seq_len :: "byte \<Rightarrow> nat" where
  "seq_len a = (if a < 0x80 then 1 else if 0xC2 \<le> a \<and> a \<le> 0xDF then 2 else if 0xE0 \<le> a \<and> a \<le> 0xEF then 3
     else if 0xF0 \<le> a \<and> a \<le> 0xF4 then 4 else 0)"

text \<open>How many of the following bytes continue the sequence that starts with \<open>a\<close>.\<close>

definition good_tail :: "byte \<Rightarrow> byte list \<Rightarrow> nat" where
  "good_tail a bs =
     (case take (seq_len a - 1) bs of
        [] \<Rightarrow> 0
      | b # rest \<Rightarrow> if second_ok a b then Suc (length (takeWhile cont rest)) else 0)"

definition scalar_of :: "byte \<Rightarrow> byte list \<Rightarrow> nat" where
  "scalar_of a bs =
     foldl (\<lambda>v b. v * 64 + unat (b AND 0x3f))
       (unat (if seq_len a = 1 then a else if seq_len a = 2 then a AND 0x1f else if seq_len a = 3 then a AND 0x0f else a AND 0x07)) bs"

function from_utf8_lossy :: "byte list \<Rightarrow> rust_string" where
  "from_utf8_lossy [] = []"
| "from_utf8_lossy (a # bs) =
     (let n = good_tail a bs in
      if seq_len a = Suc n then scalar_of a (take n bs) # from_utf8_lossy (drop n bs)
      else 0xFFFD # from_utf8_lossy (drop n bs))"
  by pat_completeness auto
termination by (relation "measure length") auto

text \<open>\<^verbatim>\<open>str::split_whitespace\<close>.\<close>

fun split_whitespace :: "rust_string \<Rightarrow> rust_string \<Rightarrow> rust_string list" where
  "split_whitespace [] w = (if w = [] then [] else [w])"
| "split_whitespace (c # cs) w =
     (if is_whitespace c then (if w = [] then [] else [w]) @ split_whitespace cs [] else split_whitespace cs (w @ [c]))"

fun push_within :: "nat \<Rightarrow> rust_string \<Rightarrow> rust_string \<Rightarrow> rust_string" where
  "push_within limit [] title = title"
| "push_within limit (c # cs) title =
     (if str_len title + len_utf8 c > limit then title else push_within limit cs (title @ [c]))"

definition conversation_title_from_input :: "run_input \<Rightarrow> rust_string" where
  "conversation_title_from_input input =
     (let decoded = from_utf8_lossy input;
          collapsed = join_with 32 (split_whitespace (filter (\<lambda>c. \<not> is_control c \<or> is_whitespace c) decoded) []);
          title = push_within MAX_CONVERSATION_TITLE_BYTES collapsed []
      in if title = [] then lit ''New conversation'' else title)"

definition hex_digit :: "nat \<Rightarrow> nat" where
  "hex_digit n = (if n < 10 then 48 + n else 87 + n)"

definition conversation_title :: "session_id \<Rightarrow> rust_string" where
  "conversation_title s = lit ''Conversation '' @ map (\<lambda>i. hex_digit (unat (drop_bit (124 - 4 * i) s AND 15))) [0..<8]"

section \<open>Views\<close>

datatype (plugins only: code size) run_disposition_v1 =
  View_Starting | View_Running | View_Waiting | View_Resumable | View_Completed | View_Failed | View_ManualReconciliationRequired

datatype (plugins only: code size) run_outcome_v1 = Out_Completed | Out_Cancelled | Out_BudgetExceeded | Out_Failed

datatype (plugins only: code size) waiting_state_v1 = Wait_Waiting | Wait_Approved | Wait_Denied | Wait_Executing

record application_citation =
  ac_evidence_id :: rust_string
  ac_backend :: knowledge_backend_id
  ac_source_id :: rust_string
  ac_reference_id :: rust_string
  ac_provenance :: "rust_string option"

datatype (plugins only: code size) application_result =
  Result_FinalAnswer rust_string "application_citation list"
| Result_LocalWriteCompleted tool_call_id
| Result_ApprovalDenied

datatype (plugins only: code size) workflow_completion = NoApplicationResult | ApplicationResult application_result

datatype (plugins only: code size) workflow_error = Workflow_Failed | Workflow_NotRestartable

definition citation_field_rejected :: "rust_string \<Rightarrow> bool" where
  "citation_field_rejected v \<longleftrightarrow> v = [] \<or> str_len v > MAX_CITATION_FIELD_BYTES \<or> list_ex is_control v"

definition final_answer :: "rust_string \<Rightarrow> application_citation list \<Rightarrow> service_error + application_result" where
  "final_answer answer citations =
     (if answer = [] \<or> str_len answer > MAX_FINAL_ANSWER_BYTES \<or> length citations > MAX_RESULT_CITATIONS
         \<or> list_ex (\<lambda>c. list_ex citation_field_rejected
             ([ac_evidence_id c, ac_source_id c, ac_reference_id c] @ (case ac_provenance c of None \<Rightarrow> [] | Some v \<Rightarrow> [v]))) citations
      then Inl Svc_InvalidRequest else Inr (Result_FinalAnswer answer citations))"

record run_view =
  rv_session_id :: session_id
  rv_run_id :: run_id
  rv_disposition :: run_disposition_v1
  rv_last_sequence :: "u64 option"
  rv_outcome :: "run_outcome_v1 option"
  rv_workflow_id :: "workflow_id option"
  rv_result :: "application_result option"
  rv_duration_millis :: "u64 option"

record run_history_item =
  hi_run_id :: run_id
  hi_disposition :: run_disposition_v1
  hi_last_sequence :: "u64 option"
  hi_outcome :: "run_outcome_v1 option"
  hi_workflow_id :: "workflow_id option"
  hi_started_at :: "u64 option"
  hi_result_available :: bool

record waiting_approval_view =
  wv_session_id :: session_id
  wv_run_id :: run_id
  wv_wait_id :: durable_approval_wait_id
  wv_row_version :: u64
  wv_state :: waiting_state_v1

definition recovery_contract_of :: "recovery_disposition \<Rightarrow> recovery_contract option" where
  "recovery_contract_of d =
     (case d of
        Disp_Completed s \<Rightarrow> Some (ds_recovery_contract s)
      | Disp_TerminalFailure s _ \<Rightarrow> Some (ds_recovery_contract s)
      | Disp_Manual s _ \<Rightarrow> Some (ds_recovery_contract s)
      | Disp_Resumable _ _ c \<Rightarrow> Some c
      | Disp_Waiting _ _ c \<Rightarrow> Some c)"

fun disposition_kind :: "recovery_disposition \<Rightarrow> run_disposition_v1" where
  "disposition_kind (Disp_Completed _) = View_Completed"
| "disposition_kind (Disp_TerminalFailure _ _) = View_Failed"
| "disposition_kind (Disp_Resumable _ _ _) = View_Resumable"
| "disposition_kind (Disp_Waiting _ _ _) = View_Waiting"
| "disposition_kind (Disp_Manual _ _) = View_ManualReconciliationRequired"

fun service_outcome :: "run_outcome \<Rightarrow> run_outcome_v1" where
  "service_outcome Outcome_Completed = Out_Completed"
| "service_outcome Outcome_Cancelled = Out_Cancelled"
| "service_outcome (Outcome_BudgetExceeded _) = Out_BudgetExceeded"
| "service_outcome (Outcome_Failed _) = Out_Failed"

fun waiting_state :: "durable_approval_status \<Rightarrow> waiting_state_v1" where
  "waiting_state DA_Waiting = Wait_Waiting"
| "waiting_state DA_DecisionRecordedApprove = Wait_Approved"
| "waiting_state DA_ApprovedReady = Wait_Approved"
| "waiting_state DA_DecisionRecordedDeny = Wait_Denied"
| "waiting_state DA_Executing = Wait_Executing"
| "waiting_state DA_Consumed = Wait_Executing"

definition disposition_view :: "recovery_disposition \<Rightarrow> run_view" where
  "disposition_view d =
     (let s = disposition_state d;
          outcome = (case d of Disp_Completed _ \<Rightarrow> Some Out_Completed
                     | Disp_TerminalFailure _ o' \<Rightarrow> Some (service_outcome o') | _ \<Rightarrow> None)
      in \<lparr>rv_session_id = key_session_id (ds_key s), rv_run_id = key_run_id (ds_key s), rv_disposition = disposition_kind d,
          rv_last_sequence = ds_last_sequence s, rv_outcome = outcome, rv_workflow_id = None, rv_result = None,
          rv_duration_millis = None\<rparr>)"

definition project_legacy_unowned :: "bool \<Rightarrow> run_view \<Rightarrow> run_view" where
  "project_legacy_unowned unowned v =
     (if unowned \<and> rv_disposition v = View_Waiting then v\<lparr>rv_disposition := View_ManualReconciliationRequired\<rparr> else v)"

section \<open>Projection of events\<close>

datatype (plugins only: code size) service_event_category =
  Cat_Run | Cat_Model | Cat_Action | Cat_Tool | Cat_Approval | Cat_Containment | Cat_Knowledge | Cat_Loop | Cat_Graph | Cat_Audit

datatype (plugins only: code size) service_event_phase =
  Ph_Started | Ph_Completed | Ph_Failed | Ph_Proposed | Ph_Validated | Ph_Rejected | Ph_Bound | Ph_Denied | Ph_Granted
| Ph_Prepared | Ph_DecisionRecorded | Ph_Degraded | Ph_Progress | Ph_Suspended | Ph_Resumed | Ph_Finished

record service_event =
  sev_version :: u16
  sev_sequence :: u64
  sev_run_id :: run_id
  sev_category :: service_event_category
  sev_phase :: service_event_phase
  sev_correlation_id :: "uuid option"
  sev_workflow_id :: "workflow_id option"
  sev_knowledge_backends :: "knowledge_backend_id list"
  sev_graph_node_id :: "graph_node_id option"
  sev_budget_usage :: "u32 option"
  sev_budget_limit :: "u32 option"

fun classify_graph_event :: "graph_progress_event \<Rightarrow> service_event_category \<times> service_event_phase \<times> uuid option" where
  "classify_graph_event (GE_GraphStarted _ _ _ _) = (Cat_Graph, Ph_Started, None)"
| "classify_graph_event (GE_GraphNodeEntered _ _ _ _ _ _) = (Cat_Graph, Ph_Started, None)"
| "classify_graph_event (GE_GraphNodeRestarted _ _ _ _ _ _ _) = (Cat_Graph, Ph_Started, None)"
| "classify_graph_event (GE_GraphNodeCompleted _ _ _ _ _ _) = (Cat_Graph, Ph_Completed, None)"
| "classify_graph_event (GE_GraphCompleted _ _ _) = (Cat_Graph, Ph_Completed, None)"
| "classify_graph_event (GE_GraphSuspended _ _ wait _ _ _ _ _) = (Cat_Graph, Ph_Suspended, Some wait)"
| "classify_graph_event (GE_GraphResumed _ _ wait _) = (Cat_Graph, Ph_Resumed, Some wait)"
| "classify_graph_event (GE_GraphFailed _ _ _ _ _) = (Cat_Graph, Ph_Failed, None)"

fun classify_event :: "agent_event_kind \<Rightarrow> service_event_category \<times> service_event_phase \<times> uuid option" where
  "classify_event (Ev_RunStarted _) = (Cat_Run, Ph_Started, None)"
| "classify_event (Ev_RunFinished _) = (Cat_Run, Ph_Finished, None)"
| "classify_event Ev_AuditDegraded = (Cat_Audit, Ph_Degraded, None)"
| "classify_event (Ev_ModelInvocationStarted m _ _) = (Cat_Model, Ph_Started, Some m)"
| "classify_event (Ev_ModelInvocationCompleted m _) = (Cat_Model, Ph_Completed, Some m)"
| "classify_event (Ev_ModelInvocationFailed m) = (Cat_Model, Ph_Failed, Some m)"
| "classify_event (Ev_ActionProposed _ a _) = (Cat_Action, Ph_Proposed, Some a)"
| "classify_event (Ev_ActionValidated a) = (Cat_Action, Ph_Validated, Some a)"
| "classify_event (Ev_ActionRejected _ a _) = (Cat_Action, Ph_Rejected, Some a)"
| "classify_event (Ev_ActionExecutionBound _ t) = (Cat_Action, Ph_Bound, Some t)"
| "classify_event (Ev_ToolInvocationStarted t _ _ _ _) = (Cat_Tool, Ph_Started, Some t)"
| "classify_event (Ev_ToolInvocationCompleted t) = (Cat_Tool, Ph_Completed, Some t)"
| "classify_event (Ev_ToolInvocationDomainFailed t _) = (Cat_Tool, Ph_Failed, Some t)"
| "classify_event (Ev_ToolInvocationAdapterFailed t) = (Cat_Tool, Ph_Failed, Some t)"
| "classify_event (Ev_ToolPolicyDenied t _ _) = (Cat_Tool, Ph_Denied, Some t)"
| "classify_event (Ev_ApprovalRequested a _ _ _ _ _ _) = (Cat_Approval, Ph_Started, Some a)"
| "classify_event (Ev_ApprovalGranted a) = (Cat_Approval, Ph_Granted, Some a)"
| "classify_event (Ev_DurableApprovalGranted _ a) = (Cat_Approval, Ph_Granted, Some a)"
| "classify_event (Ev_ApprovalDenied a) = (Cat_Approval, Ph_Denied, Some a)"
| "classify_event (Ev_DurableApprovalDenied _ a) = (Cat_Approval, Ph_Denied, Some a)"
| "classify_event (Ev_ApprovalFailed a _) = (Cat_Approval, Ph_Failed, Some a)"
| "classify_event (Ev_DurableApprovalPrepared w _ _ _ _ _ _ _ _) = (Cat_Approval, Ph_Prepared, Some w)"
| "classify_event (Ev_DurableApprovalDecisionRecorded w _ _ _ _) = (Cat_Approval, Ph_DecisionRecorded, Some w)"
| "classify_event (Ev_ContainmentFailed t _ _ _) = (Cat_Containment, Ph_Failed, Some t)"
| "classify_event (Ev_KnowledgeRetrievalStarted r _ _ _) = (Cat_Knowledge, Ph_Started, Some r)"
| "classify_event (Ev_KnowledgeRetrievalRestarted _ r _ _ _) = (Cat_Knowledge, Ph_Started, Some r)"
| "classify_event (Ev_KnowledgeRetrievalCompleted r _ _ _ _ _ _) = (Cat_Knowledge, Ph_Completed, Some r)"
| "classify_event (Ev_KnowledgeRetrievalFailed r _) = (Cat_Knowledge, Ph_Failed, Some r)"
| "classify_event (Ev_ModelGroundingBound _ m _ _) = (Cat_Knowledge, Ph_Bound, Some m)"
| "classify_event (Ev_Loop _) = (Cat_Loop, Ph_Progress, None)"
| "classify_event (Ev_Graph g) = classify_graph_event g"

fun event_backends :: "agent_event_kind \<Rightarrow> knowledge_backend_id list" where
  "event_backends (Ev_KnowledgeRetrievalStarted _ route _ _) = route_backends route"
| "event_backends (Ev_KnowledgeRetrievalRestarted _ _ route _ _) = route_backends route"
| "event_backends _ = []"

fun event_node :: "agent_event_kind \<Rightarrow> graph_node_id option" where
  "event_node (Ev_Graph (GE_GraphStarted _ node _ _)) = Some node"
| "event_node (Ev_Graph (GE_GraphNodeEntered _ node _ _ _ _)) = Some node"
| "event_node (Ev_Graph (GE_GraphNodeRestarted _ _ node _ _ _ _)) = Some node"
| "event_node (Ev_Graph (GE_GraphNodeCompleted _ node _ _ _ _)) = Some node"
| "event_node (Ev_Graph (GE_GraphSuspended _ node _ _ _ _ _ _)) = Some node"
| "event_node (Ev_Graph (GE_GraphResumed _ node _ _)) = Some node"
| "event_node (Ev_Graph (GE_GraphCompleted _ node _)) = Some node"
| "event_node (Ev_Graph (GE_GraphFailed _ node _ _ _)) = Some node"
| "event_node _ = None"

fun event_budget :: "agent_event_kind \<Rightarrow> u32 option \<times> u32 option" where
  "event_budget (Ev_ModelInvocationStarted _ usage limit) = (Some usage, Some limit)"
| "event_budget (Ev_ToolInvocationStarted _ _ _ usage limit) = (Some usage, Some limit)"
| "event_budget (Ev_Graph (GE_GraphNodeEntered _ _ _ _ step limit)) = (Some step, Some limit)"
| "event_budget (Ev_Graph (GE_GraphNodeRestarted _ _ _ _ _ step limit)) = (Some step, Some limit)"
| "event_budget _ = (None, None)"

definition ServiceEventV2_new :: "agent_event \<Rightarrow> workflow_id option \<Rightarrow> service_event" where
  "ServiceEventV2_new e w =
     (let (category, phase, cid) = classify_event (ev_kind e); (usage, limit) = event_budget (ev_kind e) in
      \<lparr>sev_version = SERVICE_EVENT_VERSION, sev_sequence = ev_sequence e, sev_run_id = ev_run_id e, sev_category = category,
       sev_phase = phase, sev_correlation_id = cid, sev_workflow_id = w, sev_knowledge_backends = event_backends (ev_kind e),
       sev_graph_node_id = event_node (ev_kind e), sev_budget_usage = usage, sev_budget_limit = limit\<rparr>)"

end
