(* ===== verification/Processes.thy ===== *)
theory Processes
  imports Harness_Logic
begin

text \<open>
  Concurrent processes over a shared state. A process is a tree of atomic steps: an asynchronous function is cut at its awaits
  and at its accesses to shared data; what it does while it holds a lock is one step. Any number of processes
  run interleaved, step by step, in the order of an arbitrary schedule. The locale \<open>rely_guarantee\<close> carries a relation that every step of
  every process respects over all schedules, where a process may rely on what it has learnt, as long as no step of
  another process can undo it.
\<close>

section \<open>Processes\<close>

datatype (plugins only: size) ('s, 'e, 'a) proc =
  Return "'e + 'a"
| Step "'s \<Rightarrow> 's" "'s \<Rightarrow> ('s, 'e, 'a) proc"     \<comment> \<open>the new state, and how to go on, from the state before\<close>

primrec p_then :: "('s, 'e, 'a) proc \<Rightarrow> ('a \<Rightarrow> ('s, 'e, 'b) proc) \<Rightarrow> ('s, 'e, 'b) proc" where
  "p_then (Return r) k = (case r of Inl e \<Rightarrow> Return (Inl e) | Inr x \<Rightarrow> k x)"
| "p_then (Step g c) k = Step g (\<lambda>s. p_then (c s) k)"

primrec p_result :: "('s, 'e, 'a) proc \<Rightarrow> ('e + 'a \<Rightarrow> ('s, 'e, 'b) proc) \<Rightarrow> ('s, 'e, 'b) proc" where
  "p_result (Return r) k = k r"
| "p_result (Step g c) k = Step g (\<lambda>s. p_result (c s) k)"

definition p_ok :: "'a \<Rightarrow> ('s, 'e, 'a) proc" where
  "p_ok x = Return (Inr x)"

definition p_err :: "'e \<Rightarrow> ('s, 'e, 'a) proc" where
  "p_err e = Return (Inl e)"

definition p_require :: "bool \<Rightarrow> 'e \<Rightarrow> ('s, 'e, unit) proc" where
  "p_require b e = (if b then p_ok () else p_err e)"

text \<open>A computation as one step.\<close>

definition atomic :: "('s, 'e, 'a) sx \<Rightarrow> ('s, 'e, 'a) proc" where
  "atomic m = Step (\<lambda>s. snd (m s)) (\<lambda>s. Return (fst (m s)))"

definition p_gets :: "('s \<Rightarrow> 'a) \<Rightarrow> ('s, 'e, 'a) proc" where
  "p_gets f = atomic (gets f)"

definition p_modify :: "('s \<Rightarrow> 's) \<Rightarrow> ('s, 'e, unit) proc" where
  "p_modify f = atomic (modify f)"

text \<open>A process whose result nobody waits for.\<close>

definition forget :: "('s, 'e, 'a) proc \<Rightarrow> ('s, 'e, unit) proc" where
  "forget m = p_result m (\<lambda>_. p_ok ())"

section \<open>Running alone and interleaved\<close>

primrec run_alone :: "('s, 'e, 'a) proc \<Rightarrow> ('s, 'e, 'a) sx" where
  "run_alone (Return r) = (\<lambda>s. (r, s))"
| "run_alone (Step g c) = (\<lambda>s. run_alone (c s) (g s))"

text \<open>One step of process \<open>n\<close>, which is started when its first turn comes; and a schedule, the numbers of the processes by turn.\<close>

definition turn ::
  "(nat \<Rightarrow> ('s, 'e, 'a) proc) \<Rightarrow> nat \<Rightarrow> (nat \<Rightarrow> ('s, 'e, 'a) proc option) \<times> 's \<Rightarrow> (nat \<Rightarrow> ('s, 'e, 'a) proc option) \<times> 's" where
  "turn jobs n = (\<lambda>(pool, s).
     (case (case pool n of Some m \<Rightarrow> m | None \<Rightarrow> jobs n) of
        Return r \<Rightarrow> (pool(n \<mapsto> Return r), s)
      | Step g c \<Rightarrow> (pool(n \<mapsto> c s), g s)))"

definition interleave ::
  "(nat \<Rightarrow> ('s, 'e, 'a) proc) \<Rightarrow> nat list \<Rightarrow> 's \<Rightarrow> (nat \<Rightarrow> ('s, 'e, 'a) proc option) \<times> 's" where
  "interleave jobs schedule s = fold (turn jobs) schedule (\<lambda>_. None, s)"

lemma run_then [simp]: "run_alone (p_then m k) = and_then (run_alone m) (\<lambda>x. run_alone (k x))"
proof (induction m)
  case (Return r)
  show ?case by (rule ext, cases r) (simp_all add: and_then_apply)
next
  case (Step g c)
  then show ?case by (simp add: fun_eq_iff and_then_apply)
qed

lemma run_result [simp]: "run_alone (p_result m k) = on_result (run_alone m) (\<lambda>r. run_alone (k r))"
proof (induction m)
  case (Return r)
  show ?case by (simp add: fun_eq_iff on_result_apply)
next
  case (Step g c)
  then show ?case by (simp add: fun_eq_iff on_result_apply)
qed

lemma run_simple [simp]:
  "run_alone (atomic m) = m" "run_alone (p_ok x) = ok x" "run_alone (p_err e) = err e" "run_alone (p_require b e) = require b e"
  "run_alone (p_gets f) = gets f" "run_alone (p_modify h) = modify h"
  by (simp_all add: fun_eq_iff atomic_def p_ok_def p_err_def p_require_def require_def p_gets_def p_modify_def)

lemma run_cases [simp]:
  "run_alone (if b then m else m') = (if b then run_alone m else run_alone m')"
  "run_alone (case v of None \<Rightarrow> m | Some x \<Rightarrow> f x) = (case v of None \<Rightarrow> run_alone m | Some x \<Rightarrow> run_alone (f x))"
  "run_alone (case w of Inl e \<Rightarrow> h e | Inr y \<Rightarrow> k y) = (case w of Inl e \<Rightarrow> run_alone (h e) | Inr y \<Rightarrow> run_alone (k y))"
  "run_alone (case z of (x', y') \<Rightarrow> j x' y') = (case z of (x', y') \<Rightarrow> run_alone (j x' y'))"
  by (cases v; cases w; cases z; simp)+

lemma run_forget: "snd (run_alone (forget m) s) = snd (run_alone m s)"
  by (simp add: forget_def on_result_apply split: prod.split)

text \<open>A process that is alone runs to its end.\<close>

lemma turns_alone:
  assumes "pool n = Some m \<or> pool n = None \<and> m = jobs n"
  shows "\<exists>k. snd (fold (turn jobs) (replicate k n) (pool, s)) = snd (run_alone m s)"
  using assms
proof (induction m arbitrary: pool s)
  case (Return r)
  show ?case by (rule exI [of _ 0]) simp
next
  case (Step g c)
  have "turn jobs n (pool, s) = (pool(n \<mapsto> c s), g s)"
  proof -
    have "(case pool n of Some m \<Rightarrow> m | None \<Rightarrow> jobs n) = Step g c" using Step.prems by (auto split: option.split)
    then show ?thesis by (simp add: turn_def)
  qed
  moreover obtain k where "snd (fold (turn jobs) (replicate k n) (pool(n \<mapsto> c s), g s)) = snd (run_alone (c s) (g s))"
    using Step.IH [of "c s" "pool(n \<mapsto> c s)" "g s", OF rangeI] by (auto simp del: fun_upd_apply simp: fun_upd_same)
  ultimately show ?case by (intro exI [of _ "Suc k"]) simp
qed

section \<open>Rely and guarantee\<close>

locale rely_guarantee = frame_relation R for R :: "'s \<Rightarrow> 's \<Rightarrow> bool" +
  fixes knows :: "nat \<Rightarrow> 'k \<Rightarrow> 's \<Rightarrow> bool" and nothing :: 'k
  assumes stable: "R s t \<Longrightarrow> knows n K s \<Longrightarrow> knows n K t"
begin

text \<open>
  Process \<open>n\<close> goes on from knowledge \<open>K\<close>: each of its steps respects \<open>R\<close> in every state in which its knowledge
  holds, and it knows something afterwards from which it goes on; it ends with a result and a knowledge that satisfy \<open>Q\<close>.
\<close>

primrec goes :: "nat \<Rightarrow> ('s, 'e, 'a) proc \<Rightarrow> 'k \<Rightarrow> ('e + 'a \<Rightarrow> 'k \<Rightarrow> bool) \<Rightarrow> bool" where
  "goes n (Return r) = (\<lambda>K Q. Q r K)"
| "goes n (Step g c) = (\<lambda>K Q. \<forall>s. knows n K s \<longrightarrow> R s (g s) \<and> (\<exists>L. knows n L (g s) \<and> goes n (c s) L Q))"

lemma goes_mono: "goes n m K Q \<Longrightarrow> (\<And>r L. Q r L \<Longrightarrow> Q' r L) \<Longrightarrow> goes n m K Q'"
  by (induction m arbitrary: K) (simp, fastforce)

lemma goes_then:
  "goes n m K (\<lambda>r L. case r of Inl e \<Rightarrow> Q (Inl e) L | Inr x \<Rightarrow> goes n (k x) L Q) \<Longrightarrow> goes n (p_then m k) K Q"
proof (induction m arbitrary: K)
  case (Return r)
  then show ?case by (cases r) simp_all
next
  case (Step g c)
  then show ?case by simp blast
qed

lemma goes_result: "goes n m K (\<lambda>r L. goes n (k r) L Q) \<Longrightarrow> goes n (p_result m k) K Q"
proof (induction m arbitrary: K)
  case (Step g c)
  then show ?case by simp blast
qed simp

lemma goes_atomic:
  "(\<And>s. knows n K s \<Longrightarrow> R s (snd (m s)) \<and> (\<exists>L. knows n L (snd (m s)) \<and> Q (fst (m s)) L)) \<Longrightarrow> goes n (atomic m) K Q"
  by (simp add: atomic_def)

text \<open>Processes that learn nothing, and processes that go on whatever they return.\<close>

definition plain :: "nat \<Rightarrow> ('s, 'e, 'a) proc \<Rightarrow> bool" where
  "plain n m \<longleftrightarrow> (\<forall>K. goes n m K (\<lambda>_ L. L = K))"

definition safe :: "nat \<Rightarrow> 'k \<Rightarrow> ('s, 'e, 'a) proc \<Rightarrow> bool" where
  "safe n K m \<longleftrightarrow> goes n m K (\<lambda>_ _. True)"

lemma plain_atomic: "(\<And>s. R s (snd (m s))) \<Longrightarrow> plain n (atomic m)"
  unfolding plain_def by (intro allI goes_atomic) (use stable in blast)

lemma plain_simple: "plain n (Return r)" "plain n (p_ok x)" "plain n (p_err e)" "plain n (p_require b e)" "plain n (p_gets f)"
  by (simp_all add: plain_def p_ok_def p_err_def p_require_def p_gets_def atomic_def refl)

lemma plain_goes: "plain n m \<Longrightarrow> (\<And>r. Q r K) \<Longrightarrow> goes n m K Q"
  unfolding plain_def by (rule goes_mono [of n m K "\<lambda>_ L. L = K"]) auto

lemma plain_then: "plain n m \<Longrightarrow> (\<And>x. plain n (k x)) \<Longrightarrow> plain n (p_then m k)"
  unfolding plain_def [of n "p_then m k"]
  by (intro allI goes_then plain_goes) (auto simp: plain_def split: sum.split)

lemma plain_result: "plain n m \<Longrightarrow> (\<And>r. plain n (k r)) \<Longrightarrow> plain n (p_result m k)"
  unfolding plain_def [of n "p_result m k"] by (intro allI goes_result plain_goes) (auto simp: plain_def)

lemma plain_cases:
  "(b \<Longrightarrow> plain n m) \<Longrightarrow> (\<not> b \<Longrightarrow> plain n m') \<Longrightarrow> plain n (if b then m else m')"
  "plain n m \<Longrightarrow> (\<And>x. plain n (f x)) \<Longrightarrow> plain n (case v of None \<Rightarrow> m | Some x \<Rightarrow> f x)"
  "(\<And>e. plain n (h e)) \<Longrightarrow> (\<And>y. plain n (j y)) \<Longrightarrow> plain n (case w of Inl e \<Rightarrow> h e | Inr y \<Rightarrow> j y)"
  "(\<And>x y. plain n (l x y)) \<Longrightarrow> plain n (case z of (x, y) \<Rightarrow> l x y)"
  "plain n m \<Longrightarrow> (\<And>x xs. plain n (i x xs)) \<Longrightarrow> plain n (case us of [] \<Rightarrow> m | x # xs \<Rightarrow> i x xs)"
  by (simp_all split: option.split sum.split prod.split list.split)

lemmas plain_rules = plain_simple plain_then plain_result plain_cases

lemma safe_plain: "plain n m \<Longrightarrow> safe n K m"
  unfolding safe_def by (rule plain_goes) simp_all

lemma safe_then: "plain n m \<Longrightarrow> (\<And>x. safe n K (k x)) \<Longrightarrow> safe n K (p_then m k)"
  unfolding safe_def by (intro goes_then plain_goes) (auto split: sum.split)

lemma safe_result: "plain n m \<Longrightarrow> (\<And>r. safe n K (k r)) \<Longrightarrow> safe n K (p_result m k)"
  unfolding safe_def by (rule goes_result, rule plain_goes)

lemma safe_cases:
  "(b \<Longrightarrow> safe n K m) \<Longrightarrow> (\<not> b \<Longrightarrow> safe n K m') \<Longrightarrow> safe n K (if b then m else m')"
  "safe n K m \<Longrightarrow> (\<And>x. safe n K (f x)) \<Longrightarrow> safe n K (case v of None \<Rightarrow> m | Some x \<Rightarrow> f x)"
  "(\<And>e. safe n K (h e)) \<Longrightarrow> (\<And>y. safe n K (j y)) \<Longrightarrow> safe n K (case w of Inl e \<Rightarrow> h e | Inr y \<Rightarrow> j y)"
  "(\<And>x y. safe n K (l x y)) \<Longrightarrow> safe n K (case z of (x, y) \<Rightarrow> l x y)"
  by (simp_all split: option.split sum.split prod.split)

lemma safe_require: "(b \<Longrightarrow> safe n K (k ())) \<Longrightarrow> safe n K (p_then (p_require b e) k)"
  by (cases b) (simp_all add: p_require_def p_ok_def p_err_def safe_def)

lemma safe_return: "(\<And>x. r = Inr x \<Longrightarrow> safe n K (k x)) \<Longrightarrow> safe n K (p_then (Return r) k)"
  by (cases r) (simp_all add: safe_def)

text \<open>What a step teaches.\<close>

definition learns :: "nat \<Rightarrow> ('s, 'e, 'a) proc \<Rightarrow> 'k \<Rightarrow> ('a \<Rightarrow> 'k) \<Rightarrow> bool" where
  "learns n m K F \<longleftrightarrow> goes n m K (\<lambda>r L. case r of Inl _ \<Rightarrow> True | Inr x \<Rightarrow> L = F x)"

lemma learn_then: "learns n m K F \<Longrightarrow> (\<And>x. safe n (F x) (k x)) \<Longrightarrow> safe n K (p_then m k)"
  unfolding safe_def learns_def by (rule goes_then, erule goes_mono) (auto split: sum.split)

lemma learns_then: "learns n m K F \<Longrightarrow> (\<And>x. learns n (k x) (F x) G) \<Longrightarrow> learns n (p_then m k) K G"
  unfolding learns_def [of n m] learns_def [of n "p_then m k"]
proof (rule goes_then, erule goes_mono)
  fix r L assume k: "\<And>x. learns n (k x) (F x) G" and r: "case r of Inl _ \<Rightarrow> True | Inr x \<Rightarrow> L = F x"
  show "case r of Inl e \<Rightarrow> (case Inl e of Inl _ \<Rightarrow> True | Inr x \<Rightarrow> L = G x)
      | Inr x \<Rightarrow> goes n (k x) L (\<lambda>r L. case r of Inl _ \<Rightarrow> True | Inr x \<Rightarrow> L = G x)"
    using k r by (cases r) (simp_all add: learns_def)
qed

lemma learns_plain: "plain n m \<Longrightarrow> learns n m K (\<lambda>_. K)"
  unfolding learns_def by (rule plain_goes) (simp_all split: sum.split)

lemma forget_safe: "safe n K m \<Longrightarrow> safe n K (forget m)"
  unfolding safe_def forget_def p_ok_def by (rule goes_result, erule goes_mono) simp

text \<open>Whatever the schedule, safe processes respect the relation, at every moment.\<close>

definition going :: "(nat \<Rightarrow> ('s, 'e, 'a) proc) \<Rightarrow> (nat \<Rightarrow> ('s, 'e, 'a) proc option) \<Rightarrow> 's \<Rightarrow> bool" where
  "going jobs pool s \<longleftrightarrow>
     (\<forall>n. \<exists>K. knows n K s \<and> safe n K (case pool n of Some m \<Rightarrow> m | None \<Rightarrow> jobs n))"

lemma turn_keeps:
  assumes "going jobs pool s" "turn jobs n (pool, s) = (pool', t)"
  shows "R s t \<and> going jobs pool' t"
proof -
  obtain K where K: "knows n K s" "safe n K (case pool n of Some m \<Rightarrow> m | None \<Rightarrow> jobs n)"
    using assms(1) unfolding going_def by blast
  have others: "\<exists>K. knows i K t \<and> safe i K (case pool i of Some m \<Rightarrow> m | None \<Rightarrow> jobs i)" if "R s t" for i
    using assms(1) stable [OF that] unfolding going_def by blast
  show ?thesis
  proof (cases "case pool n of Some m \<Rightarrow> m | None \<Rightarrow> jobs n")
    case (Return r)
    with assms(2) have "t = s" "pool' = pool(n \<mapsto> Return r)" by (simp_all add: turn_def)
    with others [unfolded \<open>t = s\<close>, OF refl] K Return show ?thesis by (auto simp: going_def refl)
  next
    case (Step g c)
    with assms(2) have t: "t = g s" "pool' = pool(n \<mapsto> c s)" by (simp_all add: turn_def)
    from K Step obtain L where "R s t" "knows n L t" "safe n L (c s)" by (auto simp: safe_def t)
    with others [OF this(1)] t(2) show ?thesis by (auto simp: going_def)
  qed
qed

lemma interleave_keeps:
  assumes "\<And>n. safe n nothing (jobs n)" "\<And>n. knows n nothing s"
  shows "R s (snd (interleave jobs schedule s))"
proof -
  have "R s (snd x) \<and> going jobs (fst x) (snd x) \<Longrightarrow>
      R s (snd (fold (turn jobs) ns x)) \<and> going jobs (fst (fold (turn jobs) ns x)) (snd (fold (turn jobs) ns x))" for x ns
  proof (induction ns arbitrary: x)
    case (Cons n ns)
    obtain pool' t where x: "turn jobs n x = (pool', t)" by fastforce
    with turn_keeps [of jobs "fst x" "snd x" n pool' t] Cons.prems have "R s t \<and> going jobs pool' t"
      using trans by (metis prod.collapse)
    with Cons.IH [of "(pool', t)"] x show ?case by simp
  qed simp
  moreover have "going jobs (\<lambda>_. None) s" unfolding going_def using assms by auto
  ultimately show ?thesis using refl [of s] by (simp add: interleave_def)
qed

end

end
