(* ===== verification/Service.thy ===== *)
theory Service
  imports Service_Types Processes "HOL-Library.AList"
begin

text \<open>
  The service (\<^verbatim>\<open>agent-service/src/lib.rs\<close>): sessions, runs and approvals for authenticated principals. A request is a
  process over the shared state of the service (\<open>Processes\<close>): it is cut at every await and at every access to shared data, and any
  number of requests and background tasks run interleaved. A section under a lock is one step, and so is a call of the
  harness or of the store. Answers of the outside (audit port, database I/O, clocks, fresh identifiers) are given by tick.
  Configured workflows are parameters, themselves cut into steps on the context of their run and the database; so is the
  listing of the runs of a session by the read port. Background tasks are kept in \<open>ss_tasks\<close> until a process takes one of them.
  The trace records, with the number of the process, the reads of authorizations, the answers of the policy, the security audit and
  the mutations, in order.
\<close>

section \<open>State\<close>

record active_run =
  ar_key :: run_key
  ar_disposition :: run_disposition_v1
  ar_cancellation :: bool            \<comment> \<open>a handle is there\<close>
  ar_workflow_id :: workflow_id
  ar_started_at :: instant

record stored_application_result =
  sr_result :: application_result
  sr_duration_millis :: u64

datatype (plugins only: code size) mutation =
  Mut_CreateSession session_id
| Mut_SetTitle session_id workflow_id
| Mut_ArchiveSession session_id
| Mut_StartRun run_key workflow_id
| Mut_CancelRun run_key
| Mut_DecideApproval run_key durable_approval_wait_id
| Mut_AbortWaiting run_key durable_approval_wait_id
| Mut_ResumeRun run_key "durable_approval_wait_id option"

datatype (plugins only: code size) service_entry =
  Sv_Owner run_key durable_run_authorization                              \<comment> \<open>read from the store\<close>
| Sv_SessionOwner session_id principal_id bool                              \<comment> \<open>read from the store; archived\<close>
| Sv_Granted verified_principal authorization_action authorization_resource       \<comment> \<open>by the policy\<close>
| Sv_Audited security_audit_event
| Sv_Mutated verified_principal authorization_action mutation

text \<open>A workflow at work: steps on the context of its run and the database.\<close>

datatype (plugins only: size) workflow_process =
  Wf_Done "workflow_error + workflow_completion"
| Wf_Step "harness_state \<Rightarrow> harness_state" "harness_state \<Rightarrow> workflow_process"

record configured_workflow =
  wf_id :: workflow_id
  wf_budget :: run_budget
  wf_recovery_contract :: recovery_contract
  wf_validate_input :: "run_input \<Rightarrow> bool"
  wf_new_context :: "run_key \<Rightarrow> run_context"
  wf_run :: "run_input \<Rightarrow> workflow_process"
  wf_resume_waiting :: "durable_run_state \<Rightarrow> durable_approval_wait_id \<Rightarrow> workflow_process"
  wf_resume_recovered :: "durable_run_state \<Rightarrow> workflow_process"

datatype (plugins only: size) service_task =
  Task_Run configured_workflow run_context run_input run_key
| Task_Resume configured_workflow recovery_disposition "durable_approval_wait_id option" run_key

record service_state =
  ss_sessions :: "session_id list"
  ss_active :: "(session_id \<times> active_run) list"
  ss_results :: "(run_key \<times> stored_application_result) list"
  ss_draining :: bool
  ss_tasks :: "service_task list"      \<comment> \<open>spawned, not yet begun\<close>
  ss_running :: nat                     \<comment> \<open>begun, not yet ended\<close>
  ss_tables :: session_tables
  ss_store :: sqlite_store
  ss_tick :: nat
  ss_trace :: "(nat \<times> service_entry) list"

type_synonym 'a sm = "(service_state, service_error, 'a) sx"
type_synonym 'a sp = "(service_state, service_error, 'a) proc"

record service_env =
  sv_harness :: harness_env
  sv_seal :: seal_env
  sv_authorize :: "verified_principal \<Rightarrow> authorization_action \<Rightarrow> authorization_resource \<Rightarrow> service_decision"
  sv_policy_version :: u32
  sv_policy_fingerprint :: digest
  sv_audit :: "nat \<Rightarrow> security_audit_event \<Rightarrow> bool"
  sv_session_codec :: session_codec
  sv_session_io :: "nat \<Rightarrow> session_io"
  sv_workflows :: "configured_workflow list"
  sv_sha256 :: "byte list \<Rightarrow> digest"
  sv_list_session_runs :: "nat \<Rightarrow> sqlite_store \<Rightarrow> session_id \<Rightarrow> run_id option \<Rightarrow> u16 \<Rightarrow> persistence_port_error + durable_run_page"
  sv_process :: nat            \<comment> \<open>the number of the process\<close>

section \<open>Steps\<close>

definition tick :: "service_state \<Rightarrow> service_state" where
  "tick s = s\<lparr>ss_tick := Suc (ss_tick s)\<rparr>"

text \<open>An await: the answer for this tick.\<close>

definition await :: "service_env \<Rightarrow> (nat \<Rightarrow> 'a) \<Rightarrow> 'a sp" where
  "await env f = atomic (\<lambda>s. (Inr (f (ss_tick s)), tick s))"

definition note_entry :: "service_env \<Rightarrow> service_entry \<Rightarrow> unit sp" where
  "note_entry env e = p_modify (\<lambda>s. s\<lparr>ss_trace := ss_trace s @ [(sv_process env, e)]\<rparr>)"

text \<open>Acquiring a lock is an await; the section under the lock is one step.\<close>

definition locked :: "service_env \<Rightarrow> 'a sm \<Rightarrow> 'a sp" where
  "locked env m = p_then (await env (\<lambda>_. ())) (\<lambda>_. atomic m)"

definition find_active :: "session_id \<Rightarrow> service_state \<Rightarrow> active_run option" where
  "find_active sid s = map_of (ss_active s) sid"

definition remove_active :: "service_env \<Rightarrow> session_id \<Rightarrow> unit sp" where
  "remove_active env sid = locked env (modify (\<lambda>s. s\<lparr>ss_active := AList.delete sid (ss_active s)\<rparr>))"

text \<open>A call on the session tables, a harness operation with a context, a workflow, and a read, on the database and the ticks of the service.\<close>

definition session_call :: "service_env \<Rightarrow> (session_io \<Rightarrow> 'a stx) \<Rightarrow> 'a sp" where
  "session_call env f = atomic (\<lambda>s.
     (let (r, tb) = f (sv_session_io env (ss_tick s)) (ss_tables s) in
      (map_sum Svc_IdentityStore id r, tick (s\<lparr>ss_tables := tb\<rparr>))))"

definition harness_view :: "run_context \<Rightarrow> service_state \<Rightarrow> harness_state" where
  "harness_view ctx s = \<lparr>hs_ctx = ctx, hs_store = ss_store s, hs_tick = ss_tick s, hs_trace = []\<rparr>"

definition after_harness :: "harness_state \<Rightarrow> service_state \<Rightarrow> service_state" where
  "after_harness h s = s\<lparr>ss_store := hs_store h, ss_tick := Suc (hs_tick h)\<rparr>"

definition run_harness :: "service_env \<Rightarrow> run_context \<Rightarrow> (harness_state \<Rightarrow> 'r \<times> harness_state) \<Rightarrow> ('r \<times> run_context) sp" where
  "run_harness env ctx m = atomic (\<lambda>s.
     (let (r, h) = m (harness_view ctx s) in (Inr (r, hs_ctx h), after_harness h s)))"

primrec run_workflow :: "workflow_process \<Rightarrow> run_context \<Rightarrow> (workflow_error + workflow_completion) sp" where
  "run_workflow (Wf_Done r) = (\<lambda>ctx. p_ok r)"
| "run_workflow (Wf_Step g c) = (\<lambda>ctx.
     Step (\<lambda>s. after_harness (g (harness_view ctx s)) s)
          (\<lambda>s. run_workflow (c (harness_view ctx s)) (hs_ctx (g (harness_view ctx s)))))"

definition read_store :: "service_env \<Rightarrow> (nat \<Rightarrow> sqlite_store \<Rightarrow> service_error + 'a) \<Rightarrow> 'a sp" where
  "read_store env f = atomic (\<lambda>s. (f (ss_tick s) (ss_store s), tick s))"

definition recover :: "service_env \<Rightarrow> run_key \<Rightarrow> recovery_disposition sp" where
  "recover env k =
     read_store env (\<lambda>t st. let h = sv_harness env in
       map_sum Svc_Harness id (recover_run h (he_io h t) (he_wall h t) (he_now h t) k st))"

definition find_run_summary :: "service_env \<Rightarrow> run_key \<Rightarrow> durable_run_summary option sp" where
  "find_run_summary env k =
     read_store env (\<lambda>t st. let h = sv_harness env in
       map_sum Svc_Persistence id (find_run (he_store_codec h) (he_io h t) k st))"

definition runs_page :: "service_env \<Rightarrow> run_id option \<Rightarrow> u16 \<Rightarrow> durable_run_page sp" where
  "runs_page env after limit =
     read_store env (\<lambda>t st. let h = sv_harness env in
       map_sum Svc_Persistence id (list_runs (he_store_codec h) (he_io h t) after limit st))"

section \<open>Authorization and audit\<close>

definition ensure_serving :: "unit sm" where
  "ensure_serving = and_then (gets ss_draining) (\<lambda>d. require (\<not> d) Svc_Draining)"

definition authorize :: "service_env \<Rightarrow> verified_principal \<Rightarrow> authorization_action \<Rightarrow> authorization_resource \<Rightarrow> unit sp" where
  "authorize env p a r =
     (if sv_authorize env p a r = Decision_Granted then note_entry env (Sv_Granted p a r) else p_err Svc_Unauthorized)"

definition audit_security ::
  "service_env \<Rightarrow> verified_principal \<Rightarrow> authorization_action \<Rightarrow> security_audit_phase \<Rightarrow> run_key option \<Rightarrow>
   durable_approval_wait_id option \<Rightarrow> unit sp" where
  "audit_security env p a phase k w =
     (let e = \<lparr>sa_phase = phase, sa_actor = vp_id p, sa_action = a, sa_session_id = map_option key_session_id k,
               sa_run_id = map_option key_run_id k, sa_wait_id = w\<rparr> in
      atomic (\<lambda>s. if sv_audit env (ss_tick s) e
        then (Inr (), tick (s\<lparr>ss_trace := ss_trace s @ [(sv_process env, Sv_Audited e)]\<rparr>))
        else (Inl Svc_SecurityAudit, tick s)))"

definition authorize_mutation ::
  "service_env \<Rightarrow> verified_principal \<Rightarrow> authorization_action \<Rightarrow> authorization_resource \<Rightarrow> run_key option \<Rightarrow>
   durable_approval_wait_id option \<Rightarrow> unit sp" where
  "authorize_mutation env p a r k w =
     p_then (authorize env p a r) (\<lambda>_.
     p_then (audit_security env p a Sec_AuthorizationGranted k w) (\<lambda>_.
     audit_security env p a Sec_MutationRequested k w))"

definition audit_mutation_result ::
  "service_env \<Rightarrow> verified_principal \<Rightarrow> authorization_action \<Rightarrow> run_key option \<Rightarrow> durable_approval_wait_id option \<Rightarrow>
   service_error + 'a \<Rightarrow> 'a sp" where
  "audit_mutation_result env p a k w result =
     p_then (audit_security env p a (case result of Inl _ \<Rightarrow> Sec_MutationFailed | Inr _ \<Rightarrow> Sec_MutationCommitted) k w) (\<lambda>_.
     Return result)"

definition run_authorization :: "service_env \<Rightarrow> run_key \<Rightarrow> durable_run_authorization sp" where
  "run_authorization env k =
     p_then (find_run_summary env k) (\<lambda>found.
       case found of
         None \<Rightarrow> p_err Svc_NotFound
       | Some summary \<Rightarrow>
           (case rs_authorization summary of
              None \<Rightarrow> p_err Svc_LegacyUnowned
            | Some a \<Rightarrow> p_then (note_entry env (Sv_Owner k a)) (\<lambda>_. p_ok a)))"

text \<open>\<^verbatim>\<open>ownership.load_session(id).await?.ok_or(NotFound)?\<close>\<close>

definition load_session :: "service_env \<Rightarrow> session_id \<Rightarrow> session_ownership_record sp" where
  "load_session env sid =
     p_then (session_call env (\<lambda>io tb. (load_session_ownership (sv_session_codec env) io sid tb, tb))) (\<lambda>found.
       case found of
         None \<Rightarrow> p_err Svc_NotFound
       | Some r \<Rightarrow> p_then (note_entry env (Sv_SessionOwner sid (so_owner r) (so_archived r))) (\<lambda>_. p_ok r))"

abbreviation owned_run :: "durable_run_authorization \<Rightarrow> authorization_resource" where
  "owned_run a \<equiv> On_OwnedRun (auth_workflow_id a) (auth_owner a)"

abbreviation approval_of :: "durable_run_authorization \<Rightarrow> authorization_resource" where
  "approval_of a \<equiv> On_Approval (auth_workflow_id a) (auth_owner a) (auth_requester a)"

definition mutate :: "service_env \<Rightarrow> verified_principal \<Rightarrow> authorization_action \<Rightarrow> mutation \<Rightarrow> unit sp" where
  "mutate env p a m = note_entry env (Sv_Mutated p a m)"

section \<open>Configuration\<close>

fun register_workflows ::
  "configured_workflow list \<Rightarrow> configured_workflow list \<Rightarrow> service_error + configured_workflow list" where
  "register_workflows [] registered = Inr registered"
| "register_workflows (w # ws) registered =
     (if wf_id w \<in> set (map wf_id registered) \<or> wf_recovery_contract w \<in> set (map wf_recovery_contract registered)
      then Inl Svc_Configuration else register_workflows ws (registered @ [w]))"

text \<open>\<^verbatim>\<open>AgentService::new\<close>: the workflows, and the state of a new service on a database.\<close>

definition AgentService_new ::
  "configured_workflow list \<Rightarrow> session_tables \<Rightarrow> sqlite_store \<Rightarrow> service_error + configured_workflow list \<times> service_state" where
  "AgentService_new ws tb st =
     res_then (register_workflows ws []) (\<lambda>registered.
     res_then (check (registered \<noteq> []) Svc_Configuration) (\<lambda>_.
     Inr (registered,
       \<lparr>ss_sessions = [], ss_active = [], ss_results = [], ss_draining = False, ss_tasks = [], ss_running = 0, ss_tables = tb, ss_store = st,
        ss_tick = 0, ss_trace = []\<rparr>)))"

definition find_workflow :: "service_env \<Rightarrow> workflow_id \<Rightarrow> configured_workflow option" where
  "find_workflow env w = find (\<lambda>x. wf_id x = w) (sv_workflows env)"

definition workflow_for_contract :: "service_env \<Rightarrow> recovery_contract \<Rightarrow> configured_workflow option" where
  "workflow_for_contract env c = find (\<lambda>x. wf_recovery_contract x = c) (sv_workflows env)"

section \<open>Views of runs\<close>

definition active_view :: "active_run \<Rightarrow> run_view" where
  "active_view a =
     \<lparr>rv_session_id = key_session_id (ar_key a), rv_run_id = key_run_id (ar_key a), rv_disposition = ar_disposition a,
      rv_last_sequence = None, rv_outcome = None, rv_workflow_id = Some (ar_workflow_id a), rv_result = None,
      rv_duration_millis = None\<rparr>"

definition view_for_disposition :: "service_env \<Rightarrow> recovery_disposition \<Rightarrow> run_view sp" where
  "view_for_disposition env d =
     (let view = (disposition_view d)\<lparr>rv_workflow_id :=
            (case recovery_contract_of d of None \<Rightarrow> None | Some c \<Rightarrow> map_option wf_id (workflow_for_contract env c))\<rparr> in
      p_then (locked env (gets ss_results)) (\<lambda>results.
        case map_of results \<lparr>key_run_id = rv_run_id view, key_session_id = rv_session_id view\<rparr> of
          None \<Rightarrow> p_ok view
        | Some stored \<Rightarrow>
            p_ok (view\<lparr>rv_result := Some (sr_result stored), rv_duration_millis := Some (sr_duration_millis stored)\<rparr>)))"

definition history_item :: "service_env \<Rightarrow> durable_run_summary \<Rightarrow> run_history_item sp" where
  "history_item env summary =
     (let k = rs_key summary in
      p_then (locked env (gets (find_active (key_session_id k)))) (\<lambda>slot.
      p_then (case slot of
                  Some a \<Rightarrow> if ar_key a = k then p_ok (active_view a)
                             else p_then (recover env k) (view_for_disposition env)
                | None \<Rightarrow> p_then (recover env k) (view_for_disposition env)) (\<lambda>v.
      p_ok \<lparr>hi_run_id = rv_run_id v, hi_disposition = rv_disposition v, hi_last_sequence = rv_last_sequence v,
          hi_outcome = rv_outcome v, hi_workflow_id = rv_workflow_id v, hi_started_at = rs_started_at summary,
          hi_result_available = (rv_result v \<noteq> None)\<rparr>)))"

section \<open>Sessions\<close>

definition create_session :: "service_env \<Rightarrow> (nat \<Rightarrow> session_id) \<Rightarrow> verified_principal \<Rightarrow> session_id sp" where
  "create_session env fresh p =
     p_then (atomic ensure_serving) (\<lambda>_.
     p_then (authorize_mutation env p Do_CreateSession On_Global None None) (\<lambda>_.
     p_then (locked env (gets ss_sessions)) (\<lambda>sessions.
     p_then (p_require (length sessions < MAX_SESSIONS) Svc_Capacity) (\<lambda>_.
     p_then (p_gets (\<lambda>s. fresh (ss_tick s))) (\<lambda>sid.
     p_then (mutate env p Do_CreateSession (Mut_CreateSession sid)) (\<lambda>_.
     p_result (session_call env (\<lambda>io. create_session_ownership (sv_session_codec env) io (SessionOwnershipRecord_new sid (vp_id p))))
       (\<lambda>result.
     p_then (audit_mutation_result env p Do_CreateSession None None result) (\<lambda>_.
     p_then (locked env (modify (\<lambda>s. s\<lparr>ss_sessions := List.insert sid (ss_sessions s)\<rparr>))) (\<lambda>_.
     p_ok sid)))))))))"

fun blocks_archive :: "run_disposition_v1 \<Rightarrow> bool" where
  "blocks_archive View_Completed = False"
| "blocks_archive View_Failed = False"
| "blocks_archive _ = True"

definition archive_conversation :: "service_env \<Rightarrow> verified_principal \<Rightarrow> session_id \<Rightarrow> unit sp" where
  "archive_conversation env p sid =
     p_then (atomic ensure_serving) (\<lambda>_.
     p_then (load_session env sid) (\<lambda>session.
     p_then (p_require (\<not> so_archived session) Svc_Conflict) (\<lambda>_.
     p_then (authorize_mutation env p Do_ArchiveSession (On_OwnedSession (so_owner session)) None None) (\<lambda>_.
     p_then (locked env (gets (find_active sid))) (\<lambda>slot.
       if slot \<noteq> None then audit_mutation_result env p Do_ArchiveSession None None (Inl Svc_Conflict)
       else
         p_then (read_store env (\<lambda>t st. map_sum Svc_Persistence id (sv_list_session_runs env t st sid None 1))) (\<lambda>latest.
         p_then (case rp_items latest of
                     [] \<Rightarrow> p_ok None
                   | run # _ \<Rightarrow> p_then (history_item env run) (\<lambda>i. p_ok (Some (hi_disposition i)))) (\<lambda>latest_disposition.
           if (case latest_disposition of None \<Rightarrow> False | Some d \<Rightarrow> blocks_archive d)
           then audit_mutation_result env p Do_ArchiveSession None None (Inl Svc_Conflict)
           else
             p_then (mutate env p Do_ArchiveSession (Mut_ArchiveSession sid)) (\<lambda>_.
             p_result (session_call env (\<lambda>io. archive_session_ownership (sv_session_codec env) io sid (vp_id p))) (\<lambda>result.
             p_then (audit_mutation_result env p Do_ArchiveSession None None result) (\<lambda>_.
             locked env (modify (\<lambda>s. s\<lparr>ss_sessions := removeAll sid (ss_sessions s)\<rparr>))))))))))))"

section \<open>Starting a run\<close>

text \<open>The slot of a session: an active run is in the way, or there is none and one is inserted.\<close>

definition claim_slot :: "service_env \<Rightarrow> session_id \<Rightarrow> run_key \<Rightarrow> workflow_id \<Rightarrow> run_view option sp" where
  "claim_slot env sid k wid = locked env (
     and_then ensure_serving (\<lambda>_.
     and_then (gets (find_active sid)) (\<lambda>slot.
       case slot of
         Some existing \<Rightarrow> if ar_key existing = k then ok (Some (active_view existing)) else err Svc_Conflict
       | None \<Rightarrow>
           and_then (gets ss_active) (\<lambda>active.
           and_then (require (length active < MAX_ACTIVE_RUNS) Svc_Capacity) (\<lambda>_.
           and_then (gets (\<lambda>s. he_now (sv_harness env) (ss_tick s))) (\<lambda>now.
           and_then (modify (\<lambda>s. s\<lparr>ss_active := (sid, \<lparr>ar_key = k, ar_disposition = View_Starting, ar_cancellation = False,
                               ar_workflow_id = wid, ar_started_at = now\<rparr>) # ss_active s\<rparr>)) (\<lambda>_.
           ok None)))))))"

text \<open>The run exists already: its view is the answer, and the slot is freed.\<close>

definition existing_run ::
  "service_env \<Rightarrow> verified_principal \<Rightarrow> session_id \<Rightarrow> run_key \<Rightarrow> workflow_id \<Rightarrow> durable_run_summary \<Rightarrow> run_view sp" where
  "existing_run env p sid k wid summary =
     (case rs_authorization summary of
        None \<Rightarrow> p_err Svc_LegacyUnowned
      | Some a \<Rightarrow>
          if auth_owner a \<noteq> vp_id p \<or> auth_workflow_id a \<noteq> wid
          then p_then (remove_active env sid) (\<lambda>_. p_err Svc_Unauthorized)
          else p_result (p_then (recover env k) (view_for_disposition env)) (\<lambda>result.
            p_then (remove_active env sid) (\<lambda>_.
            audit_mutation_result env p Do_StartWorkflow (Some k) None result)))"

definition spawn :: "service_task \<Rightarrow> unit sp" where
  "spawn t = p_modify (\<lambda>s. s\<lparr>ss_tasks := ss_tasks s @ [t]\<rparr>)"

definition activate_slot :: "service_env \<Rightarrow> session_id \<Rightarrow> unit sp" where
  "activate_slot env sid = locked env (
     and_then (gets (find_active sid)) (\<lambda>slot.
       case slot of
         None \<Rightarrow> err Svc_Conflict
       | Some a \<Rightarrow> modify (\<lambda>s. s\<lparr>ss_active := AList.update sid
           (a\<lparr>ar_disposition := View_Running, ar_cancellation := True\<rparr>) (ss_active s)\<rparr>)))"

text \<open>The new run: it is started in the harness and audited, the slot gets the handle, and the task is spawned.\<close>

definition fresh_run ::
  "service_env \<Rightarrow> verified_principal \<Rightarrow> session_id \<Rightarrow> run_key \<Rightarrow> configured_workflow \<Rightarrow> run_input \<Rightarrow> run_view sp" where
  "fresh_run env p sid k workflow input =
     p_then (Return (case DurableRunAuthorization_new (vp_id p) (vp_id p) (wf_id workflow) (sv_policy_version env)
                  (sv_policy_fingerprint env) of Inl _ \<Rightarrow> Inl Svc_Configuration | Inr a \<Rightarrow> Inr a)) (\<lambda>auth.
     p_then (mutate env p Do_StartWorkflow (Mut_StartRun k (wf_id workflow))) (\<lambda>_.
     p_then (run_harness env (wf_new_context workflow k) (start_run_with_authorization (sv_harness env) auth)) (\<lambda>(started, ctx).
       case started of
         Inl e \<Rightarrow>
           p_then (remove_active env sid) (\<lambda>_.
           p_result (audit_security env p Do_StartWorkflow Sec_MutationFailed (Some k) None) (\<lambda>_. p_err (Svc_Harness e)))
       | Inr _ \<Rightarrow>
           p_then (audit_mutation_result env p Do_StartWorkflow (Some k) None (Inr ())) (\<lambda>_.
           p_then (activate_slot env sid) (\<lambda>_.
           p_then (p_gets ss_draining) (\<lambda>d.
           p_then (if d then await env (\<lambda>_. ()) else p_ok ()) (\<lambda>_.
           p_then (spawn (Task_Run workflow ctx input k)) (\<lambda>_.
           p_ok \<lparr>rv_session_id = sid, rv_run_id = key_run_id k, rv_disposition = View_Running, rv_last_sequence = Some 0,
               rv_outcome = None, rv_workflow_id = Some (wf_id workflow), rv_result = None, rv_duration_millis = None\<rparr>))))))))"

definition start_run_request ::
  "service_env \<Rightarrow> verified_principal \<Rightarrow> session_id \<Rightarrow> uuid \<Rightarrow> workflow_id \<Rightarrow> run_input \<Rightarrow> run_view sp" where
  "start_run_request env p sid request wid input =
     p_then (atomic ensure_serving) (\<lambda>_.
     p_then (Return (WorkflowId_validate wid)) (\<lambda>_.
     p_then (load_session env sid) (\<lambda>session.
     p_then (p_require (so_owner session = vp_id p \<and> \<not> so_archived session) Svc_Unauthorized) (\<lambda>_.
     p_then (authorize_mutation env p Do_StartWorkflow (On_Workflow wid) None None) (\<lambda>_.
     p_then (Return (ok_or Svc_WorkflowUnavailable (find_workflow env wid))) (\<lambda>workflow.
     p_then (p_require (wf_validate_input workflow input) Svc_InvalidRequest) (\<lambda>_.
       let k = \<lparr>key_run_id = derive_run_id (sv_sha256 env) sid request, key_session_id = sid\<rparr> in
       p_then (claim_slot env sid k wid) (\<lambda>existing.
         case existing of
           Some view \<Rightarrow> p_ok view
         | None \<Rightarrow>
             p_then (mutate env p Do_StartWorkflow (Mut_SetTitle sid wid)) (\<lambda>_.
             p_result (session_call env (\<lambda>io. set_session_title_if_absent (sv_session_codec env) io sid (vp_id p)
                 (conversation_title_from_input input))) (\<lambda>titled.
               case titled of
                 Inl e \<Rightarrow> p_then (remove_active env sid) (\<lambda>_. p_err e)
               | Inr _ \<Rightarrow>
                   p_result (find_run_summary env k) (\<lambda>found.
                     case found of
                       Inl e \<Rightarrow> p_then (remove_active env sid) (\<lambda>_. p_err e)
                     | Inr (Some summary) \<Rightarrow> existing_run env p sid k wid summary
                     | Inr None \<Rightarrow> fresh_run env p sid k workflow input)))))))))))"

section \<open>Reading\<close>

definition get_run_status :: "service_env \<Rightarrow> verified_principal \<Rightarrow> run_key \<Rightarrow> run_view sp" where
  "get_run_status env p k =
     p_then (run_authorization env k) (\<lambda>a.
     p_then (authorize env p Do_ReadRun (owned_run a)) (\<lambda>_.
     p_then (locked env (gets (find_active (key_session_id k)))) (\<lambda>slot.
       case slot of
         Some active \<Rightarrow> if ar_key active = k then p_ok (active_view active)
                         else p_then (recover env k) (view_for_disposition env)
       | None \<Rightarrow> p_then (recover env k) (view_for_disposition env))))"

definition read_events_request ::
  "service_env \<Rightarrow> verified_principal \<Rightarrow> run_key \<Rightarrow> event_sequence option \<Rightarrow> u16 \<Rightarrow> service_event list sp" where
  "read_events_request env p k after limit =
     p_then (Return (validate_read_limit limit)) (\<lambda>_.
     p_then (run_authorization env k) (\<lambda>a.
     p_then (authorize env p Do_ReadEvents (owned_run a)) (\<lambda>_.
     p_then (find_run_summary env k) (\<lambda>found.
       let wid = (case found of None \<Rightarrow> None
                  | Some run \<Rightarrow> map_option wf_id (workflow_for_contract env (rs_recovery_contract run))) in
       p_then (read_store env (\<lambda>t st. let h = sv_harness env in
           map_sum Svc_Persistence id (read_events (he_store_codec h) (he_io h t) k after limit st))) (\<lambda>page.
       p_ok (map (\<lambda>e. ServiceEventV2_new e wid) (ep_events page)))))))"

fun history_items :: "service_env \<Rightarrow> principal_id \<Rightarrow> durable_run_summary list \<Rightarrow> run_history_item list sp" where
  "history_items env owner [] = p_ok []"
| "history_items env owner (summary # rest) =
     (case rs_authorization summary of
        None \<Rightarrow> p_err Svc_LegacyUnowned
      | Some a \<Rightarrow>
          if auth_owner a \<noteq> owner then p_err Svc_Unauthorized
          else p_then (history_item env summary) (\<lambda>i.
               p_then (history_items env owner rest) (\<lambda>is. p_ok (i # is))))"

definition session_run_page ::
  "service_env \<Rightarrow> verified_principal \<Rightarrow> session_id \<Rightarrow> run_id option \<Rightarrow> u16 \<Rightarrow> (run_history_item list \<times> run_id option) sp" where
  "session_run_page env p sid after limit =
     p_then (Return (validate_read_limit limit)) (\<lambda>_.
     p_then (load_session env sid) (\<lambda>session.
     p_then (authorize env p Do_ReadSessionHistory (On_OwnedSession (so_owner session))) (\<lambda>_.
     p_then (read_store env (\<lambda>t st. map_sum Svc_Persistence id (sv_list_session_runs env t st sid after limit))) (\<lambda>page.
     p_then (history_items env (so_owner session) (rp_items page)) (\<lambda>items.
     p_ok (items, rp_next page))))))"

record conversation_summary =
  cv_session_id :: session_id
  cv_title :: rust_string
  cv_last_activity :: "u64 option"
  cv_latest_run :: "run_history_item option"

fun conversation_items :: "service_env \<Rightarrow> verified_principal \<Rightarrow> session_ownership_record list \<Rightarrow> conversation_summary list sp" where
  "conversation_items env p [] = p_ok []"
| "conversation_items env p (session # rest) =
     p_then (p_require (so_owner session = vp_id p) Svc_Unauthorized) (\<lambda>_.
     p_then (read_store env (\<lambda>t st. map_sum Svc_Persistence id
         (sv_list_session_runs env t st (so_session_id session) None 1))) (\<lambda>latest.
     p_then (case rp_items latest of [] \<Rightarrow> p_ok None | summary # _ \<Rightarrow> p_then (history_item env summary) (\<lambda>i. p_ok (Some i))) (\<lambda>run.
     p_then (conversation_items env p rest) (\<lambda>items.
     p_ok (\<lparr>cv_session_id = so_session_id session,
          cv_title = (case so_title session of None \<Rightarrow> conversation_title (so_session_id session) | Some t \<Rightarrow> t),
          cv_last_activity = (case run of None \<Rightarrow> None | Some r \<Rightarrow> hi_started_at r), cv_latest_run = run\<rparr> # items)))))"

definition conversation_page ::
  "service_env \<Rightarrow> verified_principal \<Rightarrow> session_id option \<Rightarrow> u16 \<Rightarrow> (conversation_summary list \<times> session_id option) sp" where
  "conversation_page env p after limit =
     p_then (Return (validate_read_limit limit)) (\<lambda>_.
     p_then (authorize env p Do_ListSessions On_Global) (\<lambda>_.
     p_then (session_call env (\<lambda>io tb. (list_session_ownership (sv_session_codec env) io (vp_id p) after limit tb, tb))) (\<lambda>page.
     p_then (conversation_items env p (sp_items page)) (\<lambda>items.
     p_ok (items, sp_next page)))))"

fun waiting_items :: "service_env \<Rightarrow> verified_principal \<Rightarrow> durable_waiting_summary list \<Rightarrow> waiting_approval_view list sp" where
  "waiting_items env p [] = p_ok []"
| "waiting_items env p (item # rest) =
     p_result (run_authorization env (ws_key item)) (\<lambda>r.
       case r of
         Inl _ \<Rightarrow> waiting_items env p rest
       | Inr a \<Rightarrow>
           if sv_authorize env p Do_ReadApprovalPreview (approval_of a) \<noteq> Decision_Granted then waiting_items env p rest
           else p_then (waiting_items env p rest) (\<lambda>items.
             p_ok (\<lparr>wv_session_id = key_session_id (ws_key item), wv_run_id = key_run_id (ws_key item), wv_wait_id = ws_wait_id item,
                  wv_row_version = ws_row_version item, wv_state = waiting_state (ws_status item)\<rparr> # items)))"

definition waiting_page ::
  "service_env \<Rightarrow> verified_principal \<Rightarrow> (run_id \<times> durable_approval_wait_id) option \<Rightarrow> u16 \<Rightarrow>
   (waiting_approval_view list \<times> (run_id \<times> durable_approval_wait_id) option) sp" where
  "waiting_page env p after limit =
     p_then (Return (validate_read_limit limit)) (\<lambda>_.
     p_then (authorize env p Do_ListWaiting On_Global) (\<lambda>_.
     p_then (read_store env (\<lambda>t st. let h = sv_harness env in
         map_sum Svc_Persistence id (list_waiting (he_store_codec h) (he_io h t) after limit st))) (\<lambda>page.
     p_then (waiting_items env p (wp_items page)) (\<lambda>items.
     p_ok (items, wp_next page)))))"

fun operational_items ::
  "service_env \<Rightarrow> bool \<Rightarrow> durable_run_summary list \<Rightarrow> run_view list sp" where
  "operational_items env only [] = p_ok []"
| "operational_items env only (summary # rest) =
     p_then (recover env (rs_key summary)) (\<lambda>d.
     p_then (view_for_disposition env d) (\<lambda>v.
       let v = project_legacy_unowned (rs_authorization summary = None) v in
       p_then (operational_items env only rest) (\<lambda>vs.
       p_ok (if only \<and> rv_disposition v \<noteq> View_ManualReconciliationRequired then vs else v # vs))))"

text \<open>The operational view leaves out the outcome and the result.\<close>

definition operational_run_page ::
  "service_env \<Rightarrow> verified_principal \<Rightarrow> run_id option \<Rightarrow> u16 \<Rightarrow> bool \<Rightarrow> (run_view list \<times> run_id option) sp" where
  "operational_run_page env p after limit reconciliation_only =
     p_then (Return (validate_read_limit limit)) (\<lambda>_.
     p_then (authorize env p (if reconciliation_only then Do_InspectReconciliation else Do_ReadOperations) On_Global) (\<lambda>_.
     p_then (runs_page env after limit) (\<lambda>page.
     p_then (operational_items env reconciliation_only (rp_items page)) (\<lambda>items.
     p_ok (map (\<lambda>v. v\<lparr>rv_outcome := None, rv_result := None\<rparr>) items, rp_next page)))))"

definition run_page :: "service_env \<Rightarrow> verified_principal \<Rightarrow> run_id option \<Rightarrow> u16 \<Rightarrow> durable_run_page sp" where
  "run_page env p after limit =
     p_then (Return (validate_read_limit limit)) (\<lambda>_.
     p_then (authorize env p Do_ReadOperations On_Global) (\<lambda>_.
     runs_page env after limit))"

text \<open>
  \<^verbatim>\<open>discover_runs\<close> at startup: all pages of runs, whose sessions become known. The fuel bounds the loop over the pages;
  out of fuel is \<open>None\<close>.
\<close>

fun discover_items :: "service_env \<Rightarrow> durable_run_summary list \<Rightarrow> run_view list \<Rightarrow> run_view list sp" where
  "discover_items env [] result = p_ok result"
| "discover_items env (item # rest) result =
     p_then (recover env (rs_key item)) (\<lambda>d.
     p_then (view_for_disposition env d) (\<lambda>v.
       let v = project_legacy_unowned (rs_authorization item = None) v in
       p_then (locked env (modify (\<lambda>s. s\<lparr>ss_sessions := List.insert (rv_session_id v) (ss_sessions s)\<rparr>))) (\<lambda>_.
       discover_items env rest (result @ [v]))))"

fun discover_pages :: "nat \<Rightarrow> service_env \<Rightarrow> run_id option \<Rightarrow> run_view list \<Rightarrow> run_view list option sp" where
  "discover_pages 0 env cursor result = p_ok None"
| "discover_pages (Suc n) env cursor result =
     p_then (runs_page env cursor 256) (\<lambda>page.
     p_then (discover_items env (rp_items page) result) (\<lambda>result.
       if rp_next page = None then p_ok (Some result)
       else if length result > MAX_SESSIONS then p_err Svc_Capacity
       else discover_pages n env (rp_next page) result))"

definition discover_runs :: "service_env \<Rightarrow> run_view list option sp" where
  "discover_runs env = discover_pages (MAX_SESSIONS + 2) env None []"

text \<open>\<^verbatim>\<open>runtime_status\<close>: the principal with its roles, the limits and the budgets of the workflows by identifier.\<close>

record workflow_budget_v1 =
  wb_workflow_id :: workflow_id
  wb_max_model_calls :: u32
  wb_max_tool_calls :: u32
  wb_max_iterations :: u32
  wb_max_approval_requests :: u32
  wb_max_graph_steps :: u32
  wb_max_elapsed_millis :: u64

record principal_view_v1 =
  pr_principal_id :: principal_id
  pr_kind :: principal_kind
  pr_roles :: "principal_role list"

record runtime_status_v1 =
  rt_principal :: principal_view_v1
  rt_max_active_runs :: u16
  rt_max_run_input_bytes :: u32
  rt_max_read_page_items :: u16
  rt_workflow_budgets :: "workflow_budget_v1 list"

definition workflow_budget_view :: "configured_workflow \<Rightarrow> service_error + workflow_budget_v1" where
  "workflow_budget_view w =
     (let b = wf_budget w; millis = max_elapsed b div 1000000 in
      if millis < 2 ^ 64
      then Inr \<lparr>wb_workflow_id = wf_id w, wb_max_model_calls = max_model_calls b, wb_max_tool_calls = max_tool_calls b,
               wb_max_iterations = max_iterations b, wb_max_approval_requests = max_approval_requests b,
               wb_max_graph_steps = max_graph_steps b, wb_max_elapsed_millis = of_nat millis\<rparr>
      else Inl Svc_Configuration)"

fun workflow_budgets :: "configured_workflow list \<Rightarrow> service_error + workflow_budget_v1 list" where
  "workflow_budgets [] = Inr []"
| "workflow_budgets (w # ws) =
     res_then (workflow_budget_view w) (\<lambda>b. res_then (workflow_budgets ws) (\<lambda>bs. Inr (b # bs)))"

definition runtime_status :: "service_env \<Rightarrow> verified_principal \<Rightarrow> runtime_status_v1 sp" where
  "runtime_status env p =
     p_then (authorize env p Do_ReadRuntimeStatus On_Global) (\<lambda>_.
     p_then (Return (workflow_budgets (sv_workflows env))) (\<lambda>budgets.
     p_ok \<lparr>rt_principal = \<lparr>pr_principal_id = vp_id p, pr_kind = vp_kind p,
           pr_roles = filter (has_role p) [Role_User, Role_Approver, Role_Operator]\<rparr>,
         rt_max_active_runs = of_nat MAX_ACTIVE_RUNS, rt_max_run_input_bytes = of_nat MAX_RUN_INPUT_BYTES,
         rt_max_read_page_items = MAX_READ_PAGE_ITEMS, rt_workflow_budgets = sort_key wb_workflow_id budgets\<rparr>))"

section \<open>Approvals, cancellation and resumption\<close>

record approval_preview_v1 =
  pv_wait_id :: durable_approval_wait_id
  pv_row_version :: u64
  pv_summary :: rust_string
  pv_target :: rust_string

text \<open>Harness operations that recover the run themselves: the context they start with is not used.\<close>

definition harness_call :: "service_env \<Rightarrow> run_context \<Rightarrow> 'a hm \<Rightarrow> 'a sp" where
  "harness_call env ctx m = p_then (run_harness env ctx m) (\<lambda>(r, _). Return (map_sum Svc_Harness id r))"

definition blank_context :: "run_key \<Rightarrow> run_context" where
  "blank_context k = new_with_recovery_contract (key_run_id k) (key_session_id k)
     \<lparr>max_model_calls = 0, max_tool_calls = 0, max_iterations = 0, max_approval_requests = 0, max_graph_steps = 0, max_elapsed = 0\<rparr>
     NonRestartable"

definition approval_preview_request ::
  "service_env \<Rightarrow> verified_principal \<Rightarrow> run_key \<Rightarrow> durable_approval_wait_id \<Rightarrow> approval_preview_v1 sp" where
  "approval_preview_request env p k w =
     p_then (run_authorization env k) (\<lambda>a.
     p_then (authorize env p Do_ReadApprovalPreview (approval_of a)) (\<lambda>_.
     p_then (harness_call env (blank_context k) (durable_approval_view_of (sv_seal env) (sv_harness env) k w)) (\<lambda>view.
     p_ok \<lparr>pv_wait_id = w, pv_row_version = vw_row_version view, pv_summary = ap_summary (vw_preview view),
         pv_target = ap_target_label (vw_preview view)\<rparr>)))"

definition submit_decision ::
  "service_env \<Rightarrow> verified_principal \<Rightarrow> run_key \<Rightarrow> durable_approval_wait_id \<Rightarrow> u64 \<Rightarrow> durable_approval_outcome \<Rightarrow> unit sp" where
  "submit_decision env p k w version outcome =
     p_then (atomic ensure_serving) (\<lambda>_.
     p_then (run_authorization env k) (\<lambda>a.
     p_then (authorize_mutation env p Do_DecideApproval (approval_of a) (Some k) (Some w)) (\<lambda>_.
     p_then (p_gets (\<lambda>s. he_wall (sv_harness env) (ss_tick s))) (\<lambda>wall.
     p_then (Return (ok_or Svc_Conflict (unix_millis wall))) (\<lambda>decided_at.
     p_then (mutate env p Do_DecideApproval (Mut_DecideApproval k w)) (\<lambda>_.
     p_result (harness_call env (blank_context k) (decide_outcome (sv_seal env) (sv_harness env) k w version outcome
         (Some (vp_id p)) (Some decided_at))) (\<lambda>result.
     audit_mutation_result env p Do_DecideApproval (Some k) (Some w) result)))))))"

definition abort_waiting ::
  "service_env \<Rightarrow> verified_principal \<Rightarrow> run_key \<Rightarrow> durable_approval_wait_id \<Rightarrow> u64 \<Rightarrow> unit sp" where
  "abort_waiting env p k w version =
     p_then (atomic ensure_serving) (\<lambda>_.
     p_then (run_authorization env k) (\<lambda>a.
     p_then (authorize_mutation env p Do_AbortWaiting (owned_run a) (Some k) (Some w)) (\<lambda>_.
     p_then (mutate env p Do_AbortWaiting (Mut_AbortWaiting k w)) (\<lambda>_.
     p_result (harness_call env (blank_context k) (abort_durable_waiting (sv_harness env) k w version)) (\<lambda>result.
     audit_mutation_result env p Do_AbortWaiting (Some k) (Some w) result)))))"

definition cancel_active_run :: "service_env \<Rightarrow> verified_principal \<Rightarrow> run_key \<Rightarrow> unit sp" where
  "cancel_active_run env p k =
     p_then (run_authorization env k) (\<lambda>a.
     p_then (authorize_mutation env p Do_CancelRun (owned_run a) (Some k) None) (\<lambda>_.
     p_then (locked env (gets (find_active (key_session_id k)))) (\<lambda>slot.
       case slot of
         None \<Rightarrow> p_err Svc_Conflict
       | Some active \<Rightarrow>
           if ar_key active \<noteq> k \<or> \<not> ar_cancellation active then p_err Svc_Conflict
           else p_then (mutate env p Do_CancelRun (Mut_CancelRun k)) (\<lambda>_.
                audit_mutation_result env p Do_CancelRun (Some k) None (Inr ())))))"

definition resumable_context :: "recovery_disposition \<Rightarrow> (run_context \<times> recovery_contract) option" where
  "resumable_context d =
     (case d of Disp_Waiting ctx _ c \<Rightarrow> Some (ctx, c) | Disp_Resumable ctx _ c \<Rightarrow> Some (ctx, c) | _ \<Rightarrow> None)"

fun wait_id_fits :: "recovery_disposition \<Rightarrow> durable_approval_wait_id option \<Rightarrow> bool" where
  "wait_id_fits (Disp_Waiting _ _ _) w \<longleftrightarrow> w \<noteq> None"
| "wait_id_fits (Disp_Resumable _ _ _) w \<longleftrightarrow> w = None"
| "wait_id_fits _ _ \<longleftrightarrow> True"

definition take_slot :: "service_env \<Rightarrow> run_key \<Rightarrow> workflow_id \<Rightarrow> unit sp" where
  "take_slot env k wid = locked env (
     and_then ensure_serving (\<lambda>_.
     and_then (gets ss_active) (\<lambda>active.
     and_then (require (map_of active (key_session_id k) = None \<and> length active < MAX_ACTIVE_RUNS) Svc_Conflict) (\<lambda>_.
     and_then (gets (\<lambda>s. he_now (sv_harness env) (ss_tick s))) (\<lambda>now.
     modify (\<lambda>s. s\<lparr>ss_active := (key_session_id k, \<lparr>ar_key = k, ar_disposition = View_Running, ar_cancellation = True,
       ar_workflow_id = wid, ar_started_at = now\<rparr>) # ss_active s\<rparr>))))))"

definition resume_run :: "service_env \<Rightarrow> verified_principal \<Rightarrow> run_key \<Rightarrow> durable_approval_wait_id option \<Rightarrow> unit sp" where
  "resume_run env p k w =
     p_then (atomic ensure_serving) (\<lambda>_.
     p_then (run_authorization env k) (\<lambda>a.
     p_then (authorize_mutation env p Do_ResumeRun (owned_run a) (Some k) w) (\<lambda>_.
     p_then (recover env k) (\<lambda>d.
     p_then (p_require (wait_id_fits d w) Svc_InvalidRequest) (\<lambda>_.
     p_then (Return (ok_or Svc_Conflict (resumable_context d))) (\<lambda>(ctx, contract).
     p_then (Return (ok_or Svc_WorkflowUnavailable (workflow_for_contract env contract))) (\<lambda>workflow.
     p_then (p_require (rc_runtime ctx \<noteq> None) (Svc_Context CE_RuntimeUnavailable)) (\<lambda>_.
     p_then (take_slot env k (wf_id workflow)) (\<lambda>_.
     p_then (mutate env p Do_ResumeRun (Mut_ResumeRun k w)) (\<lambda>_.
     p_then (spawn (Task_Resume workflow d w k)) (\<lambda>_.
     audit_mutation_result env p Do_ResumeRun (Some k) w (Inr ()))))))))))))"

section \<open>Background tasks\<close>

definition store_result :: "service_env \<Rightarrow> run_key \<Rightarrow> application_result \<Rightarrow> unit sp" where
  "store_result env k result =
     p_then (locked env (gets (\<lambda>s. case find_active (key_session_id k) s of
         Some a \<Rightarrow> if ar_key a = k
                    then (let ms = (he_now (sv_harness env) (ss_tick s) - ar_started_at a) div 1000000 in
                          if ms < 2 ^ 64 then of_nat ms else - 1)
                    else 0
       | None \<Rightarrow> 0))) (\<lambda>duration.
     locked env (modify (\<lambda>s. s\<lparr>ss_results := AList.update k \<lparr>sr_result = result, sr_duration_millis = duration\<rparr>
         (if length (ss_results s) \<ge> MAX_APPLICATION_RESULTS \<and> map_of (ss_results s) k = None then [] else ss_results s)\<rparr>)))"

definition finish_task :: "service_env \<Rightarrow> run_key \<Rightarrow> workflow_error + workflow_completion option \<Rightarrow> unit sp" where
  "finish_task env k completion =
     p_then (case completion of Inr (Some (ApplicationResult result)) \<Rightarrow> store_result env k result | _ \<Rightarrow> p_ok ()) (\<lambda>_.
     p_result (recover env k) (\<lambda>_. remove_active env (key_session_id k)))"

fun run_task :: "service_env \<Rightarrow> service_task \<Rightarrow> unit sp" where
  "run_task env (Task_Run workflow ctx input k) =
     p_then (run_workflow (wf_run workflow input) ctx) (\<lambda>r. finish_task env k (map_sum id Some r))"
| "run_task env (Task_Resume workflow d w k) =
     (case d of
        Disp_Waiting ctx state _ \<Rightarrow>
          (case w of
             Some w \<Rightarrow> p_then (run_workflow (wf_resume_waiting workflow state w) ctx) (\<lambda>r. finish_task env k (map_sum id Some r))
           | None \<Rightarrow> finish_task env k (Inr None))
      | Disp_Resumable ctx state _ \<Rightarrow>
          p_then (run_workflow (wf_resume_recovered workflow state) ctx) (\<lambda>r. finish_task env k (map_sum id Some r))
      | _ \<Rightarrow> finish_task env k (Inr None))"

text \<open>A process takes a spawned task, if there is one, and runs it to its end.\<close>

definition settle_task :: "service_env \<Rightarrow> nat \<Rightarrow> unit sp" where
  "settle_task env i =
     p_then (atomic (\<lambda>s.
         if i < length (ss_tasks s)
         then (Inr (Some (ss_tasks s ! i)),
               s\<lparr>ss_tasks := take i (ss_tasks s) @ drop (Suc i) (ss_tasks s), ss_running := Suc (ss_running s)\<rparr>)
         else (Inr None, s))) (\<lambda>task.
       case task of
         None \<Rightarrow> p_ok ()
       | Some t \<Rightarrow> p_result (run_task env t) (\<lambda>_. p_modify (\<lambda>s. s\<lparr>ss_running := ss_running s - 1\<rparr>)))"

section \<open>Shutdown\<close>

text \<open>
  \<^verbatim>\<open>drain\<close>: the lifecycle changes, the handles of active runs are asked to cancel, and the tasks are awaited; \<open>in_time\<close> tells
  whether the deadline was not met before. The report counts cancelled and remaining runs.
\<close>

definition drain :: "service_env \<Rightarrow> (nat \<Rightarrow> bool) \<Rightarrow> (nat \<times> nat) sp" where
  "drain env in_time =
     p_then (p_modify (\<lambda>s. s\<lparr>ss_draining := True\<rparr>)) (\<lambda>_.
     p_then (locked env (gets (\<lambda>s. length (filter (\<lambda>(_, a). ar_cancellation a) (ss_active s))))) (\<lambda>cancelled.
     p_then (await env in_time) (\<lambda>waited.
     p_then (p_gets (\<lambda>s. ss_tasks s = [] \<and> ss_running s = 0)) (\<lambda>idle.
     p_then (p_require (waited \<and> idle) Svc_Conflict) (\<lambda>_.
     p_then (locked env (gets ss_active)) (\<lambda>active.
     p_then (p_require (active = []) Svc_Conflict) (\<lambda>_.
     p_ok (cancelled, 0))))))))"

section \<open>Requests\<close>

text \<open>The requests of the service, and the shutdown.\<close>

datatype (plugins only: size) service_request =
  Rq_CreateSession "nat \<Rightarrow> session_id" verified_principal
| Rq_StartRun verified_principal session_id uuid workflow_id run_input
| Rq_RunStatus verified_principal run_key
| Rq_ConversationPage verified_principal "session_id option" u16
| Rq_ArchiveConversation verified_principal session_id
| Rq_SessionRunPage verified_principal session_id "run_id option" u16
| Rq_CancelRun verified_principal run_key
| Rq_ReadEvents verified_principal run_key "event_sequence option" u16
| Rq_RunPage verified_principal "run_id option" u16
| Rq_OperationalRunPage verified_principal "run_id option" u16 bool
| Rq_WaitingPage verified_principal "(run_id \<times> durable_approval_wait_id) option" u16
| Rq_ApprovalPreview verified_principal run_key durable_approval_wait_id
| Rq_SubmitDecision verified_principal run_key durable_approval_wait_id u64 durable_approval_outcome
| Rq_AbortWaiting verified_principal run_key durable_approval_wait_id u64
| Rq_ResumeRun verified_principal run_key "durable_approval_wait_id option"
| Rq_RuntimeStatus verified_principal
| Rq_DiscoverRuns
| Rq_Drain "nat \<Rightarrow> bool"

fun perform_request :: "service_env \<Rightarrow> service_request \<Rightarrow> unit sp" where
  "perform_request env (Rq_CreateSession fresh p) = forget (create_session env fresh p)"
| "perform_request env (Rq_StartRun p sid req wid input) = forget (start_run_request env p sid req wid input)"
| "perform_request env (Rq_RunStatus p k) = forget (get_run_status env p k)"
| "perform_request env (Rq_ConversationPage p after limit) = forget (conversation_page env p after limit)"
| "perform_request env (Rq_ArchiveConversation p sid) = forget (archive_conversation env p sid)"
| "perform_request env (Rq_SessionRunPage p sid after limit) = forget (session_run_page env p sid after limit)"
| "perform_request env (Rq_CancelRun p k) = forget (cancel_active_run env p k)"
| "perform_request env (Rq_ReadEvents p k after limit) = forget (read_events_request env p k after limit)"
| "perform_request env (Rq_RunPage p after limit) = forget (run_page env p after limit)"
| "perform_request env (Rq_OperationalRunPage p after limit only) = forget (operational_run_page env p after limit only)"
| "perform_request env (Rq_WaitingPage p after limit) = forget (waiting_page env p after limit)"
| "perform_request env (Rq_ApprovalPreview p k w) = forget (approval_preview_request env p k w)"
| "perform_request env (Rq_SubmitDecision p k w v outcome) = forget (submit_decision env p k w v outcome)"
| "perform_request env (Rq_AbortWaiting p k w v) = forget (abort_waiting env p k w v)"
| "perform_request env (Rq_ResumeRun p k w) = forget (resume_run env p k w)"
| "perform_request env (Rq_RuntimeStatus p) = forget (runtime_status env p)"
| "perform_request env Rq_DiscoverRuns = forget (discover_runs env)"
| "perform_request env (Rq_Drain in_time) = forget (drain env in_time)"

fun request_principal :: "service_request \<Rightarrow> verified_principal option" where
  "request_principal (Rq_CreateSession _ p) = Some p"
| "request_principal (Rq_StartRun p _ _ _ _) = Some p"
| "request_principal (Rq_RunStatus p _) = Some p"
| "request_principal (Rq_ConversationPage p _ _) = Some p"
| "request_principal (Rq_ArchiveConversation p _) = Some p"
| "request_principal (Rq_SessionRunPage p _ _ _) = Some p"
| "request_principal (Rq_CancelRun p _) = Some p"
| "request_principal (Rq_ReadEvents p _ _ _) = Some p"
| "request_principal (Rq_RunPage p _ _) = Some p"
| "request_principal (Rq_OperationalRunPage p _ _ _) = Some p"
| "request_principal (Rq_WaitingPage p _ _) = Some p"
| "request_principal (Rq_ApprovalPreview p _ _) = Some p"
| "request_principal (Rq_SubmitDecision p _ _ _ _) = Some p"
| "request_principal (Rq_AbortWaiting p _ _ _) = Some p"
| "request_principal (Rq_ResumeRun p _ _) = Some p"
| "request_principal (Rq_RuntimeStatus p) = Some p"
| "request_principal Rq_DiscoverRuns = None"
| "request_principal (Rq_Drain _) = None"

text \<open>The processes of a service: requests, and workers that take a spawned task. They run in the order of a schedule, step by step.\<close>

datatype (plugins only: size) job = Job_Request service_request | Job_Task nat

definition launch :: "service_env \<Rightarrow> (nat \<Rightarrow> job) \<Rightarrow> nat \<Rightarrow> unit sp" where
  "launch env jobs n =
     (case jobs n of
        Job_Request q \<Rightarrow> perform_request (env\<lparr>sv_process := n\<rparr>) q
      | Job_Task i \<Rightarrow> settle_task (env\<lparr>sv_process := n\<rparr>) i)"

definition serve_jobs :: "service_env \<Rightarrow> (nat \<Rightarrow> job) \<Rightarrow> nat list \<Rightarrow> service_state \<Rightarrow> service_state" where
  "serve_jobs env jobs schedule s = snd (interleave (launch env jobs) schedule s)"

end
