(* ===== verification/Service_Laws.thy ===== *)
theory Service_Laws
  imports Service Durable_Laws
begin

text \<open>
  What the service guarantees however its processes interleave: every mutation is backed by what its own request did before
  (the read of the resource, the grant of the policy for it, the two entries of the security audit that name this
  mutation), and the table of active runs stays within its bounds. Both are kept by every step of every request and
  task, where a request relies on its own entries in the trace, which no other process removes (locale \<open>rely_guarantee\<close>).
\<close>

section \<open>Mutations and what backs them\<close>

fun mutation_action :: "mutation \<Rightarrow> authorization_action" where
  "mutation_action (Mut_CreateSession _) = Do_CreateSession"
| "mutation_action (Mut_SetTitle _ _) = Do_StartWorkflow"
| "mutation_action (Mut_ArchiveSession _) = Do_ArchiveSession"
| "mutation_action (Mut_StartRun _ _) = Do_StartWorkflow"
| "mutation_action (Mut_CancelRun _) = Do_CancelRun"
| "mutation_action (Mut_DecideApproval _ _) = Do_DecideApproval"
| "mutation_action (Mut_AbortWaiting _ _) = Do_AbortWaiting"
| "mutation_action (Mut_ResumeRun _ _) = Do_ResumeRun"

text \<open>The run and the wait that the security audit names for a mutation; a run that is yet to be started is not named.\<close>

fun audited_run :: "mutation \<Rightarrow> run_key option" where
  "audited_run (Mut_CancelRun k) = Some k"
| "audited_run (Mut_DecideApproval k _) = Some k"
| "audited_run (Mut_AbortWaiting k _) = Some k"
| "audited_run (Mut_ResumeRun k _) = Some k"
| "audited_run _ = None"

fun audited_wait :: "mutation \<Rightarrow> durable_approval_wait_id option" where
  "audited_wait (Mut_DecideApproval _ w) = Some w"
| "audited_wait (Mut_AbortWaiting _ w) = Some w"
| "audited_wait (Mut_ResumeRun _ w) = w"
| "audited_wait _ = None"

definition audit_entry ::
  "verified_principal \<Rightarrow> authorization_action \<Rightarrow> security_audit_phase \<Rightarrow> run_key option \<Rightarrow> durable_approval_wait_id option \<Rightarrow> service_entry" where
  "audit_entry p a ph k w = Sv_Audited \<lparr>sa_phase = ph, sa_actor = vp_id p, sa_action = a,
     sa_session_id = map_option key_session_id k, sa_run_id = map_option key_run_id k, sa_wait_id = w\<rparr>"

definition audited :: "service_entry set \<Rightarrow> verified_principal \<Rightarrow> mutation \<Rightarrow> security_audit_phase \<Rightarrow> bool" where
  "audited E p m ph \<longleftrightarrow> audit_entry p (mutation_action m) ph (audited_run m) (audited_wait m) \<in> E"

text \<open>The resource for which the policy must have granted a mutation, as read from the store before.\<close>

fun names_resource :: "service_entry set \<Rightarrow> principal_id \<Rightarrow> mutation \<Rightarrow> authorization_resource \<Rightarrow> bool" where
  "names_resource E p (Mut_CreateSession _) r \<longleftrightarrow> r = On_Global"
| "names_resource E p (Mut_SetTitle s w) r \<longleftrightarrow> r = On_Workflow w \<and> Sv_SessionOwner s p False \<in> E"
| "names_resource E p (Mut_ArchiveSession s) r \<longleftrightarrow> (\<exists>owner. r = On_OwnedSession owner \<and> Sv_SessionOwner s owner False \<in> E)"
| "names_resource E p (Mut_StartRun k w) r \<longleftrightarrow> r = On_Workflow w \<and> Sv_SessionOwner (key_session_id k) p False \<in> E"
| "names_resource E p (Mut_CancelRun k) r \<longleftrightarrow> (\<exists>au. Sv_Owner k au \<in> E \<and> r = owned_run au)"
| "names_resource E p (Mut_DecideApproval k _) r \<longleftrightarrow> (\<exists>au. Sv_Owner k au \<in> E \<and> r = approval_of au)"
| "names_resource E p (Mut_AbortWaiting k _) r \<longleftrightarrow> (\<exists>au. Sv_Owner k au \<in> E \<and> r = owned_run au)"
| "names_resource E p (Mut_ResumeRun k _) r \<longleftrightarrow> (\<exists>au. Sv_Owner k au \<in> E \<and> r = owned_run au)"

definition backed :: "service_entry set \<Rightarrow> verified_principal \<Rightarrow> authorization_action \<Rightarrow> mutation \<Rightarrow> bool" where
  "backed E p a m \<longleftrightarrow> a = mutation_action m \<and> audited E p m Sec_AuthorizationGranted \<and> audited E p m Sec_MutationRequested
     \<and> (\<exists>r. Sv_Granted p a r \<in> E \<and> names_resource E (vp_id p) m r)"

lemma backed_mono:
  assumes "backed E p a m" "E \<subseteq> F"
  shows "backed F p a m"
proof -
  have "names_resource F (vp_id p) m r" if "names_resource E (vp_id p) m r" for r
    using that assms(2) by (cases m) auto
  with assms show ?thesis unfolding backed_def audited_def by blast
qed

text \<open>What process \<open>n\<close> has noted.\<close>

definition entries_of :: "nat \<Rightarrow> (nat \<times> service_entry) list \<Rightarrow> service_entry set" where
  "entries_of n tr = {e. (n, e) \<in> set tr}"

lemma entries_append [simp]: "entries_of n (tr @ ys) = entries_of n tr \<union> entries_of n ys"
  by (auto simp: entries_of_def)

definition all_backed :: "(nat \<Rightarrow> verified_principal option) \<Rightarrow> (nat \<times> service_entry) list \<Rightarrow> bool" where
  "all_backed who tr \<longleftrightarrow> (\<forall>xs n p a m ys. tr = xs @ (n, Sv_Mutated p a m) # ys \<longrightarrow> who n = Some p \<and> backed (entries_of n xs) p a m)"

lemma all_backed_snoc:
  assumes "all_backed who tr" "\<And>n p a m. x = (n, Sv_Mutated p a m) \<Longrightarrow> who n = Some p \<and> backed (entries_of n tr) p a m"
  shows "all_backed who (tr @ [x])"
  unfolding all_backed_def
proof (intro allI impI)
  fix xs n p a m ys assume eq: "tr @ [x] = xs @ (n, Sv_Mutated p a m) # ys"
  show "who n = Some p \<and> backed (entries_of n xs) p a m"
  proof (cases ys rule: rev_cases)
    case Nil
    with eq assms(2) show ?thesis by auto
  next
    case (snoc zs z)
    with eq have "tr = xs @ (n, Sv_Mutated p a m) # zs" by (simp flip: append.assoc)
    with assms(1) show ?thesis unfolding all_backed_def by blast
  qed
qed

text \<open>Grants in the trace are answers of the policy.\<close>

type_synonym service_policy = "verified_principal \<Rightarrow> authorization_action \<Rightarrow> authorization_resource \<Rightarrow> service_decision"

definition honest :: "service_policy \<Rightarrow> (nat \<times> service_entry) list \<Rightarrow> bool" where
  "honest policy tr \<longleftrightarrow> (\<forall>n p a r. (n, Sv_Granted p a r) \<in> set tr \<longrightarrow> policy p a r = Decision_Granted)"

lemma honest_snoc:
  "honest policy tr \<Longrightarrow> (\<And>p a r. e = Sv_Granted p a r \<Longrightarrow> policy p a r = Decision_Granted) \<Longrightarrow> honest policy (tr @ [(n, e)])"
  by (auto simp: honest_def)

section \<open>The table of active runs\<close>

definition slots_ok :: "service_state \<Rightarrow> bool" where
  "slots_ok s \<longleftrightarrow> length (ss_active s) \<le> MAX_ACTIVE_RUNS \<and> distinct (map fst (ss_active s))
     \<and> (\<forall>(sid, a) \<in> set (ss_active s). key_session_id (ar_key a) = sid)"

lemma slots_delete: "slots_ok s \<Longrightarrow> slots_ok (s\<lparr>ss_active := AList.delete sid (ss_active s)\<rparr>)"
proof -
  assume s: "slots_ok s"
  have "AList.delete sid (ss_active s) = filter (\<lambda>(k, _). sid \<noteq> k) (ss_active s)" by (simp add: AList.delete_eq)
  with s show ?thesis
    by (auto simp: slots_ok_def distinct_map_filter length_filter_le intro: le_trans [OF length_filter_le])
qed

lemma alist_update_present:
  "map_of xs k = Some v \<Longrightarrow> length (AList.update k w xs) = length xs \<and> map fst (AList.update k w xs) = map fst xs
     \<and> set (AList.update k w xs) \<subseteq> insert (k, w) (set xs)"
  by (induction xs) auto

lemma slots_update:
  assumes "slots_ok s" "map_of (ss_active s) sid = Some a" "key_session_id (ar_key b) = sid"
  shows "slots_ok (s\<lparr>ss_active := AList.update sid b (ss_active s)\<rparr>)"
  using assms alist_update_present [OF assms(2), of b] by (fastforce simp: slots_ok_def)

lemma slots_insert:
  assumes "slots_ok s" "map_of (ss_active s) sid = None" "length (ss_active s) < MAX_ACTIVE_RUNS" "key_session_id (ar_key b) = sid"
  shows "slots_ok (s\<lparr>ss_active := (sid, b) # ss_active s\<rparr>)"
  using assms by (auto simp: slots_ok_def map_of_eq_None_iff)

lemma slots_frame: "ss_active t = ss_active s \<Longrightarrow> slots_ok s \<Longrightarrow> slots_ok t"
  by (simp add: slots_ok_def)

section \<open>What every step keeps\<close>

definition service_inv :: "service_policy \<Rightarrow> (nat \<Rightarrow> verified_principal option) \<Rightarrow> service_state \<Rightarrow> bool" where
  "service_inv policy who s \<longleftrightarrow> all_backed who (ss_trace s) \<and> honest policy (ss_trace s) \<and> slots_ok s"

definition knows ::
  "service_policy \<Rightarrow> (nat \<Rightarrow> verified_principal option) \<Rightarrow> nat \<Rightarrow> service_entry set \<Rightarrow> service_state \<Rightarrow> bool" where
  "knows policy who n E s \<longleftrightarrow> service_inv policy who s \<and> E \<subseteq> entries_of n (ss_trace s)"

definition progress ::
  "service_policy \<Rightarrow> (nat \<Rightarrow> verified_principal option) \<Rightarrow> service_state \<Rightarrow> service_state \<Rightarrow> bool" where
  "progress policy who s t \<longleftrightarrow> (\<exists>ys. ss_trace t = ss_trace s @ ys) \<and> (service_inv policy who s \<longrightarrow> service_inv policy who t)"

interpretation sv: rely_guarantee "progress policy who" "knows policy who" "{}" for policy who
proof
  show "progress policy who s s" for s by (simp add: progress_def)
  show "progress policy who s u" if "progress policy who s t" "progress policy who t u" for s t u
    using that unfolding progress_def by (metis append.assoc)
  show "knows policy who n K t" if "progress policy who s t" "knows policy who n K s" for s t n K
    using that unfolding progress_def knows_def by auto
qed

text \<open>
  The processes of a service with the policy of its environment: those that learn nothing and need nothing, those that
  are safe with what they know, and what they learn.
\<close>

abbreviation reads :: "service_env \<Rightarrow> (nat \<Rightarrow> verified_principal option) \<Rightarrow> 'a sp \<Rightarrow> bool" where
  "reads env who \<equiv> rely_guarantee.plain (progress (sv_authorize env) who) (knows (sv_authorize env) who) (sv_process env)"

abbreviation secure :: "service_env \<Rightarrow> (nat \<Rightarrow> verified_principal option) \<Rightarrow> service_entry set \<Rightarrow> 'a sp \<Rightarrow> bool" where
  "secure env who \<equiv> rely_guarantee.safe (progress (sv_authorize env) who) (knows (sv_authorize env) who) (sv_process env)"

abbreviation teaches ::
  "service_env \<Rightarrow> (nat \<Rightarrow> verified_principal option) \<Rightarrow> 'a sp \<Rightarrow> service_entry set \<Rightarrow> ('a \<Rightarrow> service_entry set) \<Rightarrow> bool" where
  "teaches env who \<equiv> rely_guarantee.learns (progress (sv_authorize env) who) (knows (sv_authorize env) who) (sv_process env)"

lemma progress_frame:
  "ss_trace t = ss_trace s \<Longrightarrow> (slots_ok s \<Longrightarrow> slots_ok t) \<Longrightarrow> progress policy who s t"
  by (simp add: progress_def service_inv_def)

lemma silent_step: "(\<And>s. ss_trace (snd (m s)) = ss_trace s \<and> ss_active (snd (m s)) = ss_active s) \<Longrightarrow> reads env who (atomic m)"
  by (rule sv.plain_atomic, rule progress_frame) (blast intro: slots_frame)+

lemma slot_step: "(\<And>s. ss_trace (snd (m s)) = ss_trace s \<and> (slots_ok s \<longrightarrow> slots_ok (snd (m s)))) \<Longrightarrow> reads env who (atomic m)"
  by (rule sv.plain_atomic, rule progress_frame) simp_all

definition plain_entry :: "service_policy \<Rightarrow> service_entry \<Rightarrow> bool" where
  "plain_entry policy e \<longleftrightarrow> (\<forall>p a m. e \<noteq> Sv_Mutated p a m) \<and> (\<forall>p a r. e = Sv_Granted p a r \<longrightarrow> policy p a r = Decision_Granted)"

lemma entry_inv:
  assumes "service_inv policy who s" "plain_entry policy e" "ss_trace t = ss_trace s @ [(n, e)]" "ss_active t = ss_active s"
  shows "service_inv policy who t"
proof -
  have "all_backed who (ss_trace t)" "honest policy (ss_trace t)"
    using assms(1-3) unfolding service_inv_def by (auto simp: plain_entry_def intro!: all_backed_snoc honest_snoc)
  moreover have "slots_ok t" using slots_frame [OF assms(4)] assms(1) by (simp add: service_inv_def)
  ultimately show ?thesis by (simp add: service_inv_def)
qed

text \<open>A step that notes a plain entry, or leaves all as it is, teaches the entry.\<close>

lemma entry_step:
  assumes "\<And>s. ss_active (snd (m s)) = ss_active s"
    "\<And>s. (\<exists>v. fst (m s) = Inr v) \<and> plain_entry (sv_authorize env) e \<and> ss_trace (snd (m s)) = ss_trace s @ [(sv_process env, e)]
       \<or> (\<exists>x. fst (m s) = Inl x) \<and> ss_trace (snd (m s)) = ss_trace s"
  shows "teaches env who (atomic m) E (\<lambda>_. insert e E)"
  unfolding sv.learns_def
proof (rule sv.goes_atomic)
  fix s assume s: "knows (sv_authorize env) who (sv_process env) E s"
  show "progress (sv_authorize env) who s (snd (m s)) \<and>
      (\<exists>L. knows (sv_authorize env) who (sv_process env) L (snd (m s)) \<and> (case fst (m s) of Inl _ \<Rightarrow> True | Inr x \<Rightarrow> L = insert e E))"
    using assms(2) [of s]
  proof
    assume m: "(\<exists>v. fst (m s) = Inr v) \<and> plain_entry (sv_authorize env) e \<and> ss_trace (snd (m s)) = ss_trace s @ [(sv_process env, e)]"
    then have inv: "service_inv (sv_authorize env) who s \<Longrightarrow> service_inv (sv_authorize env) who (snd (m s))"
      using entry_inv assms(1) by blast
    with m have "progress (sv_authorize env) who s (snd (m s))" by (simp add: progress_def)
    moreover from inv m s have "knows (sv_authorize env) who (sv_process env) (insert e E) (snd (m s))"
      by (auto simp: knows_def entries_of_def)
    ultimately show ?thesis using m by auto
  next
    assume m: "(\<exists>x. fst (m s) = Inl x) \<and> ss_trace (snd (m s)) = ss_trace s"
    then have "progress (sv_authorize env) who s (snd (m s))"
      using assms(1) by (intro progress_frame) (blast intro: slots_frame)+
    moreover from sv.stable [OF this s] m
    have "\<exists>L. knows (sv_authorize env) who (sv_process env) L (snd (m s)) \<and> (case fst (m s) of Inl _ \<Rightarrow> True | Inr x \<Rightarrow> L = insert e E)"
      by auto
    ultimately show ?thesis by blast
  qed
qed

lemma note_learns:
  "plain_entry (sv_authorize env) e \<Longrightarrow> teaches env who (note_entry env e) E (\<lambda>_. insert e E)"
  unfolding note_entry_def p_modify_def by (rule entry_step) simp_all

lemma audit_learns:
  "teaches env who (audit_security env p a ph k w) E (\<lambda>_. insert (audit_entry p a ph k w) E)"
  unfolding audit_security_def Let_def audit_entry_def
  by (rule entry_step) (auto simp: tick_def plain_entry_def)

lemma entry_progress:
  "plain_entry policy e \<Longrightarrow> ss_trace t = ss_trace s @ [(n, e)] \<Longrightarrow> ss_active t = ss_active s \<Longrightarrow> progress policy who s t"
  unfolding progress_def using entry_inv by blast

section \<open>The steps of requests\<close>

lemma port_reads:
  "reads env who (await env f)" "reads env who (session_call env c)" "reads env who (run_harness env ctx h)"
  "reads env who (read_store env q)" "reads env who (atomic ensure_serving)" "reads env who (spawn t)"
  unfolding await_def session_call_def run_harness_def read_store_def spawn_def p_modify_def
  by (rule silent_step, auto simp: tick_def after_harness_def ensure_serving_def and_then_apply require_apply Let_def
      split: prod.split)+

lemma state_reads:
  "reads env who (p_modify (\<lambda>s. s\<lparr>ss_draining := d\<rparr>))" "reads env who (p_modify (\<lambda>s. s\<lparr>ss_running := r s\<rparr>))"
  unfolding p_modify_def by (rule silent_step, simp)+

lemma locked_step: "reads env who (atomic m) \<Longrightarrow> reads env who (locked env m)"
  unfolding locked_def by (rule sv.plain_then [OF port_reads(1)])

lemma locked_reads:
  "reads env who (locked env (gets f))" "reads env who (locked env (modify (\<lambda>s. s\<lparr>ss_sessions := g s\<rparr>)))"
  "reads env who (locked env (modify (\<lambda>s. s\<lparr>ss_results := h s\<rparr>)))"
  by (rule locked_step, rule silent_step, simp)+

lemma workflow_reads: "reads env who (run_workflow w ctx)"
proof (induction w arbitrary: ctx)
  case (Wf_Step g c)
  have "progress (sv_authorize env) who s (after_harness h s)" for s h
    by (rule progress_frame) (simp_all add: after_harness_def slots_ok_def)
  with Wf_Step show ?case unfolding sv.plain_def by (simp del: ex_simps all_simps) (blast intro: sv.stable)
qed (simp add: sv.plain_rules)

lemma note_reads:
  "reads env who (note_entry env (Sv_Owner k au))" "reads env who (note_entry env (Sv_SessionOwner sid q b))"
  "reads env who (authorize env p a r)" "reads env who (audit_security env p a ph ko wo)"
proof -
  have noted: "reads env who (note_entry env e)" if "plain_entry (sv_authorize env) e" for e
    unfolding note_entry_def p_modify_def by (rule sv.plain_atomic, rule entry_progress [OF that]) simp_all
  show "reads env who (note_entry env (Sv_Owner k au))" "reads env who (note_entry env (Sv_SessionOwner sid q b))"
    by (rule noted, simp add: plain_entry_def)+
  show "reads env who (authorize env p a r)"
    unfolding authorize_def by (auto intro!: sv.plain_rules noted simp: plain_entry_def)
  have "progress (sv_authorize env) who s (tick (s\<lparr>ss_trace := ss_trace s @ [(sv_process env, Sv_Audited e)]\<rparr>))"
    "progress (sv_authorize env) who s (tick s)" for s e
    by (rule entry_progress [of _ "Sv_Audited e"], simp_all add: plain_entry_def tick_def)
       (rule progress_frame, simp_all add: slots_ok_def)
  then show "reads env who (audit_security env p a ph ko wo)"
    unfolding audit_security_def Let_def by (intro sv.plain_atomic) simp
qed

lemmas reads_basic = sv.plain_rules port_reads state_reads locked_reads workflow_reads note_reads

lemma remove_reads: "reads env who (remove_active env sid)"
  unfolding remove_active_def by (intro locked_step slot_step) (simp add: slots_delete)

lemma call_reads:
  "reads env who (recover env k)" "reads env who (find_run_summary env k)" "reads env who (runs_page env c limit)"
  "reads env who (authorize_mutation env p a r ko wo)" "reads env who (audit_mutation_result env p a ko wo x)"
  "reads env who (run_authorization env k)" "reads env who (load_session env sid)"
  "reads env who (view_for_disposition env d)"
  unfolding recover_def find_run_summary_def runs_page_def authorize_mutation_def audit_mutation_result_def
    run_authorization_def load_session_def view_for_disposition_def Let_def
  by (intro reads_basic)+

lemma view_reads: "reads env who (history_item env summary)"
  unfolding history_item_def Let_def by (intro reads_basic call_reads)

lemma slot_reads:
  "key_session_id k = sid \<Longrightarrow> reads env who (claim_slot env sid k wid)"
  "reads env who (activate_slot env sid)" "reads env who (take_slot env k wid)"
proof -
  show "reads env who (claim_slot env sid k wid)" if "key_session_id k = sid"
    unfolding claim_slot_def using that
    by (intro locked_step slot_step)
       (auto simp: ensure_serving_def and_then_apply require_apply find_active_def split: option.split intro!: slots_insert)
  have "map_of (ss_active s) sid = Some a \<Longrightarrow> slots_ok s \<Longrightarrow> key_session_id (ar_key a) = sid" for s a
    unfolding slots_ok_def by (auto dest!: map_of_SomeD)
  then show "reads env who (activate_slot env sid)"
    unfolding activate_slot_def
    by (intro locked_step slot_step) (auto simp: and_then_apply find_active_def split: option.split intro!: slots_update)
  show "reads env who (take_slot env k wid)"
    unfolding take_slot_def
    by (intro locked_step slot_step) (auto simp: ensure_serving_def and_then_apply require_apply intro!: slots_insert)
qed

lemmas reads_all = reads_basic remove_reads call_reads view_reads slot_reads(2,3)

lemma item_reads:
  "reads env who (history_items env owner summaries)" "reads env who (conversation_items env p sessions)"
  "reads env who (waiting_items env p waits)" "reads env who (operational_items env only runs)"
  "reads env who (discover_items env runs result)"
proof -
  show "reads env who (history_items env owner summaries)" by (induction summaries) (auto intro!: reads_all)
  show "reads env who (conversation_items env p sessions)" by (induction sessions) (auto intro!: reads_all)
  show "reads env who (waiting_items env p waits)" by (induction waits) (auto intro!: reads_all)
  show "reads env who (operational_items env only runs)" by (induction runs) (auto simp: Let_def intro!: reads_all)
  show "reads env who (discover_items env runs result)"
    by (induction runs arbitrary: result) (auto simp: Let_def intro!: reads_all)
qed

lemma discover_reads: "reads env who (discover_pages n env cursor result)"
  by (induction n arbitrary: cursor result) (auto intro!: reads_all item_reads)

lemma harness_reads: "reads env who (harness_call env ctx h)"
  unfolding harness_call_def by (intro reads_all)

lemma request_reads:
  "reads env who (get_run_status env p k)" "reads env who (read_events_request env p k after limit)"
  "reads env who (session_run_page env p sid after' limit)" "reads env who (conversation_page env p after'' limit)"
  "reads env who (waiting_page env p w limit)" "reads env who (operational_run_page env p after' limit only)"
  "reads env who (run_page env p after' limit)" "reads env who (runtime_status env p)" "reads env who (discover_runs env)"
  "reads env who (approval_preview_request env p k w')" "reads env who (drain env in_time)"
  unfolding get_run_status_def read_events_request_def session_run_page_def conversation_page_def waiting_page_def
    operational_run_page_def run_page_def runtime_status_def discover_runs_def approval_preview_request_def drain_def Let_def
  by (intro reads_all item_reads discover_reads harness_reads)+

lemma task_reads: "reads env who (settle_task env i)"
proof -
  have r: "reads env who (store_result env k result)" for k result
    unfolding store_result_def by (intro reads_all)
  have f: "reads env who (finish_task env k c)" for k c
    unfolding finish_task_def by (intro reads_all; split option.split workflow_completion.split; intro conjI allI impI reads_all r)
  have t: "reads env who (run_task env task)" for task
    by (cases task; simp; (split recovery_disposition.split, intro conjI allI impI)?) (intro reads_all f)+
  show ?thesis unfolding settle_task_def by (intro reads_all t silent_step) auto
qed

section \<open>Requests that mutate\<close>

lemma err_learns: "teaches env who (p_err e) E F"
  by (simp add: sv.learns_def p_err_def)

lemma ok_learns: "F x = E \<Longrightarrow> teaches env who (p_ok x) E F"
  by (simp add: sv.learns_def p_ok_def)

lemma authorize_learns: "teaches env who (authorize env p a r) E (\<lambda>_. insert (Sv_Granted p a r) E)"
  unfolding authorize_def by (auto intro!: note_learns err_learns simp: plain_entry_def)

definition granted_entries ::
  "verified_principal \<Rightarrow> authorization_action \<Rightarrow> authorization_resource \<Rightarrow> run_key option \<Rightarrow> durable_approval_wait_id option \<Rightarrow>
   service_entry set" where
  "granted_entries p a r k w =
     {Sv_Granted p a r, audit_entry p a Sec_AuthorizationGranted k w, audit_entry p a Sec_MutationRequested k w}"

lemma authorize_mutation_learns:
  "teaches env who (authorize_mutation env p a r k w) E (\<lambda>_. granted_entries p a r k w \<union> E)"
proof -
  have eq: "granted_entries p a r k w \<union> E = insert (audit_entry p a Sec_MutationRequested k w)
      (insert (audit_entry p a Sec_AuthorizationGranted k w) (insert (Sv_Granted p a r) E))"
    by (auto simp: granted_entries_def)
  show ?thesis
    unfolding eq authorize_mutation_def
    by (rule sv.learns_then [OF authorize_learns], rule sv.learns_then [OF audit_learns], rule audit_learns)
qed

lemma run_authorization_learns: "teaches env who (run_authorization env k) E (\<lambda>au. insert (Sv_Owner k au) E)"
  unfolding run_authorization_def
  by (rule sv.learns_then [OF sv.learns_plain [OF call_reads(2)]])
     (auto split: option.split intro!: err_learns sv.learns_then [OF note_learns] ok_learns simp: plain_entry_def)

lemma load_session_learns:
  "teaches env who (load_session env sid) E (\<lambda>r. insert (Sv_SessionOwner sid (so_owner r) (so_archived r)) E)"
  unfolding load_session_def
  by (rule sv.learns_then [OF sv.learns_plain [OF port_reads(2)]])
     (auto split: option.split intro!: err_learns sv.learns_then [OF note_learns] ok_learns simp: plain_entry_def)

lemma mutate_secure:
  assumes "who (sv_process env) = Some p" "backed E p a m" "\<And>x. secure env who E (f x)"
  shows "secure env who E (p_then (mutate env p a m) f)"
proof (rule sv.learn_then)
  show "teaches env who (mutate env p a m) E (\<lambda>_. E)"
    unfolding sv.learns_def mutate_def note_entry_def p_modify_def
  proof (rule sv.goes_atomic)
    fix s assume s: "knows (sv_authorize env) who (sv_process env) E s"
    let ?t = "s\<lparr>ss_trace := ss_trace s @ [(sv_process env, Sv_Mutated p a m)]\<rparr>"
    have "backed (entries_of (sv_process env) (ss_trace s)) p a m"
      using backed_mono [OF assms(2)] s by (simp add: knows_def)
    then have "all_backed who (ss_trace ?t)" "honest (sv_authorize env) (ss_trace ?t)" "slots_ok ?t"
      using s assms(1) by (auto simp: knows_def service_inv_def slots_ok_def intro!: all_backed_snoc honest_snoc)
    with s show "progress (sv_authorize env) who s (snd (modify (\<lambda>s. s\<lparr>ss_trace := ss_trace s @ [(sv_process env, Sv_Mutated p a m)]\<rparr>) s)) \<and>
        (\<exists>L. knows (sv_authorize env) who (sv_process env) L
               (snd (modify (\<lambda>s. s\<lparr>ss_trace := ss_trace s @ [(sv_process env, Sv_Mutated p a m)]\<rparr>) s))
           \<and> (case fst (modify (\<lambda>s. s\<lparr>ss_trace := ss_trace s @ [(sv_process env, Sv_Mutated p a m)]\<rparr>) s) of Inl _ \<Rightarrow> True | Inr x \<Rightarrow> L = E))"
      by (auto simp: progress_def knows_def service_inv_def)
  qed
qed (rule assms(3))

lemma granted_backs:
  "a = mutation_action m \<Longrightarrow> k = audited_run m \<Longrightarrow> w = audited_wait m \<Longrightarrow>
   names_resource (granted_entries p a r k w \<union> E) (vp_id p) m r \<Longrightarrow> backed (granted_entries p a r k w \<union> E) p a m"
  unfolding backed_def audited_def granted_entries_def by fastforce

lemmas secure_rules = sv.safe_then sv.safe_result sv.safe_cases sv.safe_plain

lemma create_session_secure: "who (sv_process env) = Some p \<Longrightarrow> secure env who E (create_session env fresh p)"
  unfolding create_session_def
  by (rule sv.safe_then [OF port_reads(5)], rule sv.learn_then [OF authorize_mutation_learns])
     (intro sv.safe_then reads_all mutate_secure granted_backs sv.safe_result sv.safe_plain; simp)

lemma archive_secure: "who (sv_process env) = Some p \<Longrightarrow> secure env who E (archive_conversation env p sid)"
  unfolding archive_conversation_def
  by (rule sv.safe_then [OF port_reads(5)], rule sv.learn_then [OF load_session_learns], rule sv.safe_require,
      rule sv.learn_then [OF authorize_mutation_learns])
     (intro secure_rules reads_all mutate_secure granted_backs; auto)

lemma submit_decision_secure: "who (sv_process env) = Some p \<Longrightarrow> secure env who E (submit_decision env p k w v oc)"
  unfolding submit_decision_def
  by (rule sv.safe_then [OF port_reads(5)], rule sv.learn_then [OF run_authorization_learns],
      rule sv.learn_then [OF authorize_mutation_learns])
     (intro secure_rules reads_all mutate_secure granted_backs harness_reads; auto)

lemma abort_waiting_secure: "who (sv_process env) = Some p \<Longrightarrow> secure env who E (abort_waiting env p k w v)"
  unfolding abort_waiting_def
  by (rule sv.safe_then [OF port_reads(5)], rule sv.learn_then [OF run_authorization_learns],
      rule sv.learn_then [OF authorize_mutation_learns])
     (intro secure_rules reads_all mutate_secure granted_backs harness_reads; auto)

lemma cancel_secure: "who (sv_process env) = Some p \<Longrightarrow> secure env who E (cancel_active_run env p k)"
  unfolding cancel_active_run_def
  by (rule sv.learn_then [OF run_authorization_learns], rule sv.learn_then [OF authorize_mutation_learns])
     (intro secure_rules reads_all mutate_secure granted_backs; auto)

lemma resume_run_secure: "who (sv_process env) = Some p \<Longrightarrow> secure env who E (resume_run env p k w)"
  unfolding resume_run_def
  by (rule sv.safe_then [OF port_reads(5)], rule sv.learn_then [OF run_authorization_learns],
      rule sv.learn_then [OF authorize_mutation_learns])
     (intro secure_rules reads_all mutate_secure granted_backs; auto)

lemma existing_run_reads: "reads env who (existing_run env p sid k wid summary)"
  unfolding existing_run_def by (intro reads_all)

lemma fresh_run_secure:
  assumes "who (sv_process env) = Some p" "granted_entries p Do_StartWorkflow (On_Workflow (wf_id workflow)) None None \<subseteq> E"
    "Sv_SessionOwner sid (vp_id p) False \<in> E" "key_session_id k = sid"
  shows "secure env who E (fresh_run env p sid k workflow input)"
proof -
  have "backed E p Do_StartWorkflow (Mut_StartRun k (wf_id workflow))"
    using granted_backs [of Do_StartWorkflow "Mut_StartRun k (wf_id workflow)" None None p "On_Workflow (wf_id workflow)" E] assms
    by (simp add: Un_absorb1)
  with assms(1) show ?thesis
    unfolding fresh_run_def by (intro secure_rules reads_all mutate_secure)
qed

lemma start_run_secure:
  assumes "who (sv_process env) = Some p"
  shows "secure env who E (start_run_request env p sid req wid input)"
proof -
  let ?k = "\<lparr>key_run_id = derive_run_id (sv_sha256 env) sid req, key_session_id = sid\<rparr>"
  let ?F = "granted_entries p Do_StartWorkflow (On_Workflow wid) None None \<union> insert (Sv_SessionOwner sid (vp_id p) False) E"
  have fresh: "secure env who ?F (fresh_run env p sid ?k workflow input)" if "wf_id workflow = wid" for workflow
    by (rule fresh_run_secure [where who = who and env = env and p = p and sid = sid]) (use assms that in auto)
  have titled: "backed ?F p Do_StartWorkflow (Mut_SetTitle sid wid)"
    by (rule granted_backs) auto
  have claim: "reads env who (claim_slot env sid ?k wid)" by (rule slot_reads) simp
  have rest: "secure env who ?F (p_then (claim_slot env sid ?k wid) (\<lambda>existing.
         case existing of
           Some view \<Rightarrow> p_ok view
         | None \<Rightarrow>
             p_then (mutate env p Do_StartWorkflow (Mut_SetTitle sid wid)) (\<lambda>_.
             p_result (session_call env (\<lambda>io. set_session_title_if_absent (sv_session_codec env) io sid (vp_id p)
                 (conversation_title_from_input input))) (\<lambda>titled.
               case titled of
                 Inl e \<Rightarrow> p_then (remove_active env sid) (\<lambda>_. p_err e)
               | Inr _ \<Rightarrow>
                   p_result (find_run_summary env ?k) (\<lambda>found.
                     case found of
                       Inl e \<Rightarrow> p_then (remove_active env sid) (\<lambda>_. p_err e)
                     | Inr (Some summary) \<Rightarrow> existing_run env p sid ?k wid summary
                     | Inr None \<Rightarrow> fresh_run env p sid ?k workflow input)))))" if "wf_id workflow = wid" for workflow
    by (rule sv.safe_then [OF claim], rule sv.safe_cases, rule mutate_secure [where who = who and env = env, OF assms titled])
       (intro secure_rules fresh [OF that] existing_run_reads reads_all)+
  have found: "wf_id workflow = wid" if "ok_or Svc_WorkflowUnavailable (find_workflow env wid) = Inr workflow" for workflow
    using that by (auto simp: ok_or_def find_workflow_def find_Some_iff split: option.splits)
  show ?thesis
    unfolding start_run_request_def Let_def
    by (rule sv.safe_then [OF port_reads(5)], rule sv.safe_then [OF sv.plain_simple(1)], rule sv.learn_then [OF load_session_learns],
        rule sv.safe_require, rule sv.learn_then [OF authorize_mutation_learns], rule sv.safe_return,
        rule sv.safe_then [OF sv.plain_simple(4)]) (use rest [OF found] in auto)
qed

section \<open>A served process\<close>

text \<open>The principal of each process, and the processes of a service, whatever the schedule.\<close>

definition principal_of :: "(nat \<Rightarrow> job) \<Rightarrow> nat \<Rightarrow> verified_principal option" where
  "principal_of jobs n = (case jobs n of Job_Request q \<Rightarrow> request_principal q | Job_Task _ \<Rightarrow> None)"

lemma request_secure:
  "who (sv_process env) = request_principal q \<Longrightarrow> secure env who E (perform_request env q)"
  by (cases q)
     (auto intro!: sv.forget_safe sv.safe_plain [OF request_reads(1)] sv.safe_plain [OF request_reads(2)] sv.safe_plain [OF request_reads(3)]
       sv.safe_plain [OF request_reads(4)] sv.safe_plain [OF request_reads(5)] sv.safe_plain [OF request_reads(6)]
       sv.safe_plain [OF request_reads(7)] sv.safe_plain [OF request_reads(8)] sv.safe_plain [OF request_reads(9)]
       sv.safe_plain [OF request_reads(10)] sv.safe_plain [OF request_reads(11)] create_session_secure start_run_secure archive_secure
       cancel_secure submit_decision_secure abort_waiting_secure resume_run_secure)

lemma launch_secure:
  "rely_guarantee.safe (progress (sv_authorize env) (principal_of jobs)) (knows (sv_authorize env) (principal_of jobs)) n {} (launch env jobs n)"
proof (cases "jobs n")
  case (Job_Request q)
  then show ?thesis
    using request_secure [of "principal_of jobs" "env\<lparr>sv_process := n\<rparr>" q "{}"] by (simp add: launch_def principal_of_def)
next
  case (Job_Task i)
  then show ?thesis
    using sv.safe_plain [OF task_reads [of "env\<lparr>sv_process := n\<rparr>" "principal_of jobs" i]] by (simp add: launch_def)
qed

lemma new_service: "AgentService_new ws tb st = Inr (registered, s) \<Longrightarrow> service_inv policy who s"
  by (auto simp: AgentService_new_def res_then_Inr_iff service_inv_def all_backed_def slots_ok_def honest_def)

lemma served_inv:
  assumes "AgentService_new ws tb st = Inr (registered, s)"
  shows "service_inv (sv_authorize env) (principal_of jobs) (serve_jobs env jobs schedule s)"
proof -
  have new: "service_inv (sv_authorize env) (principal_of jobs) s" by (rule new_service [OF assms])
  have "progress (sv_authorize env) (principal_of jobs) s (serve_jobs env jobs schedule s)"
    unfolding serve_jobs_def by (rule sv.interleave_keeps [OF launch_secure]) (use new in \<open>simp add: knows_def\<close>)
  with new show ?thesis by (simp add: progress_def)
qed

lemma served_backed:
  assumes "AgentService_new ws tb st = Inr (registered, s)"
    "ss_trace (serve_jobs env jobs schedule s) = xs @ (n, Sv_Mutated p a m) # ys"
  shows "principal_of jobs n = Some p" "a = mutation_action m" "audited (entries_of n xs) p m Sec_AuthorizationGranted"
    "audited (entries_of n xs) p m Sec_MutationRequested"
    "\<exists>r. Sv_Granted p a r \<in> entries_of n xs \<and> names_resource (entries_of n xs) (vp_id p) m r \<and> sv_authorize env p a r = Decision_Granted"
proof -
  note inv = served_inv [OF assms(1), of env jobs schedule, unfolded service_inv_def]
  have "principal_of jobs n = Some p" "backed (entries_of n xs) p a m"
    using inv assms(2) unfolding all_backed_def by blast+
  then show "principal_of jobs n = Some p" "a = mutation_action m" "audited (entries_of n xs) p m Sec_AuthorizationGranted"
    "audited (entries_of n xs) p m Sec_MutationRequested"
    unfolding backed_def by blast+
  from \<open>backed (entries_of n xs) p a m\<close> obtain r where
    r: "Sv_Granted p a r \<in> entries_of n xs" "names_resource (entries_of n xs) (vp_id p) m r"
    unfolding backed_def by blast
  have "sv_authorize env p a r = Decision_Granted"
    using inv r(1) assms(2) unfolding honest_def entries_of_def by auto
  with r show "\<exists>r. Sv_Granted p a r \<in> entries_of n xs \<and> names_resource (entries_of n xs) (vp_id p) m r \<and> sv_authorize env p a r = Decision_Granted"
    by blast
qed

text \<open>What the default-deny policy lets a principal change, in terms of what was read from the store before.\<close>

fun permitted :: "default_deny_policy \<Rightarrow> service_entry set \<Rightarrow> verified_principal \<Rightarrow> mutation \<Rightarrow> bool" where
  "permitted pol E q (Mut_CreateSession _) \<longleftrightarrow> has_role q Role_User"
| "permitted pol E q (Mut_SetTitle s w) \<longleftrightarrow>
     has_role q Role_User \<and> w \<in> pol_workflows pol \<and> Sv_SessionOwner s (vp_id q) False \<in> E"
| "permitted pol E q (Mut_ArchiveSession s) \<longleftrightarrow> has_role q Role_User \<and> Sv_SessionOwner s (vp_id q) False \<in> E"
| "permitted pol E q (Mut_StartRun k w) \<longleftrightarrow>
     has_role q Role_User \<and> w \<in> pol_workflows pol \<and> Sv_SessionOwner (key_session_id k) (vp_id q) False \<in> E"
| "permitted pol E q (Mut_CancelRun k) \<longleftrightarrow>
     has_role q Role_User \<and> (\<exists>au. Sv_Owner k au \<in> E \<and> auth_owner au = vp_id q \<and> auth_workflow_id au \<in> pol_workflows pol)"
| "permitted pol E q (Mut_DecideApproval k _) \<longleftrightarrow>
     has_role q Role_Approver \<and> (\<exists>au. Sv_Owner k au \<in> E \<and> auth_workflow_id au \<in> pol_workflows pol
       \<and> (pol_approval_separation pol = RequesterMustDiffer \<longrightarrow> auth_requester au \<noteq> vp_id q))"
| "permitted pol E q (Mut_AbortWaiting k _) \<longleftrightarrow>
     has_role q Role_User \<and> (\<exists>au. Sv_Owner k au \<in> E \<and> auth_owner au = vp_id q \<and> auth_workflow_id au \<in> pol_workflows pol)"
| "permitted pol E q (Mut_ResumeRun k _) \<longleftrightarrow>
     has_role q Role_User \<and> (\<exists>au. Sv_Owner k au \<in> E \<and> auth_owner au = vp_id q \<and> auth_workflow_id au \<in> pol_workflows pol)"

lemma grant_permits:
  assumes "authorize_request pol q (mutation_action m) r = Decision_Granted" "names_resource E (vp_id q) m r"
  shows "permitted pol E q m"
  using assms unfolding authorize_request_table
  by (cases m) (auto simp: policy_table_def has_role_def)

end
