(* ===== verification/Service_Faults.thy ===== *)
theory Service_Faults
  imports Service_Laws
begin

text \<open>
  A start of a run that fails late: where \<^verbatim>\<open>start_run\<close> of \<^verbatim>\<open>agent-service/src/lib.rs\<close> returns with \<^verbatim>\<open>?\<close> after it has
  claimed the slot of its session, the slot stays. The run then cannot be cancelled or resumed, and the service does not drain.
  Here requests run one at a time (\<open>run_alone\<close>). The other laws are about titles and the discovery of runs.
\<close>

section \<open>Steps that leave the slots alone\<close>

definition idle :: "nat \<times> service_entry \<Rightarrow> (service_error \<Rightarrow> bool) \<Rightarrow> 'a sp \<Rightarrow> bool" where
  "idle x A m \<longleftrightarrow> (\<forall>s r t. run_alone m s = (r, t) \<longrightarrow> ss_active t = ss_active s \<and> ss_tasks t = ss_tasks s
     \<and> (x \<in> set (ss_trace t) \<longrightarrow> x \<in> set (ss_trace s)) \<and> (\<forall>e. r = Inl e \<longrightarrow> A e))"

lemma idle_step:
  assumes "idle x A m" "run_alone m s = (r, t)"
  shows "ss_active t = ss_active s" "ss_tasks t = ss_tasks s" "x \<in> set (ss_trace t) \<Longrightarrow> x \<in> set (ss_trace s)"
    "r = Inl e \<Longrightarrow> A e"
  using assms unfolding idle_def by blast+

lemma idle_simple:
  "idle x A (p_ok v)" "A e \<Longrightarrow> idle x A (p_err e)" "idle x A (p_gets f)" "A e \<Longrightarrow> idle x A (p_require b e)"
  "(\<And>e. r = Inl e \<Longrightarrow> A e) \<Longrightarrow> idle x A (Return r)" "(sv_process env, y) \<noteq> x \<Longrightarrow> idle x A (note_entry env y)"
  by (auto simp: idle_def require_def note_entry_def)

lemma idle_then: "idle x A m \<Longrightarrow> (\<And>v. idle x A (k v)) \<Longrightarrow> idle x A (p_then m k)"
proof -
  assume m: "idle x A m" and k: "\<And>v. idle x A (k v)"
  show ?thesis
    unfolding idle_def
  proof (intro allI impI)
    fix s r t assume run: "run_alone (p_then m k) s = (r, t)"
    obtain r1 s1 where first: "run_alone m s = (r1, s1)" by fastforce
    show "ss_active t = ss_active s \<and> ss_tasks t = ss_tasks s \<and> (x \<in> set (ss_trace t) \<longrightarrow> x \<in> set (ss_trace s)) \<and> (\<forall>e. r = Inl e \<longrightarrow> A e)"
    proof (cases r1)
      case (Inl e)
      with run first idle_step [OF m first] show ?thesis by (auto simp: and_then_apply)
    next
      case (Inr v)
      with run first have "run_alone (k v) s1 = (r, t)" by (simp add: and_then_apply)
      from idle_step [OF m first] idle_step [OF k this] show ?thesis by auto
    qed
  qed
qed

lemma idle_cases:
  "(b \<Longrightarrow> idle x A m) \<Longrightarrow> (\<not> b \<Longrightarrow> idle x A n) \<Longrightarrow> idle x A (if b then m else n)"
  "idle x A m \<Longrightarrow> (\<And>v. idle x A (f v)) \<Longrightarrow> idle x A (case w of None \<Rightarrow> m | Some v \<Rightarrow> f v)"
  by (simp) (cases w; simp)

lemma idle_weaken: "idle x A m \<Longrightarrow> (\<And>e. A e \<Longrightarrow> B e) \<Longrightarrow> idle x B m"
  unfolding idle_def by blast

definition owned_error :: "service_error \<Rightarrow> bool" where
  "owned_error e \<longleftrightarrow> e \<noteq> Svc_LegacyUnowned"

definition started :: "service_env \<Rightarrow> verified_principal \<Rightarrow> run_key \<Rightarrow> workflow_id \<Rightarrow> nat \<times> service_entry" where
  "started env p k wid = (sv_process env, Sv_Mutated p Do_StartWorkflow (Mut_StartRun k wid))"

lemma idle_ports:
  "idle x A (await env f)" "idle x A (locked env (gets g))" "idle x owned_error (session_call env c)" "idle x A (run_harness env ctx h)"
  by (auto simp: idle_def await_def locked_def and_then_apply session_call_def run_harness_def owned_error_def tick_def after_harness_def
      map_sum_def split: prod.splits sum.splits)

lemma idle_reads:
  "idle x owned_error (recover env r)" "idle x owned_error (find_run_summary env r)"
  by (auto simp: idle_def recover_def find_run_summary_def read_store_def owned_error_def Let_def tick_def map_sum_def split: sum.splits)

lemma started_neq: "(n, Sv_Granted q a r) \<noteq> started env p k wid" "(n, Sv_Audited e) \<noteq> started env p k wid"
  "(n, Sv_SessionOwner sid q' b) \<noteq> started env p k wid" "(n, Sv_Owner k' au) \<noteq> started env p k wid"
  "(n, Sv_Mutated q a (Mut_SetTitle sid wid')) \<noteq> started env p k wid"
  by (simp_all add: started_def)

lemma owned_errors [simp]: "owned_error Svc_Draining" "owned_error Svc_Unauthorized" "owned_error Svc_SecurityAudit"
  "owned_error Svc_NotFound" "owned_error Svc_InvalidRequest" "owned_error Svc_WorkflowUnavailable" "owned_error Svc_Conflict"
  "owned_error Svc_Capacity" "owned_error Svc_Configuration" "owned_error (Svc_Harness h)"
  by (simp_all add: owned_error_def)

lemma idle_audit:
  "idle (started env p k wid) (\<lambda>e. e = Svc_SecurityAudit) (audit_security env' q a ph ko wo)"
  "idle (started env p k wid) owned_error (audit_security env' q a ph ko wo)"
  by (auto simp: idle_def audit_security_def Let_def tick_def started_def split: if_splits)

lemma idle_checks:
  "idle (started env p k wid) owned_error (atomic ensure_serving)" "idle (started env p k wid) owned_error (authorize env' q a r)"
proof -
  show "idle (started env p k wid) owned_error (atomic ensure_serving)"
    by (auto simp: idle_def ensure_serving_def and_then_apply require_apply split: if_splits)
  show "idle (started env p k wid) owned_error (authorize env' q a r)"
    unfolding authorize_def by (intro idle_simple idle_cases started_neq owned_errors)
qed

lemma idle_calls:
  "idle (started env p k wid) owned_error (authorize_mutation env' q a r ko wo)" "idle (started env p k wid) owned_error (load_session env' sid)"
  "idle (started env p k wid) owned_error (view_for_disposition env' d)"
  "idle (started env p k wid) owned_error (audit_mutation_result env' q a ko wo (Inr ()))"
  unfolding authorize_mutation_def load_session_def view_for_disposition_def audit_mutation_result_def Let_def
  by (intro idle_then idle_simple idle_cases idle_ports idle_checks idle_audit started_neq owned_errors; simp)+

lemma idle_title: "idle (started env p k wid) A (mutate env' q a (Mut_SetTitle sid wid'))"
  unfolding mutate_def by (rule idle_simple) (rule started_neq)

section \<open>A start that leaves its slot\<close>

definition stuck :: "run_key \<Rightarrow> service_state \<Rightarrow> bool" where
  "stuck k s \<longleftrightarrow> (\<exists>a. find_active (key_session_id k) s = Some a \<and> ar_key a = k \<and> ar_disposition a = View_Starting \<and> \<not> ar_cancellation a)"

definition phase :: "nat \<times> service_entry \<Rightarrow> run_key \<Rightarrow> service_task list \<Rightarrow> bool \<Rightarrow> bool \<Rightarrow> service_state \<Rightarrow> bool" where
  "phase x k T a b s \<longleftrightarrow> ss_tasks s = T \<and> (a \<longrightarrow> x \<notin> set (ss_trace s)) \<and> (b \<longrightarrow> stuck k s)"

definition late :: "nat \<times> service_entry \<Rightarrow> run_key \<Rightarrow> service_task list \<Rightarrow> service_error \<Rightarrow> service_state \<Rightarrow> bool" where
  "late x k T e s \<longleftrightarrow> (e = Svc_LegacyUnowned \<or> e = Svc_SecurityAudit \<and> x \<in> set (ss_trace s) \<longrightarrow> stuck k s \<and> ss_tasks s = T)"

lemma idle_phase: "idle x A m \<Longrightarrow> triple (phase x k T a b) (run_alone m) (\<lambda>_. phase x k T a b) (\<lambda>e s. A e \<and> phase x k T a b s)"
  unfolding triple_def
proof (intro allI impI)
  fix s r t assume m: "idle x A m" and s: "phase x k T a b s" and run: "run_alone m s = (r, t)"
  have "phase x k T a b t"
    using s idle_step(1-3) [OF m run] by (auto simp: phase_def stuck_def find_active_def)
  with idle_step(4) [OF m run] show "case r of Inl e \<Rightarrow> A e \<and> phase x k T a b t | Inr v \<Rightarrow> phase x k T a b t"
    by (simp split: sum.split)
qed

lemma phase_late: "owned_error e \<Longrightarrow> phase x k T True b s \<Longrightarrow> late x k T e s" "phase x k T a True s \<Longrightarrow> late x k T e s"
  by (auto simp: phase_def late_def owned_error_def)

lemma process_then:
  "triple P (run_alone m) R E \<Longrightarrow> (\<And>v. triple (R v) (run_alone (f v)) Q E) \<Longrightarrow> triple P (run_alone (p_then m f)) Q E"
  unfolding run_then by (rule triple_and_then)

lemma process_result:
  "triple P (run_alone m) R F \<Longrightarrow> (\<And>v. triple (R v) (run_alone (f (Inr v))) Q E) \<Longrightarrow> (\<And>e. triple (F e) (run_alone (f (Inl e))) Q E) \<Longrightarrow>
   triple P (run_alone (p_result m f)) Q E"
  unfolding run_result by (rule triple_on_result)

lemma early_then:
  assumes "idle x owned_error m" "\<And>v. triple (phase x k T True b) (run_alone (f v)) Q (late x k T)"
  shows "triple (phase x k T True b) (run_alone (p_then m f)) Q (late x k T)"
  by (rule process_then [OF triple_conseq [OF idle_phase [OF assms(1)]] assms(2)]) (auto intro: phase_late)

lemma stuck_then:
  assumes "idle x owned_error m" "\<And>v. triple (phase x k T a True) (run_alone (f v)) Q (late x k T)"
  shows "triple (phase x k T a True) (run_alone (p_then m f)) Q (late x k T)"
  by (rule process_then [OF triple_conseq [OF idle_phase [OF assms(1)]] assms(2)]) (auto intro: phase_late)

lemma early_result:
  assumes "idle x owned_error m" "\<And>v. triple (phase x k T True b) (run_alone (f (Inr v))) Q (late x k T)"
    "\<And>e. owned_error e \<Longrightarrow> triple (phase x k T True b) (run_alone (f (Inl e))) Q (late x k T)"
  shows "triple (phase x k T True b) (run_alone (p_result m f)) Q (late x k T)"
proof (rule process_result [OF idle_phase [OF assms(1)]], rule assms(2))
  fix e show "triple (\<lambda>s. owned_error e \<and> phase x k T True b s) (run_alone (f (Inl e))) Q (late x k T)"
    using assms(3) by (rule triple_lift)
qed

lemma release: "triple (phase x k T a b) (run_alone (remove_active env sid)) (\<lambda>_. phase x k T a False) E"
  by (auto simp: triple_def remove_active_def locked_def await_def and_then_apply phase_def tick_def)

lemma early_err: "owned_error e \<Longrightarrow> triple (phase x k T True b) (run_alone (p_err e)) Q (late x k T)"
  unfolding run_simple by (rule triple_err) (rule phase_late(1))

lemma release_err:
  assumes "owned_error e"
  shows "triple (phase x k T True b) (run_alone (p_then (remove_active env sid) (\<lambda>_. p_err e))) Q (late x k T)"
  by (rule process_then [OF release early_err [OF assms]])

lemma claims:
  assumes "sid = key_session_id k"
  shows "triple (phase x k T True False) (run_alone (claim_slot env sid k wid))
    (\<lambda>r. case r of None \<Rightarrow> phase x k T True True | Some _ \<Rightarrow> phase x k T True False) (late x k T)"
  using assms
  by (auto simp: triple_def claim_slot_def locked_def await_def and_then_apply phase_def tick_def ensure_serving_def
      require_apply find_active_def late_def stuck_def split: option.splits sum.splits if_splits)

lemma existing_late:
  "triple (phase (started env p k w) k T True True) (run_alone (existing_run env p sid k wid summary)) (\<lambda>_ _. True)
     (late (started env p k w) k T)"
proof -
  let ?x = "started env p k w"
  have audit: "triple (phase ?x k T True False) (run_alone (audit_mutation_result env p Do_StartWorkflow (Some k) None r))
      (\<lambda>_ _. True) (late ?x k T)"
    if "\<And>e. r = Inl e \<Longrightarrow> owned_error e" for r :: "service_error + run_view"
    unfolding audit_mutation_result_def
    by (rule early_then [OF idle_audit(2)], rule triple_conseq [OF idle_phase [OF idle_simple(5), of r owned_error]])
       (auto intro: phase_late that)
  have view: "idle ?x owned_error (p_then (recover env k) (view_for_disposition env))"
    by (intro idle_then idle_reads idle_calls)
  show ?thesis
  proof (cases "rs_authorization summary")
    case None
    then show ?thesis by (auto simp: existing_run_def intro!: triple_err phase_late(2))
  next
    case (Some a)
    have "triple (phase ?x k T True True) (run_alone (p_result (p_then (recover env k) (view_for_disposition env)) (\<lambda>result.
            p_then (remove_active env sid) (\<lambda>_. audit_mutation_result env p Do_StartWorkflow (Some k) None result))))
        (\<lambda>_ _. True) (late ?x k T)"
      by (rule early_result [OF view]; rule process_then [OF release audit]; simp)
    moreover note release_err [of Svc_Unauthorized ?x k T True env sid "\<lambda>(_ :: run_view) _. True"]
    ultimately show ?thesis using Some unfolding existing_run_def by (simp del: run_then run_result)
  qed
qed

lemma fresh_late:
  "triple (phase (started env p k w) k T True True) (run_alone (fresh_run env p sid k workflow input)) (\<lambda>_ _. True)
     (late (started env p k w) k T)"
proof -
  let ?x = "started env p k w"
  have first: "idle ?x owned_error (Return (case DurableRunAuthorization_new i j w v f of
      Inl _ \<Rightarrow> Inl Svc_Configuration | Inr a \<Rightarrow> Inr a))" for i j w v f
    by (rule idle_simple(5)) (auto split: sum.splits)
  have noted: "triple (phase ?x k T True True) (run_alone (mutate env p Do_StartWorkflow (Mut_StartRun k v))) (\<lambda>_. phase ?x k T False True)
      (late ?x k T)" for v
    by (auto simp: triple_def mutate_def note_entry_def phase_def stuck_def find_active_def)
  have failed: "triple (phase ?x k T False True) (run_alone (p_then (remove_active env sid) (\<lambda>_.
      p_result (audit_security env p Do_StartWorkflow Sec_MutationFailed (Some k) None) (\<lambda>_. p_err (Svc_Harness e)))))
      (\<lambda>_ _. True) (late ?x k T)" for e
    by (rule process_then [OF release], rule process_result [OF idle_phase [OF idle_audit(1)]])
       (auto intro!: triple_err simp: late_def)
  have active: "triple (phase ?x k T False True) (run_alone (activate_slot env sid)) (\<lambda>_ _. True) (late ?x k T)"
    by (auto simp: triple_def activate_slot_def locked_def await_def and_then_apply late_def split: option.splits sum.split)
  have last: "triple (\<lambda>_. True) (run_alone (p_then (p_gets ss_draining) (\<lambda>d. p_then (if d then await env (\<lambda>_. ()) else p_ok ()) (\<lambda>_.
      p_then (spawn task) (\<lambda>_. p_ok view))))) (\<lambda>_ _. True) (late ?x k T)" for task view
    by (auto simp: triple_def and_then_apply spawn_def await_def split: sum.split)
  have split: "triple (phase ?x k T False True) (run_alone (case v of (st, ctx) \<Rightarrow> f st ctx)) Q E"
    if "\<And>st ctx. triple (phase ?x k T False True) (run_alone (f st ctx)) Q E" for v :: "'x \<times> 'y" and f :: "'x \<Rightarrow> 'y \<Rightarrow> run_view sp" and Q E
    using that by (cases v) simp
  have sum: "triple (phase ?x k T False True) (run_alone (case v of Inl e \<Rightarrow> f e | Inr y \<Rightarrow> g y)) Q E"
    if "\<And>e. triple (phase ?x k T False True) (run_alone (f e)) Q E" "\<And>y. triple (phase ?x k T False True) (run_alone (g y)) Q E"
    for v :: "'x + 'y" and f g :: "_ \<Rightarrow> run_view sp" and Q E
    using that by (cases v) simp_all
  show ?thesis
    unfolding fresh_run_def
    by (rule stuck_then [OF first], rule process_then [OF noted], rule stuck_then [OF idle_ports(4)], rule split, rule sum,
        rule failed, rule stuck_then [OF idle_calls(4)], rule process_then [OF active], rule last)
qed

lemma start_late:
  assumes "k = \<lparr>key_run_id = derive_run_id (sv_sha256 env) sid req, key_session_id = sid\<rparr>"
  shows "triple (phase (started env p k w) k T True False) (run_alone (start_run_request env p sid req wid input)) (\<lambda>_ _. True)
     (late (started env p k w) k T)"
proof -
  let ?x = "started env p k w"
  have valid: "idle ?x owned_error (Return (WorkflowId_validate wid))"
    "idle ?x owned_error (Return (ok_or Svc_WorkflowUnavailable (find_workflow env wid)))"
    by (rule idle_simple(5), auto simp: WorkflowId_validate_def WorkflowId_new_def ok_or_def split: if_splits option.splits)+
  have checked: "idle ?x owned_error (p_require b Svc_Unauthorized)" "idle ?x owned_error (p_require b Svc_InvalidRequest)" for b
    by (rule idle_simple, rule owned_errors)+
  have slot: "triple (phase ?x k T True False) (run_alone (claim_slot env sid k wid))
    (\<lambda>r. case r of None \<Rightarrow> phase ?x k T True True | Some _ \<Rightarrow> phase ?x k T True False) (late ?x k T)"
    by (rule claims) (simp add: assms)
  have body: "triple (phase ?x k T True True) (run_alone (p_then (mutate env p Do_StartWorkflow (Mut_SetTitle sid wid)) (\<lambda>_.
      p_result (session_call env c) (\<lambda>titled.
        case titled of
          Inl e \<Rightarrow> p_then (remove_active env sid) (\<lambda>_. p_err e)
        | Inr _ \<Rightarrow>
            p_result (find_run_summary env k) (\<lambda>found.
              case found of
                Inl e \<Rightarrow> p_then (remove_active env sid) (\<lambda>_. p_err e)
              | Inr (Some summary) \<Rightarrow> existing_run env p sid k wid summary
              | Inr None \<Rightarrow> fresh_run env p sid k workflow input))))) (\<lambda>_ _. True) (late ?x k T)"
    for c :: "session_io \<Rightarrow> unit stx" and workflow
    by (rule early_then [OF idle_title], rule early_result [OF idle_ports(3)], simp_all add: release_err del: run_then run_result,
        rule early_result [OF idle_reads(2)])
       (auto simp: release_err existing_late fresh_late simp del: run_then run_result split: option.split)
  show ?thesis
    unfolding start_run_request_def Let_def assms [symmetric]
    by (rule early_then [OF idle_checks(1)], rule early_then [OF valid(1)], rule early_then [OF idle_calls(2)],
        rule early_then [OF checked(1)], rule early_then [OF idle_calls(1)],
        rule early_then [OF valid(2)], rule early_then [OF checked(2)], rule process_then [OF slot])
       (auto simp del: run_then run_result split: option.split intro: body triple_ok)
qed

text \<open>A stuck run is neither cancelled nor resumed, and the service does not drain.\<close>

lemma idle_stuck:
  "idle x A m \<Longrightarrow> (\<And>v. triple (stuck k) (run_alone (f v)) Q (\<lambda>_ _. True)) \<Longrightarrow> triple (stuck k) (run_alone (p_then m f)) Q (\<lambda>_ _. True)"
proof (rule process_then)
  assume "idle x A m"
  from idle_step(1) [OF this] show "triple (stuck k) (run_alone m) (\<lambda>_. stuck k) (\<lambda>_ _. True)"
    by (auto simp: triple_def stuck_def find_active_def split: sum.split)
qed

lemma owned_run_authorization: "idle (started env p k wid) (\<lambda>_. True) (run_authorization env' r)"
  unfolding run_authorization_def
  by (intro idle_then idle_weaken [OF idle_reads(2)] idle_cases idle_simple started_neq TrueI)

lemmas idle_any = idle_weaken [OF idle_calls(1) TrueI] idle_weaken [OF idle_checks(1) TrueI] idle_weaken [OF idle_reads(1) TrueI]

lemma never_cancelled: "triple (stuck k) (run_alone (cancel_active_run env q k)) (\<lambda>_ _. False) (\<lambda>_ _. True)"
  unfolding cancel_active_run_def
  by (rule idle_stuck [OF owned_run_authorization], rule idle_stuck [OF idle_any(1)])
     (auto simp: triple_def and_then_apply locked_def await_def tick_def find_active_def stuck_def)

lemma never_resumed: "triple (stuck k) (run_alone (resume_run env q k w)) (\<lambda>_ _. False) (\<lambda>_ _. True)"
proof -
  have taken: "triple (stuck k) (run_alone (take_slot env k wid)) (\<lambda>_ _. False) (\<lambda>_ _. True)" for wid
    by (auto simp: triple_def take_slot_def locked_def await_def and_then_apply tick_def ensure_serving_def
        require_apply stuck_def find_active_def split: sum.split if_splits)
  have all: "idle (sv_process env, e') (\<lambda>_. True) (p_require b e)" "idle (sv_process env, e') (\<lambda>_. True) (Return r)" for b e e' r
    by (intro idle_simple TrueI)+
  show ?thesis
    unfolding resume_run_def
    by (rule idle_stuck [OF idle_any(2)], rule idle_stuck [OF owned_run_authorization], rule idle_stuck [OF idle_any(1)],
        rule idle_stuck [OF idle_any(3)], rule idle_stuck [OF all(1)], rule idle_stuck [OF all(2)])
       (split prod.split, intro allI impI, rule idle_stuck [OF all(2)], rule idle_stuck [OF all(1)],
        rule process_then [OF taken], simp add: triple_def)
qed

lemma never_drains: "stuck k s \<Longrightarrow> fst (run_alone (drain env in_time) s) = Inl Svc_Conflict"
  by (auto simp: drain_def locked_def await_def and_then_apply tick_def require_apply stuck_def find_active_def)

section \<open>Discovery of runs ends\<close>

lemma discover_items_length:
  "triple (\<lambda>_. True) (run_alone (discover_items env items result)) (\<lambda>r _. length r = length items + length result) (\<lambda>_ _. True)"
proof (induction items arbitrary: result)
  case (Cons item items)
  have *: "triple (\<lambda>_. True) m (\<lambda>_ _. True) (\<lambda>_ _. True)" for m :: "'x sm" by (rule triple_trivial)
  have last: "triple (\<lambda>_. True) (run_alone (discover_items env items (result @ [v])))
      (\<lambda>r _. length r = length (item # items) + length result) (\<lambda>_ _. True)" for v
    by (rule triple_conseq [OF Cons]) auto
  show ?case
    unfolding discover_items.simps Let_def by (intro process_then [OF *] last)
qed (simp add: triple_ok)

text \<open>A page has a cursor only where it has an item.\<close>

lemma list_runs_advances: "list_runs sc io after limit st = Inr page \<Longrightarrow> rp_next page \<noteq> None \<Longrightarrow> rp_items page \<noteq> []"
  by (auto simp: list_runs_def res_then_Inr_iff Let_def last_option_def split: option.splits if_splits)

lemma discover_pages_end:
  assumes "length result \<le> MAX_SESSIONS" "n + length result > MAX_SESSIONS"
  shows "triple (\<lambda>_. True) (run_alone (discover_pages n env cursor result)) (\<lambda>r _. r \<noteq> None) (\<lambda>_ _. True)"
  using assms
proof (induction n arbitrary: cursor result)
  case (Suc n)
  have page: "triple (\<lambda>_. True) (run_alone (runs_page env cursor 256))
      (\<lambda>page _. rp_next page \<noteq> None \<longrightarrow> rp_items page \<noteq> []) (\<lambda>_ _. True)"
    using list_runs_advances by (fastforce simp: triple_def runs_page_def read_store_def map_sum_def Let_def split: sum.splits)
  have items: "triple (\<lambda>_. rp_next page \<noteq> None \<longrightarrow> rp_items page \<noteq> []) (run_alone (discover_items env (rp_items page) result))
      (\<lambda>r _. rp_next page \<noteq> None \<longrightarrow> length r > length result) (\<lambda>_ _. True)" for page
    using discover_items_length [of env "rp_items page" result] by (fastforce simp: triple_def split: sum.splits)
  have step: "triple (\<lambda>_. c \<noteq> None \<longrightarrow> length r > length result)
     (run_alone (if c = None then p_ok (Some r) else if length r > MAX_SESSIONS then p_err Svc_Capacity else discover_pages n env c r))
     (\<lambda>r _. r \<noteq> None) (\<lambda>_ _. True)" for c r
  proof (cases "c \<noteq> None \<and> length r > length result \<and> length r \<le> MAX_SESSIONS")
    case True
    with Suc.prems have "triple (\<lambda>_. True) (run_alone (discover_pages n env c r)) (\<lambda>r _. r \<noteq> None) (\<lambda>_ _. True)" by (intro Suc.IH) auto
    with True show ?thesis by (auto simp: triple_def)
  qed (auto simp: triple_def)
  show ?case unfolding discover_pages.simps by (rule process_then [OF page], rule process_then [OF items], rule step)
qed simp

lemma discover_runs_end: "fst (run_alone (discover_runs env) s) \<noteq> Inr None"
proof -
  have "triple (\<lambda>_. True) (run_alone (discover_runs env)) (\<lambda>r _. r \<noteq> None) (\<lambda>_ _. True)"
    unfolding discover_runs_def by (rule discover_pages_end) simp_all
  from triple_result [OF this, of s] show ?thesis by (auto split: sum.splits)
qed

section \<open>Titles\<close>

lemma push_within_prefix:
  "\<exists>n. push_within limit cs t = t @ take n cs" "str_len t \<le> limit \<Longrightarrow> str_len (push_within limit cs t) \<le> limit"
proof (induction cs arbitrary: t)
  case (Cons c cs)
  {
    case 1
    obtain n where "push_within limit cs (t @ [c]) = (t @ [c]) @ take n cs" using Cons(1) by blast
    then have "push_within limit cs (t @ [c]) = t @ take (Suc n) (c # cs)" by simp
    moreover have "t = t @ take 0 (c # cs)" by simp
    ultimately show ?case unfolding push_within.simps by metis
  next
    case 2
    with Cons(2) [of "t @ [c]"] show ?case by (simp add: str_len_def)
  }
qed simp_all

lemma split_words:
  "w \<in> set (split_whitespace cs v) \<Longrightarrow> c \<in> set w \<Longrightarrow> c \<in> set v \<or> c \<in> set cs \<and> \<not> is_whitespace c"
  by (induction cs v rule: split_whitespace.induct) (fastforce split: if_splits)+

lemma join_chars: "c \<in> set (join_with x ws) \<Longrightarrow> c = x \<or> (\<exists>w \<in> set ws. c \<in> set w)"
  by (induction x ws rule: join_with.induct) auto

lemma no_list_ex: "(\<And>c. c \<in> set xs \<Longrightarrow> \<not> P c) \<Longrightarrow> set ys \<subseteq> set xs \<Longrightarrow> \<not> list_ex P ys"
  by (auto simp: list_ex_iff)

lemma title_accepted: "\<not> title_rejected (conversation_title_from_input input)"
proof -
  let ?words = "split_whitespace (filter (\<lambda>c. \<not> is_control c \<or> is_whitespace c) (from_utf8_lossy input)) []"
  let ?t = "push_within MAX_CONVERSATION_TITLE_BYTES (join_with 32 ?words) []"
  have "\<not> is_control c" if "c \<in> set (join_with 32 ?words)" for c
    using join_chars [OF that]
  proof
    assume "\<exists>w \<in> set ?words. c \<in> set w"
    then obtain w where "w \<in> set ?words" "c \<in> set w" by blast
    from split_words [OF this] show ?thesis by auto
  qed (simp add: is_control_def)
  moreover have "set ?t \<subseteq> set (join_with 32 ?words)"
  proof -
    obtain n where "?t = [] @ take n (join_with 32 ?words)" using push_within_prefix(1) by blast
    then have "set ?t = set (take n (join_with 32 ?words))" by simp
    then show ?thesis by (simp only: set_take_subset)
  qed
  ultimately have "\<not> list_ex is_control ?t" by (rule no_list_ex)
  moreover have "str_len ?t \<le> MAX_CONVERSATION_TITLE_BYTES" by (rule push_within_prefix) (simp add: str_len_def)
  moreover have "\<not> title_rejected (lit ''New conversation'')"
    by (simp add: title_rejected_def lit_def str_len_def len_utf8_def is_control_def MAX_CONVERSATION_TITLE_BYTES_def)
  ultimately show ?thesis unfolding conversation_title_from_input_def title_rejected_def Let_def by simp
qed

end
