(* ===== verification/Session_Laws.thy ===== *)
theory Session_Laws
  imports Session_Store Store_Laws
begin

text \<open>
  Laws of the session tables and the read port: pages cover a listing exactly once, a session shows up for its owner
  only, the first title stays, an archived session stays archived.
\<close>

section \<open>Pages\<close>

text \<open>A page of a listing, a reader that follows the cursors, and a source that serves the pages of one listing.\<close>

definition page_of :: "('a \<Rightarrow> 'c) \<Rightarrow> nat \<Rightarrow> 'a list \<Rightarrow> 'a list \<times> 'c option" where
  "page_of key limit zs = (take limit zs, if length zs > limit then Some (key (zs ! (limit - 1))) else None)"

fun read_pages :: "nat \<Rightarrow> ('c option \<Rightarrow> 'a list \<times> 'c option) \<Rightarrow> 'c option \<Rightarrow> 'a list option" where
  "read_pages 0 fetch c = None"
| "read_pages (Suc n) fetch c =
     (let (xs, cursor) = fetch c in
      case cursor of None \<Rightarrow> Some xs | Some d \<Rightarrow> map_option (\<lambda>ys. xs @ ys) (read_pages n fetch (Some d)))"

definition serves_pages :: "('c option \<Rightarrow> 'a list \<times> 'c option) \<Rightarrow> ('a \<Rightarrow> 'c) \<Rightarrow> nat \<Rightarrow> 'a list \<Rightarrow> bool" where
  "serves_pages fetch key limit whole \<longleftrightarrow>
     fetch None = page_of key limit whole \<and> (\<forall>ys x zs. whole = ys @ x # zs \<longrightarrow> fetch (Some (key x)) = page_of key limit zs)"

lemma read_pages_from:
  assumes "serves_pages fetch key limit whole" "0 < limit" "whole = ys @ zs" "fetch c = page_of key limit zs" "length zs < n"
  shows "read_pages n fetch c = Some zs"
  using assms(3-5)
proof (induction n arbitrary: c ys zs)
  case (Suc n)
  show ?case
  proof (cases "length zs > limit")
    case True
    let ?x = "zs ! (limit - 1)" and ?rest = "drop limit zs"
    have split: "zs = take (limit - 1) zs @ ?x # ?rest"
      using True assms(2) id_take_nth_drop [of "limit - 1" zs] by simp
    then have "whole = (ys @ take (limit - 1) zs) @ ?x # ?rest" using Suc.prems(1) by (metis append.assoc)
    with assms(1) have "fetch (Some (key ?x)) = page_of key limit ?rest" unfolding serves_pages_def by blast
    moreover have "whole = (ys @ take limit zs) @ ?rest" using Suc.prems(1) by simp
    ultimately have "read_pages n fetch (Some (key ?x)) = Some ?rest"
      using Suc.prems(3) True assms(2) by (intro Suc.IH [of "ys @ take limit zs"]) simp_all
    with True Suc.prems(2) show ?thesis by (simp add: page_of_def)
  qed (use Suc.prems in \<open>simp add: page_of_def\<close>)
qed simp

lemma read_pages_all:
  assumes "serves_pages fetch key limit whole" "0 < limit" "length whole < n"
  shows "read_pages n fetch None = Some whole"
  using assms by (intro read_pages_from [where ys = "[]"]) (auto simp: serves_pages_def)

section \<open>Pages of events\<close>

lemma load_events_numbered:
  "load_events sc k n rows = Inr es \<Longrightarrow> i < length es \<Longrightarrow> unat (ev_sequence (es ! i)) = n + i"
proof (induction rows arbitrary: n es i)
  case (Cons row rows)
  then obtain e es' where "es = e # es'" "unat (ev_sequence e) = n" "load_events sc k (Suc n) rows = Inr es'"
    by (auto simp: res_then_Inr_iff check_def ok_or_def split: if_splits option.splits)
  with Cons.IH [of "Suc n" es' "i - 1"] Cons.prems(2) show ?case by (cases i) auto
qed simp

lemma loaded_numbered:
  assumes "load_run sc io k st = Inr l" "i < length (lr_events l)"
  shows "unat (ev_sequence (lr_events l ! i)) = i"
proof -
  have "load_events sc k 0 (select_events (key_run_id k) st) = Inr (lr_events l)"
    using assms(1) by (auto simp: load_run_def res_then_Inr_iff split: option.splits)
  from load_events_numbered [OF this assms(2)] show ?thesis by simp
qed

definition fetch_events ::
  "store_codec \<Rightarrow> run_key \<Rightarrow> u16 \<Rightarrow> sqlite_store \<Rightarrow> event_sequence option \<Rightarrow> agent_event list \<times> event_sequence option" where
  "fetch_events sc k limit st c =
     (case read_events sc None k c limit st of Inl _ \<Rightarrow> ([], None) | Inr p \<Rightarrow> (ep_events p, ep_next p))"

lemma last_option_take: "0 < n \<Longrightarrow> n < length zs \<Longrightarrow> last_option (take n zs) = Some (zs ! (n - 1))"
  by (cases zs) (auto simp: last_option_def last_conv_nth min_def)

lemma page_of_last:
  "0 < n \<Longrightarrow> (take n zs, if length zs > n then map_option key (last_option (take n zs)) else None) = page_of key n zs"
  using last_option_take [of n zs] by (cases "n < length zs") (simp_all add: page_of_def)

lemma event_page_page:
  assumes "0 < limit"
  shows "(ep_events (event_page after limit es), ep_next (event_page after limit es)) =
     page_of ev_sequence limit (filter (\<lambda>e. case after of None \<Rightarrow> True | Some q \<Rightarrow> ev_sequence e > q) es)"
  unfolding event_page_def Let_def durable_event_page.select_convs by (rule page_of_last [OF assms])

lemma events_after:
  assumes "\<And>i. i < length es \<Longrightarrow> unat (ev_sequence (es ! i)) = i" "es = ys @ x # zs"
  shows "filter (\<lambda>e. ev_sequence e > ev_sequence x) es = zs"
proof -
  have x: "unat (ev_sequence x) = length ys" using assms(1) [of "length ys"] assms(2) by simp
  have "\<not> ev_sequence y > ev_sequence x" if y: "y \<in> set ys" for y
  proof -
    obtain i where "i < length ys" "y = ys ! i" using y unfolding in_set_conv_nth by blast
    with assms(1) [of i] assms(2) x show ?thesis by (simp add: word_less_nat_alt nth_append)
  qed
  moreover have "ev_sequence z > ev_sequence x" if z: "z \<in> set zs" for z
  proof -
    obtain i where i: "i < length zs" "z = zs ! i" using z unfolding in_set_conv_nth by blast
    have "unat (ev_sequence (es ! (length ys + Suc i))) = length ys + Suc i"
      using assms(2) i by (intro assms(1)) simp
    with assms(2) i x show ?thesis by (simp add: word_less_nat_alt nth_append)
  qed
  ultimately show ?thesis using assms(2) by (simp add: filter_id_conv)
qed

lemma events_paged:
  assumes "load_run sc None k st = Inr l" "limit \<noteq> 0" "limit \<le> MAX_READ_PAGE_ITEMS"
  shows "serves_pages (fetch_events sc k limit st) ev_sequence (unat limit) (lr_events l)"
  unfolding serves_pages_def
proof (intro conjI allI impI)
  have pos: "0 < unat limit" using assms(2) by (simp add: unat_gt_0)
  note num = loaded_numbered [OF assms(1)]
  show "fetch_events sc k limit st None = page_of ev_sequence (unat limit) (lr_events l)"
    using assms event_page_page [OF pos, of None "lr_events l"]
    by (simp add: fetch_events_def read_events_def validate_page_limit_def check_def)
  fix ys x zs assume es: "lr_events l = ys @ x # zs"
  have "x \<in> set (lr_events l)" using es by simp
  have "\<not> ev_sequence x > ev_sequence (last (lr_events l))"
    using num [of "length ys"] num [of "length (lr_events l) - 1"] es
    by (simp add: last_conv_nth word_less_nat_alt)
  then show "fetch_events sc k limit st (Some (ev_sequence x)) = page_of ev_sequence (unat limit) zs"
    using assms event_page_page [OF pos, of "Some (ev_sequence x)" "lr_events l"] events_after [OF num es] es
    by (simp add: fetch_events_def read_events_def validate_page_limit_def check_def)
qed

section \<open>Pages of sessions\<close>

definition visible :: "session_codec \<Rightarrow> session_tables \<Rightarrow> principal_id \<Rightarrow> session_row list \<Rightarrow> session_ownership_record list" where
  "visible cd tb owner rows =
     filter (\<lambda>r. so_owner r = owner \<and> \<not> so_archived r) (map (\<lambda>row. projr (read_session_row cd tb row)) rows)"

definition readable :: "session_codec \<Rightarrow> session_tables \<Rightarrow> bool" where
  "readable cd tb \<longleftrightarrow> distinct (map ssr_session_id (tb_sessions tb))
     \<and> (\<forall>row \<in> set (tb_sessions tb). \<exists>r. read_session_row cd tb row = Inr r)"

lemma read_session_id: "read_session_row cd tb row = Inr r \<Longrightarrow> so_session_id r = ssr_session_id row"
  by (auto simp: read_session_row_def res_then_Inr_iff check_def set_metadata_def split: if_splits prod.splits)

lemma collect_sessions_spec:
  assumes "\<forall>row \<in> set rows. \<exists>r. read_session_row cd tb row = Inr r" "length matching \<le> limit"
  shows "collect_sessions cd tb owner limit rows matching = Inr (take (Suc limit) (matching @ visible cd tb owner rows))"
  using assms
proof (induction rows arbitrary: matching)
  case (Cons row rows)
  then obtain r where r: "read_session_row cd tb row = Inr r" by auto
  have v: "visible cd tb owner (row # rows) = (if so_owner r = owner \<and> \<not> so_archived r then [r] else []) @ visible cd tb owner rows"
    by (simp add: visible_def r)
  show ?case using Cons.IH Cons.prems r by (auto simp: v)
qed (simp add: visible_def)

definition fetch_sessions ::
  "session_codec \<Rightarrow> principal_id \<Rightarrow> u16 \<Rightarrow> session_tables \<Rightarrow> session_id option \<Rightarrow> session_ownership_record list \<times> session_id option" where
  "fetch_sessions cd owner limit tb c =
     (case list_session_ownership cd None owner c limit tb of Inl _ \<Rightarrow> ([], None) | Inr p \<Rightarrow> (sp_items p, sp_next p))"

lemma fetch_sessions_page:
  assumes "readable cd tb" "limit \<noteq> 0" "limit \<le> MAX_SESSION_PAGE_ITEMS" "rows_before c (tb_sessions tb) = Some rows"
    "set rows \<subseteq> set (tb_sessions tb)"
  shows "fetch_sessions cd owner limit tb c = page_of so_session_id (unat limit) (visible cd tb owner rows)"
proof -
  have pos: "0 < unat limit" using assms(2) by (simp add: unat_gt_0)
  have "collect_sessions cd tb owner (unat limit) rows [] = Inr (take (Suc (unat limit)) (visible cd tb owner rows))"
    using collect_sessions_spec [of rows cd tb "[]" "unat limit" owner] assms(1,5) by (auto simp: readable_def)
  then show ?thesis
    using assms(2-4) page_of_last [OF pos, of "visible cd tb owner rows" so_session_id]
    by (cases "unat limit < length (visible cd tb owner rows)")
       (simp_all add: fetch_sessions_def list_session_ownership_def check_def ok_or_def Let_def min_def)
qed

lemma visible_append: "visible cd tb owner (xs @ ys) = visible cd tb owner xs @ visible cd tb owner ys"
  by (simp add: visible_def)

lemma visible_ids:
  assumes "readable cd tb" "set rows \<subseteq> set (tb_sessions tb)" "r \<in> set (visible cd tb owner rows)"
  obtains row where "row \<in> set rows" "ssr_session_id row = so_session_id r" "read_session_row cd tb row = Inr r"
proof -
  obtain row where row: "row \<in> set rows" "r = projr (read_session_row cd tb row)" using assms(3) by (auto simp: visible_def)
  with assms(1,2) obtain r' where "read_session_row cd tb row = Inr r'" unfolding readable_def by blast
  with row that [of row] read_session_id show ?thesis by fastforce
qed

lemma sessions_paged:
  assumes ok: "readable cd tb" and limit: "limit \<noteq> 0" "limit \<le> MAX_SESSION_PAGE_ITEMS"
  shows "serves_pages (fetch_sessions cd owner limit tb) so_session_id (unat limit) (visible cd tb owner (rev (tb_sessions tb)))"
  unfolding serves_pages_def
proof (intro conjI allI impI)
  show "fetch_sessions cd owner limit tb None = page_of so_session_id (unat limit) (visible cd tb owner (rev (tb_sessions tb)))"
    by (rule fetch_sessions_page [OF ok limit]) (simp_all add: rows_before_def)
  fix ys x zs assume whole: "visible cd tb owner (rev (tb_sessions tb)) = ys @ x # zs"
  then have x: "x \<in> set (visible cd tb owner (rev (tb_sessions tb)))" by simp
  have "set (rev (tb_sessions tb)) \<subseteq> set (tb_sessions tb)" by simp
  then obtain row where row: "row \<in> set (rev (tb_sessions tb))" "ssr_session_id row = so_session_id x"
      "read_session_row cd tb row = Inr x"
    by (rule visible_ids [OF ok _ x])
  from row(1) obtain A B where rows: "tb_sessions tb = A @ row # B" by (auto simp: in_set_conv_decomp)
  have ids: "ssr_session_id y \<noteq> so_session_id x" if "y \<in> set A \<union> set B" for y
  proof -
    have "so_session_id x \<notin> ssr_session_id ` (set A \<union> set B)"
      using ok row(2) rows by (simp add: readable_def image_Un)
    then show ?thesis using that by force
  qed
  have other: "x \<notin> set (visible cd tb owner (rev C))" if "set C \<subseteq> set A \<union> set B" for C
  proof
    assume v: "x \<in> set (visible cd tb owner (rev C))"
    have "set (rev C) \<subseteq> set (tb_sessions tb)" using that rows by auto
    then obtain y where "y \<in> set (rev C)" "ssr_session_id y = so_session_id x"
      by (rule visible_ids [OF ok _ v])
    with ids that show False by auto
  qed
  have "visible cd tb owner [row] = [x]" using x row(3) by (simp add: visible_def)
  then have "ys @ x # zs = visible cd tb owner (rev B) @ x # visible cd tb owner (rev A)"
    using whole rows visible_append [of cd tb owner "[row]" "rev A"] by (simp add: visible_append)
  then have zs: "zs = visible cd tb owner (rev A)"
    using append_Cons_eq_iff [OF other other, of B A ys zs] by auto
  have "takeWhile (\<lambda>y. ssr_session_id y \<noteq> so_session_id x) (tb_sessions tb) = A"
    using ids row(2) rows by (simp add: takeWhile_append)
  then have "rows_before (Some (so_session_id x)) (tb_sessions tb) = Some (rev A)"
    using row(2) rows by (simp add: rows_before_def)
  then show "fetch_sessions cd owner limit tb (Some (so_session_id x)) = page_of so_session_id (unat limit) zs"
    unfolding zs by (rule fetch_sessions_page [OF ok limit]) (use rows in auto)
qed

section \<open>Histories of sessions\<close>

definition metadata_ok :: "metadata_row \<Rightarrow> bool" where
  "metadata_ok m \<longleftrightarrow> md_archived m \<in> {0, 1} \<and> (\<forall>t. md_title m = Some t \<longrightarrow> \<not> title_rejected t)"

definition row_ok :: "session_codec \<Rightarrow> session_row \<Rightarrow> bool" where
  "row_ok cd row \<longleftrightarrow> ses_sha256 cd (ssr_record row) = ssr_checksum row
     \<and> (\<exists>r. ses_from cd (ssr_record row) = Some r \<and> so_session_id r = ssr_session_id row)"

definition sessions_inv :: "session_codec \<Rightarrow> session_tables \<Rightarrow> bool" where
  "sessions_inv cd tb \<longleftrightarrow> distinct (map ssr_session_id (tb_sessions tb)) \<and> (\<forall>row \<in> set (tb_sessions tb). row_ok cd row)
     \<and> (\<forall>s m. tb_metadata tb s = Some m \<longrightarrow> find_session s tb \<noteq> None \<and> metadata_ok m)"

inductive session_step :: "session_codec \<Rightarrow> session_tables \<Rightarrow> session_tables \<Rightarrow> bool" for cd where
  created: "so_title r = None \<Longrightarrow> \<not> so_archived r \<Longrightarrow> session_step cd tb (snd (create_session_ownership cd io r tb))"
| titled: "session_step cd tb (snd (set_session_title_if_absent cd io s owner title tb))"
| archived: "session_step cd tb (snd (archive_session_ownership cd io s owner tb))"

text \<open>How a session may change: its owner stays, a title stays, an archived session stays archived.\<close>

definition evolves :: "session_ownership_record \<Rightarrow> session_ownership_record \<Rightarrow> bool" where
  "evolves r r' \<longleftrightarrow> so_session_id r' = so_session_id r \<and> so_owner r' = so_owner r
     \<and> (\<forall>t. so_title r = Some t \<longrightarrow> so_title r' = Some t) \<and> (so_archived r \<longrightarrow> so_archived r')"

lemma metadata_loads:
  assumes "sessions_inv cd tb"
  shows "load_session_metadata s tb =
     Inr (case tb_metadata tb s of None \<Rightarrow> (None, False) | Some m \<Rightarrow> (md_title m, md_archived m = 1))"
  using assms by (auto simp: load_session_metadata_def sessions_inv_def metadata_ok_def split: option.splits)

lemma read_row:
  assumes "sessions_inv cd tb" "row_ok cd row"
  shows "\<exists>r. ses_from cd (ssr_record row) = Some r
     \<and> read_session_row cd tb row = Inr (case tb_metadata tb (ssr_session_id row) of
          None \<Rightarrow> set_metadata None False r | Some m \<Rightarrow> set_metadata (md_title m) (md_archived m = 1) r)"
  using assms(2) metadata_loads [OF assms(1)]
  by (auto simp: read_session_row_def row_ok_def check_def ok_or_def split: option.splits)

lemma inv_readable: "sessions_inv cd tb \<Longrightarrow> readable cd tb"
  using read_row [of cd tb] by (fastforce simp: readable_def sessions_inv_def)

lemma find_session_append: "find_session s tb = Some row \<Longrightarrow> find_session s (tb\<lparr>tb_sessions := tb_sessions tb @ rows\<rparr>) = Some row"
  by (simp add: find_session_def find_snoc)

lemma find_session_None: "find_session s tb = None \<longleftrightarrow> s \<notin> ssr_session_id ` set (tb_sessions tb)"
  by (auto simp: find_session_def find_None_iff)

lemma upsert_inv:
  assumes "sessions_inv cd tb" "metadata_ok fresh" "\<And>m. metadata_ok m \<Longrightarrow> metadata_ok (f m)"
  shows "sessions_inv cd (snd (upsert_metadata cd io s owner fresh f tb))"
proof (cases "io = None \<and> (\<exists>u. require_session_owner cd s owner tb = Inr u)")
  case True
  then have "find_session s tb \<noteq> None"
    by (auto simp: require_session_owner_def load_session_ownership_from_connection_def res_then_Inr_iff ok_or_def
        split: option.splits)
  with True assms show ?thesis
    by (auto simp: upsert_metadata_def sessions_inv_def find_session_def split: option.splits)
qed (use assms(1) in \<open>auto simp: upsert_metadata_def split: option.splits sum.splits\<close>)

lemma session_step_inv:
  assumes "session_codec_ok cd" "session_step cd tb tb'" "sessions_inv cd tb"
  shows "sessions_inv cd tb'"
  using assms(2,3)
proof cases
  case (created r io)
  show ?thesis
  proof (cases "io = None \<and> (\<exists>b. ses_to cd r = Some b) \<and> find_session (so_session_id r) tb = None")
    case True
    then obtain b where b: "ses_to cd r = Some b" by blast
    let ?row = "\<lparr>ssr_session_id = so_session_id r, ssr_record = b, ssr_checksum = ses_sha256 cd b\<rparr>"
    have row: "row_ok cd ?row" using assms(1) b by (simp add: row_ok_def session_codec_ok_def set_metadata_def)
    have "find_session s tb \<noteq> None \<Longrightarrow> find_session s (tb\<lparr>tb_sessions := tb_sessions tb @ [?row]\<rparr>) \<noteq> None" for s
      using find_session_append by fastforce
    with assms(3) row True b created(1) show ?thesis
      by (auto simp: create_session_ownership_def sessions_inv_def find_session_None)
  qed (use assms(3) created(1) in \<open>auto simp: create_session_ownership_def split: option.splits\<close>)
next
  case (titled io s owner title)
  show ?thesis unfolding titled set_session_title_if_absent_def
    using assms(3) by (auto simp: metadata_ok_def intro!: upsert_inv split: option.splits)
next
  case (archived io s owner)
  show ?thesis unfolding archived archive_session_ownership_def
    using assms(3) by (auto simp: metadata_ok_def intro!: upsert_inv)
qed

lemma load_found:
  assumes "sessions_inv cd tb"
  shows "load_session_ownership cd None s tb = Inr (Some r) \<longleftrightarrow>
     (\<exists>row. find_session s tb = Some row \<and> read_session_row cd tb row = Inr r)"
  by (auto simp: load_session_ownership_def res_then_Inr_iff split: option.splits)

lemma upsert_evolves:
  assumes inv: "sessions_inv cd tb" and load: "load_session_ownership cd None s tb = Inr (Some r)"
    and fresh: "metadata_ok fresh" "\<And>m. metadata_ok m \<Longrightarrow> metadata_ok (f m)"
    and mono: "\<And>m. (md_title m = None \<or> md_title (f m) = md_title m) \<and> (md_archived m = 1 \<longrightarrow> md_archived (f m) = 1)"
  shows "\<exists>r'. load_session_ownership cd None s (snd (upsert_metadata cd io s' owner fresh f tb)) = Inr (Some r') \<and> evolves r r'"
proof -
  let ?tb = "snd (upsert_metadata cd io s' owner fresh f tb)"
  note inv' = upsert_inv [OF inv fresh(1,2), where ?io = io and ?s = s' and ?owner = owner]
  from load inv obtain row where row: "find_session s tb = Some row" "read_session_row cd tb row = Inr r"
    by (auto simp: load_found)
  then have "row \<in> set (tb_sessions tb)" and id: "ssr_session_id row = s"
    by (auto simp: find_session_def find_Some_iff)
  with inv have ok: "row_ok cd row" by (simp add: sessions_inv_def)
  have same: "tb_sessions ?tb = tb_sessions tb"
    by (auto simp: upsert_metadata_def split: option.split sum.split)
  then have find': "find_session s ?tb = Some row" using row(1) by (simp add: find_session_def)
  have meta: "tb_metadata ?tb s = tb_metadata tb s \<or> (case tb_metadata tb s of None \<Rightarrow> tb_metadata ?tb s = Some fresh
      | Some m \<Rightarrow> tb_metadata ?tb s = Some (f m))"
    by (auto simp: upsert_metadata_def split: option.split sum.split)
  from read_row [OF inv ok] read_row [OF inv' ok] row(2) obtain r0 where
    r: "r = (case tb_metadata tb s of None \<Rightarrow> set_metadata None False r0 | Some m \<Rightarrow> set_metadata (md_title m) (md_archived m = 1) r0)"
    and r': "read_session_row cd ?tb row = Inr (case tb_metadata ?tb s of
          None \<Rightarrow> set_metadata None False r0 | Some m \<Rightarrow> set_metadata (md_title m) (md_archived m = 1) r0)"
    using id by auto
  have "evolves r (case tb_metadata ?tb s of
          None \<Rightarrow> set_metadata None False r0 | Some m \<Rightarrow> set_metadata (md_title m) (md_archived m = 1) r0)"
    using meta mono [of "the (tb_metadata tb s)"] unfolding r
    by (cases "tb_metadata tb s") (auto simp: evolves_def set_metadata_def split: option.split)
  with r' find' show ?thesis by (auto simp: load_found [OF inv'])
qed

lemma create_evolves:
  assumes inv: "sessions_inv cd tb" "sessions_inv cd (snd (create_session_ownership cd io r0 tb))"
    and load: "load_session_ownership cd None s tb = Inr (Some r)"
  shows "\<exists>r'. load_session_ownership cd None s (snd (create_session_ownership cd io r0 tb)) = Inr (Some r') \<and> evolves r r'"
proof -
  let ?tb = "snd (create_session_ownership cd io r0 tb)"
  from load inv(1) obtain row where row: "find_session s tb = Some row" "read_session_row cd tb row = Inr r"
    by (auto simp: load_found)
  have "find_session s ?tb = Some row" "tb_metadata ?tb = tb_metadata tb"
    using row(1) find_session_append [OF row(1)] by (auto simp: create_session_ownership_def split: option.split)
  moreover from this(2) have "read_session_row cd ?tb row = read_session_row cd tb row"
    by (simp add: read_session_row_def load_session_metadata_def)
  ultimately show ?thesis using row(2) by (auto simp: load_found [OF inv(2)] evolves_def)
qed

lemma session_step_evolves:
  assumes "session_codec_ok cd" "session_step cd tb tb'" "sessions_inv cd tb"
    "load_session_ownership cd None s tb = Inr (Some r)"
  shows "\<exists>r'. load_session_ownership cd None s tb' = Inr (Some r') \<and> evolves r r'"
  using assms(2)
proof cases
  case (created r0 io)
  show ?thesis using create_evolves assms(3,4) session_step_inv [OF assms(1-3)] unfolding created by blast
next
  case (titled io s' owner title)
  show ?thesis
  proof (cases "title_rejected title")
    case True
    with assms(4) show ?thesis unfolding titled by (simp add: set_session_title_if_absent_def evolves_def)
  next
    case False
    with assms(3,4) show ?thesis
      unfolding titled set_session_title_if_absent_def
      by (simp only: if_False, intro upsert_evolves) (auto simp: metadata_ok_def split: option.split)
  qed
next
  case (archived io s' owner)
  show ?thesis
    unfolding archived archive_session_ownership_def
    using assms(3,4) by (intro upsert_evolves) (auto simp: metadata_ok_def)
qed

lemma evolves_trans: "evolves a b \<Longrightarrow> evolves b c \<Longrightarrow> evolves a c"
  by (auto simp: evolves_def)

lemma session_history:
  assumes "session_codec_ok cd" "(session_step cd)\<^sup>*\<^sup>* tb tb'" "sessions_inv cd tb"
  shows "sessions_inv cd tb'"
    "load_session_ownership cd None s tb = Inr (Some r) \<Longrightarrow>
     \<exists>r'. load_session_ownership cd None s tb' = Inr (Some r') \<and> evolves r r'"
proof -
  from assms(2) have "sessions_inv cd tb' \<and> (load_session_ownership cd None s tb = Inr (Some r) \<longrightarrow>
      (\<exists>r'. load_session_ownership cd None s tb' = Inr (Some r') \<and> evolves r r'))"
  proof induction
    case base
    with assms(3) show ?case by (auto simp: evolves_def)
  next
    case (step u v)
    with session_step_inv [OF assms(1) step.hyps(2)] session_step_evolves [OF assms(1) step.hyps(2), of s]
    show ?case by (blast intro: evolves_trans)
  qed
  then show "sessions_inv cd tb'"
    "load_session_ownership cd None s tb = Inr (Some r) \<Longrightarrow>
     \<exists>r'. load_session_ownership cd None s tb' = Inr (Some r') \<and> evolves r r'" by blast+
qed

lemma no_sessions_inv: "sessions_inv cd no_sessions"
  by (simp add: sessions_inv_def no_sessions_def)

end
