(* ===== verification/Demo_Service.thy ===== *)
theory Demo_Service
  imports Service_Faults Session_Laws Demo_Harness
begin

text \<open>
  A service with one session and one stored run, and requests to it, run by the simplifier: a decision on an approval that
  alternates with a look at the status of the run, and a start that meets a run without an owner.
\<close>

definition user :: verified_principal where
  "user = \<lparr>vp_id = lit ''p'', vp_kind = Kind_Human, vp_roles = {Role_User}, vp_authentication_class = Class_UnixPeer\<rparr>"

definition approver :: verified_principal where
  "approver = \<lparr>vp_id = lit ''q'', vp_kind = Kind_Human, vp_roles = {Role_Approver}, vp_authentication_class = Class_UnixPeer\<rparr>"

definition demo_policy :: default_deny_policy where
  "demo_policy = \<lparr>pol_version = 1, pol_fingerprint = replicate 32 0, pol_workflows = {lit ''w''},
     pol_approval_separation = RequesterMustDiffer\<rparr>"

definition demo_auth :: durable_run_authorization where
  "demo_auth = \<lparr>auth_owner = lit ''p'', auth_requester = lit ''p'', auth_workflow_id = lit ''w'', auth_policy_version = 1,
     auth_policy_fingerprint = replicate 32 0\<rparr>"

definition served_key :: run_key where
  "served_key = \<lparr>key_run_id = derive_run_id (\<lambda>_. replicate 32 0) 2 3, key_session_id = 2\<rparr>"

definition served_record :: "durable_run_authorization option \<Rightarrow> run_record" where
  "served_record a = (RunRecord_new served_key demo_budget NonRestartable)\<lparr>rr_authorization := a\<rparr>"

definition served_store :: sqlite_store where
  "served_store = initialize\<lparr>st_runs := [key_run_id served_key \<mapsto> \<lparr>row_session_id = 2, row_record = [],
     row_record_checksum = replicate 32 0, row_last_sequence = None, row_terminal = 0\<rparr>]\<rparr>"

definition demo_session :: session_ownership_record where
  "demo_session = SessionOwnershipRecord_new 2 (lit ''p'')"

definition demo_session_codec :: session_codec where
  "demo_session_codec = \<lparr>ses_to = (\<lambda>r. if r = demo_session then Some [] else None), ses_from = (\<lambda>_. Some demo_session),
     ses_sha256 = (\<lambda>_. replicate 32 0)\<rparr>"

definition demo_tables :: session_tables where
  "demo_tables = snd (create_session_ownership demo_session_codec None demo_session no_sessions)"

definition demo_workflow :: configured_workflow where
  "demo_workflow = \<lparr>wf_id = lit ''w'', wf_budget = demo_budget, wf_recovery_contract = NonRestartable, wf_validate_input = (\<lambda>_. True),
     wf_new_context = (\<lambda>k. new_with_recovery_contract (key_run_id k) (key_session_id k) demo_budget NonRestartable),
     wf_run = (\<lambda>_. Wf_Done (Inr NoApplicationResult)), wf_resume_waiting = (\<lambda>_ _. Wf_Done (Inl Workflow_NotRestartable)),
     wf_resume_recovered = (\<lambda>_. Wf_Done (Inl Workflow_NotRestartable))\<rparr>"

text \<open>The database answers until tick \<open>n\<close>.\<close>

definition served_harness :: "nat \<Rightarrow> durable_run_authorization option \<Rightarrow> harness_env" where
  "served_harness n a = (demo_env (loose_codec\<lparr>record_from := (\<lambda>_. Some (served_record a))\<rparr>) True (\<lambda>_. Wait_Ready))
     \<lparr>he_io := (\<lambda>t. if t < n then None else Some PE_Unavailable)\<rparr>"

definition demo_service :: "nat \<Rightarrow> durable_run_authorization option \<Rightarrow> service_env" where
  "demo_service n a =
     \<lparr>sv_harness = served_harness n a, sv_seal = \<lparr>se_action_seal = None, se_workspace_binding_id = None, se_others = (\<lambda>_ st. st)\<rparr>,
      sv_authorize = authorize_request demo_policy, sv_policy_version = 1, sv_policy_fingerprint = replicate 32 0,
      sv_audit = (\<lambda>_ _. True), sv_session_codec = demo_session_codec, sv_session_io = (\<lambda>_. None), sv_workflows = [demo_workflow],
      sv_sha256 = (\<lambda>_. replicate 32 0),
      sv_list_session_runs = (\<lambda>_ _ _ _ _. Inr \<lparr>rp_items = [], rp_next = None\<rparr>), sv_process = 0\<rparr>"

definition served :: service_state where
  "served = \<lparr>ss_sessions = [], ss_active = [], ss_results = [], ss_draining = False, ss_tasks = [], ss_running = 0, ss_tables = demo_tables,
     ss_store = served_store, ss_tick = 0, ss_trace = []\<rparr>"

lemma served_new: "AgentService_new [demo_workflow] demo_tables served_store = Inr ([demo_workflow], served)"
  by (simp add: AgentService_new_def served_def check_def)

lemma found:
  "find_run (he_store_codec (served_harness n a)) None served_key served_store =
     Inr (Some \<lparr>rs_key = served_key, rs_recovery_contract = NonRestartable, rs_last_sequence = None, rs_started_at = None,
                rs_terminal = False, rs_authorization = a\<rparr>)"
  by (simp add: find_run_def validate_store_identity_def served_store_def served_harness_def demo_env_def loose_codec_def initialize_def checksum_def check_def
      served_record_def RunRecord_new_def ok_or_def decode_optional_sequence_def run_started_at_def select_events_def
      served_key_def demo_codec_def)

lemma served_sel [simp]:
  "ss_sessions served = []" "ss_active served = []" "ss_draining served = False" "ss_tasks served = []" "ss_tables served = demo_tables"
  "ss_store served = served_store" "ss_tick served = 0" "ss_trace served = []"
  by (simp_all add: served_def)

lemma demo_service_sel [simp]:
  "sv_harness (demo_service n a) = served_harness n a" "sv_authorize (demo_service n a) = authorize_request demo_policy"
  "sv_audit (demo_service n a) = (\<lambda>_ _. True)" "sv_session_codec (demo_service n a) = demo_session_codec"
  "sv_session_io (demo_service n a) = (\<lambda>_. None)" "sv_workflows (demo_service n a) = [demo_workflow]"
  "sv_sha256 (demo_service n a) = (\<lambda>_. replicate 32 0)"
  by (simp_all add: demo_service_def)

lemma harness_io: "he_io (served_harness n a) = (\<lambda>t. if t < n then None else Some PE_Unavailable)"
  "he_persistence (served_harness n a)" "he_wall (served_harness n a) = (\<lambda>_. 1000000000)"
  by (simp_all add: served_harness_def demo_env_def)

lemmas request_eval = and_then_apply on_result_apply require_apply ensure_serving_def run_authorization_def
  find_run_summary_def read_store_def authorize_mutation_def authorize_def audit_security_def note_entry_def await_def locked_def mutate_def
  harness_call_def run_harness_def audit_mutation_result_def Let_def tick_def

text \<open>The owner looks at the run while an approver decides.\<close>

definition demo_jobs :: "nat \<Rightarrow> job" where
  "demo_jobs n = Job_Request (if n = 0 then Rq_SubmitDecision approver served_key 7 0 Approve else Rq_RunStatus user served_key)"

definition demo_schedule :: "nat list" where
  "demo_schedule = [0, 1, 0, 1, 0, 1, 0, 1, 0, 1, 0, 0, 0, 0, 0]"

lemmas process_eval = atomic_def p_ok_def p_err_def p_require_def p_gets_def p_modify_def forget_def

lemma decided:
  "ss_trace (serve_jobs (demo_service 2 (Some demo_auth)) demo_jobs demo_schedule served) =
   [(1, Sv_Owner served_key demo_auth), (0, Sv_Owner served_key demo_auth), (1, Sv_Granted user Do_ReadRun (owned_run demo_auth)),
    (0, Sv_Granted approver Do_DecideApproval (approval_of demo_auth)),
    (0, audit_entry approver Do_DecideApproval Sec_AuthorizationGranted (Some served_key) (Some 7)),
    (0, audit_entry approver Do_DecideApproval Sec_MutationRequested (Some served_key) (Some 7))] @
   (0, Sv_Mutated approver Do_DecideApproval (Mut_DecideApproval served_key 7)) #
   [(0, audit_entry approver Do_DecideApproval Sec_MutationFailed (Some served_key) (Some 7))]"
proof -
  have granted: "authorize_request demo_policy approver Do_DecideApproval (approval_of demo_auth) = Decision_Granted"
    "authorize_request demo_policy user Do_ReadRun (owned_run demo_auth) = Decision_Granted"
    by (simp_all add: authorize_request_table policy_table_def approver_def user_def demo_policy_def demo_auth_def lit_def)
  show ?thesis
    unfolding serve_jobs_def interleave_def demo_schedule_def
    by (simp add: request_eval process_eval turn_def launch_def demo_jobs_def submit_decision_def get_run_status_def found granted harness_io
        unix_millis_def decide_outcome_def audit_entry_def find_active_def harness_view_def after_harness_def ok_or_def
        decide_durable_approval_def recover_waiting_def recover_run_def load_run_def recover_def)
qed

lemma demo_codec_kept: "session_codec_ok demo_session_codec"
  by (auto simp: session_codec_ok_def demo_session_codec_def set_metadata_def demo_session_def SessionOwnershipRecord_new_def
      split: if_splits)

lemma demo_tables_eval: "demo_tables = \<lparr>tb_sessions = [\<lparr>ssr_session_id = 2, ssr_record = [], ssr_checksum = replicate 32 0\<rparr>],
  tb_metadata = (\<lambda>_. None)\<rparr>"
  by (simp add: demo_tables_def create_session_ownership_def demo_session_codec_def no_sessions_def find_session_def
      demo_session_def SessionOwnershipRecord_new_def)

lemma demo_tables_made: "(session_step demo_session_codec)\<^sup>*\<^sup>* no_sessions demo_tables"
  unfolding demo_tables_def
  by (rule r_into_rtranclp, rule session_step.created) (simp_all add: demo_session_def SessionOwnershipRecord_new_def)

lemma demo_loads: "load_session_ownership demo_session_codec None 2 demo_tables = Inr (Some demo_session)"
  by (simp add: load_session_ownership_def demo_tables_eval find_session_def read_session_row_def demo_session_codec_def
      load_session_metadata_def set_metadata_def check_def ok_or_def demo_session_def SessionOwnershipRecord_new_def)

lemma demo_titled:
  "\<exists>tb. set_session_title_if_absent demo_session_codec None 2 (lit ''p'') (conversation_title_from_input i) demo_tables = (Inr (), tb)"
  by (simp add: set_session_title_if_absent_def title_accepted upsert_metadata_def require_session_owner_def
      load_session_ownership_from_connection_def demo_tables_eval find_session_def demo_session_codec_def check_def ok_or_def
      load_session_metadata_def set_metadata_def demo_session_def SessionOwnershipRecord_new_def)

lemma unowned_start:
  "fst (run_alone (start_run_request (demo_service 6 None) user 2 3 (lit ''w'') [65]) served) = Inl Svc_LegacyUnowned"
proof -
  have granted: "authorize_request demo_policy user Do_StartWorkflow (On_Workflow (lit ''w'')) = Decision_Granted"
    by (simp add: authorize_request_table policy_table_def user_def demo_policy_def lit_def)
  have owner: "so_owner demo_session = lit ''p''" "\<not> so_archived demo_session" "vp_id user = lit ''p''"
    by (simp_all add: demo_session_def SessionOwnershipRecord_new_def user_def)
  have valid: "WorkflowId_validate (lit ''w'') = Inr ()"
    by (simp add: WorkflowId_validate_def WorkflowId_new_def lit_def str_len_def len_utf8_def is_ascii_alphanumeric_def)
  have workflow: "find_workflow (demo_service 6 None) (lit ''w'') = Some demo_workflow"
    "wf_validate_input demo_workflow i" for i
    by (simp_all add: find_workflow_def demo_workflow_def)
  obtain tb where titled: "set_session_title_if_absent demo_session_codec None 2 (lit ''p'') (conversation_title_from_input [65])
      demo_tables = (Inr (), tb)" using demo_titled by blast
  have key: "\<lparr>key_run_id = derive_run_id (\<lambda>_. replicate 32 0) 2 3, key_session_id = 2\<rparr> = served_key"
    by (simp add: served_key_def)
  show ?thesis
    using workflow
    by (simp add: request_eval start_run_request_def load_session_def session_call_def demo_loads owner granted valid titled key
        claim_slot_def find_active_def found harness_io existing_run_def MAX_ACTIVE_RUNS_def ok_or_def)
qed

end
