(* ===== verification/Graph_Engine.thy ===== *)
theory Graph_Engine
  imports Loop_Run Durable_Suspend Graph_Laws
begin

text \<open>
  The graph engine of \<^verbatim>\<open>crates/agent-graph\<close> (\<^verbatim>\<open>program.rs\<close>, \<^verbatim>\<open>effects.rs\<close>, \<^verbatim>\<open>engine.rs\<close>): it walks a validated graph, calls the
  program at every node and records each step with the harness. Every node takes a step of the budget, which bounds the
  walk. \<^verbatim>\<open>resume_waiting\<close> is not modelled.
\<close>

section \<open>Programs\<close>

text \<open>Each kind of node gives its callback an effect type of its own; a callback is a tree of the calls it offers.\<close>

datatype (plugins only: size) 'a retrieve_effects =
  Ret_Return 'a
| Ret_RetrieveKnowledge knowledge_request "harness_error + completed_knowledge_retrieval \<Rightarrow> 'a retrieve_effects"

datatype (plugins only: size) 'a model_effects =
  Mod_Return 'a
| Mod_InvokeModel model_request "harness_error + completed_model_invocation \<Rightarrow> 'a model_effects"
| Mod_InvokeGrounded completed_knowledge_retrieval grounded_model_request
    "harness_error + completed_model_invocation \<Rightarrow> 'a model_effects"

datatype (plugins only: size) 'a action_effects =
  Act_Return 'a
| Act_PrepareAction completed_model_invocation
    "harness_error + (action_validation_error + validated_action) \<Rightarrow> 'a action_effects"
| Act_InvokeValidatedAction validated_action "harness_error + tool_result \<Rightarrow> 'a action_effects"
| Act_SuspendLocalWrite validated_action "harness_error + durable_approval_wait \<Rightarrow> 'a action_effects"

datatype (plugins only: code size) graph_program_error = GP_Failed
datatype (plugins only: code size) verification_outcome = Outcome_Passed | Outcome_NotPassed

datatype (plugins only: code size) graph_error =
  GErr_Definition graph_definition_error | GErr_Harness harness_error | GErr_Program graph_program_error
| GErr_RecoveryMismatch | GErr_TransitionUnavailable

record 'w graph_program =
  gp_retrieve :: "graph_node_id \<Rightarrow> 'w \<Rightarrow> ((graph_program_error + unit) \<times> 'w) retrieve_effects"
  gp_model :: "graph_node_id \<Rightarrow> 'w \<Rightarrow> ((graph_program_error + unit) \<times> 'w) model_effects"
  gp_action :: "graph_node_id \<Rightarrow> 'w \<Rightarrow> ((graph_program_error + unit) \<times> 'w) action_effects"
  gp_durable_local_write_action ::
    "graph_node_id \<Rightarrow> 'w \<Rightarrow> ((graph_program_error + durable_approval_wait) \<times> 'w) action_effects"
  gp_verify :: "graph_node_id \<Rightarrow> 'w \<Rightarrow> (graph_program_error + verification_outcome) \<times> 'w"
  gp_decide :: "graph_node_id \<Rightarrow> 'w \<Rightarrow> (graph_program_error + graph_branch_id) \<times> 'w"
  gp_recovery_version :: u32
  gp_restore_working_state :: "durable_run_state \<Rightarrow> graph_program_error + 'w"

primrec run_retrieve_effects :: "harness_env \<Rightarrow> 'a retrieve_effects \<Rightarrow> harness_state \<Rightarrow> 'a \<times> harness_state" where
  "run_retrieve_effects env (Ret_Return x) = (\<lambda>s. (x, s))"
| "run_retrieve_effects env (Ret_RetrieveKnowledge q k) =
     (\<lambda>s. case retrieve_knowledge env q s of (r, t) \<Rightarrow> run_retrieve_effects env (k r) t)"

primrec run_model_effects :: "harness_env \<Rightarrow> 'a model_effects \<Rightarrow> harness_state \<Rightarrow> 'a \<times> harness_state" where
  "run_model_effects env (Mod_Return x) = (\<lambda>s. (x, s))"
| "run_model_effects env (Mod_InvokeModel q k) =
     (\<lambda>s. case invoke_model_tracked env q s of (r, t) \<Rightarrow> run_model_effects env (k r) t)"
| "run_model_effects env (Mod_InvokeGrounded c q k) =
     (\<lambda>s. case invoke_grounded_model env c q s of (r, t) \<Rightarrow> run_model_effects env (k r) t)"

text \<open>Only at a durable node do the effects carry the context that a suspension needs.\<close>

definition suspend_local_write ::
  "seal_env \<Rightarrow> harness_env \<Rightarrow> durable_action_context option \<Rightarrow> validated_action \<Rightarrow> durable_approval_wait hm" where
  "suspend_local_write se env durable a =
     (case durable of None \<Rightarrow> err HE_DurableApprovalMismatch | Some dx \<Rightarrow> suspend_durable_local_write se env a dx)"

primrec run_action_effects ::
  "seal_env \<Rightarrow> harness_env \<Rightarrow> durable_action_context option \<Rightarrow> 'a action_effects \<Rightarrow> harness_state \<Rightarrow> 'a \<times> harness_state" where
  "run_action_effects se env dx (Act_Return x) = (\<lambda>s. (x, s))"
| "run_action_effects se env dx (Act_PrepareAction i k) =
     (\<lambda>s. case prepare_action env i s of (r, t) \<Rightarrow> run_action_effects se env dx (k r) t)"
| "run_action_effects se env dx (Act_InvokeValidatedAction a k) =
     (\<lambda>s. case invoke_validated_action env a s of (r, t) \<Rightarrow> run_action_effects se env dx (k r) t)"
| "run_action_effects se env dx (Act_SuspendLocalWrite a k) =
     (\<lambda>s. case suspend_local_write se env dx a s of (r, t) \<Rightarrow> run_action_effects se env dx (k r) t)"

section \<open>State and results\<close>

datatype (plugins only: code size) graph_terminal_outcome = Graph_Complete | Graph_Fail | Graph_Waiting

record graph_run_summary =
  gr_steps :: u32
  gr_terminal :: graph_terminal_outcome
  gr_waiting :: "durable_approval_wait option"

record resume_node =
  rn_node_id :: graph_node_id
  rn_previous_attempt :: "graph_node_attempt_id option"

record 'w graph_run =
  ge_harness :: harness_state
  ge_work :: 'w

type_synonym ('w, 'a) gm = "('w graph_run, graph_error, 'a) sx"

definition on_harness :: "'a hm \<Rightarrow> ('w, 'a) gm" where
  "on_harness m s =
     (case m (ge_harness s) of (r, t) \<Rightarrow> (map_sum GErr_Harness id r, s\<lparr>ge_harness := t\<rparr>))"

definition on_program :: "('w \<Rightarrow> harness_state \<Rightarrow> ('a \<times> 'w) \<times> harness_state) \<Rightarrow> ('w, 'a) gm" where
  "on_program f s =
     (case f (ge_work s) (ge_harness s) of ((r, w), t) \<Rightarrow> (Inr r, s\<lparr>ge_harness := t, ge_work := w\<rparr>))"

section \<open>The walk\<close>

definition fail_callback :: "harness_env \<Rightarrow> graph_node_attempt_id \<Rightarrow> graph_node_id \<Rightarrow> ('w, unit) gm" where
  "fail_callback env att node = on_result (on_harness (fail_graph env att node GraphFail_Callback)) (\<lambda>_. ok ())"

definition fail_transition :: "harness_env \<Rightarrow> graph_node_attempt_id \<Rightarrow> graph_node_id \<Rightarrow> ('w, unit) gm" where
  "fail_transition env att node =
     on_result (on_harness (fail_graph env att node GraphFail_InvalidTransition)) (\<lambda>_. ok ())"

definition graph_summary :: "graph_terminal_outcome \<Rightarrow> durable_approval_wait option \<Rightarrow> ('w, graph_run_summary) gm" where
  "graph_summary out w = gets (\<lambda>s.
     \<lparr>gr_steps = graph_steps (rc_usage (hs_ctx (ge_harness s))), gr_terminal = out, gr_waiting = w\<rparr>)"

definition enter_node ::
  "harness_env \<Rightarrow> node_definition \<Rightarrow> resume_node \<Rightarrow> bool \<Rightarrow> ('w, graph_node_attempt_id) gm" where
  "enter_node env node current restarting =
     on_harness (if restarting
       then restart_graph_node env (rn_previous_attempt current) (nd_id node) (durable_kind (nd_kind node)) (nd_recovery node)
       else enter_graph_node env (nd_id node) (durable_kind (nd_kind node)) (nd_recovery node))"

text \<open>The result of a callback; a failed callback fails the graph.\<close>

definition after_callback ::
  "harness_env \<Rightarrow> graph_node_attempt_id \<Rightarrow> graph_node_id \<Rightarrow> ('a \<Rightarrow> 'b) \<Rightarrow> graph_program_error + 'a \<Rightarrow> ('w, 'b) gm" where
  "after_callback env att node f r =
     (case r of
        Inl x \<Rightarrow> and_then (fail_callback env att node) (\<lambda>_. err (GErr_Program x))
      | Inr y \<Rightarrow> ok (f y))"

definition durable_context :: "graph_definition \<Rightarrow> node_definition \<Rightarrow> graph_node_attempt_id \<Rightarrow> ('w, durable_action_context) gm" where
  "durable_context g node att =
     and_then (gets (\<lambda>s. rc_recovery_contract (hs_ctx (ge_harness s)))) (\<lambda>contract.
       case contract of
         GraphContract v d \<Rightarrow>
           if d = gd_digest g
           then ok \<lparr>dx_program_version = v, dx_graph_digest = gd_digest g, dx_node_id = nd_id node, dx_attempt_id = att\<rparr>
           else err GErr_RecoveryMismatch
       | _ \<Rightarrow> err GErr_RecoveryMismatch)"

text \<open>What a node leads to: the end of the walk, or a transition.\<close>

definition visit ::
  "seal_env \<Rightarrow> harness_env \<Rightarrow> graph_definition \<Rightarrow> 'w graph_program \<Rightarrow> node_definition \<Rightarrow> graph_node_attempt_id \<Rightarrow>
   ('w, graph_run_summary + graph_transition_key) gm" where
  "visit se env g prog node att =
     (case nd_kind node of
        NK_Complete \<Rightarrow>
          and_then (on_harness (complete_graph env att (nd_id node))) (\<lambda>_.
          and_then (graph_summary Graph_Complete None) (\<lambda>su. ok (Inl su)))
      | NK_Fail \<Rightarrow>
          and_then (on_harness (fail_graph env att (nd_id node) GraphFail_ExplicitTerminal)) (\<lambda>_.
          and_then (graph_summary Graph_Fail None) (\<lambda>su. ok (Inl su)))
      | NK_Retrieve \<Rightarrow>
          and_then (on_program (\<lambda>w. run_retrieve_effects env (gp_retrieve prog (nd_id node) w)))
            (after_callback env att (nd_id node) (\<lambda>_. Inr Key_Succeeded))
      | NK_Model \<Rightarrow>
          and_then (on_program (\<lambda>w. run_model_effects env (gp_model prog (nd_id node) w)))
            (after_callback env att (nd_id node) (\<lambda>_. Inr Key_Succeeded))
      | NK_Action \<Rightarrow>
          and_then (on_program (\<lambda>w. run_action_effects se env None (gp_action prog (nd_id node) w)))
            (after_callback env att (nd_id node) (\<lambda>_. Inr Key_Succeeded))
      | NK_DurableLocalWriteAction \<Rightarrow>
          and_then (durable_context g node att) (\<lambda>dx.
          and_then (on_program (\<lambda>w. run_action_effects se env (Some dx) (gp_durable_local_write_action prog (nd_id node) w))) (\<lambda>r.
          and_then (after_callback env att (nd_id node) id r) (\<lambda>wait.
          and_then (graph_summary Graph_Waiting (Some wait)) (\<lambda>su. ok (Inl su)))))
      | NK_Verify \<Rightarrow>
          and_then (on_program (\<lambda>w h. (gp_verify prog (nd_id node) w, h)))
            (after_callback env att (nd_id node) (\<lambda>v.
               Inr (case v of Outcome_Passed \<Rightarrow> Key_VerificationPassed | Outcome_NotPassed \<Rightarrow> Key_VerificationFailed)))
      | NK_Decision _ \<Rightarrow>
          and_then (on_program (\<lambda>w h. (gp_decide prog (nd_id node) w, h)))
            (after_callback env att (nd_id node) (\<lambda>b. Inr (Key_Branch b))))"

definition move_on ::
  "harness_env \<Rightarrow> graph_definition \<Rightarrow> node_definition \<Rightarrow> graph_node_attempt_id \<Rightarrow> graph_transition_key \<Rightarrow> ('w, resume_node) gm" where
  "move_on env g node att key =
     (case gd_transition g (nd_id node) key of
        None \<Rightarrow> and_then (fail_transition env att (nd_id node)) (\<lambda>_. err GErr_TransitionUnavailable)
      | Some next_id \<Rightarrow>
          (case gd_node g next_id of
             None \<Rightarrow> and_then (fail_transition env att (nd_id node)) (\<lambda>_. err GErr_TransitionUnavailable)
           | Some next_node \<Rightarrow>
               and_then (on_harness (complete_graph_node env att (nd_id node) key (nd_id next_node)
                  (durable_kind (nd_kind next_node)) (nd_recovery next_node))) (\<lambda>_.
               ok \<lparr>rn_node_id = next_id, rn_previous_attempt = None\<rparr>)))"

text \<open>One turn of the loop: the summary when the walk ends, or the next node.\<close>

definition graph_turn ::
  "seal_env \<Rightarrow> harness_env \<Rightarrow> graph_definition \<Rightarrow> 'w graph_program \<Rightarrow> resume_node \<Rightarrow> bool \<Rightarrow>
   ('w, graph_run_summary + resume_node) gm" where
  "graph_turn se env g prog current restarting =
     (case gd_node g (rn_node_id current) of
        None \<Rightarrow> err GErr_TransitionUnavailable
      | Some node \<Rightarrow>
          and_then (enter_node env node current restarting) (\<lambda>att.
          and_then (visit se env g prog node att) (\<lambda>r.
            case r of
              Inl su \<Rightarrow> ok (Inl su)
            | Inr key \<Rightarrow> and_then (move_on env g node att key) (\<lambda>n. ok (Inr n)))))"

section \<open>Growth\<close>

definition ge_grows :: "'w graph_run \<Rightarrow> 'w graph_run \<Rightarrow> bool" where
  "ge_grows s t \<longleftrightarrow> grows (ge_harness s) (ge_harness t)"

interpretation ge_grows: frame_relation ge_grows
proof
  show "ge_grows s s" for s :: "'w graph_run" by (simp add: ge_grows_def grows.refl)
  show "ge_grows s u" if "ge_grows s t" "ge_grows t u" for s t u :: "'w graph_run"
    using that grows.trans by (auto simp: ge_grows_def)
qed

lemma ge_on_harness: "within grows m \<Longrightarrow> within ge_grows (on_harness m)"
  by (auto simp: within_def on_harness_def ge_grows_def split: prod.split) (metis snd_conv)

lemma ge_on_program: "(\<And>w h. grows h (snd (f w h))) \<Longrightarrow> within ge_grows (on_program f)"
  by (auto simp: within_def on_program_def ge_grows_def split: prod.split) (metis snd_conv)

lemma grows_tracked: "within grows (invoke_model_tracked env q)"
  by (simp add: invoke_model_tracked_def grows_model)

lemma retrieve_effects_grow: "grows h (snd (run_retrieve_effects env p h))"
proof (induction p arbitrary: h)
  case (Ret_RetrieveKnowledge q k)
  then show ?case using within_step [OF grows_knowledge(1)] grows.trans by (fastforce split: prod.split)
qed (simp add: grows.refl)

lemma model_effects_grow: "grows h (snd (run_model_effects env p h))"
proof (induction p arbitrary: h)
  case (Mod_InvokeModel q k)
  then show ?case using within_step [OF grows_tracked] grows.trans by (fastforce split: prod.split)
next
  case (Mod_InvokeGrounded c q k)
  then show ?case using within_step [OF grows_grounded] grows.trans by (fastforce split: prod.split)
qed (simp add: grows.refl)

lemma action_effects_grow: "grows h (snd (run_action_effects se env dx p h))"
proof (induction p arbitrary: h)
  case (Act_PrepareAction i k)
  then show ?case using within_step [OF grows_knowledge(2)] grows.trans by (fastforce split: prod.split)
next
  case (Act_InvokeValidatedAction a k)
  then show ?case using within_step [OF grows_validated_action] grows.trans by (fastforce split: prod.split)
next
  case (Act_SuspendLocalWrite a k)
  have "within grows (suspend_local_write se env dx a)"
    by (cases dx) (simp_all add: suspend_local_write_def grows_suspend grows.within_err)
  with Act_SuspendLocalWrite show ?case using within_step grows.trans by (fastforce split: prod.split)
qed (simp add: grows.refl)

lemmas ge_rules = ge_grows.within_combinators ge_on_harness ge_on_program grows_lifecycle retrieve_effects_grow
  model_effects_grow action_effects_grow

lemma ge_steps:
  "within ge_grows (fail_callback env att n)" "within ge_grows (fail_transition env att n)"
  "within ge_grows (enter_node env node current r)" "within ge_grows (after_callback env att n f x)"
  "within ge_grows (durable_context g node att)"
proof -
  show fail: "within ge_grows (fail_callback env att n)" "within ge_grows (fail_transition env att n)"
    unfolding fail_callback_def fail_transition_def by (intro ge_rules)+
  show "within ge_grows (enter_node env node current r)"
    unfolding enter_node_def by (cases r) (simp_all add: ge_on_harness grows_lifecycle)
  show "within ge_grows (after_callback env att n f x)"
    unfolding after_callback_def by (intro ge_rules fail)
  show "within ge_grows (durable_context g node att)"
    unfolding durable_context_def
    by (intro ge_rules; split recovery_contract.split; intro conjI allI impI ge_rules)
qed

lemma ge_visit: "within ge_grows (visit se env g prog node att)"
  unfolding visit_def graph_summary_def
  by (cases "nd_kind node") (simp_all, (intro ge_rules ge_steps; simp add: grows.refl)+)

lemma ge_move_on: "within ge_grows (move_on env g node att key)"
  unfolding move_on_def by (intro ge_rules ge_steps)

section \<open>Every turn takes a step of the budget\<close>

definition steps_left :: "'w graph_run \<Rightarrow> nat" where
  "steps_left s = unat (max_graph_steps (rc_budget (hs_ctx (ge_harness s)))) - unat (graph_steps (rc_usage (hs_ctx (ge_harness s))))"

lemma reserve_step_counts:
  assumes "reserve env reserve_graph_step s = (Inr n, t)"
  shows "graph_steps (rc_usage (hs_ctx s)) < graph_steps (rc_usage (hs_ctx t))
     \<and> graph_steps (rc_usage (hs_ctx s)) < max_graph_steps (rc_budget (hs_ctx s))"
  using assms inc_grows [of "graph_steps (rc_usage (hs_ctx s))" "max_graph_steps (rc_budget (hs_ctx s))"]
  by (auto simp: reserve_def on_result_apply on_ctx_def reserve_graph_step_def Let_def usage_defs and_then_apply not_le
      split: if_splits prod.splits sum.splits harness_error.splits)

lemma entering_counts:
  assumes "and_then (preflight env op) (\<lambda>_. and_then (reserve env reserve_graph_step) k) s = (Inr x, t)" "\<And>n. within grows (k n)"
  shows "graph_steps (rc_usage (hs_ctx s)) < graph_steps (rc_usage (hs_ctx t))
     \<and> graph_steps (rc_usage (hs_ctx s)) < max_graph_steps (rc_budget (hs_ctx s))"
proof -
  obtain s1 where s1: "preflight env op s = (Inr (), s1)"
    and rest: "and_then (reserve env reserve_graph_step) k s1 = (Inr x, t)"
    using and_then_returns [OF assms(1)] by auto
  obtain n s2 where s2: "reserve env reserve_graph_step s1 = (Inr n, s2)" "k n s2 = (Inr x, t)"
    using and_then_returns [OF rest] by blast
  have "grows s s1" by (rule within_step [OF grows_guards(3) s1])
  moreover have "grows s2 t" by (rule within_step [OF assms(2) s2(2)])
  ultimately show ?thesis
    using reserve_step_counts [OF s2(1)] by (auto simp: grows_def ctx_grows_def)
qed

lemma enter_node_counts:
  assumes "enter_node env node current restarting s = (Inr att, t)"
  shows "graph_steps (rc_usage (hs_ctx (ge_harness s))) < graph_steps (rc_usage (hs_ctx (ge_harness t)))
     \<and> graph_steps (rc_usage (hs_ctx (ge_harness s))) < max_graph_steps (rc_budget (hs_ctx (ge_harness s)))"
proof -
  let ?m = "if restarting
       then restart_graph_node env (rn_previous_attempt current) (nd_id node) (durable_kind (nd_kind node)) (nd_recovery node)
       else enter_graph_node env (nd_id node) (durable_kind (nd_kind node)) (nd_recovery node)"
  obtain h where h: "?m (ge_harness s) = (Inr att, h)" "t = s\<lparr>ge_harness := h\<rparr>"
    using assms by (cases "?m (ge_harness s)"; cases "fst (?m (ge_harness s))") (auto simp: enter_node_def on_harness_def)
  have "restart_graph_node env prev n k m x = (Inr att, h) \<Longrightarrow>
      graph_steps (rc_usage (hs_ctx x)) < graph_steps (rc_usage (hs_ctx h))
      \<and> graph_steps (rc_usage (hs_ctx x)) < max_graph_steps (rc_budget (hs_ctx x))" for prev n k m x
    unfolding restart_graph_node_def by (erule entering_counts) (intro grows_rules)
  moreover have "enter_graph_node env n k m x = (Inr att, h) \<Longrightarrow>
      graph_steps (rc_usage (hs_ctx x)) < graph_steps (rc_usage (hs_ctx h))
      \<and> graph_steps (rc_usage (hs_ctx x)) < max_graph_steps (rc_budget (hs_ctx x))" for n k m x
    unfolding enter_graph_node_def by (erule entering_counts) (intro grows_rules)
  ultimately show ?thesis using h by (cases restarting) simp_all
qed

lemma graph_turn_decreases:
  assumes "graph_turn se env g prog current restarting s = (Inr (Inr n), t)"
  shows "steps_left t < steps_left s"
proof -
  obtain node where node: "gd_node g (rn_node_id current) = Some node"
    using assms by (auto simp: graph_turn_def split: option.splits)
  let ?rest = "\<lambda>att. and_then (visit se env g prog node att) (\<lambda>r. case r of Inl su \<Rightarrow> ok (Inl su)
      | Inr key \<Rightarrow> and_then (move_on env g node att key) (\<lambda>n. ok (Inr n)))"
  have run: "and_then (enter_node env node current restarting) ?rest s = (Inr (Inr n), t)"
    using assms node by (simp add: graph_turn_def)
  obtain att s1 where s1: "enter_node env node current restarting s = (Inr att, s1)" and rest: "?rest att s1 = (Inr (Inr n), t)"
    using and_then_returns [OF run] by blast
  have "within ge_grows (?rest att)" by (intro ge_grows.within_combinators ge_visit ge_move_on)
  from within_step [OF this rest] have "ge_grows s1 t" .
  moreover have "ge_grows s s1" by (rule within_step [OF ge_steps(3) s1])
  ultimately show ?thesis
    using enter_node_counts [OF s1]
    by (auto simp: steps_left_def ge_grows_def grows_def ctx_grows_def word_le_nat_alt word_less_nat_alt)
qed

section \<open>Whole runs\<close>

function execute ::
  "seal_env \<Rightarrow> harness_env \<Rightarrow> graph_definition \<Rightarrow> 'w graph_program \<Rightarrow> resume_node \<Rightarrow> bool \<Rightarrow> ('w, graph_run_summary) gm" where
  "execute se env g prog current restarting s =
     (case graph_turn se env g prog current restarting s of
        (Inl e, t) \<Rightarrow> (Inl e, t)
      | (Inr (Inl su), t) \<Rightarrow> (Inr su, t)
      | (Inr (Inr n), t) \<Rightarrow> execute se env g prog n False t)"
  by pat_completeness auto
termination
  by (relation "measure (\<lambda>(se, env, g, prog, current, restarting, s). steps_left s)")
     (simp, auto intro: graph_turn_decreases [OF sym])

declare execute.simps [simp del]

definition GraphEngine_run ::
  "seal_env \<Rightarrow> harness_env \<Rightarrow> graph_definition \<Rightarrow> 'w graph_program \<Rightarrow> 'w \<Rightarrow> harness_state \<Rightarrow>
   (graph_error + graph_run_summary) \<times> 'w graph_run" where
  "GraphEngine_run se env g prog w h =
     (case gd_node g (gd_start g) of
        None \<Rightarrow> err GErr_TransitionUnavailable
      | Some start \<Rightarrow>
          and_then (on_harness (start_graph env (gd_digest g) (nd_id start) (durable_kind (nd_kind start)) (nd_recovery start))) (\<lambda>_.
          execute se env g prog \<lparr>rn_node_id = nd_id start, rn_previous_attempt = None\<rparr> False))
     \<lparr>ge_harness = h, ge_work = w\<rparr>"

definition resume_point :: "durable_graph_state \<Rightarrow> resume_node option" where
  "resume_point graph =
     (case gs_restart_anchor graph of
        Some anchor \<Rightarrow> Some \<lparr>rn_node_id = anchor_node_id anchor, rn_previous_attempt = Some (anchor_attempt_id anchor)\<rparr>
      | None \<Rightarrow>
          (case gs_position graph of
             Pos_Ready node kind recovery \<Rightarrow>
               if recovery \<noteq> Recover_Never then Some \<lparr>rn_node_id = node, rn_previous_attempt = None\<rparr> else None
           | Pos_Running att node kind recovery \<Rightarrow>
               if recovery \<noteq> Recover_Never then Some \<lparr>rn_node_id = node, rn_previous_attempt = Some att\<rparr> else None
           | _ \<Rightarrow> None))"

definition GraphEngine_resume ::
  "seal_env \<Rightarrow> harness_env \<Rightarrow> graph_definition \<Rightarrow> 'w graph_program \<Rightarrow> run_context \<Rightarrow> durable_run_state \<Rightarrow> recovery_contract \<Rightarrow>
   harness_state \<Rightarrow> (graph_error + graph_run_summary \<times> 'w) \<times> harness_state" where
  "GraphEngine_resume se env g prog ctx durable contract h =
     (if contract \<noteq> GraphContract (gp_recovery_version prog) (gd_digest g) then (Inl GErr_RecoveryMismatch, h)
      else (case ds_graph durable of
        None \<Rightarrow> (Inl GErr_RecoveryMismatch, h)
      | Some graph \<Rightarrow>
          if gs_definition_digest graph \<noteq> gd_digest g then (Inl GErr_RecoveryMismatch, h)
          else (case resume_point graph of
            None \<Rightarrow> (Inl GErr_RecoveryMismatch, h)
          | Some point \<Rightarrow>
              (case gp_restore_working_state prog durable of
                 Inl x \<Rightarrow> (Inl (GErr_Program x), h)
               | Inr w \<Rightarrow>
                   (case execute se env g prog point True \<lparr>ge_harness = h\<lparr>hs_ctx := ctx\<rparr>, ge_work = w\<rparr> of
                      (Inl e, t) \<Rightarrow> (Inl e, ge_harness t)
                    | (Inr su, t) \<Rightarrow> (Inr (su, ge_work t), ge_harness t))))))"

end
