(* ===== verification/Knowledge_Laws.thy ===== *)
theory Knowledge_Laws
  imports Knowledge "HOL-Library.Multiset"
begin

text \<open>
  Properties of retrieval: what fusion selects and when it says that something was dropped, that every fused set is
  accepted by the reducer of the run, and that the manifest digest commits to the evidence although the manifest
  holds neither counts nor lengths of versions.
\<close>

section \<open>Selection\<close>

lemma subseq_set: "subseq xs ys \<Longrightarrow> set xs \<subseteq> set ys"
  by (induction rule: list_emb.induct) auto

lemma sorted_wrt_subseq: "subseq xs ys \<Longrightarrow> sorted_wrt R ys \<Longrightarrow> sorted_wrt R xs"
proof (induction rule: list_emb.induct)
  case (list_emb_Cons2 x y xs ys)
  then show ?case using subseq_set [of xs ys] by auto
qed simp_all

lemma subseq_distinct: "subseq xs ys \<Longrightarrow> distinct ys \<Longrightarrow> distinct xs"
proof (induction rule: list_emb.induct)
  case (list_emb_Cons2 x y xs ys)
  then show ?case using subseq_set [of xs ys] by auto
qed simp_all

definition total_len :: "evidence list \<Rightarrow> nat" where
  "total_len es = sum_list (map content_len es)"

definition fits :: "retrieval_limits \<Rightarrow> evidence list \<Rightarrow> bool" where
  "fits l es \<longleftrightarrow> length es \<le> rl_max_results l \<and> total_len es \<le> rl_max_total_bytes l
     \<and> list_all (\<lambda>e. content_len e \<le> rl_max_item_bytes l) es"

lemma fits_Nil [simp]: "fits l []"
  by (simp add: fits_def total_len_def)

lemma fits_snoc: "fits l es \<Longrightarrow> \<not> over_limits l (length es) (total_len es) e \<Longrightarrow> fits l (es @ [e])"
  by (auto simp: fits_def total_len_def over_limits_def)

lemma total_len_snoc [simp]: "total_len (es @ [e]) = total_len es + content_len e"
  by (simp add: total_len_def)

text \<open>The loop over one backend is the loop over a fusion without repetitions.\<close>

lemma select_backend_spec:
  assumes "fits l selected" "select_backend l es selected (total_len selected) t = (out, t')"
  shows "fits l out \<and> (\<exists>kept. out = selected @ kept \<and> subseq kept es \<and> (\<not> t' \<longrightarrow> kept = es \<and> \<not> t))"
  using assms
proof (induction es arbitrary: selected t)
  case (Cons e es)
  show ?case
  proof (cases "over_limits l (length selected) (total_len selected) e")
    case True
    with Cons.prems Cons.IH [of selected True] show ?thesis by auto
  next
    case False
    with Cons.prems Cons.IH [of "selected @ [e]" t] fits_snoc show ?thesis by fastforce
  qed
qed auto

lemma select_merged_spec:
  assumes "fits l selected" "distinct (map (dedup_key sha) selected)" "dedup_key sha ` set selected \<subseteq> dedup"
    and "select_merged sha l es dedup selected (total_len selected) t = (out, t')"
  shows "fits l out \<and> distinct (map (dedup_key sha) out)
     \<and> (\<exists>kept. out = selected @ kept \<and> subseq kept es \<and> (\<not> t' \<longrightarrow> kept = es \<and> \<not> t))"
  using assms
proof (induction es arbitrary: dedup selected t)
  case (Cons e es)
  let ?k = "dedup_key sha e"
  consider "?k \<in> dedup" | "?k \<notin> dedup" "over_limits l (length selected) (total_len selected) e"
    | "?k \<notin> dedup" "\<not> over_limits l (length selected) (total_len selected) e" by blast
  then show ?case
  proof cases
    case 1
    with Cons.prems Cons.IH [of selected dedup True] show ?thesis by auto
  next
    case 2
    with Cons.prems Cons.IH [of selected "insert ?k dedup" True] show ?thesis by (auto simp: Let_def)
  next
    case 3
    have "distinct (map (dedup_key sha) (selected @ [e]))" "dedup_key sha ` set (selected @ [e]) \<subseteq> insert ?k dedup"
      using Cons.prems(2,3) 3(1) by auto
    with Cons.IH [of "selected @ [e]" "insert ?k dedup" t] fits_snoc [OF Cons.prems(1) 3(2)] Cons.prems(4) 3
    show ?thesis by (fastforce simp: Let_def)
  qed
qed auto

section \<open>Fusion\<close>

definition limits_ok :: "retrieval_limits \<Rightarrow> bool" where
  "limits_ok l \<longleftrightarrow> rl_max_results l \<le> MAX_RESULTS \<and> rl_max_total_bytes l \<le> MAX_TOTAL_EVIDENCE_BYTES"

lemma limits_new_ok: "RetrievalLimits_new r i t = Inr l \<Longrightarrow> limits_ok l"
  by (auto simp: RetrievalLimits_new_def limits_ok_def split: if_splits)

lemma build_within:
  "limits_ok l \<Longrightarrow> fits l es \<Longrightarrow> EvidenceSet_build sha es ss fs t d =
     Inr \<lparr>se_evidence = es, se_snapshots = ss, se_failed_backends = fs, se_truncated = t, se_degraded = d,
          se_manifest_digest = manifest_digest sha es ss t d\<rparr>"
  by (auto simp: EvidenceSet_build_def fits_def limits_ok_def total_len_def)

definition answers :: "('b \<times> ('e + 'a)) list \<Rightarrow> 'a list" where
  "answers rs = List.map_filter (\<lambda>r. case snd r of Inl _ \<Rightarrow> None | Inr s \<Rightarrow> Some s) rs"

definition failures :: "('b \<times> ('e + 'a)) list \<Rightarrow> 'b list" where
  "failures rs = map fst (filter (\<lambda>r. case snd r of Inl _ \<Rightarrow> True | Inr _ \<Rightarrow> False) rs)"

lemma answers_simps [simp]:
  "answers [] = []" "answers ((b, Inl e) # rs) = answers rs" "answers ((b, Inr s) # rs) = s # answers rs"
  "failures [] = []" "failures ((b, Inl e) # rs) = b # failures rs" "failures ((b, Inr s) # rs) = failures rs"
  by (simp_all add: answers_def failures_def map_filter_simps)

lemma answers_set: "s \<in> set (answers rs) \<Longrightarrow> \<exists>b. (b, Inr s) \<in> set rs"
  by (auto simp: answers_def map_filter_def split: sum.splits)

lemma split_results_spec:
  "split_results p rs ok_sets bad = Inr (oks, bads) \<longleftrightarrow>
     (p = RequireAll \<longrightarrow> failures rs = []) \<and> oks = ok_sets @ answers rs \<and> bads = bad @ failures rs"
  by (induction p rs ok_sets bad rule: split_results.induct) auto

lemma split_results_error:
  "split_results p rs ok_sets bad = Inl e \<Longrightarrow> p = RequireAll \<and> (\<exists>b. (b, Inl e) \<in> set rs)"
  by (induction p rs ok_sets bad rule: split_results.induct) (auto split: if_splits)

text \<open>The declarative reading of a fused set.\<close>

definition fused ::
  "(byte list \<Rightarrow> digest) \<Rightarrow> knowledge_request \<Rightarrow> (knowledge_backend_id \<times> (knowledge_error + backend_evidence_set)) list \<Rightarrow>
   evidence_set \<Rightarrow> bool" where
  "fused sha q rs s \<longleftrightarrow>
     fits (kq_limits q) (se_evidence s)
     \<and> distinct (map (dedup_key sha) (se_evidence s))
     \<and> sorted (map (sort_rank (kr_backends (kq_route q))) (se_evidence s))
     \<and> subseq (se_evidence s) (sort_key (sort_rank (kr_backends (kq_route q))) (concat (map bs_evidence (answers rs))))
     \<and> (\<not> se_truncated s \<longrightarrow>
          mset (se_evidence s) = mset (concat (map bs_evidence (answers rs))) \<and> \<not> list_ex bs_truncated (answers rs))
     \<and> se_snapshots s = List.map_filter bs_snapshot (answers rs)
     \<and> se_failed_backends s = failures rs \<and> se_degraded s = (failures rs \<noteq> [])
     \<and> se_manifest_digest s = manifest_digest sha (se_evidence s) (se_snapshots s) (se_truncated s) (se_degraded s)"

lemma merge_cases:
  assumes "limits_ok (kq_limits q)"
  shows "(\<exists>s. merge_backend_results sha q rs = Inr s \<and> fused sha q rs s
           \<and> (kr_failure_policy (kq_route q) = RequireAll \<longrightarrow> failures rs = []) \<and> (answers rs = [] \<longrightarrow> failures rs = []))
    \<or> merge_backend_results sha q rs = Inl KE_AllBackendsFailed \<and> answers rs = [] \<and> failures rs \<noteq> []
    \<or> (\<exists>b e. merge_backend_results sha q rs = Inl e \<and> (b, Inl e) \<in> set rs \<and> kr_failure_policy (kq_route q) = RequireAll)"
proof (cases "split_results (kr_failure_policy (kq_route q)) rs [] []")
  case (Inl e)
  with split_results_error [OF Inl] show ?thesis by (auto simp: merge_backend_results_def)
next
  case (Inr p)
  obtain oks bads where p: "p = (oks, bads)" by fastforce
  with Inr have sp: "oks = answers rs" "bads = failures rs" "kr_failure_policy (kq_route q) = RequireAll \<longrightarrow> failures rs = []"
    using split_results_spec by fastforce+
  show ?thesis
  proof (cases "answers rs = [] \<and> failures rs \<noteq> []")
    case True
    then show ?thesis using Inr p sp by (simp add: merge_backend_results_def)
  next
    case False
    let ?cs = "sort_key (sort_rank (kr_backends (kq_route q))) (concat (map bs_evidence (answers rs)))"
    obtain out t' where sel: "select_merged sha (kq_limits q) ?cs {} [] 0 (list_ex bs_truncated (answers rs)) = (out, t')" by fastforce
    then have out: "fits (kq_limits q) out" "distinct (map (dedup_key sha) out)" "subseq out ?cs"
        "\<not> t' \<longrightarrow> out = ?cs \<and> \<not> list_ex bs_truncated (answers rs)"
      using select_merged_spec [of "kq_limits q" "[]" sha "{}" ?cs] by (auto simp: total_len_def)
    have "sorted (map (sort_rank (kr_backends (kq_route q))) out)"
      by (rule sorted_wrt_subseq [OF subseq_map [OF out(3)]]) simp
    moreover have "\<not> t' \<longrightarrow> mset out = mset (concat (map bs_evidence (answers rs)))" using out(4) by (metis mset_sort)
    ultimately show ?thesis
      using Inr p sp False sel out build_within [OF assms out(1)]
      by (simp add: merge_backend_results_def fused_def) blast
  qed
qed

section \<open>Agreement with the reducer\<close>

text \<open>What the constructors of the evidence types guarantee of a backend's answer.\<close>

definition backend_set_ok :: "knowledge_backend_id \<Rightarrow> backend_evidence_set \<Rightarrow> bool" where
  "backend_set_ok b s \<longleftrightarrow>
     (\<exists>items snapshot t. BackendEvidenceSet_new b items snapshot t = Inr s)
     \<and> list_all (\<lambda>e. \<exists>i src c r sc d ch rf cr v m. Evidence_new i src c r sc d ch rf cr v m = Inr e) (bs_evidence s)"

lemma Evidence_new_reference: "Evidence_new i src c r sc d ch rf cr v m = Inr e \<Longrightarrow> durable_reference e \<noteq> None"
  by (auto simp: Evidence_new_def durable_reference_def evidence_reference_new_def durable_text_ok_def bounded_safe_def
      MAX_DURABLE_KNOWLEDGE_ID_BYTES_def split: if_splits)

lemma backend_set_ok_facts:
  assumes "backend_set_ok b s"
  shows "e \<in> set (bs_evidence s) \<Longrightarrow> es_backend (evi_source e) = b"
    "e \<in> set (bs_evidence s) \<Longrightarrow> durable_reference e \<noteq> None"
    "bs_snapshot s = Some v \<Longrightarrow> sm_backend v = b \<and> snapshot_metadata_is_valid v"
  using assms Evidence_new_reference
  by (fastforce simp: backend_set_ok_def BackendEvidenceSet_new_def list_all_iff list_ex_iff split: if_splits)+

text \<open>The answers are those of the backends of the route, in order.\<close>

lemma collect_calls_fst: "collect_calls backends q bs = Inr rs \<Longrightarrow> map fst rs = bs"
  by (induction bs arbitrary: rs) (auto simp: res_then_def split: option.splits sum.splits)

lemma map_filter_snapshots:
  assumes "\<forall>(b, r) \<in> set rs. \<forall>s. r = Inr s \<longrightarrow> backend_set_ok b s"
  shows "subseq (map sm_backend (List.map_filter bs_snapshot (answers rs))) (map fst rs)"
  using assms
proof (induction rs)
  case (Cons x rs)
  obtain b r where x: "x = (b, r)" by fastforce
  show ?case
  proof (cases r)
    case (Inr s)
    with Cons x backend_set_ok_facts(3) [of b s] show ?thesis
      by (cases "bs_snapshot s") (auto simp: map_filter_simps)
  qed (use Cons x in \<open>auto simp: map_filter_simps\<close>)
qed (simp add: map_filter_simps)

lemma those_map_Some: "(\<And>x. x \<in> set xs \<Longrightarrow> f x \<noteq> None) \<Longrightarrow> those (map f xs) = Some (map (\<lambda>x. the (f x)) xs)"
  by (induction xs) (auto split: option.split)

lemma durable_reference_the:
  "durable_reference e \<noteq> None \<Longrightarrow>
     evidence_reference_is_valid (the (durable_reference e)) \<and> er_backend (the (durable_reference e)) = es_backend (evi_source e)"
  by (auto simp: durable_reference_def evidence_reference_new_def evidence_reference_is_valid_def split: if_splits)

lemma fused_evidence_origin:
  assumes "fused sha q rs s" "e \<in> set (se_evidence s)"
  shows "\<exists>b a. (b, Inr a) \<in> set rs \<and> e \<in> set (bs_evidence a)"
proof -
  have "e \<in> set (concat (map bs_evidence (answers rs)))"
    using assms subseq_set [of "se_evidence s" "sort_key (sort_rank (kr_backends (kq_route q))) (concat (map bs_evidence (answers rs)))"]
    by (auto simp: fused_def)
  then show ?thesis using answers_set by fastforce
qed

lemma fused_accepted:
  assumes "fused sha q rs s" "map fst rs = kr_backends (kq_route q)" "route_is_valid (kr_metadata (kq_route q))"
    and ok: "\<forall>(b, r) \<in> set rs. \<forall>a. r = Inr a \<longrightarrow> backend_set_ok b a"
    and "limits_ok (kq_limits q)"
    and "ds_pending_knowledge_retrieval st = Some p" "pk_retrieval_id p = rid"
    and "ds_restartable_knowledge_retrieval st = Some p'" "pk_route p' = kr_metadata (kq_route q)"
  shows "\<exists>refs st'. those (map durable_reference (se_evidence s)) = Some refs
     \<and> apply_retrieval_completed rid (se_snapshots s) refs (of_nat (length refs)) (se_manifest_digest s) st = Inr st'"
proof -
  have backends: "route_backends (kr_metadata (kq_route q)) = map fst rs" using assms(2) by (cases "kq_route q") auto
  have ev: "durable_reference e \<noteq> None" "es_backend (evi_source e) \<in> set (map fst rs)" if e: "e \<in> set (se_evidence s)" for e
  proof -
    obtain b a where ba: "(b, Inr a) \<in> set rs" "e \<in> set (bs_evidence a)" using fused_evidence_origin [OF assms(1) e] by blast
    with ok have "backend_set_ok b a" by fastforce
    from backend_set_ok_facts(1,2) [OF this ba(2)] ba(1) show "durable_reference e \<noteq> None" "es_backend (evi_source e) \<in> set (map fst rs)"
      by force+
  qed
  let ?refs = "map (\<lambda>e. the (durable_reference e)) (se_evidence s)"
  have refs: "those (map durable_reference (se_evidence s)) = Some ?refs" by (rule those_map_Some) (rule ev(1))
  have len: "length (se_evidence s) \<le> 8"
    using assms(1,5) by (auto simp: fused_def fits_def limits_ok_def MAX_RESULTS_def)
  have sub: "subseq (map sm_backend (se_snapshots s)) (map fst rs)"
    using map_filter_snapshots [OF ok] assms(1) by (simp add: fused_def)
  have snap_len: "length (se_snapshots s) \<le> 2"
    using list_emb_length [OF sub] assms(3) backends by (simp add: route_is_valid_def MAX_DURABLE_KNOWLEDGE_BACKENDS_def)
  have snap_distinct: "no_repeats (map sm_backend (se_snapshots s))"
    using subseq_distinct [OF sub] assms(3) backends by (simp add: route_is_valid_def no_repeats_distinct)
  have snap_in: "sm_backend v \<in> set (map fst rs)" if "v \<in> set (se_snapshots s)" for v
    using subseq_set [OF sub] that by auto
  have snap_ok: "snapshot_metadata_is_valid v" if v: "v \<in> set (se_snapshots s)" for v
  proof -
    obtain a where a: "a \<in> set (answers rs)" "bs_snapshot a = Some v"
      using v assms(1) by (auto simp: fused_def map_filter_def)
    obtain b where "(b, Inr a) \<in> set rs" using answers_set [OF a(1)] by blast
    with ok have "backend_set_ok b a" by fastforce
    from backend_set_ok_facts(3) [OF this a(2)] show ?thesis by simp
  qed
  have "unat (of_nat (length ?refs) :: u8) = length ?refs" using len by (simp add: unat_of_nat)
  then have "\<exists>st'. apply_retrieval_completed rid (se_snapshots s) ?refs (of_nat (length ?refs)) (se_manifest_digest s) st = Inr st'"
    using assms(6-9) len snap_len snap_distinct snap_in snap_ok ev durable_reference_the backends
    by (simp add: apply_retrieval_completed_def finish_knowledge_retrieval_def lb_then_def list_ex_iff
        MAX_DURABLE_EVIDENCE_REFERENCES_def MAX_DURABLE_KNOWLEDGE_BACKENDS_def)
  with refs show ?thesis by blast
qed

text \<open>A port whose backends answer with well-formed sets.\<close>

definition backends_ok :: "knowledge_backends \<Rightarrow> bool" where
  "backends_ok backends \<longleftrightarrow> (\<forall>b f q a. backends b = Some f \<longrightarrow> f q = Inr a \<longrightarrow> backend_set_ok b a)"

lemma collect_calls_ok:
  "backends_ok backends \<Longrightarrow> collect_calls backends q bs = Inr rs \<Longrightarrow> (b, Inr a) \<in> set rs \<Longrightarrow> backend_set_ok b a"
  by (induction bs arbitrary: rs) (auto simp: res_then_def backends_ok_def split: option.splits sum.splits)

lemma routed_retrieval_accepted:
  assumes "RoutedKnowledgePort_retrieve sha backends q = Inr s" "backends_ok backends" "limits_ok (kq_limits q)"
    and "route_is_valid (kr_metadata (kq_route q))"
    and "ds_pending_knowledge_retrieval st = Some p" "pk_retrieval_id p = rid"
    and "ds_restartable_knowledge_retrieval st = Some p'" "pk_route p' = kr_metadata (kq_route q)"
  shows "\<exists>refs st'. those (map durable_reference (se_evidence s)) = Some refs
     \<and> apply_retrieval_completed rid (se_snapshots s) refs (of_nat (length refs)) (se_manifest_digest s) st = Inr st'"
proof -
  obtain rs where rs: "collect_calls backends q (kr_backends (kq_route q)) = Inr rs" "merge_backend_results sha q rs = Inr s"
    using assms(1) by (cases "collect_calls backends q (kr_backends (kq_route q))") (auto simp: RoutedKnowledgePort_retrieve_def)
  have "fused sha q rs s" using merge_cases [OF assms(3), of sha rs] rs(2) by auto
  moreover have "\<forall>(b, r) \<in> set rs. \<forall>a. r = Inr a \<longrightarrow> backend_set_ok b a"
    using collect_calls_ok [OF assms(2) rs(1)] by blast
  ultimately show ?thesis
    using fused_accepted [OF _ collect_calls_fst [OF rs(1)] assms(4) _ assms(3,5-8)] by blast
qed

section \<open>The manifest digest\<close>

text \<open>What of an item is in the manifest.\<close>

definition item_key :: "(byte list \<Rightarrow> digest) \<Rightarrow> evidence \<Rightarrow> knowledge_backend_id \<times> rust_string \<times> digest" where
  "item_key sha e = (es_backend (evi_source e), evi_reference_id e, sha (as_bytes (evi_content e)))"

definition encode_item :: "knowledge_backend_id \<times> rust_string \<times> digest \<Rightarrow> byte list" where
  "encode_item x = (case x of (b, r, h) \<Rightarrow> backend_byte b # encode_string r @ h)"

definition reference_ok :: "rust_string \<Rightarrow> bool" where
  "reference_ok r \<longleftrightarrow> durable_text_ok r \<and> list_all scalar r"

lemma reference_ok_text: "reference_ok r \<Longrightarrow> text_ok r" "reference_ok r \<Longrightarrow> str_len r < 2 ^ 56"
  by (auto simp: reference_ok_def durable_text_ok_def text_ok_def MAX_DURABLE_KNOWLEDGE_ID_BYTES_def)

lemma evidence_bytes_item: "reference_ok (evi_reference_id e) \<Longrightarrow> evidence_bytes sha e = encode_item (item_key sha e)"
  using reference_ok_text(2) [of "evi_reference_id e"]
  by (simp add: evidence_bytes_def encode_item_def item_key_def encode_string_def encode_len_def)

lemma backend_byte_inject: "backend_byte a = backend_byte b \<longleftrightarrow> a = b"
  by (cases a; cases b) simp_all

interpretation item_code: prefix_code encode_item "\<lambda>(b, r, h). reference_ok r \<and> length h = 32"
proof
  fix x y u v
  assume ok: "case x of (b, r, h) \<Rightarrow> reference_ok r \<and> length h = 32" "case y of (b, r, h) \<Rightarrow> reference_ok r \<and> length h = 32"
    and eq: "encode_item x @ u = encode_item y @ v"
  obtain b r h c q g where xy: "x = (b, r, h)" "y = (c, q, g)" by (cases x; cases y)
  have t: "text_ok r" "text_ok q" and len: "length h = length g" using ok xy reference_ok_text(1) by auto
  from eq xy have "b = c" "encode_string r @ h @ u = encode_string q @ g @ v"
    by (simp_all add: encode_item_def backend_byte_inject)
  with string_code.unique [OF t, of "h @ u" "g @ v"] len xy show "x = y \<and> u = v" by simp
qed

interpretation printable_code: prefix_code utf8_char "\<lambda>c. scalar c \<and> \<not> is_control c"
  by unfold_locales (use utf8_code.unique in blast)

text \<open>The end of the input, or a backend byte.\<close>

definition ends_version :: "byte list \<Rightarrow> bool" where
  "ends_version w \<longleftrightarrow> w = [] \<or> hd w = 0 \<or> hd w = 1"

lemma printable_head: "scalar c \<Longrightarrow> \<not> is_control c \<Longrightarrow> \<exists>a w. utf8_char c = a # w \<and> a \<noteq> 0 \<and> a \<noteq> 1"
proof -
  assume c: "scalar c" "\<not> is_control c"
  then have "utf8_lead c \<noteq> 0" "utf8_lead c \<noteq> 1" by (auto simp: utf8_lead_def is_control_def)
  then show ?thesis
    using utf8_char_lead [of c] of_nat_byte_inject [OF utf8_lead_bound [OF c(1)], of 0]
      of_nat_byte_inject [OF utf8_lead_bound [OF c(1)], of 1] by auto
qed

lemma version_unique:
  assumes "list_all (\<lambda>c. scalar c \<and> \<not> is_control c) s" "list_all (\<lambda>c. scalar c \<and> \<not> is_control c) t"
    and "ends_version u" "ends_version v" "as_bytes s @ u = as_bytes t @ v"
  shows "s = t \<and> u = v"
proof (rule printable_code.run.unique_run [where stop = ends_version, OF _ _ _ assms(1,2,3,4)])
  show "utf8_char x @ u' \<noteq> w" if "scalar x \<and> \<not> is_control x" "ends_version w" for x w u'
    using printable_head [of x] that by (auto simp: ends_version_def)
  show "concat (map utf8_char s) @ u = concat (map utf8_char t) @ v" using assms(5) by (simp add: as_bytes_def)
qed simp_all

lemma reference_ok_printable: "reference_ok r \<Longrightarrow> list_all (\<lambda>c. scalar c \<and> \<not> is_control c) r"
  by (auto simp: reference_ok_def durable_text_ok_def list_all_iff list_ex_iff)

interpretation snapshot_code: delimited_code snapshot_bytes "\<lambda>s. reference_ok (sm_version s)" ends_version
proof
  fix x y u v
  assume ok: "reference_ok (sm_version x)" "reference_ok (sm_version y)" "ends_version u" "ends_version v"
    and eq: "snapshot_bytes x @ u = snapshot_bytes y @ v"
  from eq have "sm_backend x = sm_backend y" "as_bytes (sm_version x) @ u = as_bytes (sm_version y) @ v"
    by (simp_all add: snapshot_bytes_def backend_byte_inject)
  with version_unique [OF reference_ok_printable [OF ok(1)] reference_ok_printable [OF ok(2)] ok(3,4)]
  show "x = y \<and> u = v" by (simp add: knowledge_snapshot_metadata.equality)
qed

lemma snapshot_run_unique:
  assumes "list_all (\<lambda>s. reference_ok (sm_version s)) xs" "list_all (\<lambda>s. reference_ok (sm_version s)) ys"
    and "concat (map snapshot_bytes xs) = concat (map snapshot_bytes ys)"
  shows "xs = ys"
proof -
  have "xs = ys \<and> ([] :: byte list) = []"
  proof (rule snapshot_code.unique_run [where stop = "\<lambda>w. w = []", OF _ _ _ assms(1,2)])
    show "ends_version (snapshot_bytes x @ w)" if "reference_ok (sm_version x)" for x w
      by (cases "sm_backend x") (simp_all add: snapshot_bytes_def ends_version_def)
  qed (use assms(3) in \<open>auto simp: ends_version_def snapshot_bytes_def\<close>)
  then show ?thesis by simp
qed

text \<open>The second byte of an item is the first of its length, the second of a snapshot the first of its version.\<close>

definition no_item :: "byte list \<Rightarrow> bool" where
  "no_item w \<longleftrightarrow> w = [] \<or> (\<exists>b a r. w = b # a # r \<and> a \<noteq> 0)"

lemma snapshots_no_item: "list_all (\<lambda>s. reference_ok (sm_version s)) xs \<Longrightarrow> no_item (concat (map snapshot_bytes xs))"
proof (cases xs)
  case (Cons x ys)
  assume "list_all (\<lambda>s. reference_ok (sm_version s)) xs"
  with Cons have "reference_ok (sm_version x)" by simp
  then obtain c s where "sm_version x = c # s" "scalar c" "\<not> is_control c"
    by (cases "sm_version x") (auto simp: reference_ok_def durable_text_ok_def)
  with printable_head [of c] Cons show ?thesis by (auto simp: no_item_def snapshot_bytes_def as_bytes_def)
qed (simp add: no_item_def)

lemma item_not_no_item: "reference_ok r \<Longrightarrow> no_item w \<Longrightarrow> encode_item (b, r, h) @ u \<noteq> w"
  using encode_len_head [OF reference_ok_text(2), of r] by (auto simp: no_item_def encode_item_def encode_string_def)

lemma manifest_bytes_commit:
  assumes "list_all (\<lambda>e. reference_ok (evi_reference_id e)) es" "list_all (\<lambda>e. reference_ok (evi_reference_id e)) es'"
    and "list_all (\<lambda>s. reference_ok (sm_version s)) ss" "list_all (\<lambda>s. reference_ok (sm_version s)) ss'"
    and "\<And>b. length (sha b) = 32" "manifest_bytes sha es ss t d = manifest_bytes sha es' ss' t' d'"
  shows "map (item_key sha) es = map (item_key sha) es' \<and> ss = ss' \<and> t = t' \<and> d = d'"
proof -
  have bytes: "concat (map (evidence_bytes sha) xs) = concat (map encode_item (map (item_key sha) xs))"
    if "list_all (\<lambda>e. reference_ok (evi_reference_id e)) xs" for xs
    using that evidence_bytes_item by (induction xs) auto
  have valid: "list_all (\<lambda>(b, r, h). reference_ok r \<and> length h = 32) (map (item_key sha) xs)"
    if "list_all (\<lambda>e. reference_ok (evi_reference_id e)) xs" for xs
    using that assms(5) by (auto simp: list_all_iff item_key_def)
  have eq: "concat (map encode_item (map (item_key sha) es)) @ concat (map snapshot_bytes ss)
      = concat (map encode_item (map (item_key sha) es')) @ concat (map snapshot_bytes ss')"
    using assms(6) by (simp add: manifest_bytes_def bytes [OF assms(1)] bytes [OF assms(2)])
  have "map (item_key sha) es = map (item_key sha) es' \<and> concat (map snapshot_bytes ss) = concat (map snapshot_bytes ss')"
  proof (rule item_code.run.unique_run [where stop = no_item, OF _ _ _ valid [OF assms(1)] valid [OF assms(2)]])
    show "encode_item x @ u \<noteq> w" if "case x of (b, r, h) \<Rightarrow> reference_ok r \<and> length h = 32" "no_item w" for x u w
      using that item_not_no_item by (cases x) simp
  qed (use eq snapshots_no_item assms(3,4) in simp_all)
  moreover have "t = t'" "d = d'" using assms(6) by (cases t; cases t'; cases d; cases d'; simp add: manifest_bytes_def)+
  ultimately show ?thesis using snapshot_run_unique [OF assms(3,4)] by simp
qed

end
