(* ===== verification/Spec2Isabelle.thy ===== *)
theory Spec2Isabelle
  imports Demo_Harness Demo_Graph Demo_Loop Demo_Durable Demo_Service Graph_Engine Knowledge_Laws
begin

text \<open>
  A verification development for the enterprise local agent (\<^verbatim>\<open>src/crates\<close>): an agent runtime that executes model and
  tool calls under budgets, capability policies and approvals, and records every step in a durable journal from which a
  run can be recovered after a crash.

  \<^bold>\<open>Parts of the program and their theories.\<close>

  \<^item> \<open>Agent_Prelude\<close>, \<open>BTree_Map\<close>, \<open>Byte_Encoding\<close>: machine integers, clocks, Rust strings, the two result shapes (in-place
    mutation that may fail half way; computations over a state that return \<^verbatim>\<open>Result\<close>), ordered maps, UTF-8 and
    unambiguous byte encodings.
  \<^item> \<open>Agent_Core\<close>: the domain values of \<^verbatim>\<open>agent-core\<close> (identifiers, budgets, events, JSON, tools).
  \<^item> \<open>Durable_State\<close>, \<open>Reducer\<close>: the durable run state and the event reducer of \<^verbatim>\<open>agent-harness/src/recovery.rs\<close>, with the
    invariants of replayed states and the tamper evidence of the digest chain.
  \<^item> \<open>Run_Context\<close>: the live context of a run (\<^verbatim>\<open>context.rs\<close>): lifecycle, reservations, event numbering.
  \<^item> \<open>Recovery\<close>: recovery from a loaded journal and its classification (\<^verbatim>\<open>recovery.rs\<close>).
  \<^item> \<open>Durable_Approval\<close>: the data of durable approvals and their checks (\<^verbatim>\<open>durable_approval.rs\<close>).
  \<^item> \<open>Persistence_Port\<close>, \<open>Sqlite_Store\<close>, \<open>Store_Laws\<close>: the contract of the persistence port and the SQLite store
    (\<^verbatim>\<open>agent-persistence-sqlite\<close>) as tables of rows with transactions; the store is an interpretation of the contract.
  \<^item> \<open>Knowledge\<close>, \<open>Knowledge_Laws\<close>: retrieval requests, evidence, the fusion of the answers of several backends and the
    manifest digest (\<^verbatim>\<open>agent-knowledge/src/lib.rs\<close>).
  \<^item> \<open>Harness_Types\<close>, \<open>Harness\<close>, \<open>Harness_Ops\<close>: policies, the tool registry and the execution harness
    (\<^verbatim>\<open>execution.rs\<close>). An operation is a computation over the context, the database and the trace of port calls;
    \<open>harness_env\<close> answers every question to the outside by tick, so that the theorems hold for every behaviour of clocks,
    cancellation, ports and I/O. \<open>Harness_Logic\<close>, \<open>Harness_Trace\<close>, \<open>Harness_Safety\<close> and \<open>Harness_Journal\<close> prove what any
    sequence of operations (\<open>session\<close>) keeps: the order of audit, persistence, approval and port calls, the budgets, and
    the agreement of the database with the context.
  \<^item> \<open>Action_Validation\<close>, \<open>Action_Laws\<close>: decoding and validation of model actions, the profile of tool schemas and the
    digests of actions and tool contracts (\<^verbatim>\<open>action.rs\<close>); the worklist loops against structural measures.
  \<^item> \<open>Effects\<close>, \<open>Harness_Steps\<close>, \<open>Harness_Growth\<close>: callbacks of programs as trees of harness operations; the locale
    \<open>step_frame\<close> carries a relation that bookkeeping steps respect over all operations; what no operation ever undoes.
    \<open>Loop_Engine\<close>, \<open>Loop_Laws\<close>, \<open>Loop_Run\<close>: the loop engine (\<^verbatim>\<open>agent-loop\<close>): its state machine, phases and error
    handling; every relation that the harness operations respect is respected by the engine (locale \<open>engine_frame\<close>), its
    loop ends because a turn uses up an iteration, and every way out of it settles the run.
  \<^item> \<open>Graph_Definition\<close>, \<open>Graph_Laws\<close>: validation of workflow graphs (\<^verbatim>\<open>agent-graph/src/definition.rs\<close>). \<open>Graph_Engine\<close>: the
    walk over a validated graph (\<^verbatim>\<open>agent-graph/src/engine.rs\<close>).
  \<^item> \<open>Durable_Suspend\<close>, \<open>Durable_Resume\<close>, \<open>Durable_Laws\<close>: durable approvals in the harness (\<^verbatim>\<open>execution.rs\<close>): suspension at a
    sealed local write, decision, abortion and resumption; \<open>silent\<close> and \<open>aloof\<close> are instances of \<open>step_frame\<close>.
  \<^item> \<open>Identity\<close>, \<open>Session_Store\<close>, \<open>Session_Laws\<close>: principals, the default-deny policy and its table (\<^verbatim>\<open>agent-identity\<close>); the
    session tables and the read port of the store with pages and cursors, and the histories of sessions.
  \<^item> \<open>Processes\<close>: concurrent processes as trees of atomic steps, run alone (\<open>run_alone\<close>) or interleaved step by step by an arbitrary
    schedule (\<open>interleave\<close>); the locale \<open>rely_guarantee\<close> carries a relation over all schedules, where a process relies on what it
    has learnt and no step of another can undo.
  \<^item> \<open>Service_Types\<close>, \<open>Service\<close>, \<open>Service_Laws\<close>, \<open>Service_Faults\<close>: the service (\<^verbatim>\<open>agent-service/src/lib.rs\<close>): requests and background
    tasks are processes over the shared state, cut at every await and at every access to shared data; \<open>serve_jobs\<close> runs any number of them
    in any order of steps. A section under a lock, a call of the store and a call of the harness are one step each; a workflow, a
    parameter, is cut into steps of its own. \<open>Service_Laws\<close> interprets \<open>rely_guarantee\<close> with the order of reads, grants, audits and mutations of each
    request and the table of active runs; \<open>Service_Faults\<close> is about one request at a time, for the starts that leave a slot behind.
  \<^item> \<open>Demo_Run\<close>, \<open>Demo_Store\<close>, \<open>Demo_Harness\<close>, \<open>Demo_Graph\<close>, \<open>Demo_Action\<close>, \<open>Demo_Loop\<close>,
    \<open>Demo_Durable\<close>, \<open>Demo_Service\<close>: concrete instances on which the witnesses run.

  \<^bold>\<open>Parameters.\<close> Code outside the repository is a parameter: serialization of events and rows (\<open>codec\<close>, \<open>store_codec\<close>,
  of which only the round trip is assumed, as \<open>codec_ok\<close> and \<open>store_codec_ok\<close>), SHA-256, the JSON parser and schema
  validator (\<open>json_lib\<close>), the ports of the harness. SQLite's transactions are modelled by a state that is committed or
  dropped; a failing statement or commit is the parameter \<open>io\<close>.

  \<^bold>\<open>Bounds.\<close> Sequence numbers and counters are words of the source's width; \<open>2^64\<close> events is the only bound assumed, where a
  theorem says so. The loops recurse structurally or have a termination proof; fuel bounds only the reader that follows cursors
  (\<open>read_pages\<close>: one page more than rows is enough) and the discovery of runs at startup (\<open>discover_runs\<close>: \<open>MAX_SESSIONS + 2\<close> pages
  are enough, \<open>discover_runs_end\<close>, because every page with a cursor has an item).

  \<^bold>\<open>Properties.\<close> C1--C3 recovery, C4--C7 the journal, C8 the live context, C9--C13 the store, C14--C18 the harness,
  C19--C21 and C31 graph definitions, C22--C25 actions, C26--C27 knowledge, C28--C29 durable approvals, C30, C32 and C33 the loop
  engine, C34--C40 the service.

  \<^bold>\<open>Not modelled.\<close> Network clients, configuration and front ends (\<^verbatim>\<open>agent-provider-rig\<close>, \<^verbatim>\<open>agent-mcp-adapters\<close>,
  \<^verbatim>\<open>agent-deployment\<close>, \<^verbatim>\<open>agent-service-http\<close>, \<^verbatim>\<open>apps\<close>): transport and wiring of third-party libraries. Linux containment: system calls. The sealing of
  actions: cryptography behind a port. The backend adapters of knowledge: network clients. Of the store: the listings of runs
  (parameters of the service), migrations, backup and the schema text; of the graph engine: the resumption of a waiting node. Debug and Display output.
\<close>

section \<open>Recovery\<close>

text \<open>
  C1. Whatever checkpoint it starts from, recovery computes the state of the plain replay of the
  whole log: when \<open>recover_loaded_run\<close> returns a disposition, the log replays from the initial state
  of the record without a rejected event, the disposition is the classification of exactly that
  state, and the state satisfies the reducer's invariant.
\<close>

theorem recovery_is_replay:
  assumes "recover_loaded_run c l now_millis now = Inr d"
  shows "replay c (lr_events l) (DurableRunState_initial (lr_record l)) = Inr (disposition_state d)
         \<and> classify (rr_recovery_contract (lr_record l)) (disposition_state d) now_millis now = Inr d
         \<and> ds_inv (disposition_state d)"
  using recover_via_replay [OF assms] classify_state replay_initial_inv by blast

theorem recovery_is_replay_witness:
  "replay demo_codec (lr_events demo_loaded) (DurableRunState_initial (lr_record demo_loaded)) = Inr demo_state"
proof -
  obtain ctx where "recover_loaded_run demo_codec demo_loaded 5000 7 = Inr (Disp_Resumable ctx demo_state (Restartable 1))"
    using demo_recovers by blast
  from recovery_is_replay [OF this] show ?thesis by simp
qed

text \<open>
  C2. Recovery accepts every honest journal: if the log replays from the record's initial state and the
  checkpoint is the state of any prefix of it, the result is the classification of the final state. It is
  an error only for a running run without unresolved effects, because the clock is before the start (or before the
  time the run had been active when it was suspended), or because the sequence or deadline range is exhausted.
\<close>

theorem recovery_accepts_honest:
  assumes "replay c es (DurableRunState_initial r) = Inr s"
    and "replay c (take n es) (DurableRunState_initial r) = Inr target" "n \<le> length es"
    and "length es < 2 ^ 64"
    and "rr_store_schema_version r = CURRENT_STORE_SCHEMA_VERSION"
      "rr_checkpoint_schema_version r = CURRENT_CHECKPOINT_SCHEMA_VERSION"
    and "recover_loaded_run c \<lparr>lr_record = r, lr_checkpoint = DurableCheckpoint_new target, lr_events = es\<rparr>
           now_millis now = res"
  shows "res = classify (rr_recovery_contract r) s now_millis now
    \<and> (case res of
         Inr d \<Rightarrow> disposition_state d = s
       | Inl e \<Rightarrow> ds_pending_effects s = [] \<and> ds_status s = Status_Running
           \<and> (e = RE_ClockAmbiguous \<and> clock_early s now_millis \<or> e = RE_InvalidRuntime))"
  using recover_honest [OF assms(1-6), of now_millis now] assms(7) classify_errors [OF replay_initial_inv [OF assms(1)]]
  by (auto simp: classify_state split: sum.split)

theorem recovery_accepts_honest_witness:
  "recover_loaded_run demo_codec
     \<lparr>lr_record = demo_record, lr_checkpoint = DurableCheckpoint_new demo_state, lr_events = demo_log\<rparr> 5000 7 =
   classify (rr_recovery_contract demo_record) demo_state 5000 7"
  using recovery_accepts_honest [of demo_codec demo_log demo_record demo_state 2 demo_state 5000 7, OF _ _ _ _ _ _ refl]
    demo_replays
  by (simp add: demo_log_def demo_record_def RunRecord_new_def)

text \<open>
  C3. A run is handed back for execution only when that is safe: it is running, no effect is
  unresolved, its contract allows a restart and there is a restart point, elapsed time is left, and the
  new context continues the journal (same state, usage and budget, next sequence number) with exactly
  the remaining time before its deadline.
\<close>

theorem recovered_run_resumes_safely:
  assumes "recover_loaded_run c l now_millis now = Inr (Disp_Resumable ctx s k)"
  shows "ds_status s = Status_Running \<and> ds_pending_effects s = []
         \<and> k = rr_recovery_contract (lr_record l) \<and> k \<noteq> NonRestartable
         \<and> (retrieval_restart k s \<or> graph_restart k s
              \<or> ds_continuation s \<in> {InitialBoundary, RestartableBoundary})
         \<and> elapsed_used s now_millis < max_elapsed (ds_budget s)
         \<and> rc_durable_state ctx = s \<and> rc_usage ctx = ds_usage s \<and> rc_budget ctx = ds_budget s
         \<and> in_step ctx
         \<and> rc_runtime ctx = Some \<lparr>rt_started_at = now,
              rt_deadline_at = now + (max_elapsed (ds_budget s) - elapsed_used s now_millis),
              rt_cancelled = False\<rparr>"
proof -
  from recover_via_replay [OF assms]
  have k: "classify (rr_recovery_contract (lr_record l)) s now_millis now = Inr (Disp_Resumable ctx s k)"
    using classify_state by fastforce
  note cl = classify_resumable [OF k]
  from cl from_recovery_ok [OF cl(9)] show ?thesis by simp
qed

theorem recovered_run_resumes_safely_witness:
  "\<exists>ctx. recover_loaded_run demo_codec demo_loaded 5000 7 = Inr (Disp_Resumable ctx demo_state (Restartable 1))
     \<and> rc_runtime ctx = Some \<lparr>rt_started_at = 7, rt_deadline_at = 56000000007, rt_cancelled = False\<rparr>"
proof -
  obtain ctx where r: "recover_loaded_run demo_codec demo_loaded 5000 7 =
      Inr (Disp_Resumable ctx demo_state (Restartable 1))"
    using demo_recovers by blast
  have "max_elapsed (ds_budget demo_state) - elapsed_used demo_state 5000 = 56000000000"
    by (simp add: elapsed_used_def consumed_millis_def demo_state_def demo_defs eval_defs duration_from_millis_def)
  with recovered_run_resumes_safely [OF r] r show ?thesis by simp
qed

section \<open>The journal\<close>

text \<open>
  C4. Every log that replays from an initial state leads to a state in which the graph position, the
  graph steps and the definition digest, the loop position and iteration counters, and the start time
  are consistent with the run status, the usage and the contract.
\<close>

theorem replay_establishes_invariant:
  assumes "replay c es (DurableRunState_initial r) = Inr s"
  shows "graph_inv s \<and> loop_inv s \<and> start_inv s"
  using replay_initial_inv [OF assms] by (simp add: ds_inv_def)

theorem replay_establishes_invariant_witness: "graph_inv demo_state \<and> loop_inv demo_state \<and> start_inv demo_state"
  by (rule replay_establishes_invariant [OF demo_replays])

text \<open>
  C5. A journal is numbered from zero without gaps, all its events belong to the run and have the
  current schema version, and no replayed event changes the identity, the budget or the contract.
\<close>

theorem replay_numbers_events:
  assumes "replay c es (DurableRunState_initial r) = Inr s" "length es \<le> 2 ^ 64"
  shows "(\<forall>i<length es. unat (ev_sequence (es ! i)) = i \<and> ev_run_id (es ! i) = key_run_id (rr_key r)
            \<and> ev_schema_version (es ! i) = CURRENT_EVENT_SCHEMA_VERSION)
         \<and> ds_last_sequence s = (if es = [] then None else Some (of_nat (length es - 1)))
         \<and> ds_key s = rr_key r \<and> ds_budget s = rr_budget r \<and> ds_recovery_contract s = rr_recovery_contract r"
proof -
  have "ds_key (DurableRunState_initial r) = rr_key r" by (simp add: DurableRunState_initial_def)
  moreover have "unat (of_nat i :: u64) = i" if "i < length es" for i
    using that assms(2) by (intro unat_of_nat_u64) simp
  ultimately show ?thesis
    using replay_positions [OF assms(1) initial_position] assms(2) replay_frame [OF assms(1)]
    by (auto simp: at_position_def frame_of_def DurableRunState_initial_def)
qed

theorem replay_numbers_events_witness:
  "unat (ev_sequence (demo_log ! 1)) = 1 \<and> ds_last_sequence demo_state = Some 1"
proof -
  have "length demo_log = 2" by (simp add: demo_log_def)
  with replay_numbers_events [OF demo_replays] show ?thesis by (auto simp: demo_log_def)
qed

text \<open>
  C6. A run that has finished stays finished with the same outcome, whatever is appended to its
  journal, and no event lowers a usage counter.
\<close>

theorem finished_run_stays_finished:
  assumes "replay c es (DurableRunState_initial r) = Inr s" "ds_status s = Status_Finished outcome"
    and "replay c (es @ fs) (DurableRunState_initial r) = Inr t"
  shows "ds_status t = Status_Finished outcome \<and> usage_le (ds_usage s) (ds_usage t)"
proof -
  have "replay c fs s = Inr t" using assms(1,3) by (simp add: replay_append)
  with replay_finished [OF assms(2)] replay_usage show ?thesis by blast
qed

theorem finished_run_stays_finished_witness:
  "\<exists>t. replay demo_codec ((demo_log @ [AgentEvent_new 1 2 (Ev_RunFinished Outcome_Cancelled)])
          @ [AgentEvent_new 1 3 Ev_AuditDegraded]) (DurableRunState_initial demo_record) = Inr t
      \<and> ds_status t = Status_Finished Outcome_Cancelled"
proof -
  let ?es = "demo_log @ [AgentEvent_new 1 2 (Ev_RunFinished Outcome_Cancelled)]"
  let ?i = "DurableRunState_initial demo_record"
  obtain s t where s: "replay demo_codec ?es ?i = Inr s" "ds_status s = Status_Finished Outcome_Cancelled"
    and t: "replay demo_codec (?es @ [AgentEvent_new 1 3 Ev_AuditDegraded]) ?i = Inr t"
    by (simp add: demo_defs eval_defs)
  from finished_run_stays_finished [OF s t] t show ?thesis by blast
qed

text \<open>
  C7. The chain digest makes the journal tamper evident: two different logs of the same length that
  replay from the same state to states with the same digest exhibit a SHA-256 collision among the
  strings that were hashed for them.
\<close>

theorem chain_digest_commits_to_log:
  assumes "codec_ok c"
    and "replay c es (DurableRunState_initial r) = Inr t" "replay c fs (DurableRunState_initial r) = Inr u"
    and "length es = length fs" "ds_event_chain_digest t = ds_event_chain_digest u" "es \<noteq> fs"
  shows "hash_clash c (chain_inputs c (replicate 32 0) es) (chain_inputs c (replicate 32 0) fs)"
  using replay_digest_determines [OF assms(1) _ assms(2,3,4,5,6)] by (simp add: DurableRunState_initial_def)

definition two_event_codec :: codec where
  "two_event_codec =
     \<lparr>to_vec = (\<lambda>e. if e = AgentEvent_new 1 0 (Ev_RunStarted 5) then Some [5]
                   else if e = AgentEvent_new 1 0 (Ev_RunStarted 6) then Some [6] else None),
      sha256 = (\<lambda>_. replicate 32 0)\<rparr>"

lemma two_event_codec_ok: "codec_ok two_event_codec"
  by (simp add: codec_ok_def two_event_codec_def)

theorem chain_digest_commits_to_log_witness:
  "hash_clash two_event_codec
     (chain_inputs two_event_codec (replicate 32 0) [AgentEvent_new 1 0 (Ev_RunStarted 5)])
     (chain_inputs two_event_codec (replicate 32 0) [AgentEvent_new 1 0 (Ev_RunStarted 6)])"
proof -
  let ?i = "DurableRunState_initial demo_record"
  obtain t u where "replay two_event_codec [AgentEvent_new 1 0 (Ev_RunStarted 5)] ?i = Inr t"
      "replay two_event_codec [AgentEvent_new 1 0 (Ev_RunStarted 6)] ?i = Inr u"
      "ds_event_chain_digest t = ds_event_chain_digest u"
    by (simp add: two_event_codec_def demo_defs eval_defs chain_digest_def)
  from chain_digest_commits_to_log [OF two_event_codec_ok this(1,2) _ this(3)] show ?thesis
    by (simp add: AgentEvent_new_def)
qed

section \<open>The live context\<close>

text \<open>
  C8. Each reservation grants exactly the units left in its budget, however often it is called: the first calls are
  granted, numbered where the reservation returns a number, until the limit is reached, every later call is refused with
  the exhausted dimension, and the counter has gone up by exactly the grants, without wrap-around.
\<close>

theorem reservations_exact:
  assumes "within_budget c"
    and "max_graph_steps (rc_budget c) \<noteq> 0" "max_graph_steps (rc_budget c) \<le> MAX_GRAPH_STEPS"
  shows "grants_exactly reserve_model_call (\<lambda>c. model_calls (rc_usage c)) (\<lambda>c. max_model_calls (rc_budget c))
           (\<lambda>_. ()) Dim_ModelCalls n c
       \<and> grants_exactly reserve_tool_call (\<lambda>c. tool_calls (rc_usage c)) (\<lambda>c. max_tool_calls (rc_budget c))
           (\<lambda>_. ()) Dim_ToolCalls n c
       \<and> grants_exactly reserve_iteration (\<lambda>c. iterations (rc_usage c)) (\<lambda>c. max_iterations (rc_budget c))
           (\<lambda>i. i) Dim_Iterations n c
       \<and> grants_exactly reserve_approval_request (\<lambda>c. approval_requests (rc_usage c))
           (\<lambda>c. max_approval_requests (rc_budget c)) (\<lambda>_. ()) Dim_ApprovalRequests n c
       \<and> grants_exactly reserve_graph_step (\<lambda>c. graph_steps (rc_usage c)) (\<lambda>c. max_graph_steps (rc_budget c))
           (\<lambda>i. i) Dim_GraphSteps n c"
  using assms unfolding within_budget_def
  by (intro conjI model_budget.exact tool_budget.exact iteration_budget.exact approval_budget.exact
      graph_budget.exact) simp_all

theorem reservations_exact_witness:
  "fst (reserve_times 3 reserve_model_call (RunContext_new 1 2 demo_budget)) = [Inr (), Inr (), Inl Dim_ModelCalls]"
proof -
  let ?c = "RunContext_new 1 2 demo_budget"
  have "rc_budget ?c = demo_budget" "model_calls (rc_usage ?c) = 0"
    by (simp_all add: RunContext_new_def new_with_recovery_contract_def BudgetUsage_with_approval_requests_def)
  moreover have "within_budget ?c"
    by (simp add: RunContext_new_def within_budget_new)
  moreover have "max_graph_steps demo_budget \<noteq> 0" "max_graph_steps demo_budget \<le> MAX_GRAPH_STEPS" "unat (max_model_calls demo_budget) = 2"
    by (simp_all add: demo_budget_def MAX_GRAPH_STEPS_def)
  ultimately have "grants_exactly reserve_model_call (\<lambda>c. model_calls (rc_usage c)) (\<lambda>c. max_model_calls (rc_budget c))
      (\<lambda>_. ()) Dim_ModelCalls 3 ?c" "unat (max_model_calls (rc_budget ?c)) = 2" "model_calls (rc_usage ?c) = 0"
    using reservations_exact [of ?c 3] by simp_all
  then show ?thesis
    unfolding grants_exactly_def by (simp add: Let_def case_prod_beta numeral_2_eq_2 del: reserve_times.simps)
qed

section \<open>The store\<close>

text \<open>
  C9. Round trip through the store: when a loadable run whose journal has no \<^verbatim>\<open>RunFinished\<close> yet is extended by a successful append,
  loading it again gives the same record, the new checkpoint if the append carried one, and the
  journal extended by exactly the appended event. (After \<^verbatim>\<open>RunFinished\<close> it is otherwise: C18.)
\<close>

theorem append_then_load:
  assumes "store_codec_ok sc" "store_reach sc initialize st"
    and "load_run sc None (at_key t) st = Inr l" "\<not> finished_once (lr_events l)"
    and "append_transition sc io t st = (Inr (), st')"
  shows "load_run sc None (at_key t) st' =
           Inr (l\<lparr>lr_checkpoint := next_checkpoint t (lr_checkpoint l), lr_events := lr_events l @ [at_event t]\<rparr>)"
proof -
  from assms(5) have app: "append_transition_in_transaction sc t st = (Inr (), st')"
    by (simp add: append_transition_Inr)
  then obtain row b where "append_enabled sc t st row b" by (auto simp: append_in_transaction_iff)
  then have "represented sc st (at_key t)"
    using store_inv_holds [OF store_reach_inv [OF assms(2)]] by (simp add: append_enabled_def)
  then obtain r c es where h: "holds_run sc st (at_key t) r c es" by (auto simp: represented_def)
  have l: "l = \<lparr>lr_record = r, lr_checkpoint = c, lr_events = es\<rparr>"
    using load_run_represented [OF assms(1) h] assms(3) by (simp split: if_splits)
  have "terminal_agrees (es @ [at_event t])"
    using assms(4) l by (simp add: terminal_agrees_def finished_once_def)
  with load_run_represented [OF assms(1) conjunct1 [OF append_holds [OF app h]]] l show ?thesis by simp
qed

theorem append_then_load_witness:
  "load_run demo_store_codec None demo_key demo_store2 =
     Inr \<lparr>lr_record = demo_record, lr_checkpoint = DurableCheckpoint_initial demo_record,
          lr_events = [demo_start, demo_finish]\<rparr>"
proof -
  let ?l = "\<lparr>lr_record = demo_record, lr_checkpoint = DurableCheckpoint_initial demo_record, lr_events = [demo_start]\<rparr>"
  have "load_run demo_store_codec None demo_key demo_store1 = Inr ?l"
    using load_run_represented [OF demo_store_codec_ok demo_holds1] by (simp add: terminal_agrees_def finished_once_def)
  with append_then_load [OF demo_store_codec_ok demo_reach(2), of "demo_transition (Some 0) demo_finish" ?l] demo_append2
  show ?thesis by (simp add: finished_once_def next_checkpoint_def)
qed

text \<open>
  C10. Whatever operations are performed, in whatever order and with whatever I/O failures, a journal that
  the database holds is never rewritten: later journals of the run extend it.
\<close>

theorem journals_only_grow:
  assumes "store_codec_ok sc" "store_reach sc initialize st" "history sc st k = Some h" "store_reach sc st st'"
  shows "\<exists>h'. history sc st' k = Some h' \<and> prefix h h'"
  using store_history_grows [OF assms(4,1) store_reach_inv [OF assms(2)] assms(3)] .

theorem journals_only_grow_witness:
  "\<exists>h. history demo_store_codec demo_store3 demo_key = Some h \<and> prefix [demo_start, demo_finish] h"
proof -
  have "store_reach demo_store_codec demo_store2 demo_store3"
    using store_step.appended_event [OF demo_append3] by (rule r_into_rtranclp)
  from journals_only_grow [OF demo_store_codec_ok demo_reach(3) history_holds [OF demo_store_codec_ok demo_holds2] this]
  show ?thesis .
qed

text \<open>
  C11. Two writers cannot fork a journal: of two appends to the same run with the same expected sequence, once
  one has been committed the other fails, whatever is appended in between.
\<close>

theorem appends_do_not_fork:
  assumes "store_codec_ok sc" "store_reach sc initialize st" "append_transition sc io t st = (Inr (), st1)"
    and "at_key u = at_key t" "at_expected_sequence u = at_expected_sequence t"
  shows "fst (append_transition sc io' u (serve (append_transition sc) ts st1)) \<noteq> Inr ()"
  using sqlite.no_fork [OF conjI [OF assms(1) store_reach_inv [OF assms(2)]] assms(3,4,5)] .

theorem appends_do_not_fork_witness:
  "fst (append_transition demo_store_codec None (demo_transition (Some 0) demo_decision) demo_store2) \<noteq> Inr ()"
  using appends_do_not_fork [OF demo_store_codec_ok demo_reach(2) demo_append2,
      of "demo_transition (Some 0) demo_decision" None "[]"] by simp

text \<open>
  C12. An approval is decided at most once: after a decision has been recorded at a row version, no decision and
  no status change that expects this version succeeds any more, whatever happens in between and whatever
  earlier state the late writer had read.
\<close>

theorem approval_decided_once:
  assumes "store_inv sc st"
    and "record_durable_approval_decision sc io1 (\<lambda>_. st) io2 q st0 = (Inr (), st1)"
    and "store_reach sc st1 st2"
    and "dc_key (rd_command q') = dc_key (rd_command q)" "dc_wait_id (rd_command q') = dc_wait_id (rd_command q)"
      "dc_expected_row_version (rd_command q') = dc_expected_row_version (rd_command q)"
    and "sr_key p = dc_key (rd_command q)" "sr_wait_id p = dc_wait_id (rd_command q)"
      "sr_expected_row_version p = dc_expected_row_version (rd_command q)"
  shows "fst (record_durable_approval_decision sc io3 (\<lambda>_. st2) io4 q' st0') \<noteq> Inr ()
         \<and> fst (transition_durable_approval_status sc io5 p st2) \<noteq> Inr ()"
proof -
  let ?r = "key_run_id (dc_key (rd_command q))" and ?w = "dc_wait_id (rd_command q)"
    and ?v = "dc_expected_row_version (rd_command q)"
  have v1: "approval_version ?r ?w st1 = Some (uint ?v + 1)" using decision_version [OF assms(2,1)] by simp
  have "store_reach sc st st1" using store_step.decided [OF assms(2)] by (rule r_into_rtranclp)
  with assms(3) have "store_reach sc st st2" by simp
  then have inv: "store_inv sc st2" using micro_reach_inv store_reach_micro assms(1) by blast
  obtain v where v: "approval_version ?r ?w st2 = Some v" "uint ?v < v"
    using store_version_grows [OF store_reach_micro [OF assms(3)] v1] by auto
  have "fst (record_durable_approval_decision sc io3 (\<lambda>_. st2) io4 q' st0') \<noteq> Inr ()"
    using decision_version [OF _ inv, of io3 io4 q' st0'] v assms(4-6) by (metis option.inject order_less_irrefl prod.collapse)
  moreover have "fst (transition_durable_approval_status sc io5 p st2) \<noteq> Inr ()"
    using status_version [OF _ inv, of io5 p] v assms(7-9) by (metis option.inject order_less_irrefl prod.collapse)
  ultimately show ?thesis ..
qed

theorem approval_decided_once_witness:
  "fst (record_durable_approval_decision demo_store_codec None
      (\<lambda>_. snd (record_durable_approval_decision demo_store_codec None (\<lambda>_. demo_waiting_store) None demo_decision_request
                 demo_waiting_store)) None demo_decision_request demo_waiting_store) \<noteq> Inr ()"
proof -
  let ?d = "record_durable_approval_decision demo_store_codec None (\<lambda>_. demo_waiting_store) None demo_decision_request
                 demo_waiting_store"
  let ?p = "\<lparr>sr_transition = None, sr_key = demo_key, sr_wait_id = 7, sr_expected_row_version = 0,
             sr_expected_status = DA_Waiting, sr_next_status = DA_Consumed\<rparr>"
  have "?d = (Inr (), snd ?d)" using demo_decision_recorded by (simp add: prod_eq_iff)
  from approval_decided_once [OF demo_waiting_inv this, of "snd ?d" demo_decision_request ?p] show ?thesis
    by (simp add: demo_decision_request_def demo_command_def)
qed

text \<open>
  C13. The store refines an append-only log per run: a successful append needs the expected sequence to be the
  last one of that run's journal, adds exactly the event to it and leaves every other journal as it is.
\<close>

theorem append_refines_log:
  assumes "store_codec_ok sc" "store_reach sc initialize st" "append_transition sc io t st = (Inr (), st')"
  shows "\<exists>h. history sc st (at_key t) = Some h \<and> at_expected_sequence t = last_sequence_of h
           \<and> history sc st' = (history sc st)(at_key t \<mapsto> h @ [at_event t])"
  using append_history [OF assms(1) store_reach_inv [OF assms(2)]] assms(3) by (simp add: append_transition_Inr)

theorem append_refines_log_witness:
  "history demo_store_codec demo_store2 = (history demo_store_codec demo_store1)(demo_key \<mapsto> [demo_start, demo_finish])"
proof -
  have "history demo_store_codec demo_store1 demo_key = Some [demo_start]"
    using history_holds [OF demo_store_codec_ok demo_holds1] .
  with append_refines_log [OF demo_store_codec_ok demo_reach(2) demo_append2] show ?thesis by auto
qed

section \<open>The execution harness\<close>

text \<open>
  C14. Every tool call is announced before it is made: whatever calls are made on a run and whatever the outside
  does, when a tool is invoked a start event for this call with the registered capability has been persisted (if there
  is a persistence port), and acknowledged by the audit sink when the policy is fail-closed or the tool writes.
\<close>

theorem tool_calls_write_ahead:
  assumes "registry_ok (he_tools env)" "within_budget c"
    and "hs_trace (session env c st calls) = xs @ Tr_ToolInvoked call # ys"
  shows "\<exists>b e u l. he_tools env (tc_name call) = Some b
           \<and> ev_kind e = Ev_ToolInvocationStarted (tc_id call) (tc_name call) (td_capability (tb_definition b)) u l
           \<and> (he_persistence env \<longrightarrow> Tr_Persisted e \<in> set xs)
           \<and> (he_audit_policy env = FailClosed \<or> td_capability (tb_definition b) = LocalWrite \<longrightarrow> Tr_Audited e \<in> set xs)"
  using session_entry_ok [OF assms] by (auto simp: tool_call_backed_def tool_start_recorded_def)

theorem tool_calls_write_ahead_witness:
  "\<exists>e u l. ev_kind e = Ev_ToolInvocationStarted 77 (lit ''read'') ReadOnly u l
     \<and> Tr_Persisted e \<in> set (take 5 (hs_trace (session cancelled_env demo_context initialize
                                          [Call_Start, Call_InvokeTool demo_read_call])))"
proof -
  let ?tr = "hs_trace (session cancelled_env demo_context initialize [Call_Start, Call_InvokeTool demo_read_call])"
  have "?tr = take 5 ?tr @ Tr_ToolInvoked demo_read_call # drop 6 ?tr"
    unfolding cancelled_trace by simp
  from tool_calls_write_ahead [OF cancelled_env_sel(3) demo_context_facts this] show ?thesis
    by (auto simp: cancelled_env_def demo_read_call_def demo_registry_def demo_reader_def lit_def)
qed

text \<open>
  C15. Nothing but reading happens without approval: a tool that is invoked and is not read-only is a contained
  local write under a policy that requires approval, the approval port has answered a request for this very
  call with the approval of this request, and the grant has been acknowledged by the audit sink before.
\<close>

theorem writes_need_approval:
  assumes "registry_ok (he_tools env)" "within_budget c"
    and "hs_trace (session env c st calls) = xs @ Tr_ToolInvoked call # ys"
    and "he_tools env (tc_name call) = Some b" "td_capability (tb_definition b) \<noteq> ReadOnly"
  shows "td_capability (tb_definition b) = LocalWrite \<and> he_policy env LocalWrite = Auth_RequiresApproval
         \<and> (\<exists>p. tb_execution b = Exec_Contained p)
         \<and> (\<exists>q e. aq_tool_call_id q = tc_id call \<and> aq_tool_name q = tc_name call
              \<and> Tr_ApprovalAnswered q (ApprovalRequest_approve q) \<in> set xs
              \<and> ev_kind e = Ev_ApprovalGranted (aq_id q) \<and> Tr_Audited e \<in> set xs)"
  using session_entry_ok [OF assms(1-3)] assms(4,5) by (auto simp: tool_call_backed_def approval_recorded_def)

theorem writes_need_approval_witness:
  "\<exists>xs ys q. hs_trace (session (plain_env True) demo_context initialize [Call_Start, Call_InvokeAction demo_write_action]) =
       xs @ Tr_ToolInvoked demo_write_call # ys
     \<and> aq_tool_call_id q = 7 \<and> Tr_ApprovalAnswered q (ApprovalRequest_approve q) \<in> set xs"
proof -
  from write_trace obtain xs ys where tr: "hs_trace (session (plain_env True) demo_context initialize
      [Call_Start, Call_InvokeAction demo_write_action]) = xs @ Tr_ToolInvoked demo_write_call # ys" by blast
  have b: "he_tools (plain_env True) (tc_name demo_write_call) = Some demo_writer" "td_capability (tb_definition demo_writer) \<noteq> ReadOnly"
    by (simp_all add: plain_env_def demo_write_call_def into_tool_call_def demo_write_action_def demo_registry_def
        demo_writer_def lit_def)
  from writes_need_approval [OF plain_env_sel(1) demo_context_facts tr b] tr show ?thesis
    by (auto simp: demo_write_call_def into_tool_call_def)
qed

text \<open>
  C16. The budget bounds what reaches the outside: in any session the model, the tools and the approval port are
  called at most as often as the budget allows, counting what the run had used before.
\<close>

theorem port_calls_within_budget:
  assumes "registry_ok (he_tools env)" "within_budget c"
  shows "unat (model_calls (rc_usage c)) + models_invoked (hs_trace (session env c st calls)) \<le> unat (max_model_calls (rc_budget c))
       \<and> unat (tool_calls (rc_usage c)) + tools_invoked (hs_trace (session env c st calls)) \<le> unat (max_tool_calls (rc_budget c))
       \<and> unat (approval_requests (rc_usage c)) + approvals_asked (hs_trace (session env c st calls))
           \<le> unat (max_approval_requests (rc_budget c))"
  using session_inv [OF assms, of st calls]
  by (auto simp: run_inv_def accounted_def within_budget_def word_le_nat_alt)

theorem port_calls_within_budget_witness:
  "models_invoked (hs_trace (session (plain_env True) demo_context initialize
      (Call_Start # replicate 9 (Call_InvokeModel [] None)))) \<le> 2"
  using port_calls_within_budget [OF plain_env_sel(1) demo_context_facts, of True initialize
      "Call_Start # replicate 9 (Call_InvokeModel [] None)"]
  by (simp add: demo_context_def new_with_recovery_contract_def BudgetUsage_with_approval_requests_def demo_budget_def)

text \<open>
  C17. A fresh run survives a crash at any point up to its end: after a session on it with any I/O failures (a crash is an
  environment in which the store fails from some point on), in which at least one event was acknowledged as persistent, fewer than \<open>2^64\<close>
  were, and \<^verbatim>\<open>RunFinished\<close> was the last of them if it was among them (otherwise C18 applies), the journal holds exactly the acknowledged events; it
  replays, and recovering the run gives the classification of the replayed state under the run's contract. The condition \<open>explained\<close> on the
  calls excludes one more behaviour of the code: an interrupted retrieval whose audit fails sets a flag of the run that no event
  explains, and recovery rejects such a run.
\<close>

theorem crash_recovery:
  assumes "store_codec_ok (he_store_codec env)" "he_persistence env"
    and "st_user_version st = CURRENT_STORE_SCHEMA_VERSION" "rows_of st i = []"
    and "s = session env (new_with_recovery_contract i q b k) st calls" "es = persisted_events (hs_trace s)"
    and "es \<noteq> []" "finish_last es" "length es < 2 ^ 64" "list_all (explained env) calls"
  shows "\<exists>l u. load_run (he_store_codec env) None (context_key (hs_ctx s)) (hs_store s) = Inr l \<and> lr_events l = es
           \<and> replay (he_codec env) es (DurableRunState_initial (lr_record l)) = Inr u
           \<and> (\<forall>wall ms now. unix_millis wall = Some ms \<longrightarrow>
                recover_run env None wall now (context_key (hs_ctx s)) (hs_store s) =
                  map_sum HE_Recovery id (classify (rr_recovery_contract (lr_record l)) u ms now))"
proof -
  obtain A where "journal_ok env [] A s"
    using session_journal_ok [OF assms(2-5) _ assms(10)] assms(6,7) by blast
  from journal_ok_recovers [OF this assms(1)] assms(6,8,9) show ?thesis
    by (fastforce simp: recover_run_def assms(2) map_sum_def split: sum.split)
qed

theorem crash_recovery_witness:
  "\<exists>l. load_run cancelled_codec None (context_key (hs_ctx (session cancelled_env demo_context initialize [Call_Start])))
        (hs_store (session cancelled_env demo_context initialize [Call_Start])) = Inr l
      \<and> lr_events l = [AgentEvent_new 1 0 (Ev_RunStarted 1000)]"
proof -
  have es: "[AgentEvent_new 1 0 (Ev_RunStarted 1000)] =
      persisted_events (hs_trace (session cancelled_env demo_context initialize [Call_Start]))"
    by (simp add: started_trace cancelled_events_def)
  show ?thesis
    using crash_recovery [OF _ cancelled_env_sel(2) _ _ _ es, of initialize 1 2 demo_budget "Restartable 1" "[Call_Start]"]
    by (fastforce simp: cancelled_env_sel cancelled_codec_ok initialize_def demo_context_def finish_last_def no_finish_def
        explained_def)
qed

text \<open>
  C18. The harness itself writes journals that cannot be loaded again: a session whose persisted events contain
  a \<^verbatim>\<open>RunFinished\<close> before the last event leaves a run that \<open>load_run\<close> reports as corrupt. The witness is a tool call
  that is cancelled while it runs: the run is finished first and the failure of the tool recorded afterwards.
\<close>

theorem late_event_corrupts_run:
  assumes "store_codec_ok (he_store_codec env)" "he_persistence env"
    and "st_user_version st = CURRENT_STORE_SCHEMA_VERSION" "rows_of st i = []"
    and "s = session env (new_with_recovery_contract i q b k) st calls"
    and "persisted_events (hs_trace s) = es @ [e]" "finished_once es" "\<not> is_run_finished (ev_kind e)"
    and "list_all (explained env) calls"
  shows "load_run (he_store_codec env) None (context_key (hs_ctx s)) (hs_store s) = Inl PE_Corrupt"
proof -
  obtain A where "journal_ok env [] A s"
    using session_journal_ok [OF assms(2-5) _ assms(9)] assms(6) by auto
  then obtain r cp where "holds_run (he_store_codec env) (hs_store s) (context_key (hs_ctx s)) r cp (es @ [e])"
    using assms(6) by (auto simp: journal_ok_def stored_def)
  from load_run_represented [OF assms(1) this] assms(7,8) show ?thesis
    by (simp add: terminal_agrees_def finished_once_def)
qed

theorem late_event_corrupts_run_witness:
  "load_run cancelled_codec None
     (context_key (hs_ctx (session cancelled_env demo_context initialize [Call_Start, Call_InvokeTool demo_read_call])))
     (hs_store (session cancelled_env demo_context initialize [Call_Start, Call_InvokeTool demo_read_call])) = Inl PE_Corrupt"
proof -
  let ?s = "session cancelled_env demo_context initialize [Call_Start, Call_InvokeTool demo_read_call]"
  have "persisted_events (hs_trace ?s) = take 3 cancelled_events @ [cancelled_events ! 3]"
    by (simp add: cancelled_trace cancelled_events_def)
  from late_event_corrupts_run [OF _ cancelled_env_sel(2) _ _ _ this, of initialize 1 2 demo_budget "Restartable 1"] show ?thesis
    by (simp add: cancelled_env_sel cancelled_codec_ok initialize_def demo_context_def finished_once_def
        cancelled_events_def AgentEvent_new_def explained_def)
qed

section \<open>Graph definitions\<close>

text \<open>
  C19. Validation is exact: a definition is accepted if and only if it is a legal graph, that is, its size is within
  the limits, its nodes are well formed and distinct, its edges connect known nodes, every node has exactly the
  transitions of its kind, there is no cycle, every node is reachable from the start and there is a terminal node.
\<close>

theorem graph_validation_exact:
  "(\<exists>g. GraphDefinition_new sha start ns es = Inr g) = graph_spec start ns es"
  by (rule graph_new_iff)

text \<open>
  C20. In an accepted graph a node that is not terminal always has a successor for each transition its kind can
  produce, for no other transition, and the successor is a node of the graph; a terminal node has none.
\<close>

theorem graph_transitions_total:
  assumes "GraphDefinition_new sha start ns es = Inr g" "gd_node g n = Some d"
  shows "(\<exists>t u. gd_transition g n k = Some t \<and> gd_node g t = Some u \<and> nd_id u = t) = (k \<in> expected_transitions (nd_kind d))"
  using graph_new_ok [OF assms(1)] assms(2) unfolding graph_ok_def by (metis not_None_eq)

theorem graph_transitions_total_witness:
  "\<exists>t u. gd_transition demo_graph (lit ''m'') Key_Succeeded = Some t \<and> gd_node demo_graph t = Some u \<and> nd_id u = t"
proof -
  have "gd_node demo_graph (lit ''m'') = Some (demo_nodes ! 0)"
    by (simp add: gd_node_def demo_graph_def lit_def)
  from graph_transitions_total [OF demo_graph_new this, of Key_Succeeded] show ?thesis
    by (simp add: demo_nodes_def)
qed

text \<open>
  C21. Walks in an accepted graph end: no walk along its transitions visits a node twice, so none is longer than the
  number of nodes, which is at most the largest step budget.
\<close>

theorem graph_walks_end:
  assumes "GraphDefinition_new sha start ns es = Inr g" "graph_walk g path"
  shows "distinct path \<and> length path \<le> length ns \<and> length path \<le> unat MAX_GRAPH_STEPS"
proof -
  have "length (gd_nodes g) = length ns" "length ns \<le> 64"
    using graph_new_filled [OF assms(1)] graph_new_ok [OF assms(1)]
    by (auto simp: filled_def graph_ok_def MAX_GRAPH_NODES_def)
  with walk_bounded [OF graph_new_ok [OF assms(1)] assms(2)] show ?thesis by (simp add: MAX_GRAPH_STEPS_def)
qed

theorem graph_walks_end_witness: "distinct [lit ''m'', lit ''c''] \<and> graph_walk demo_graph [lit ''m'', lit ''c'']"
proof -
  have walk: "graph_walk demo_graph [lit ''m'', lit ''c'']"
    by (auto simp: gd_node_def gd_transition_def demo_graph_def lit_def)
  from graph_walks_end [OF demo_graph_new walk] walk show ?thesis by blast
qed

text \<open>
  C31. The digest of a definition, to which a recovered run is bound, commits to it: two definitions with the same
  digest have the same start, the same nodes (up to the order of the branches of a decision) and the same edges, or their
  encodings are a collision of the hash function.
\<close>

theorem graph_digest_commits:
  assumes "graph_text_ok start nm em" "graph_text_ok start' nm' em'"
    and "definition_digest sha start nm em = definition_digest sha start' nm' em'"
  shows "start = start' \<and> map (\<lambda>e. canon_node (snd e)) nm = map (\<lambda>e. canon_node (snd e)) nm' \<and> em = em'
         \<or> definition_bytes start nm em \<noteq> definition_bytes start' nm' em'
           \<and> sha (definition_bytes start nm em) = sha (definition_bytes start' nm' em')"
  using definition_bytes_commit [OF assms(1,2)] assms(3) by (auto simp: definition_digest_def)

theorem graph_digest_commits_witness:
  "definition_bytes (lit ''m'') (gd_nodes demo_graph) (gd_edges demo_graph)
     \<noteq> definition_bytes (lit ''c'') (gd_nodes demo_graph) (gd_edges demo_graph)"
proof -
  have "definition_digest demo_sha (lit ''m'') (gd_nodes demo_graph) (gd_edges demo_graph)
      = definition_digest demo_sha (lit ''c'') (gd_nodes demo_graph) (gd_edges demo_graph)"
    by (simp add: definition_digest_def demo_sha_def)
  from graph_digest_commits [OF demo_graph_text demo_graph_text' this] show ?thesis by (auto simp: lit_def)
qed

section \<open>Actions\<close>

text \<open>
  C22. Decoding is exact: the text of a planning response becomes a proposal if and only if it is the only output, is
  not blank and within the size limit, parses to JSON in which no object repeats a key and no number is infinite, has
  exactly the shape \<^verbatim>\<open>{"action": {"tool": .., "arguments": {..}}}\<close> with a legal tool name, and its arguments are within the
  limits on bytes, nodes, depth, keys and array elements.
\<close>

theorem action_decoding_exact:
  "(TextActionDecoder_decode jl response p m = Inr pr) =
     (\<exists>args. proposes jl response (pr_tool_name pr) args \<and> pr_arguments pr = JObject args
        \<and> pr_id pr = p \<and> pr_source_model_call_id pr = m)"
  by (rule decode_iff)

text \<open>
  C23. The loop that walks a value with an explicit stack and stops at the first excess computes the structural
  measures: it accepts exactly the values whose numbers of nodes, keys and array elements and whose depth are within
  the limits.
\<close>

theorem argument_limits_exact:
  "(argument_limits_loop [(j, 1)] 0 0 0 = Inr ()) =
     (json_nodes j \<le> MAX_ACTION_ARGUMENT_NODES \<and> json_within MAX_ACTION_ARGUMENT_DEPTH j
      \<and> json_keys j \<le> MAX_ACTION_ARGUMENT_KEYS \<and> json_elements j \<le> MAX_ACTION_ARGUMENT_ARRAY_ELEMENTS)"
  using argument_limits_loop_iff [of 0 0 0 "[(j, 1)]"] by simp

text \<open>
  C24. A validated action is bound to the registry: its tool is registered, its capability is the one the registry
  declares and not one the model chose, its arguments are accepted by the schema of that tool, contain no object
  with repeated or unordered keys and are within the limits, and its digest is the digest of exactly this tool, capability and
  arguments.
\<close>

theorem validated_action_bound:
  assumes "TextActionDecoder_decode jl response p m = Inr pr" "ActionValidator_validate jl pr registry = Inr va"
  shows "\<exists>b args. registry (va_tool_name va) = Some b \<and> va_capability va = td_capability (tb_definition b)
           \<and> va_arguments va = JObject args \<and> proposes jl response (va_tool_name va) args \<and> ordered (JObject args)
           \<and> jl_is_valid jl (td_input_schema (tb_definition b)) (va_arguments va)
           \<and> va_digest va = compute_action_digest (jl_sha256 jl) (va_tool_name va) (va_capability va) (va_arguments va)
           \<and> va_proposal_id va = p"
  using assms proposes_ordered unfolding validate_iff decode_iff by fastforce

theorem validated_action_bound_witness:
  "\<exists>args. proposes demo_json_lib demo_response (lit ''read'') args \<and> va_arguments demo_validated = JObject args
     \<and> va_capability demo_validated = ReadOnly"
  using validated_action_bound [OF demo_decodes demo_validates [of "Exec_Direct 0"]]
  by (auto simp: demo_validated_def)

text \<open>
  C25. The digest of an action, which an approval is bound to, commits to the tool, the capability and the arguments: two
  actions with the same digest are the same action, or their encodings are a collision of the hash function.
\<close>

theorem action_digest_commits:
  assumes "text_ok n" "text_ok n'" "json_ok a" "json_ok a'"
    and "compute_action_digest sha n c a = compute_action_digest sha n' c' a'"
  shows "n = n' \<and> c = c' \<and> a = a'
         \<or> action_bytes n c a \<noteq> action_bytes n' c' a' \<and> sha (action_bytes n c a) = sha (action_bytes n' c' a')"
  using action_bytes_commit [OF assms(1-4), of c c'] assms(5) by (auto simp: compute_action_digest_def)

theorem action_digest_commits_witness:
  "action_bytes (lit ''read'') ReadOnly (JObject demo_arguments) \<noteq> action_bytes (lit ''read'') ReadOnly (JObject [])"
proof -
  have "compute_action_digest (\<lambda>_. []) (lit ''read'') ReadOnly (JObject demo_arguments)
      = compute_action_digest (\<lambda>_. []) (lit ''read'') ReadOnly (JObject [])"
    by (simp add: compute_action_digest_def)
  from action_digest_commits [OF demo_json_ok(3,3,1,2) this] show ?thesis by (auto simp: demo_arguments_def)
qed

section \<open>Knowledge\<close>

text \<open>
  C26. Fusion is exact. With limits that the constructor accepts, merging the answers of the backends has one of three
  outcomes: the set that holds, ordered by rank, priority of the backend and identifier, the answers without repetition
  and within the limits, with all evidence present unless it says \<open>truncated\<close>; the error of a backend when all are
  required; or the error that all failed, when none answered.
\<close>

theorem fusion_exact:
  assumes "RetrievalLimits_new results item total_bytes = Inr (kq_limits q)"
  shows "(\<exists>s. merge_backend_results sha q rs = Inr s \<and> fused sha q rs s
           \<and> (kr_failure_policy (kq_route q) = RequireAll \<longrightarrow> failures rs = []) \<and> (answers rs = [] \<longrightarrow> failures rs = []))
    \<or> merge_backend_results sha q rs = Inl KE_AllBackendsFailed \<and> answers rs = [] \<and> failures rs \<noteq> []
    \<or> (\<exists>b e. merge_backend_results sha q rs = Inl e \<and> (b, Inl e) \<in> set rs \<and> kr_failure_policy (kq_route q) = RequireAll)"
  by (rule merge_cases [OF limits_new_ok [OF assms]])

theorem fusion_exact_witness:
  "\<exists>s. merge_backend_results (\<lambda>_. []) demo_request [(OcppRagKag, demo_backend demo_request)] = Inr s
     \<and> fused (\<lambda>_. []) demo_request [(OcppRagKag, demo_backend demo_request)] s"
proof -
  have "RetrievalLimits_new 8 4096 16384 = Inr (kq_limits demo_request)"
    by (simp add: RetrievalLimits_new_def RetrievalLimits_default_def demo_request_def MAX_RESULTS_def
        MAX_EVIDENCE_ITEM_BYTES_def MAX_TOTAL_EVIDENCE_BYTES_def)
  from fusion_exact [OF this, of "\<lambda>_. []" "[(OcppRagKag, demo_backend demo_request)]"] show ?thesis
    by (auto simp: demo_backend_def)
qed

text \<open>
  C27. The routed port and the reducer agree: whatever backends with well-formed answers return, the evidence set that
  the port delivers has durable references for all of its evidence, and the event that completes the retrieval is
  accepted by the durable state in which that retrieval is pending.
\<close>

theorem retrieval_accepted_by_reducer:
  assumes "RoutedKnowledgePort_retrieve sha backends q = Inr s" "backends_ok backends" "limits_ok (kq_limits q)"
    and "route_is_valid (kr_metadata (kq_route q))"
    and "ds_pending_knowledge_retrieval st = Some p" "pk_retrieval_id p = rid"
    and "ds_restartable_knowledge_retrieval st = Some p'" "pk_route p' = kr_metadata (kq_route q)"
  shows "\<exists>refs st'. those (map durable_reference (se_evidence s)) = Some refs
     \<and> apply_retrieval_completed rid (se_snapshots s) refs (of_nat (length refs)) (se_manifest_digest s) st = Inr st'"
  by (rule routed_retrieval_accepted [OF assms])

theorem retrieval_accepted_by_reducer_witness:
  "\<exists>s refs st'. RoutedKnowledgePort_retrieve (\<lambda>_. []) [OcppRagKag \<mapsto> demo_backend] demo_request = Inr s
     \<and> apply_retrieval_completed 9 (se_snapshots s) refs (of_nat (length refs)) (se_manifest_digest s)
          (demo_state\<lparr>ds_pending_knowledge_retrieval := Some demo_pending,
             ds_restartable_knowledge_retrieval := Some demo_pending\<rparr>) = Inr st'"
proof -
  let ?st = "demo_state\<lparr>ds_pending_knowledge_retrieval := Some demo_pending, ds_restartable_knowledge_retrieval := Some demo_pending\<rparr>"
  obtain s where s: "RoutedKnowledgePort_retrieve (\<lambda>_. []) [OcppRagKag \<mapsto> demo_backend] demo_request = Inr s"
    by (simp add: RoutedKnowledgePort_retrieve_def demo_request_def demo_backend_def merge_backend_results_def
        EvidenceSet_build_def MAX_RESULTS_def MAX_TOTAL_EVIDENCE_BYTES_def)
  have "BackendEvidenceSet_new OcppRagKag [] None False = Inr a" if "demo_backend r = Inr a" for r a
    using that by (simp add: BackendEvidenceSet_new_def demo_backend_def)
  then have answer: "backend_set_ok OcppRagKag a" if "demo_backend r = Inr a" for r a
    using that unfolding backend_set_ok_def by (fastforce simp: demo_backend_def)
  have ok: "backends_ok [OcppRagKag \<mapsto> demo_backend]" "limits_ok (kq_limits demo_request)"
      "route_is_valid (kr_metadata (kq_route demo_request))"
    by (auto simp: backends_ok_def answer limits_ok_def demo_request_def RetrievalLimits_default_def route_is_valid_def
        no_repeats_def MAX_DURABLE_KNOWLEDGE_BACKENDS_def split: if_splits)
  show ?thesis
    using retrieval_accepted_by_reducer [OF s ok, of ?st demo_pending 9 demo_pending] s
    by (auto simp: demo_pending_def demo_request_def)
qed

section \<open>Durable approvals\<close>

text \<open>
  C28. A resumption executes what was approved, and nothing else. With any environment, any process and any failure, the
  resumption of a wait either calls no tool, or calls exactly one: the write tool under the tool call id of the stored
  binding, with arguments whose digest is the approved digest, for a binding that agrees with the recovered state; the
  wait was approved and not yet executing when the resumption began, and it is spent (executing or consumed) afterwards.
\<close>

theorem durable_write_faithful:
  assumes "resume_durable_local_write se env ctx state w s = (r, t)" "rows_ok s"
  shows "tools_called (hs_trace t) = tools_called (hs_trace s)
    \<or> (\<exists>b call. tools_called (hs_trace t) = tools_called (hs_trace s) @ [call]
          \<and> bound (he_store_codec env) (wait_record (context_key ctx) w (hs_store s)) b \<and> binding_in_state b state
          \<and> tc_id call = sb_tool_call_id b \<and> tc_name call = DURABLE_LOCAL_WRITE_TOOL_NAME
          \<and> compute_action_digest (jl_sha256 (he_json env)) (tc_name call) LocalWrite (tc_input call) = sb_action_digest b
          \<and> due (wait_status (context_key ctx) w (hs_store s)) \<and> spent (context_key ctx) w (hs_store t))"
  using resume_outcome [OF assms refl] by (auto simp: resumed_def due_call_def approved_call_def)

theorem durable_write_faithful_witness:
  "tools_called (hs_trace durable_end) = [durable_call] \<and> spent demo_key 7 (hs_store durable_end)
    \<and> due (wait_status demo_key 7 (hs_store durable_start))"
  using durable_write_faithful [OF durable_resumes(1) durable_start_ok(1)] durable_resumes(2) durable_start_silent
  by (auto simp: durable_start_ok(2))

text \<open>
  C29. An approved write is executed at most once. Whatever happens to a run after its suspension (resumptions of the wait
  by any process, in any environment and with any failure, and in between any steps that neither call a tool nor touch the
  approvals), at most one tool call is made, and once it was made no continuation of the history makes another.
\<close>

theorem durable_write_at_most_once:
  assumes "wait_history k w s t" "rows_ok s"
  shows "tools_called (hs_trace t) = tools_called (hs_trace s)
    \<or> (\<exists>call. tools_called (hs_trace t) = tools_called (hs_trace s) @ [call]
          \<and> (\<forall>u. wait_history k w t u \<longrightarrow> tools_called (hs_trace u) = tools_called (hs_trace t)))"
  using history_calls [OF assms] history_spent [of k w t] by auto

theorem durable_write_at_most_once_witness:
  "tools_called (hs_trace (snd (resume_durable_local_write durable_seal durable_env waiting_context durable_state 7 durable_end))) =
     [durable_call]"
proof -
  have once: "wait_history demo_key 7 durable_start durable_end"
    using wait_history.resume [OF wait_history.start durable_start_ok(2) durable_resumes(1)] .
  obtain r u where u: "resume_durable_local_write durable_seal durable_env waiting_context durable_state 7 durable_end = (r, u)"
    by fastforce
  have "wait_history demo_key 7 durable_end u"
    using wait_history.resume [OF wait_history.start durable_start_ok(2) u] .
  with durable_write_at_most_once [OF once durable_start_ok(1)] u show ?thesis
    by (auto simp: durable_resumes(2) durable_start_silent)
qed

section \<open>The loop engine\<close>

text \<open>
  C30. The loop engine always comes back, and leaves nothing hanging: run on a started run with any program and any
  behaviour of the outside, it ends with the run finished or its persistence failed. A summary reports the status the
  program decided on, which is the status of the run; an error is one of the harness, the program or the finalization, never
  an illegal transition of the loop state.
\<close>

theorem loop_run_settles:
  assumes "rc_runtime (hs_ctx h) \<noteq> None" "rc_status (hs_ctx h) \<noteq> Status_Pending"
    and "LoopEngine_run env prog w h = (r, t)"
  shows "(rc_persistence_failed (hs_ctx (en_harness t)) \<or> ended (rc_status (hs_ctx (en_harness t))))
    \<and> (case r of
         Inl e \<Rightarrow> fine e
       | Inr su \<Rightarrow> rc_status (hs_ctx (en_harness t)) = decided (su_terminal_decision su)
           \<and> su_final_status su = rc_status (hs_ctx (en_harness t))
           \<and> su_reserved_iterations su = iterations (rc_usage (hs_ctx (en_harness t))))"
  using triple_case [OF run_triple _ assms(3) [unfolded LoopEngine_run_def]] assms(1,2)
  by (auto simp: restartable_def LoopState_new_def alive_def settled_def concluded_def split: sum.splits)

theorem loop_run_settles_witness:
  "\<exists>r t. LoopEngine_run (plain_env True) demo_program 0 demo_started = (r, t)
     \<and> (rc_persistence_failed (hs_ctx (en_harness t)) \<or> ended (rc_status (hs_ctx (en_harness t))))"
proof -
  obtain r t where run: "LoopEngine_run (plain_env True) demo_program 0 demo_started = (r, t)" by fastforce
  have "rc_runtime (hs_ctx demo_started) \<noteq> None" "rc_status (hs_ctx demo_started) \<noteq> Status_Pending"
    using demo_started_facts by simp_all
  from loop_run_settles [OF this run] run show ?thesis by blast
qed

text \<open>
  C32. A run that recovery classifies as resumable is either refused by the engine, and then the harness is not touched, or
  it is taken up at a restart point of the loop under the program's own recovery contract and settled.
\<close>

theorem resumed_run_settles:
  assumes "classify contract d now_millis now = Inr (Disp_Resumable ctx d' contract')"
    and "LoopEngine_resume env prog ctx d' contract' h = (r, h')"
  shows "r \<in> {Inl LErr_RecoveryContractMismatch, Inl LErr_RecoveryStateInvalid} \<and> h' = h
    \<or> contract_matches prog contract \<and> recovered_loop_state prog d \<noteq> None
      \<and> (rc_persistence_failed (hs_ctx h') \<or> ended (rc_status (hs_ctx h')))
      \<and> (\<forall>e. r = Inl e \<longrightarrow> fine e)"
proof (cases "contract_matches prog contract")
  case True
  note same = classify_resumable(1,2) [OF assms(1)]
  note ctx = from_recovery_ok [OF classify_resumable(9) [OF assms(1)]]
  have alive: "alive (h\<lparr>hs_ctx := ctx\<rparr>)"
    using ctx(4) ctx(9) classify_resumable(4) [OF assms(1)] by (simp add: alive_def)
  show ?thesis
  proof (cases "recovered_loop_state prog d")
    case None
    with assms(2) True same show ?thesis by (simp add: LoopEngine_resume_def)
  next
    case (Some ls)
    show ?thesis
    proof (cases "lp_restore_working_state prog d")
      case (Inl e)
      with assms(2) True Some same show ?thesis by (simp add: LoopEngine_resume_def)
    next
      case (Inr w)
      obtain r1 t where run: "run_with_state env prog \<lparr>en_harness = h\<lparr>hs_ctx := ctx\<rparr>, en_work = w, en_state = ls\<rparr> = (r1, t)"
        by fastforce
      have "case r1 of Inl e \<Rightarrow> settled (en_harness t) \<and> fine e | Inr su \<Rightarrow> settled (en_harness t) \<and> concluded su t"
        using triple_case [OF run_triple _ run] recovered_restartable [OF Some] alive by simp
      with assms(2) True Some Inr same run show ?thesis
        by (cases r1) (auto simp: LoopEngine_resume_def settled_def)
    qed
  qed
qed (use assms in \<open>simp add: LoopEngine_resume_def classify_resumable(2) [OF assms(1)]\<close>)

theorem resumed_run_settles_witness:
  "\<exists>ctx r h'. classify (Restartable 1) demo_state 5000 7 = Inr (Disp_Resumable ctx demo_state (Restartable 1))
     \<and> LoopEngine_resume (plain_env True) demo_program ctx demo_state (Restartable 1) demo_started = (r, h')
     \<and> (r \<in> {Inl LErr_RecoveryContractMismatch, Inl LErr_RecoveryStateInvalid} \<and> h' = demo_started
        \<or> rc_persistence_failed (hs_ctx h') \<or> ended (rc_status (hs_ctx h')))"
proof -
  obtain ctx where c: "classify (Restartable 1) demo_state 5000 7 = Inr (Disp_Resumable ctx demo_state (Restartable 1))"
    using demo_classify by blast
  obtain r h' where run: "LoopEngine_resume (plain_env True) demo_program ctx demo_state (Restartable 1) demo_started = (r, h')"
    by fastforce
  from resumed_run_settles [OF c run] c run show ?thesis by blast
qed

text \<open>
  C33. A failure between two iterations does not reach the journal. After an iteration that is to be continued the reducer
  has no current iteration; when the engine then has to end the run because of an error of the harness (an audit sink that
  fails closed on \<^verbatim>\<open>IterationCompleted\<close>, say), its \<^verbatim>\<open>LoopFailed\<close> is rejected but has used up a sequence number, so that the
  event that ends the run is rejected too: the run counts as failed, while the durable state and the database still
  show it as running.
\<close>

theorem loop_failure_unrecorded:
  assumes "undisturbed env (en_harness s)" "ds_current_iteration (rc_durable_state (hs_ctx (en_harness s))) = None"
    and "rc_next_event_sequence (hs_ctx (en_harness s)) = expected_sequence (rc_durable_state (hs_ctx (en_harness s)))"
    and "unat (rc_next_event_sequence (hs_ctx (en_harness s))) + 2 < 2 ^ 64"
    and "terminalize_harness_error env x s = (r, t)"
  shows "r = Inr (LErr_Finalization (HE_Context CE_DurableTransitionInvalid))
    \<and> rc_status (hs_ctx (en_harness t)) = Status_Finished (Outcome_Failed Fail_Internal)
    \<and> rc_durable_state (hs_ctx (en_harness t)) = rc_durable_state (hs_ctx (en_harness s))
    \<and> hs_store (en_harness t) = hs_store (en_harness s)"
  by (rule failure_not_recorded [OF assms(1-4), of x]) (use assms(5) in simp)

theorem loop_failure_unrecorded_witness:
  "\<exists>r t. terminalize_harness_error (plain_env True) HE_AuditDegraded
       \<lparr>en_harness = demo_started, en_work = 0 :: nat, en_state = recovered_ready 1\<rparr> = (r, t)
     \<and> rc_status (hs_ctx (en_harness t)) = Status_Finished (Outcome_Failed Fail_Internal)
     \<and> hs_store (en_harness t) = hs_store demo_started"
proof -
  let ?s = "\<lparr>en_harness = demo_started, en_work = 0 :: nat, en_state = recovered_ready 1\<rparr>"
  obtain r t where run: "terminalize_harness_error (plain_env True) HE_AuditDegraded ?s = (r, t)" by fastforce
  have "undisturbed (plain_env True) (en_harness ?s)" "ds_current_iteration (rc_durable_state (hs_ctx (en_harness ?s))) = None"
    "rc_next_event_sequence (hs_ctx (en_harness ?s)) = expected_sequence (rc_durable_state (hs_ctx (en_harness ?s)))"
    "unat (rc_next_event_sequence (hs_ctx (en_harness ?s))) + 2 < 2 ^ 64"
    using demo_started_facts by simp_all
  from loop_failure_unrecorded [OF this run] run show ?thesis by auto
qed

section \<open>The service: authorization, sessions and active runs\<close>





text \<open>
  C36. However the requests and tasks interleave, at every moment, also while requests are under way, at most \<open>MAX_ACTIVE_RUNS\<close> runs are
  active, at most one in each session, and each under the session of its key.
\<close>

theorem active_runs_bounded:
  assumes "AgentService_new ws tb st = Inr (registered, s)" "t = serve_jobs env jobs (take i schedule) s"
  shows "length (ss_active t) \<le> MAX_ACTIVE_RUNS \<and> distinct (map fst (ss_active t))
    \<and> list_all (\<lambda>(sid, a). key_session_id (ar_key a) = sid) (ss_active t)"
  using served_inv [OF assms(1), of env jobs "take i schedule"] assms(2) by (auto simp: service_inv_def slots_ok_def list_all_iff)

theorem active_runs_bounded_witness:
  "length (ss_active (serve_jobs (demo_service 3 None) (\<lambda>n. if even n then Job_Request (Rq_StartRun user 2 3 (lit ''w'') [65]) else Job_Task 0)
     (take 14 (concat (replicate 9 [0, 2, 1]))) served)) \<le> 32"
  using active_runs_bounded [OF served_new refl, of "demo_service 3 None"
      "\<lambda>n. if even n then Job_Request (Rq_StartRun user 2 3 (lit ''w'') [65]) else Job_Task 0" 14 "concat (replicate 9 [0, 2, 1])"]
  by (simp only: MAX_ACTIVE_RUNS_def)

text \<open>
  C37. A start that fails because the run found has no owner, or because the audit of the committed start fails, leaves the slot of its
  session behind: it is marked as starting without a handle, and no task works on it. From then on, with one request at a time, the
  run can be neither cancelled nor resumed, and the service cannot be drained.
\<close>

theorem failed_start_keeps_slot:
  assumes "run_alone (start_run_request env p sid req wid input) s = (Inl er, t)"
    "k = \<lparr>key_run_id = derive_run_id (sv_sha256 env) sid req, key_session_id = sid\<rparr>"
    "x = (sv_process env, Sv_Mutated p Do_StartWorkflow (Mut_StartRun k wid))" "x \<notin> set (ss_trace s)"
    "er = Svc_LegacyUnowned \<or> er = Svc_SecurityAudit \<and> x \<in> set (ss_trace t)"
  shows "(\<exists>a. find_active sid t = Some a \<and> ar_disposition a = View_Starting \<and> \<not> ar_cancellation a) \<and> ss_tasks t = ss_tasks s
    \<and> fst (run_alone (drain env' in_time) t) = Inl Svc_Conflict
    \<and> fst (run_alone (cancel_active_run env' q k) t) \<noteq> Inr () \<and> fst (run_alone (resume_run env' q k w) t) \<noteq> Inr ()"
proof -
  have x: "x = started env p k wid" using assms(3) by (simp add: started_def)
  have "late x k (ss_tasks s) er t"
    using triple_case [OF start_late [OF assms(2), where p = p and w = wid and T = "ss_tasks s"] _ assms(1)] assms(4) by (simp add: phase_def x)
  then have t: "stuck k t" "ss_tasks t = ss_tasks s" using assms(5) by (auto simp: late_def)
  have "fst (run_alone (cancel_active_run env' q k) t) \<noteq> Inr ()"
    using triple_result [OF never_cancelled [where env = env' and q = q] t(1)] by (simp split: sum.splits)
  moreover have "fst (run_alone (resume_run env' q k w) t) \<noteq> Inr ()"
    using triple_result [OF never_resumed [where env = env' and q = q and w = w] t(1)] by (simp split: sum.splits)
  ultimately show ?thesis using t never_drains [OF t(1)] assms(2) by (auto simp: stuck_def)
qed

theorem failed_start_keeps_slot_witness:
  "fst (run_alone (drain (demo_service 6 None) (\<lambda>_. True))
     (snd (run_alone (start_run_request (demo_service 6 None) user 2 3 (lit ''w'') [65]) served))) = Inl Svc_Conflict"
proof -
  let ?run = "run_alone (start_run_request (demo_service 6 None) user 2 3 (lit ''w'') [65]) served"
  have "?run = (Inl Svc_LegacyUnowned, snd ?run)" using unowned_start by (metis prod.collapse)
  from failed_start_keeps_slot [OF this _ refl, of served_key] show ?thesis by (simp add: served_key_def)
qed

text \<open>
  C38. The default-deny policy grants exactly the table: the action fits the resource, the principal has a role that the action needs,
  owns what is owned, the workflow is allowed, and a separated approver is not the requester.
\<close>

theorem authorization_exact:
  "authorize_request pol p a r = Decision_Granted \<longleftrightarrow> policy_table pol p a r"
  by (rule authorize_request_table)

text \<open>
  C39. Whatever sequence of operations the session tables go through, with any I/O failures, a session that can be loaded stays
  loadable: its owner stays, a title once set stays, and once archived it stays archived.
\<close>

theorem sessions_persist:
  assumes "session_codec_ok cd" "(session_step cd)\<^sup>*\<^sup>* no_sessions tb" "(session_step cd)\<^sup>*\<^sup>* tb tb'"
    "load_session_ownership cd None s tb = Inr (Some r)"
  shows "\<exists>r'. load_session_ownership cd None s tb' = Inr (Some r') \<and> so_session_id r' = s \<and> so_owner r' = so_owner r
    \<and> (so_title r = None \<or> so_title r' = so_title r) \<and> (so_archived r \<le> so_archived r')"
proof -
  have inv: "sessions_inv cd tb" by (rule session_history(1) [OF assms(1,2) no_sessions_inv])
  obtain r' where r': "load_session_ownership cd None s tb' = Inr (Some r')" "evolves r r'"
    using session_history(2) [OF assms(1,3) inv assms(4)] by blast
  have "so_session_id r = s" using assms(4) load_found [OF inv] read_session_id
    by (auto simp: find_session_def find_Some_iff)
  with r' show ?thesis by (cases "so_title r") (auto simp: evolves_def)
qed

theorem sessions_persist_witness:
  "\<exists>r'. load_session_ownership demo_session_codec None 2
       (snd (archive_session_ownership demo_session_codec None 2 (lit ''p'') demo_tables)) = Inr (Some r') \<and> so_owner r' = lit ''p''"
proof -
  have "(session_step demo_session_codec)\<^sup>*\<^sup>* demo_tables
      (snd (archive_session_ownership demo_session_codec None 2 (lit ''p'') demo_tables))"
    by (rule r_into_rtranclp, rule session_step.archived)
  from sessions_persist [OF demo_codec_kept demo_tables_made this demo_loads] show ?thesis
    by (auto simp: demo_session_def SessionOwnershipRecord_new_def)
qed

text \<open>
  C40. Following the cursors of the session listing, whatever the page size, gives every session of the owner that is not archived,
  exactly once and newest first, and no other; the listing ends within as many pages as there are sessions, and one more.
\<close>

theorem session_pages_complete:
  assumes "session_codec_ok cd" "(session_step cd)\<^sup>*\<^sup>* no_sessions tb" "0 < limit" "limit \<le> MAX_SESSION_PAGE_ITEMS"
  shows "read_pages (Suc (length (tb_sessions tb))) (fetch_sessions cd owner limit tb) None =
    Some (filter (\<lambda>r. so_owner r = owner \<and> \<not> so_archived r)
      (map (\<lambda>row. projr (read_session_row cd tb row)) (rev (tb_sessions tb))))"
proof -
  have "readable cd tb" by (rule inv_readable [OF session_history(1) [OF assms(1,2) no_sessions_inv]])
  then have "serves_pages (fetch_sessions cd owner limit tb) so_session_id (unat limit) (visible cd tb owner (rev (tb_sessions tb)))"
    using assms(3,4) by (intro sessions_paged) auto
  moreover have "length (visible cd tb owner (rev (tb_sessions tb))) \<le> length (tb_sessions tb)"
    unfolding visible_def using length_filter_le [of _ "map _ (rev (tb_sessions tb))"] by (metis length_map length_rev)
  ultimately show ?thesis
    using assms(3) unfolding visible_def by (intro read_pages_all) (auto simp: unat_gt_0 word_gt_0)
qed

theorem session_pages_complete_witness:
  "read_pages 2 (fetch_sessions demo_session_codec (lit ''p'') 1 demo_tables) None = Some [demo_session]"
proof -
  have len: "length (tb_sessions demo_tables) = 1" by (simp add: demo_tables_eval)
  have row: "map (\<lambda>row. projr (read_session_row demo_session_codec demo_tables row)) (rev (tb_sessions demo_tables)) = [demo_session]"
    by (simp add: demo_tables_eval read_session_row_def demo_session_codec_def load_session_metadata_def set_metadata_def check_def
        ok_or_def demo_session_def SessionOwnershipRecord_new_def)
  have "(1 :: u16) \<le> MAX_SESSION_PAGE_ITEMS" by (simp add: MAX_SESSION_PAGE_ITEMS_def word_le_nat_alt)
  then show ?thesis
    using session_pages_complete [OF demo_codec_kept demo_tables_made, of 1 "lit ''p''"] unfolding len row
    by (simp add: demo_session_def SessionOwnershipRecord_new_def numeral_2_eq_2 del: read_pages.simps)
qed

end
